(* ===== verification/Prelude.thy ===== *)
theory Prelude
  imports Complex_Main "HOL-Library.Multiset"
begin

text \<open>
  Shared vocabulary of the development: the error type of the Go code, the helpers of Go's
  standard library that several components use (\<open>strings.Join\<close>, \<open>strconv.Itoa\<close>,
  \<open>strconv.FormatBool\<close>), the monadic fold that models a loop whose body may panic, and the
  interleavings of goroutines that work on one shared object.

  An \<open>error\<close> of the Go code is its message. A function that returns \<open>(T, error)\<close> returns
  \<open>error + 'a\<close> here, \<open>Inl\<close> being the error. A panic, which ends the process, is \<open>None\<close>.
\<close>

named_theorems go_simps \<open>equations that evaluate the shared helpers\<close>
named_theorems label_simps \<open>facts on label lists and their map keys\<close>

type_synonym error = string

subsection \<open>Strings\<close>

text \<open>\<open>strings.Join\<close>.\<close>

fun join :: "string \<Rightarrow> string list \<Rightarrow> string" where
  "join sep [] = []"
| "join sep [x] = x"
| "join sep (x # y # ys) = x @ sep @ join sep (y # ys)"

lemma join_Cons: "xs \<noteq> [] \<Longrightarrow> join sep (x # xs) = x @ sep @ join sep xs"
  by (cases xs) simp_all

text \<open>A separator character that occurs in no element makes the join injective on lists of
  one length. This is what the key of \<open>counterDelta.last\<close> relies on.\<close>

lemma append_sep_eq:
  assumes "c \<notin> set x" and "c \<notin> set y" and "x @ c # xs = y @ c # ys"
  shows "x = y \<and> xs = ys"
  using assms by (induction x arbitrary: y) (auto simp: Cons_eq_append_conv append_eq_Cons_conv)

lemma join_inj:
  assumes "length xs = length ys"
    and "\<forall>x \<in> set xs. c \<notin> set x" and "\<forall>y \<in> set ys. c \<notin> set y"
    and "join [c] xs = join [c] ys"
  shows "xs = ys"
  using assms
proof (induction xs ys rule: list_induct2)
  case Nil
  then show ?case by simp
next
  case (Cons x xs y ys)
  show ?case
  proof (cases xs)
    case Nil
    with Cons show ?thesis by simp
  next
    case (Cons a list)
    with Cons.hyps have ne: "xs \<noteq> []" "ys \<noteq> []" by auto
    with Cons.prems have "x @ c # join [c] xs = y @ c # join [c] ys"
      by (simp add: join_Cons)
    then have "x = y" "join [c] xs = join [c] ys"
      using append_sep_eq Cons.prems(1,2) by (metis list.set_intros(1))+
    with Cons.IH Cons.prems show ?thesis by simp
  qed
qed

text \<open>\<open>strconv.FormatBool\<close> and the decimal rendering of \<open>strconv.Itoa\<close>,
  \<open>strconv.FormatInt(_, 10)\<close> and the verb \<open>%d\<close>.\<close>

definition FormatBool :: "bool \<Rightarrow> string" where
  "FormatBool b = (if b then ''true'' else ''false'')"

fun dec_digits :: "nat \<Rightarrow> string" where
  "dec_digits n = (if n < 10 then [char_of (48 + n)]
     else dec_digits (n div 10) @ [char_of (48 + n mod 10)])"

declare dec_digits.simps [simp del]

definition Itoa :: "int \<Rightarrow> string" where
  "Itoa i = (if i < 0 then CHR ''-'' # dec_digits (nat (- i)) else dec_digits (nat i))"

fun dec_value :: "string \<Rightarrow> nat \<Rightarrow> nat" where
  "dec_value [] acc = acc"
| "dec_value (c # cs) acc = dec_value cs (10 * acc + (of_char c - 48))"

lemma dec_value_append: "dec_value (xs @ ys) a = dec_value ys (dec_value xs a)"
  by (induction xs arbitrary: a) auto

lemma dec_value_digits: "dec_value (dec_digits n) 0 = n"
proof (induction n rule: dec_digits.induct)
  case (1 n)
  show ?case
  proof (cases "n < 10")
    case True
    then show ?thesis by (subst dec_digits.simps) (simp add: of_char_of)
  next
    case False
    then have "dec_value (dec_digits n) 0 = 10 * (n div 10) + n mod 10"
      using 1 by (subst dec_digits.simps) (simp add: dec_value_append of_char_of)
    then show ?thesis by simp
  qed
qed

lemma dec_digits_inj: "dec_digits m = dec_digits n \<longleftrightarrow> m = n"
  by (metis dec_value_digits)

lemma dec_digits_char: "c \<in> set (dec_digits n) \<Longrightarrow> 48 \<le> (of_char c :: nat) \<and> (of_char c :: nat) < 58"
proof (induction n rule: dec_digits.induct)
  case (1 n)
  then show ?case
    by (cases "n < 10") (auto simp: dec_digits.simps [of n] of_char_of)
qed

lemma dec_digits_nonempty: "dec_digits n \<noteq> []"
  by (subst dec_digits.simps) simp

lemma Itoa_of_nat_inj: "Itoa (int m) = Itoa (int n) \<longleftrightarrow> m = n"
  by (simp add: Itoa_def dec_digits_inj)

lemma Itoa_nonempty: "Itoa i \<noteq> []"
  by (simp add: Itoa_def dec_digits_nonempty)

subsection \<open>Loops whose body may panic\<close>

fun fold_opt :: "('a \<Rightarrow> 's \<Rightarrow> 's option) \<Rightarrow> 'a list \<Rightarrow> 's \<Rightarrow> 's option" where
  "fold_opt f [] s = Some s"
| "fold_opt f (x # xs) s = (case f x s of None \<Rightarrow> None | Some s' \<Rightarrow> fold_opt f xs s')"

lemma fold_opt_append:
  "fold_opt f (xs @ ys) s = (case fold_opt f xs s of None \<Rightarrow> None | Some s' \<Rightarrow> fold_opt f ys s')"
  by (induction xs arbitrary: s) (auto split: option.splits)

lemma fold_opt_invariant:
  assumes "\<And>x s s'. x \<in> set xs \<Longrightarrow> I s \<Longrightarrow> f x s = Some s' \<Longrightarrow> I s'"
    and "I s" and "fold_opt f xs s = Some s'"
  shows "I s'"
  using assms by (induction xs arbitrary: s) (auto split: option.splits)

lemma fold_opt_total:
  assumes "\<And>x s. x \<in> set xs \<Longrightarrow> I s \<Longrightarrow> \<exists>s'. f x s = Some s' \<and> I s'" and "I s"
  shows "\<exists>s'. fold_opt f xs s = Some s' \<and> I s'"
  using assms
proof (induction xs arbitrary: s)
  case Nil
  then show ?case by simp
next
  case (Cons x xs)
  from Cons.prems obtain s1 where "f x s = Some s1" "I s1" by force
  with Cons.IH [of s1] Cons.prems(1) show ?case by auto
qed

subsection \<open>Interleavings of goroutines\<close>

text \<open>
  Several goroutines each perform a list of atomic actions on one shared object. A schedule is
  the list of the goroutine indices in the order the scheduler picks them; an index that is out
  of range or whose goroutine has finished is skipped, and whatever the schedule leaves is run
  goroutine by goroutine. Every interleaving is reached by some schedule.
\<close>

fun interleave :: "nat list \<Rightarrow> 'a list list \<Rightarrow> 'a list" where
  "interleave [] xss = concat xss"
| "interleave (i # js) xss =
     (if i < length xss then
        (case xss ! i of [] \<Rightarrow> interleave js xss
         | x # xs \<Rightarrow> x # interleave js (xss[i := xs]))
      else interleave js xss)"

lemma concat_update_mset:
  "i < length xss \<Longrightarrow> xss ! i = x # xs \<Longrightarrow>
   mset (concat xss) = add_mset x (mset (concat (xss[i := xs])))"
  by (induction xss arbitrary: i) (auto split: nat.splits simp: nth_Cons)

lemma mset_interleave: "mset (interleave sched xss) = mset (concat xss)"
  by (induction sched xss rule: interleave.induct)
    (auto split: list.splits simp: concat_update_mset)

lemma set_interleave [simp]: "set (interleave sched xss) = set (concat xss)"
  by (metis mset_interleave set_mset_mset)

lemma filter_concat_update:
  assumes "i < length xss" and "xss ! i = x # xs"
    and "\<And>j y. j < length xss \<Longrightarrow> j \<noteq> i \<Longrightarrow> y \<in> set (xss ! j) \<Longrightarrow> \<not> P y"
  shows "filter P (concat xss) = (if P x then x # filter P xs else filter P xs)"
    and "filter P (concat (xss[i := xs])) = filter P xs"
  using assms
proof (induction xss arbitrary: i)
  case Nil
  { case 1 then show ?case by simp }
  { case 2 then show ?case by simp }
next
  case (Cons ys yss)
  have head: "filter P ys = []" if "i = Suc k"
    "\<And>j y. j < length (ys # yss) \<Longrightarrow> j \<noteq> i \<Longrightarrow> y \<in> set ((ys # yss) ! j) \<Longrightarrow> \<not> P y" for i k
    using that(2) [of 0] that(1) by (auto simp: filter_empty_conv)
  have rest: "filter P (concat yss) = []" if
    "\<And>j y. j < length (ys # yss) \<Longrightarrow> j \<noteq> 0 \<Longrightarrow> y \<in> set ((ys # yss) ! j) \<Longrightarrow> \<not> P y"
  proof -
    have "\<not> P y" if "zs \<in> set yss" "y \<in> set zs" for zs y
      using that \<open>\<And>j y. j < length (ys # yss) \<Longrightarrow> j \<noteq> 0 \<Longrightarrow> y \<in> set ((ys # yss) ! j) \<Longrightarrow> \<not> P y\<close>
      by (metis Suc_less_eq in_set_conv_nth length_Cons nat.distinct(2) nth_Cons_Suc)
    then show ?thesis by (auto simp: filter_empty_conv)
  qed
  { case 1
    show ?case
    proof (cases i)
      case 0
      with 1 rest show ?thesis by auto
    next
      case (Suc k)
      have "filter P (concat yss) = (if P x then x # filter P xs else filter P xs)"
        by (rule Cons.IH(1) [of k]) (use 1 Suc in force)+
      with head [OF Suc 1(3)] show ?thesis by simp
    qed }
  { case 2
    show ?case
    proof (cases i)
      case 0
      with 2 rest show ?thesis by auto
    next
      case (Suc k)
      have "filter P (concat (yss[k := xs])) = filter P xs"
        by (rule Cons.IH(2) [of k]) (use 2 Suc in force)+
      with Suc head [OF Suc 2(3)] show ?thesis by simp
    qed }
qed

text \<open>If only goroutine \<open>i\<close> performs actions that satisfy \<open>P\<close>, their order does not depend
  on the schedule.\<close>

lemma filter_interleave_owner:
  assumes "i < length xss"
    and "\<And>j y. j < length xss \<Longrightarrow> j \<noteq> i \<Longrightarrow> y \<in> set (xss ! j) \<Longrightarrow> \<not> P y"
  shows "filter P (interleave sched xss) = filter P (xss ! i)"
  using assms
proof (induction sched xss rule: interleave.induct)
  case (1 xss)
  show ?case
  proof (cases "xss ! i")
    case Nil
    with 1 have "\<not> P y" if "y \<in> set (concat xss)" for y
      using that by (metis (no_types, lifting) UN_iff empty_iff in_set_conv_nth list.set(1) set_concat)
    then have "filter P (concat xss) = []" by (auto simp: filter_empty_conv)
    with Nil show ?thesis by simp
  next
    case (Cons x xs)
    with filter_concat_update(1) [of i xss x xs P] 1 show ?thesis by auto
  qed
next
  case (2 k js xss)
  show ?case
  proof (cases "k < length xss \<and> xss ! k \<noteq> []")
    case True
    then obtain x xs where k: "k < length xss" "xss ! k = x # xs" by (cases "xss ! k") auto
    have "filter P (interleave js (xss[k := xs])) = filter P (xss[k := xs] ! i)"
    proof (rule 2(2) [OF k])
      show "i < length (xss[k := xs])" using 2 by simp
      show "\<not> P y" if "j < length (xss[k := xs])" "j \<noteq> i" "y \<in> set (xss[k := xs] ! j)" for j y
        using that 2(4,5) k by (metis length_list_update list.set_intros(2) nth_list_update_eq nth_list_update_neq)
    qed
    moreover have "\<not> P x" if "k \<noteq> i" using 2(5) [of k x] k that by simp
    ultimately show ?thesis using k 2(4) by (cases "k = i") auto
  next
    case False
    with 2 show ?thesis by (auto split: list.splits)
  qed
qed

end
