(* ===== verification/DbClient.thy ===== *)
theory DbClient
  imports Prelude
begin

text \<open>
  \<open>exporter/db/db.go\<close>, \<open>opts.go\<close> and \<open>auth.go\<close>: the client of one PostgreSQL server. The
  connection pool (\<open>pgxpool\<close>) and the server are outside the repository. What they answer is an
  argument: the outcome of each \<open>server_version_num\<close> query, of each attempt to build a pool, of
  parsing the DSN. A duration is its number of nanoseconds.
\<close>

subsection \<open>Options\<close>

record Opts =
  Host :: string
  Port :: int
  User :: string
  Password :: string
  Database :: string
  ApplicationName :: string
  ConnectTimeout :: int
  MaxConnectionRetries :: int
  DefaultIsolationLevel :: string
  StatementTimeout :: int
  LockTimeout :: int
  IdleInTransactionSessionTimeout :: int
  TotalTransactionTimeout :: int
  InitialTransactionRetryDelay :: int
  BaseTransactionRetryDelay :: int
  MaxTransactionAttempts :: int
  ReadOnly :: bool
  PoolMaxConns :: int
  PoolMinConns :: int
  PoolMaxConnLifetime :: int
  PoolMaxConnIdleTime :: int
  PoolHealthCheckPeriod :: int
  StatementCacheCapacity :: int
  StatementCacheMode :: string
  AuthProvider :: "(string \<Rightarrow> int \<Rightarrow> string \<Rightarrow> error + string) option"
    \<comment> \<open>\<open>Password(ctx, host, port, user)\<close>, \<open>None\<close> for a nil provider\<close>

text \<open>\<open>StaticAuthProvider\<close>.\<close>

definition StaticAuthProvider :: "string \<Rightarrow> (string \<Rightarrow> int \<Rightarrow> string \<Rightarrow> error + string)" where
  "StaticAuthProvider pwd host port user = Inr pwd"

datatype isoLevel = ReadCommitted | RepeatableRead | Serializable

text \<open>The text of a \<open>pgx.TxIsoLevel\<close>, which \<open>dsn.go\<close> converts with \<open>string(...)\<close>.\<close>

fun iso_string :: "isoLevel \<Rightarrow> string" where
  "iso_string ReadCommitted = ''read committed''"
| "iso_string RepeatableRead = ''repeatable read''"
| "iso_string Serializable = ''serializable''"

datatype accessMode = ReadWriteMode | ReadOnlyMode

record txOptions =
  IsoLevel :: isoLevel
  AccessMode :: accessMode

definition defaultIsolationLevel :: "string \<Rightarrow> isoLevel" where
  "defaultIsolationLevel l =
     (if l = ''READ_COMMITTED'' then ReadCommitted
      else if l = ''SERIALIZABLE'' then Serializable
      else RepeatableRead)"

subsection \<open>Client\<close>

text \<open>\<open>cl_pool\<close> is the handle of the pool, \<open>None\<close> for a nil pool.\<close>

record Client =
  cl_opts :: "Opts option"
  cl_pool :: "nat option"
  cl_txOptions :: txOptions
  ServerVersionNum :: int

definition setTxOptions :: "Opts \<Rightarrow> Client \<Rightarrow> Client" where
  "setTxOptions o1 c =
     (let iso = defaultIsolationLevel (DefaultIsolationLevel o1);
          c = c\<lparr>cl_txOptions := \<lparr>IsoLevel = iso, AccessMode = ReadWriteMode\<rparr>\<rparr>
      in if ReadOnly o1 then c\<lparr>cl_txOptions := (cl_txOptions c)\<lparr>AccessMode := ReadOnlyMode\<rparr>\<rparr> else c)"

text \<open>
  The version probe. The outcomes of successive version queries of one client are a list; a
  query past its end times out. A query is only made when the cached version is zero.
\<close>

type_synonym probes = "(error + int) list"
type_synonym cstate = "Client \<times> probes"

definition probeServerVersion :: "cstate \<Rightarrow> error option \<times> cstate" where
  "probeServerVersion s = (case s of (c, ps) \<Rightarrow>
     if ServerVersionNum c \<noteq> 0 then (None, (c, ps))
     else (case ps of
         [] \<Rightarrow> (Some ''context deadline exceeded'', (c, []))
       | Inl e # ps' \<Rightarrow> (Some e, (c, ps'))
       | Inr v # ps' \<Rightarrow> (None, (c\<lparr>ServerVersionNum := v\<rparr>, ps'))))"

definition AtLeast :: "int \<Rightarrow> int \<Rightarrow> cstate \<Rightarrow> bool \<times> cstate" where
  "AtLeast major minor s =
     (let s' = (if ServerVersionNum (fst s) = 0 \<and> cl_pool (fst s) \<noteq> None
                then snd (probeServerVersion s) else s)
      in if ServerVersionNum (fst s') = 0 then (False, s')
         else (major * 10000 + minor \<le> ServerVersionNum (fst s'), s'))"

text \<open>\<open>Client.Select\<close>: \<open>pool.Query\<close>, then scany's \<open>ScanAll\<close> on the rows.\<close>

definition Client_Select :: "(string \<Rightarrow> error + 'rows) \<Rightarrow> ('rows \<Rightarrow> error + 'row list) \<Rightarrow>
    string \<Rightarrow> error + 'row list" where
  "Client_Select pool_query scan_all sql =
     (case pool_query sql of Inl e \<Rightarrow> Inl e | Inr rows \<Rightarrow> scan_all rows)"

definition Client_Query :: "(string \<Rightarrow> error + 'rows) \<Rightarrow> string \<Rightarrow> error + 'rows" where
  "Client_Query pool_query sql = pool_query sql"

text \<open>\<open>ping\<close> is the answer of a pool; a nil client or pool panics.\<close>

definition CheckConnection :: "(nat \<Rightarrow> error option) \<Rightarrow> Client option \<Rightarrow> error option option" where
  "CheckConnection ping c = map_option ping (Option.bind c cl_pool)"

subsection \<open>New\<close>

datatype execMode = ExecModeDefault | QueryExecModeCacheStatement | QueryExecModeCacheDescribe

record connConfig =
  cc_Host :: string
  cc_Port :: int
  cc_User :: string
  cc_Password :: string

record poolConfig =
  DefaultQueryExecMode :: execMode
  BeforeConnect :: "(connConfig \<Rightarrow> error + connConfig) option"

definition beforeConnect :: "(string \<Rightarrow> int \<Rightarrow> string \<Rightarrow> error + string) \<Rightarrow>
    connConfig \<Rightarrow> error + connConfig" where
  "beforeConnect provider cc =
     (case provider (cc_Host cc) (cc_Port cc) (cc_User cc) of
        Inl e \<Rightarrow> Inl (''auth provider: '' @ e)
      | Inr pwd \<Rightarrow> Inr (cc\<lparr>cc_Password := pwd\<rparr>))"

definition configure :: "Opts \<Rightarrow> poolConfig \<Rightarrow> poolConfig" where
  "configure o1 cfg =
     (let cfg = (if StatementCacheMode o1 = ''prepare'' then cfg\<lparr>DefaultQueryExecMode := QueryExecModeCacheStatement\<rparr>
                 else if StatementCacheMode o1 = ''describe'' then cfg\<lparr>DefaultQueryExecMode := QueryExecModeCacheDescribe\<rparr>
                 else cfg)
      in case AuthProvider o1 of
           None \<Rightarrow> cfg
         | Some provider \<Rightarrow> cfg\<lparr>BeforeConnect := Some (beforeConnect provider)\<rparr>)"

text \<open>
  The outside of one call of \<open>New\<close>: for the \<open>i\<close>-th attempt, whether \<open>pgxpool.NewWithConfig\<close>
  succeeds (with the handle of the pool) and what \<open>ctx.Err()\<close> says then. Errors are compared
  by their message.
\<close>

record dial_env =
  new_pool :: "nat \<Rightarrow> error + nat"
  ctx_err :: "nat \<Rightarrow> error option"

record new_result =
  nr_client :: "Client option"
  nr_err :: "error option"
  nr_attempts :: nat
  nr_sleeps :: nat

definition connected :: "Opts \<Rightarrow> nat \<Rightarrow> probes \<Rightarrow> Client" where
  "connected o1 pool ps =
     (let c = setTxOptions o1 \<lparr>cl_opts = Some o1, cl_pool = Some pool,
                cl_txOptions = \<lparr>IsoLevel = ReadCommitted, AccessMode = ReadWriteMode\<rparr>,
                ServerVersionNum = 0\<rparr>
      in fst (snd (probeServerVersion (c, ps))))"

text \<open>The retry loop; it need not end, so its result is optional.\<close>

partial_function (option) dial :: "dial_env \<Rightarrow> Opts \<Rightarrow> probes \<Rightarrow> nat \<Rightarrow> error option \<Rightarrow> nat \<Rightarrow>
    new_result option" where
  "dial env o1 ps i err sleeps =
     (if int i \<le> MaxConnectionRetries o1 \<or> MaxConnectionRetries o1 = -1 then
        (case new_pool env i of
           Inr pool \<Rightarrow> Some \<lparr>nr_client = Some (connected o1 pool ps), nr_err = None,
                             nr_attempts = Suc i, nr_sleeps = sleeps\<rparr>
         | Inl e \<Rightarrow>
             if ctx_err env i = Some e then
               Some \<lparr>nr_client = None, nr_err = Some e, nr_attempts = Suc i, nr_sleeps = sleeps\<rparr>
             else
               dial env o1 ps (Suc i) (Some e)
                 (if int i < MaxConnectionRetries o1 \<and> MaxConnectionRetries o1 \<noteq> 0
                  then Suc sleeps else sleeps))
      else Some \<lparr>nr_client = None, nr_err = err, nr_attempts = i, nr_sleeps = sleeps\<rparr>)"

definition db_New :: "(string \<Rightarrow> error + poolConfig) \<Rightarrow> (Opts \<Rightarrow> string) \<Rightarrow> (poolConfig \<Rightarrow> dial_env) \<Rightarrow>
    probes \<Rightarrow> Opts \<Rightarrow> new_result option" where
  "db_New parse_config dsn dial_to ps o1 =
     (case parse_config (dsn o1) of
        Inl e \<Rightarrow> Some \<lparr>nr_client = None, nr_err = Some e, nr_attempts = 0, nr_sleeps = 0\<rparr>
      | Inr cfg \<Rightarrow> dial (dial_to (configure o1 cfg)) o1 ps 0 None 0)"

subsection \<open>The version gate\<close>

lemma probe_keeps_version:
  "ServerVersionNum (fst s) \<noteq> 0 \<Longrightarrow> probeServerVersion s = (None, s)"
  by (cases s) (simp add: probeServerVersion_def)

lemma AtLeast_known:
  "ServerVersionNum c \<noteq> 0 \<Longrightarrow>
   AtLeast major minor (c, ps) = (major * 10000 + minor \<le> ServerVersionNum c, (c, ps))"
  by (simp add: AtLeast_def)

lemma AtLeast_nil_pool:
  "cl_pool c = None \<Longrightarrow> ServerVersionNum c = 0 \<Longrightarrow> AtLeast major minor (c, ps) = (False, (c, ps))"
  by (simp add: AtLeast_def)

lemma AtLeast_probes:
  assumes "cl_pool c = Some p" and "ServerVersionNum c = 0"
  shows "AtLeast major minor (c, Inr v # ps) =
      (v \<noteq> 0 \<and> major * 10000 + minor \<le> v, (c\<lparr>ServerVersionNum := v\<rparr>, ps))"
    and "AtLeast major minor (c, Inl e # ps) = (False, (c, ps))"
    and "AtLeast major minor (c, []) = (False, (c, []))"
  using assms by (auto simp: AtLeast_def probeServerVersion_def Let_def)

text \<open>Versions that a PostgreSQL server reports are ordered as pairs of major and minor.\<close>

lemma version_order:
  fixes m n a b :: int
  assumes "0 \<le> n" "n < 10000" "0 \<le> b" "b < 10000"
  shows "a * 10000 + b \<le> m * 10000 + n \<longleftrightarrow> a < m \<or> (a = m \<and> b \<le> n)"
proof -
  consider "a < m" | "a = m" | "m < a" by linarith
  then show ?thesis
    using assms by cases (auto intro: order_trans)
qed

text \<open>A sequence of gate questions put to one client, in order.\<close>

fun gate_calls :: "(int \<times> int) list \<Rightarrow> cstate \<Rightarrow> bool list \<times> cstate" where
  "gate_calls [] s = ([], s)"
| "gate_calls ((major, minor) # cs) s =
     (case AtLeast major minor s of (b, s') \<Rightarrow>
      case gate_calls cs s' of (bs, s'') \<Rightarrow> (b # bs, s''))"

lemma gate_calls_known:
  "ServerVersionNum c \<noteq> 0 \<Longrightarrow>
   gate_calls cs (c, ps) = (map (\<lambda>(a, b). a * 10000 + b \<le> ServerVersionNum c) cs, (c, ps))"
  by (induction cs) (auto simp: AtLeast_known)

lemma gate_calls_append:
  "gate_calls (xs @ ys) s =
     (case gate_calls xs s of (as, s') \<Rightarrow> case gate_calls ys s' of (bs, s'') \<Rightarrow> (as @ bs, s''))"
  by (induction xs s rule: gate_calls.induct) (auto split: prod.splits)

lemma gate_calls_failing:
  assumes "cl_pool c = Some p" and "ServerVersionNum c = 0"
  shows "length cs = length es \<Longrightarrow>
    gate_calls cs (c, map Inl es @ ps) = (replicate (length es) False, (c, ps))"
proof (induction es arbitrary: cs)
  case Nil
  then show ?case by simp
next
  case (Cons e es)
  then obtain a b cs' where cs: "cs = (a, b) # cs'" "length cs' = length es"
    by (cases cs) auto
  then show ?case using Cons.IH [of cs'] AtLeast_probes(2) [OF assms] by simp
qed

text \<open>A client whose version cannot be learned: none is cached and no probe will succeed.\<close>

definition version_unknown :: "cstate \<Rightarrow> bool" where
  "version_unknown s \<longleftrightarrow> ServerVersionNum (fst s) = 0 \<and>
     (cl_pool (fst s) = None \<or> list_all isl (snd s))"

lemma AtLeast_unknown:
  assumes "version_unknown s"
  shows "\<not> fst (AtLeast major minor s)" and "version_unknown (snd (AtLeast major minor s))"
proof -
  have *: "\<not> fst (AtLeast major minor s) \<and> version_unknown (snd (AtLeast major minor s))"
    using assms
    by (cases s) (auto simp: version_unknown_def AtLeast_def probeServerVersion_def Let_def
        split: list.splits sum.splits)
  show "\<not> fst (AtLeast major minor s)" and "version_unknown (snd (AtLeast major minor s))"
    using * by blast+
qed

subsection \<open>The retry loop\<close>

text \<open>A bounded loop returns: the attempts left are a measure.\<close>

lemma dial_returns:
  assumes "MaxConnectionRetries o1 \<noteq> -1"
  shows "\<exists>r. dial env o1 ps i err sl = Some r \<and>
    nr_attempts r \<le> max i (nat (MaxConnectionRetries o1 + 1)) \<and>
    (nr_client r \<noteq> None \<longrightarrow> nr_err r = None)"
proof (induction "nat (MaxConnectionRetries o1 + 1 - int i)" arbitrary: i err sl rule: less_induct)
  case less
  show ?case
  proof (cases "int i \<le> MaxConnectionRetries o1")
    case False
    with assms show ?thesis by (subst dial.simps) simp
  next
    case in_range: True
    show ?thesis
    proof (cases "new_pool env i")
      case (Inr pool)
      with in_range show ?thesis by (subst dial.simps) simp
    next
      case (Inl e)
      show ?thesis
      proof (cases "ctx_err env i = Some e")
        case True
        with Inl in_range show ?thesis by (subst dial.simps) simp
      next
        case False
        have "nat (MaxConnectionRetries o1 + 1 - int (Suc i)) < nat (MaxConnectionRetries o1 + 1 - int i)"
          using in_range by simp
        from less [OF this] in_range Inl False show ?thesis
          by (subst dial.simps) (fastforce simp: max_def split: if_splits)
      qed
    qed
  qed
qed

text \<open>With the value \<open>-1\<close> the condition of the sleep is never true, and the loop only ends with
  a pool or with the error of the context.\<close>

definition attempt_ends :: "dial_env \<Rightarrow> nat \<Rightarrow> bool" where
  "attempt_ends env i \<longleftrightarrow> (case new_pool env i of Inr _ \<Rightarrow> True | Inl e \<Rightarrow> ctx_err env i = Some e)"

lemma dial_unbounded:
  assumes "dial env o1 ps i err sl = Some r"
  shows "MaxConnectionRetries o1 = -1 \<longrightarrow> nr_sleeps r = sl \<and> (\<exists>j \<ge> i. attempt_ends env j)"
proof (rule dial.raw_induct [OF _ assms])
  fix f :: "dial_env \<Rightarrow> Opts \<Rightarrow> probes \<Rightarrow> nat \<Rightarrow> error option \<Rightarrow> nat \<Rightarrow> new_result option"
  fix env o1 ps i err sl r
  assume IH: "\<And>env o1 ps i err sl r. f env o1 ps i err sl = Some r \<Longrightarrow>
      MaxConnectionRetries o1 = -1 \<longrightarrow> nr_sleeps r = sl \<and> (\<exists>j \<ge> i. attempt_ends env j)"
    and body: "(if int i \<le> MaxConnectionRetries o1 \<or> MaxConnectionRetries o1 = -1 then
        (case new_pool env i of
           Inl e \<Rightarrow>
             if ctx_err env i = Some e then
               Some \<lparr>nr_client = None, nr_err = Some e, nr_attempts = Suc i, nr_sleeps = sl\<rparr>
             else f env o1 ps (Suc i) (Some e)
                 (if int i < MaxConnectionRetries o1 \<and> MaxConnectionRetries o1 \<noteq> 0 then Suc sl else sl)
         | Inr pool \<Rightarrow> Some \<lparr>nr_client = Some (connected o1 pool ps), nr_err = None,
                             nr_attempts = Suc i, nr_sleeps = sl\<rparr>)
      else Some \<lparr>nr_client = None, nr_err = err, nr_attempts = i, nr_sleeps = sl\<rparr>) = Some r"
  show "MaxConnectionRetries o1 = -1 \<longrightarrow> nr_sleeps r = sl \<and> (\<exists>j \<ge> i. attempt_ends env j)"
  proof
    assume unbounded: "MaxConnectionRetries o1 = -1"
    show "nr_sleeps r = sl \<and> (\<exists>j \<ge> i. attempt_ends env j)"
    proof (cases "attempt_ends env i")
      case True
      with body unbounded have "nr_sleeps r = sl"
        by (auto simp: attempt_ends_def split: sum.splits)
      with True show ?thesis by blast
    next
      case False
      with body unbounded obtain e where "f env o1 ps (Suc i) (Some e) sl = Some r"
        by (auto simp: attempt_ends_def split: sum.splits if_splits)
      from IH [OF this] unbounded show ?thesis by (metis Suc_leD)
    qed
  qed
qed

subsection \<open>Properties\<close>

text \<open>
  The version gate heals itself: while the probes of a client fail every gate answers no, the
  first successful probe is cached, and from then on every gate compares with the cached version
  and no further query is sent.
\<close>

theorem version_gate_heals:
  assumes "cl_pool c = Some p" and "ServerVersionNum c = 0" and "v \<noteq> 0" and "length failing = length es"
  shows "gate_calls (failing @ cs) (c, map Inl es @ Inr v # ps) =
    (replicate (length es) False @ map (\<lambda>(major, minor). major * 10000 + minor \<le> v) cs,
     case cs of [] \<Rightarrow> (c, Inr v # ps) | _ \<Rightarrow> (c\<lparr>ServerVersionNum := v\<rparr>, ps))"
proof (cases cs)
  case Nil
  then show ?thesis using gate_calls_failing [OF assms(1,2,4), of "Inr v # ps"] by simp
next
  case (Cons q qs)
  obtain a b where q: "q = (a, b)" by (cases q)
  have "gate_calls cs (c, Inr v # ps) =
      (map (\<lambda>(major, minor). major * 10000 + minor \<le> v) cs, (c\<lparr>ServerVersionNum := v\<rparr>, ps))"
    using AtLeast_probes(1) [OF assms(1,2), of a b v ps] assms(3)
      gate_calls_known [of "c\<lparr>ServerVersionNum := v\<rparr>" qs ps]
    by (simp add: Cons q)
  then show ?thesis
    using gate_calls_failing [OF assms(1,2,4), of "Inr v # ps"] Cons
    by (simp add: gate_calls_append)
qed

definition demo_client :: Client where
  "demo_client = \<lparr>cl_opts = None, cl_pool = Some 1,
     cl_txOptions = \<lparr>IsoLevel = RepeatableRead, AccessMode = ReadOnlyMode\<rparr>, ServerVersionNum = 0\<rparr>"

theorem version_gate_heals_witness:
  "gate_calls ([(13, 0)] @ [(13, 0), (17, 0), (16, 4)]) (demo_client, map Inl [''timeout''] @ Inr 160004 # []) =
    (replicate (length [''timeout'']) False @
       map (\<lambda>(major, minor). major * 10000 + minor \<le> (160004 :: int)) [(13, 0), (17, 0), (16, 4)],
     case [(13, 0), (17, 0), (16, 4)] :: (int \<times> int) list of [] \<Rightarrow> (demo_client, Inr 160004 # [])
       | _ \<Rightarrow> (demo_client\<lparr>ServerVersionNum := 160004\<rparr>, []))"
  by (rule version_gate_heals) (simp_all add: demo_client_def)

text \<open>
  \<open>New\<close> with a number of retries other than \<open>-1\<close> returns, after at most one attempt more
  than the retries allowed, and never returns a client together with an error.
\<close>

theorem db_New_returns:
  assumes "MaxConnectionRetries o1 \<noteq> -1"
  shows "\<exists>r. db_New parse_config dsn dial_to ps o1 = Some r \<and>
    nr_attempts r \<le> nat (MaxConnectionRetries o1 + 1) \<and>
    (nr_client r = None \<or> nr_err r = None)"
proof (cases "parse_config (dsn o1)")
  case (Inl e)
  then show ?thesis by (simp add: db_New_def)
next
  case (Inr cfg)
  then show ?thesis using dial_returns [OF assms, of "dial_to (configure o1 cfg)" ps 0 None 0]
    by (auto simp: db_New_def)
qed

definition demo_Opts :: "int \<Rightarrow> Opts" where
  "demo_Opts retries = \<lparr>Host = ''localhost'', Port = 5432, User = ''u'', Password = ''p'',
     Database = ''d'', ApplicationName = ''pgxporter'', ConnectTimeout = 0,
     MaxConnectionRetries = retries, DefaultIsolationLevel = '''', StatementTimeout = 0,
     LockTimeout = 0, IdleInTransactionSessionTimeout = 0, TotalTransactionTimeout = 0,
     InitialTransactionRetryDelay = 0, BaseTransactionRetryDelay = 0, MaxTransactionAttempts = 0,
     ReadOnly = True, PoolMaxConns = 4, PoolMinConns = 0, PoolMaxConnLifetime = 0,
     PoolMaxConnIdleTime = 0, PoolHealthCheckPeriod = 0, StatementCacheCapacity = 0,
     StatementCacheMode = '''', AuthProvider = None\<rparr>"

definition demo_config :: poolConfig where
  "demo_config = \<lparr>DefaultQueryExecMode = ExecModeDefault, BeforeConnect = None\<rparr>"

definition refused :: "dial_env" where
  "refused = \<lparr>new_pool = (\<lambda>_. Inl ''refused''), ctx_err = (\<lambda>_. None)\<rparr>"

theorem db_New_returns_witness:
  "\<exists>r. db_New (\<lambda>_. Inr demo_config) (\<lambda>_. []) (\<lambda>_. refused) [] (demo_Opts 3) = Some r \<and>
    nr_attempts r \<le> nat (MaxConnectionRetries (demo_Opts 3) + 1) \<and>
    (nr_client r = None \<or> nr_err r = None)"
  by (rule db_New_returns) (simp add: demo_Opts_def)

text \<open>
  C32. With \<open>MaxConnectionRetries = -1\<close> the loop never sleeps, and it never returns when no
  attempt yields a pool or the error of the context: it retries without a pause. With \<open>-2\<close> or
  less \<open>New\<close> returns neither a client nor an error.
\<close>

theorem db_New_unbounded_and_empty:
  "(MaxConnectionRetries o1 = -1 \<and> db_New (\<lambda>_. Inr cfg) dsn dial_to ps o1 = Some r \<longrightarrow>
      nr_sleeps r = 0) \<and>
   (MaxConnectionRetries o1 = -1 \<and> (\<forall>i. \<not> attempt_ends (dial_to (configure o1 cfg)) i) \<longrightarrow>
      db_New (\<lambda>_. Inr cfg) dsn dial_to ps o1 = None) \<and>
   (MaxConnectionRetries o1 \<le> -2 \<longrightarrow>
      db_New (\<lambda>_. Inr cfg) dsn dial_to ps o1 =
        Some \<lparr>nr_client = None, nr_err = None, nr_attempts = 0, nr_sleeps = 0\<rparr>)"
proof (intro conjI impI)
  assume "MaxConnectionRetries o1 = -1 \<and> db_New (\<lambda>_. Inr cfg) dsn dial_to ps o1 = Some r"
  then show "nr_sleeps r = 0" using dial_unbounded by (fastforce simp: db_New_def)
next
  assume *: "MaxConnectionRetries o1 = -1 \<and> (\<forall>i. \<not> attempt_ends (dial_to (configure o1 cfg)) i)"
  show "db_New (\<lambda>_. Inr cfg) dsn dial_to ps o1 = None"
  proof (cases "dial (dial_to (configure o1 cfg)) o1 ps 0 None 0")
    case None
    then show ?thesis by (simp add: db_New_def)
  next
    case (Some r')
    from dial_unbounded [OF this] * show ?thesis by blast
  qed
next
  assume "MaxConnectionRetries o1 \<le> -2"
  then show "db_New (\<lambda>_. Inr cfg) dsn dial_to ps o1 =
      Some \<lparr>nr_client = None, nr_err = None, nr_attempts = 0, nr_sleeps = 0\<rparr>"
    by (simp add: db_New_def dial.simps)
qed

theorem db_New_unbounded_and_empty_witness:
  "db_New (\<lambda>_. Inr demo_config) (\<lambda>_. []) (\<lambda>_. refused) [] (demo_Opts (-1)) = None \<and>
   db_New (\<lambda>_. Inr demo_config) (\<lambda>_. []) (\<lambda>_. refused) [] (demo_Opts (-2)) =
     Some \<lparr>nr_client = None, nr_err = None, nr_attempts = 0, nr_sleeps = 0\<rparr>"
proof -
  note both = db_New_unbounded_and_empty [where cfg = demo_config and dsn = "\<lambda>_. []" and
      dial_to = "\<lambda>_. refused" and ps = "[]" and r = undefined]
  show ?thesis
    using both [of "demo_Opts (-1)"] both [of "demo_Opts (-2)"]
    by (simp add: demo_Opts_def refused_def attempt_ends_def)
qed

end
