(* ===== verification/AwsRds.thy ===== *)
theory AwsRds
  imports DbClient
begin

text \<open>
  \<open>exporter/db/auth/awsrds/awsrds.go\<close>: an \<open>AuthProvider\<close> that signs a fresh token for every
  connection. The AWS SDK is an argument: loading the default configuration, and building a token
  from an endpoint, a region, a user and credentials.
\<close>

subsection \<open>The provider\<close>

record 'creds Provider =
  Region :: string
  Credentials :: "'creds option"

text \<open>\<open>load\<close> answers with the credentials of the configuration, which may be nil.\<close>

definition NewDefault :: "(string \<Rightarrow> error + 'creds option) \<Rightarrow> string \<Rightarrow> error + 'creds Provider" where
  "NewDefault load region =
     (case load region of
        Inl e \<Rightarrow> Inl (''loading AWS default config: '' @ e)
      | Inr creds \<Rightarrow> Inr \<lparr>Region = region, Credentials = creds\<rparr>)"

definition rds_Password :: "(string \<Rightarrow> string \<Rightarrow> string \<Rightarrow> 'creds \<Rightarrow> error + string) \<Rightarrow> 'creds Provider \<Rightarrow>
    string \<Rightarrow> int \<Rightarrow> string \<Rightarrow> error + string" where
  "rds_Password build_token p host port user =
     (if Region p = [] then Inl ''awsrds: Region is required''
      else case Credentials p of
          None \<Rightarrow> Inl ''awsrds: Credentials is required''
        | Some creds \<Rightarrow> build_token (host @ '':'' @ Itoa port) (Region p) user creds)"

subsection \<open>Lemmas\<close>

lemma configure_provider:
  "AuthProvider o1 = Some provider \<Longrightarrow> BeforeConnect (configure o1 cfg) = Some (beforeConnect provider)"
  by (simp add: configure_def Let_def)

lemma NewDefault_Inr: "NewDefault load region = Inr p \<longleftrightarrow> load region = Inr (Credentials p) \<and> Region p = region"
  by (cases p) (auto simp: NewDefault_def split: sum.splits)

subsection \<open>Properties\<close>

text \<open>
  With a provider of \<open>NewDefault\<close> the pool gets the password of every new connection from the
  token signed for exactly its host, port and user; nothing else of the connection changes, the
  static password plays no part, and an empty region, missing credentials or a failing signature
  make the attempt fail with an error that says so.
\<close>

theorem rds_connections_use_tokens:
  assumes "NewDefault load region = Inr p" and "AuthProvider o1 = Some (rds_Password build_token p)"
  shows "\<exists>hook. BeforeConnect (configure o1 cfg) = Some hook \<and>
    (\<forall>cc. hook cc =
       (if region = [] then Inl ''auth provider: awsrds: Region is required''
        else case load region of
            Inr (Some creds) \<Rightarrow>
              (case build_token (cc_Host cc @ '':'' @ Itoa (cc_Port cc)) region (cc_User cc) creds of
                 Inr token \<Rightarrow> Inr (cc\<lparr>cc_Password := token\<rparr>)
               | Inl e \<Rightarrow> Inl (''auth provider: '' @ e))
          | _ \<Rightarrow> Inl ''auth provider: awsrds: Credentials is required''))"
  using assms(1) unfolding configure_provider [OF assms(2)] NewDefault_Inr
  by (auto simp: beforeConnect_def rds_Password_def split: option.splits sum.splits)

theorem rds_connections_use_tokens_witness:
  "(case BeforeConnect (configure (demo_Opts 0\<lparr>AuthProvider :=
        Some (rds_Password (\<lambda>endpoint region user creds. Inr (endpoint @ creds)) \<lparr>Region = ''eu'', Credentials = Some ''!''\<rparr>)\<rparr>) demo_config) of
      Some hook \<Rightarrow> hook \<lparr>cc_Host = ''db'', cc_Port = 5432, cc_User = ''u'', cc_Password = ''old''\<rparr>
    | None \<Rightarrow> Inl []) =
   Inr \<lparr>cc_Host = ''db'', cc_Port = 5432, cc_User = ''u'', cc_Password = ''db:'' @ Itoa 5432 @ ''!''\<rparr>"
proof -
  let ?p = "\<lparr>Region = ''eu'', Credentials = Some ''!''\<rparr>"
  let ?bt = "\<lambda>endpoint region user creds. Inr (endpoint @ creds) :: error + string"
  have "NewDefault (\<lambda>_. Inr (Some ''!'')) ''eu'' = Inr ?p" by (simp add: NewDefault_def)
  from rds_connections_use_tokens [OF this, of "demo_Opts 0\<lparr>AuthProvider := Some (rds_Password ?bt ?p)\<rparr>" ?bt demo_config]
  show ?thesis by (auto simp: demo_Opts_def)
qed

end
