(* ===== verification/Float64.thy ===== *)
theory Float64
  imports Prelude "HOL-Library.Log_Nat" "HOL-Library.Word"
begin

text \<open>
  Go's \<open>float64\<close>: IEEE 754 binary64 with rounding to nearest, ties to even. A finite value is
  the rational it denotes; the two zeros are one value, which no operation of the program tells
  apart. The conversions and operations below are those the exporter performs: \<open>float64(n)\<close> of
  an integer, subtraction and comparison (\<open>counterDelta.Observe\<close>), addition, multiplication
  (\<open>MetricSpec.Scale\<close>) and division (milliseconds to seconds).
\<close>

datatype f64 = Fin rat | PosInf | NegInf | NaN

subsection \<open>Rounding\<close>

definition round_half_even :: "rat \<Rightarrow> int" where
  "round_half_even q = (let f = \<lfloor>q\<rfloor>; r = q - of_int f in
     if r < 1/2 then f else if 1/2 < r then f + 1 else if even f then f else f + 1)"

lemma round_half_even_of_int [simp]: "round_half_even (of_int n) = n"
  by (simp add: round_half_even_def)

definition pow2 :: "int \<Rightarrow> rat" where
  "pow2 e = (if 0 \<le> e then 2 ^ nat e else 1 / 2 ^ nat (- e))"

text \<open>The binary exponent of a positive rational, by the bit lengths of its fraction.\<close>

definition floor_log2 :: "rat \<Rightarrow> int" where
  "floor_log2 q = (let (n, d) = quotient_of q; k = bitlen n - bitlen d
     in if pow2 k \<le> q then k else k - 1)"

text \<open>The exponent of the last of the 53 significant bits; \<open>-1074\<close> is that of the subnormals.\<close>

definition ulp_exp :: "rat \<Rightarrow> int" where
  "ulp_exp q = max (floor_log2 \<bar>q\<bar> - 52) (- 1074)"

definition round64 :: "rat \<Rightarrow> rat" where
  "round64 q = (if q = 0 then 0
     else of_int (round_half_even (q / pow2 (ulp_exp q))) * pow2 (ulp_exp q))"

definition mk_f64 :: "rat \<Rightarrow> f64" where
  "mk_f64 q = (let r = round64 q in
     if pow2 1024 \<le> r then PosInf else if r \<le> - pow2 1024 then NegInf else Fin r)"

subsection \<open>Operations\<close>

definition f64_of_int :: "int \<Rightarrow> f64" where
  "f64_of_int i = mk_f64 (of_int i)"

fun f64_neg :: "f64 \<Rightarrow> f64" where
  "f64_neg (Fin a) = Fin (- a)"
| "f64_neg PosInf = NegInf"
| "f64_neg NegInf = PosInf"
| "f64_neg NaN = NaN"

fun f64_add :: "f64 \<Rightarrow> f64 \<Rightarrow> f64" where
  "f64_add (Fin a) (Fin b) = mk_f64 (a + b)"
| "f64_add NaN _ = NaN"
| "f64_add _ NaN = NaN"
| "f64_add PosInf NegInf = NaN"
| "f64_add NegInf PosInf = NaN"
| "f64_add PosInf _ = PosInf"
| "f64_add _ PosInf = PosInf"
| "f64_add NegInf _ = NegInf"
| "f64_add _ NegInf = NegInf"

definition f64_sub :: "f64 \<Rightarrow> f64 \<Rightarrow> f64" where
  "f64_sub a b = f64_add a (f64_neg b)"

fun f64_sgn :: "f64 \<Rightarrow> int" where
  "f64_sgn (Fin a) = (if 0 < a then 1 else if a < 0 then -1 else 0)"
| "f64_sgn PosInf = 1"
| "f64_sgn NegInf = -1"
| "f64_sgn NaN = 0"

fun f64_mul :: "f64 \<Rightarrow> f64 \<Rightarrow> f64" where
  "f64_mul (Fin a) (Fin b) = mk_f64 (a * b)"
| "f64_mul NaN _ = NaN"
| "f64_mul _ NaN = NaN"
| "f64_mul a b = (let s = f64_sgn a * f64_sgn b in
     if s = 0 then NaN else if 0 < s then PosInf else NegInf)"

text \<open>Division by a non-zero finite constant, the only division of the program.\<close>

fun f64_div_const :: "f64 \<Rightarrow> rat \<Rightarrow> f64" where
  "f64_div_const (Fin a) d = mk_f64 (a / d)"
| "f64_div_const PosInf d = (if 0 < d then PosInf else NegInf)"
| "f64_div_const NegInf d = (if 0 < d then NegInf else PosInf)"
| "f64_div_const NaN d = NaN"

text \<open>\<open><\<close> is false as soon as one side is NaN; \<open>!=\<close> against zero is true of NaN.\<close>

fun f64_less :: "f64 \<Rightarrow> f64 \<Rightarrow> bool" where
  "f64_less (Fin a) (Fin b) = (a < b)"
| "f64_less NaN _ = False"
| "f64_less _ NaN = False"
| "f64_less NegInf b = (b \<noteq> NegInf)"
| "f64_less _ NegInf = False"
| "f64_less PosInf _ = False"
| "f64_less (Fin _) PosInf = True"

definition f64_zero :: f64 where "f64_zero = Fin 0"

definition f64_is_zero :: "f64 \<Rightarrow> bool" where
  "f64_is_zero v \<longleftrightarrow> v = Fin 0"

subsection \<open>Integers of at most 53 bits are exact\<close>

lemma pow2_pos [simp]: "0 < pow2 e"
  by (simp add: pow2_def)

lemma pow2_nonzero [simp]: "pow2 e \<noteq> 0"
  using pow2_pos [of e] by linarith

lemma round64_exact:
  assumes "q / pow2 (ulp_exp q) = of_int k"
  shows "round64 q = q"
proof (cases "q = 0")
  case False
  have "q = of_int k * pow2 (ulp_exp q)"
    using assms by (simp add: field_simps)
  then show ?thesis by (simp add: round64_def assms)
qed (simp add: round64_def)

lemma bitlen_1: "bitlen 1 = 1"
  by (simp add: bitlen_def floorlog_def)

lemma floor_log2_nat:
  assumes "0 < n"
  shows "floor_log2 (of_int n) = bitlen n - 1"
proof -
  have q: "quotient_of (of_int n) = (n, 1)" by (rule quotient_of_int [unfolded Rat.of_int_def])
  have b1: "bitlen 1 = 1" by (rule bitlen_1)
  have pos: "0 \<le> bitlen n - 1"
    using bitlen_nonneg [of n] bitlen_eq_zero_iff [of n] assms by linarith
  have "2 ^ nat (bitlen n - 1) \<le> n" using bitlen_bounds [OF assms] by blast
  then have "(of_int (2 ^ nat (bitlen n - 1)) :: rat) \<le> of_int n" by (simp only: of_int_le_iff)
  then have le: "pow2 (bitlen n - 1) \<le> of_int n"
    unfolding pow2_def using pos by simp
  show ?thesis by (simp add: floor_log2_def q b1 le)
qed

lemma ulp_exp_le_zero:
  assumes "n \<noteq> 0" and "\<bar>n\<bar> < 2 ^ 53"
  shows "ulp_exp (of_int n) \<le> 0"
proof -
  have "\<bar>(of_int n :: rat)\<bar> = of_int \<bar>n\<bar>" by simp
  moreover have "bitlen \<bar>n\<bar> \<le> 53"
    using assms by (intro bitlen_le_iff_power [THEN iffD2]) auto
  ultimately show ?thesis
    using assms by (simp add: ulp_exp_def floor_log2_nat del: of_int_abs)
qed

lemma round64_of_int:
  assumes "\<bar>n\<bar> \<le> 2 ^ 53"
  shows "round64 (of_int n) = of_int n"
proof (cases "n = 0")
  case True
  then show ?thesis by (simp add: round64_def)
next
  case False
  show ?thesis
  proof (cases "\<bar>n\<bar> < 2 ^ 53")
    case True
    with False have "ulp_exp (of_int n) \<le> 0" by (rule ulp_exp_le_zero)
    then have "of_int n / pow2 (ulp_exp (of_int n))
        = (of_int (n * 2 ^ nat (- ulp_exp (of_int n))) :: rat)"
      by (cases "ulp_exp (of_int n) = 0") (simp_all add: pow2_def)
    then show ?thesis by (rule round64_exact)
  next
    case False
    with assms have n: "\<bar>n\<bar> = 2 ^ 53" by simp
    have bl: "bitlen (2 ^ 53) = 54" using bitlen_pow2 [of 1 53] by (simp add: bitlen_1)
    have "\<bar>(of_int n :: rat)\<bar> = of_int (2 ^ 53)" using n by (metis of_int_abs)
    then have "ulp_exp (of_int n) = 1"
      using floor_log2_nat [of "2 ^ 53"] bl by (simp add: ulp_exp_def)
    then have p: "pow2 (ulp_exp (of_int n)) = 2" by (simp add: pow2_def)
    from n have "n = 2 ^ 53 \<or> n = - (2 ^ 53)" by linarith
    then have "\<exists>k. of_int n / pow2 (ulp_exp (of_int n)) = (of_int k :: rat)"
      by (intro exI [of _ "n div 2"]) (auto simp: p)
    then show ?thesis by (auto intro: round64_exact)
  qed
qed

lemma int_below_max: "\<bar>n\<bar> \<le> 2 ^ 53 \<Longrightarrow> \<bar>(of_int n :: rat)\<bar> < pow2 1024"
proof -
  assume "\<bar>n\<bar> \<le> 2 ^ 53"
  then have "(of_int \<bar>n\<bar> :: rat) \<le> of_int (2 ^ 53)" by (simp only: of_int_le_iff)
  then have "\<bar>(of_int n :: rat)\<bar> \<le> 2 ^ 53" by simp
  also have "(2 :: rat) ^ 53 < 2 ^ nat 1024" by (rule power_strict_increasing) auto
  finally show ?thesis by (simp only: pow2_def zero_le_numeral if_True)
qed

lemma mk_f64_of_int: "\<bar>n\<bar> \<le> 2 ^ 53 \<Longrightarrow> mk_f64 (of_int n) = Fin (of_int n)"
  using int_below_max [of n] round64_of_int [of n]
  by (simp add: mk_f64_def abs_less_iff not_le)

text \<open>The exactly represented integer values: what a PostgreSQL \<open>bigint\<close> statistic is after
  \<open>float64(v.Int64)\<close>, as long as it has at most 53 bits.\<close>

definition exact_nat :: "f64 \<Rightarrow> bool" where
  "exact_nat v \<longleftrightarrow> (case v of Fin q \<Rightarrow> 0 \<le> q \<and> q \<le> 2 ^ 53 \<and> q = of_int \<lfloor>q\<rfloor> | _ \<Rightarrow> False)"

lemma exact_nat_iff: "exact_nat v \<longleftrightarrow> (\<exists>n. 0 \<le> n \<and> n \<le> 2 ^ 53 \<and> v = Fin (of_int n))"
proof
  assume "exact_nat v"
  then obtain q where "v = Fin q" "0 \<le> q" "q \<le> 2 ^ 53" "q = of_int \<lfloor>q\<rfloor>"
    by (auto simp: exact_nat_def split: f64.splits)
  moreover from this have "0 \<le> \<lfloor>q\<rfloor>" by simp
  moreover have "\<lfloor>q\<rfloor> \<le> 2 ^ 53" using \<open>q \<le> 2 ^ 53\<close> by (simp add: floor_le_iff)
  ultimately show "\<exists>n. 0 \<le> n \<and> n \<le> 2 ^ 53 \<and> v = Fin (of_int n)" by metis
next
  assume "\<exists>n. 0 \<le> n \<and> n \<le> 2 ^ 53 \<and> v = Fin (of_int n)"
  then obtain n where "0 \<le> n" "n \<le> 2 ^ 53" "v = Fin (of_int n)" by blast
  moreover from this have "(of_int n :: rat) \<le> of_int (2 ^ 53)" by (simp only: of_int_le_iff)
  ultimately show "exact_nat v" by (simp add: exact_nat_def)
qed

lemma exact_nat_numeral: "(numeral k :: int) \<le> 2 ^ 53 \<Longrightarrow> exact_nat (Fin (numeral k))"
  by (subst exact_nat_iff, rule exI [of _ "numeral k"]) simp

lemma exact_nat_of_int: "0 \<le> n \<Longrightarrow> n \<le> 2 ^ 53 \<Longrightarrow> exact_nat (f64_of_int n)"
  by (auto simp: exact_nat_iff f64_of_int_def mk_f64_of_int)

lemma f64_of_int_exact: "\<bar>n\<bar> \<le> 2 ^ 53 \<Longrightarrow> f64_of_int n = Fin (of_int n)"
  by (simp add: f64_of_int_def mk_f64_of_int)

lemma exact_nat_not_less_zero: "exact_nat v \<Longrightarrow> \<not> f64_less v f64_zero"
  by (auto simp: exact_nat_iff f64_zero_def)

lemma exact_nat_sub:
  assumes "exact_nat a" and "exact_nat b" and "\<not> f64_less a b"
  shows "exact_nat (f64_sub a b)" and "f64_add b (f64_sub a b) = a"
proof -
  from assms obtain m n where m: "0 \<le> m" "m \<le> 2 ^ 53" "a = Fin (of_int m)"
    and n: "0 \<le> n" "n \<le> 2 ^ 53" "b = Fin (of_int n)" and "n \<le> m"
    by (auto simp: exact_nat_iff)
  have d: "f64_sub a b = Fin (of_int (m - n))"
    using mk_f64_of_int [of "m - n"] m n \<open>n \<le> m\<close> by (simp add: f64_sub_def)
  show "exact_nat (f64_sub a b)"
    using d m n \<open>n \<le> m\<close> by (auto simp: exact_nat_iff intro: exI [of _ "m - n"])
  show "f64_add b (f64_sub a b) = a"
    using mk_f64_of_int [of m] m d [unfolded m(3) n(3)] unfolding m(3) n(3) by simp
qed

lemma f64_less_zero [simp]:
  "f64_less (Fin q) f64_zero \<longleftrightarrow> q < 0" "\<not> f64_less PosInf f64_zero"
  "f64_less NegInf f64_zero" "\<not> f64_less NaN f64_zero"
  by (simp_all add: f64_zero_def)

subsection \<open>Rounding keeps the sign\<close>

lemma round_half_even_nonneg: "0 \<le> q \<Longrightarrow> 0 \<le> round_half_even q"
  by (auto simp: round_half_even_def Let_def)

lemma mk_f64_not_negative: "0 \<le> q \<Longrightarrow> \<not> f64_less (mk_f64 q) f64_zero"
proof -
  assume "0 \<le> q"
  then have "0 \<le> round64 q" by (simp add: round64_def round_half_even_nonneg less_imp_le)
  then show ?thesis using pow2_pos [of 1024] by (simp add: mk_f64_def f64_zero_def Let_def)
qed

lemma f64_sub_not_negative: "\<not> f64_less a b \<Longrightarrow> \<not> f64_less (f64_sub a b) f64_zero"
  by (cases a; cases b) (auto simp: f64_sub_def mk_f64_not_negative)

end
