(* ===== verification/Prom.thy ===== *)
theory Prom
  imports Float64
begin

text \<open>
  The interface to \<open>prometheus/client_golang\<close>, which is not part of the repository. The
  operations the exporter calls on a \<open>CounterVec\<close> and on a \<open>GaugeVec\<close> are the fields of the
  record \<open>prom\<close>, a parameter of every definition that uses them; the vectors themselves are of
  the type parameters \<open>'cv\<close> and \<open>'gv\<close>. What the library documents of them is the assumptions
  of the locales \<open>prom_counters\<close> and \<open>prom_gauges\<close>: \<open>WithLabelValues\<close> panics on a wrong number
  of label values, \<open>Counter.Add\<close> panics on a negative value, children are independent of each
  other, \<open>Collect\<close> yields each child once. \<open>Add\<close> is only specified where the sum is exact, and
  on a child that does not exist yet.

  \<open>ref_prom\<close>, vectors as association lists from label values to the child's value, satisfies
  these assumptions; the concrete runs of the development use it.
\<close>

text \<open>\<open>prometheus.CounterOpts\<close> and \<open>GaugeOpts\<close>, as far as the code sets them, and
  \<open>prometheus.Desc\<close>: the options and the names of the variable labels.\<close>

record opts =
  opt_Namespace :: string
  opt_Subsystem :: string
  opt_Name :: string
  opt_Help :: string
  opt_ConstLabels :: "(string \<times> string) list"

type_synonym desc = "opts \<times> string list"

text \<open>The full name \<open><Namespace>_<Subsystem>_<Name>\<close>; an empty component is left out.\<close>

definition fqName :: "opts \<Rightarrow> string" where
  "fqName o1 = join ''_'' (filter (\<lambda>s. s \<noteq> []) [opt_Namespace o1, opt_Subsystem o1, opt_Name o1])"

text \<open>A \<open>prometheus.Metric\<close> sent on the channel: descriptor, label values, value.\<close>

record metric =
  m_desc :: desc
  m_labels :: "string list"
  m_value :: f64

record ('cv, 'gv) prom =
  NewCounterVec :: "opts \<Rightarrow> string list \<Rightarrow> 'cv"
  CounterAdd :: "'cv \<Rightarrow> string list \<Rightarrow> f64 \<Rightarrow> 'cv option"
    \<comment> \<open>\<open>WithLabelValues(lvs...).Add(v)\<close>\<close>
  CounterDelete :: "'cv \<Rightarrow> string list \<Rightarrow> 'cv"
    \<comment> \<open>\<open>DeleteLabelValues(lvs...)\<close>\<close>
  CounterDesc :: "'cv \<Rightarrow> desc"
  CounterCollect :: "'cv \<Rightarrow> metric list"
  CounterValue :: "'cv \<Rightarrow> string list \<Rightarrow> f64 option"
    \<comment> \<open>the value of a child, if the child exists\<close>
  NewGaugeVec :: "opts \<Rightarrow> string list \<Rightarrow> 'gv"
  GaugeSet :: "'gv \<Rightarrow> string list \<Rightarrow> f64 \<Rightarrow> 'gv option"
    \<comment> \<open>\<open>WithLabelValues(lvs...).Set(v)\<close>\<close>
  GaugeDesc :: "'gv \<Rightarrow> desc"
  GaugeCollect :: "'gv \<Rightarrow> metric list"
  GaugeValue :: "'gv \<Rightarrow> string list \<Rightarrow> f64 option"
  LabelValueOK :: "string \<Rightarrow> bool"
    \<comment> \<open>the label values the library accepts (valid UTF-8)\<close>

text \<open>Label values that \<open>WithLabelValues\<close> accepts for a descriptor.\<close>

definition fits :: "('cv, 'gv) prom \<Rightarrow> desc \<Rightarrow> string list \<Rightarrow> bool" where
  "fits P d lvs \<longleftrightarrow> length lvs = length (snd d) \<and> (\<forall>l \<in> set lvs. LabelValueOK P l)"

locale prom_counters =
  fixes P :: "('cv, 'gv) prom"
  assumes counter_new_desc: "CounterDesc P (NewCounterVec P o1 ls) = (o1, ls)"
    and counter_new_value: "CounterValue P (NewCounterVec P o1 ls) lvs = None"
    and counter_add_ok:
      "fits P (CounterDesc P cv) lvs \<Longrightarrow> \<not> f64_less v f64_zero \<Longrightarrow> CounterAdd P cv lvs v \<noteq> None"
    and counter_add_arity:
      "length lvs \<noteq> length (snd (CounterDesc P cv)) \<Longrightarrow> CounterAdd P cv lvs v = None"
    and counter_add_negative: "f64_less v f64_zero \<Longrightarrow> CounterAdd P cv lvs v = None"
    and counter_add_desc: "CounterAdd P cv lvs v = Some cv' \<Longrightarrow> CounterDesc P cv' = CounterDesc P cv"
    and counter_add_fresh:
      "CounterAdd P cv lvs v = Some cv' \<Longrightarrow> CounterValue P cv lvs = None \<Longrightarrow>
       CounterValue P cv' lvs = Some v"
    and counter_add_exact:
      "CounterAdd P cv lvs v = Some cv' \<Longrightarrow> CounterValue P cv lvs = Some x \<Longrightarrow>
       exact_nat x \<Longrightarrow> exact_nat v \<Longrightarrow> exact_nat (f64_add x v) \<Longrightarrow>
       CounterValue P cv' lvs = Some (f64_add x v)"
    and counter_add_keeps:
      "CounterAdd P cv lvs v = Some cv' \<Longrightarrow> CounterValue P cv' lvs \<noteq> None"
    and counter_add_other:
      "CounterAdd P cv lvs v = Some cv' \<Longrightarrow> lvs' \<noteq> lvs \<Longrightarrow>
       CounterValue P cv' lvs' = CounterValue P cv lvs'"
    and counter_delete_desc: "CounterDesc P (CounterDelete P cv lvs) = CounterDesc P cv"
    and counter_delete_value:
      "CounterValue P (CounterDelete P cv lvs) = (CounterValue P cv)(lvs := None)"
    and counter_collect_set:
      "set (CounterCollect P cv) = {\<lparr>m_desc = CounterDesc P cv, m_labels = lvs, m_value = v\<rparr> | lvs v.
         CounterValue P cv lvs = Some v}"
    and counter_collect_distinct: "distinct (map m_labels (CounterCollect P cv))"

locale prom_gauges =
  fixes P :: "('cv, 'gv) prom"
  assumes gauge_new_desc: "GaugeDesc P (NewGaugeVec P o1 ls) = (o1, ls)"
    and gauge_new_value: "GaugeValue P (NewGaugeVec P o1 ls) lvs = None"
    and gauge_set_ok: "fits P (GaugeDesc P gv) lvs \<Longrightarrow> GaugeSet P gv lvs v \<noteq> None"
    and gauge_set_arity:
      "length lvs \<noteq> length (snd (GaugeDesc P gv)) \<Longrightarrow> GaugeSet P gv lvs v = None"
    and gauge_set_desc: "GaugeSet P gv lvs v = Some gv' \<Longrightarrow> GaugeDesc P gv' = GaugeDesc P gv"
    and gauge_set_value:
      "GaugeSet P gv lvs v = Some gv' \<Longrightarrow> GaugeValue P gv' = (GaugeValue P gv)(lvs := Some v)"
    and gauge_collect_set:
      "set (GaugeCollect P gv) = {\<lparr>m_desc = GaugeDesc P gv, m_labels = lvs, m_value = v\<rparr> | lvs v.
         GaugeValue P gv lvs = Some v}"
    and gauge_collect_distinct: "distinct (map m_labels (GaugeCollect P gv))"

locale prom_vecs = prom_counters P + prom_gauges P for P :: "('cv, 'gv) prom"

subsection \<open>A reference implementation\<close>

datatype refvec = RefVec (rv_desc: desc) (rv_children: "(string list \<times> f64) list")

definition ref_value :: "refvec \<Rightarrow> string list \<Rightarrow> f64 option" where
  "ref_value rv = map_of (rv_children rv)"

definition ref_put :: "refvec \<Rightarrow> string list \<Rightarrow> f64 \<Rightarrow> refvec option" where
  "ref_put rv lvs v = (if length lvs = length (snd (rv_desc rv))
     then Some (RefVec (rv_desc rv) ((lvs, v) # rv_children rv)) else None)"

definition ref_add :: "refvec \<Rightarrow> string list \<Rightarrow> f64 \<Rightarrow> refvec option" where
  "ref_add rv lvs v = (if f64_less v f64_zero then None
     else ref_put rv lvs (case ref_value rv lvs of None \<Rightarrow> v | Some x \<Rightarrow> f64_add x v))"

definition ref_delete :: "refvec \<Rightarrow> string list \<Rightarrow> refvec" where
  "ref_delete rv lvs = RefVec (rv_desc rv) (filter (\<lambda>c. fst c \<noteq> lvs) (rv_children rv))"

definition ref_collect :: "refvec \<Rightarrow> metric list" where
  "ref_collect rv = map (\<lambda>lvs. \<lparr>m_desc = rv_desc rv, m_labels = lvs, m_value = the (ref_value rv lvs)\<rparr>)
     (remdups (map fst (rv_children rv)))"

definition ref_prom :: "(refvec, refvec) prom" where
  "ref_prom = \<lparr>NewCounterVec = (\<lambda>o1 ls. RefVec (o1, ls) []), CounterAdd = ref_add,
     CounterDelete = ref_delete, CounterDesc = rv_desc, CounterCollect = ref_collect,
     CounterValue = ref_value, NewGaugeVec = (\<lambda>o1 ls. RefVec (o1, ls) []), GaugeSet = ref_put,
     GaugeDesc = rv_desc, GaugeCollect = ref_collect, GaugeValue = ref_value,
     LabelValueOK = (\<lambda>_. True)\<rparr>"

lemmas ref_prom_simps = ref_prom_def ref_value_def ref_put_def ref_add_def ref_delete_def

text \<open>Facts on the reference vectors, used as rewrite rules by the interpretation below.\<close>

lemma ref_new_value: "ref_value (RefVec d []) lvs = None"
  by (simp add: ref_value_def)

lemma ref_put_None: "ref_put rv lvs v = None \<longleftrightarrow> length lvs \<noteq> length (snd (rv_desc rv))"
  by (simp add: ref_put_def)

lemma ref_put_SomeD:
  "ref_put rv lvs v = Some rv' \<Longrightarrow> rv_desc rv' = rv_desc rv \<and> ref_value rv' = (ref_value rv)(lvs \<mapsto> v)"
  by (auto simp: ref_put_def ref_value_def split: if_splits)

lemma ref_collect_set:
  "set (ref_collect rv) = {\<lparr>m_desc = rv_desc rv, m_labels = lvs, m_value = v\<rparr> | lvs v.
     ref_value rv lvs = Some v}"
proof -
  have "set (map fst (rv_children rv)) = dom (ref_value rv)"
    by (simp add: ref_value_def dom_map_of_conv_image_fst)
  then have "set (ref_collect rv)
      = (\<lambda>lvs. \<lparr>m_desc = rv_desc rv, m_labels = lvs, m_value = the (ref_value rv lvs)\<rparr>) ` dom (ref_value rv)"
    unfolding ref_collect_def set_map set_remdups by simp
  also have "\<dots> = {\<lparr>m_desc = rv_desc rv, m_labels = lvs, m_value = v\<rparr> | lvs v.
      ref_value rv lvs = Some v}"
    by (auto simp: image_def dom_def)
  finally show ?thesis .
qed

lemma ref_collect_distinct: "distinct (map m_labels (ref_collect rv))"
proof -
  have "map m_labels (ref_collect rv) = remdups (map fst (rv_children rv))"
    by (simp add: ref_collect_def o_def)
  then show ?thesis by simp
qed

lemma map_of_filter_other:
  "map_of (filter (\<lambda>c. fst c \<noteq> k') al) k = (if k = k' then None else map_of al k)"
  by (induction al) auto

lemma ref_delete_value: "ref_value (ref_delete rv lvs) = (ref_value rv)(lvs := None)"
  by (rule ext) (simp add: ref_value_def ref_delete_def map_of_filter_other)

lemma ref_delete_desc: "rv_desc (ref_delete rv lvs) = rv_desc rv"
  by (simp add: ref_delete_def)

lemma ref_add_SomeD:
  "ref_add rv lvs v = Some rv' \<Longrightarrow> \<not> f64_less v f64_zero \<and> rv_desc rv' = rv_desc rv \<and>
   ref_value rv' = (ref_value rv)(lvs \<mapsto> (case ref_value rv lvs of None \<Rightarrow> v | Some x \<Rightarrow> f64_add x v))"
  by (auto simp: ref_add_def dest: ref_put_SomeD split: if_splits)

lemma ref_add_None:
  "ref_add rv lvs v = None \<longleftrightarrow> f64_less v f64_zero \<or> length lvs \<noteq> length (snd (rv_desc rv))"
  by (simp add: ref_add_def ref_put_None)

lemmas ref_facts = ref_new_value ref_put_None ref_add_None ref_delete_value ref_delete_desc
  ref_collect_set ref_collect_distinct

interpretation ref: prom_vecs ref_prom
  by unfold_locales
    (auto simp: ref_prom_def fits_def ref_facts simp del: not_None_eq
      dest!: ref_add_SomeD ref_put_SomeD)

end
