(* ===== verification/Vec.thy ===== *)
theory Vec
  imports Prom
begin

text \<open>
  \<open>exporter/collectors/vec.go\<close> and the namespace variables of
  \<open>exporter/collectors/collector.go\<close>: the delta tracking that lets a collector push absolute
  cumulative values into a \<open>CounterVec\<close> that only has \<open>Add\<close>, and the factories that build the
  vectors of a collector. \<open>Observe\<close> holds the mutex for its whole body, so it is one atomic
  step here. The lemmas show that the children of the vector are exactly the last observed
  values, that a reset is exported as a decrease, and when \<open>Observe\<close> panics.
\<close>

subsection \<open>Namespaces\<close>

record namespaces =
  namespace :: string
  namespaceIO :: string
  namespaceRawPg :: string

definition initial_namespaces :: namespaces where
  "initial_namespaces =
     \<lparr>namespace = ''pg_stat'', namespaceIO = ''pg_statio'', namespaceRawPg = ''pg''\<rparr>"

text \<open>The subsystems, the middle part of the names of the metrics.\<close>

abbreviation activitySubSystem :: string where "activitySubSystem \<equiv> ''activity''"
abbreviation archiverSubSystem :: string where "archiverSubSystem \<equiv> ''archiver''"
abbreviation bgwriterSubSystem :: string where "bgwriterSubSystem \<equiv> ''bgwriter''"
abbreviation checkpointerSubSystem :: string where "checkpointerSubSystem \<equiv> ''checkpointer''"
abbreviation databaseSubSystem :: string where "databaseSubSystem \<equiv> ''database''"
abbreviation ioSubSystem :: string where "ioSubSystem \<equiv> ''io''"
abbreviation locksSubSystem :: string where "locksSubSystem \<equiv> ''locks''"
abbreviation progressAnalyzeSubSystem :: string where "progressAnalyzeSubSystem \<equiv> ''progress_analyze''"
abbreviation progressBasebackupSubSystem :: string where "progressBasebackupSubSystem \<equiv> ''progress_basebackup''"
abbreviation progressClusterSubSystem :: string where "progressClusterSubSystem \<equiv> ''progress_cluster''"
abbreviation progressCopySubSystem :: string where "progressCopySubSystem \<equiv> ''progress_copy''"
abbreviation progressCreateIndexSubSystem :: string where "progressCreateIndexSubSystem \<equiv> ''progress_create_index''"
abbreviation progressVacuumSubSystem :: string where "progressVacuumSubSystem \<equiv> ''progress_vacuum''"
abbreviation replicationSubSystem :: string where "replicationSubSystem \<equiv> ''replication''"
abbreviation replicationSlotsSubSystem :: string where "replicationSlotsSubSystem \<equiv> ''replication_slots''"
abbreviation settingsSubSystem :: string where "settingsSubSystem \<equiv> ''settings''"
abbreviation slruSubSystem :: string where "slruSubSystem \<equiv> ''slru''"
abbreviation sslSubSystem :: string where "sslSubSystem \<equiv> ''ssl''"
abbreviation statementsSubSystem :: string where "statementsSubSystem \<equiv> ''statements''"
abbreviation subscriptionSubSystem :: string where "subscriptionSubSystem \<equiv> ''subscription''"
abbreviation userTablesSubSystem :: string where "userTablesSubSystem \<equiv> ''user_tables''"
abbreviation userIndexesSubSystem :: string where "userIndexesSubSystem \<equiv> ''user_indexes''"
abbreviation walSubSystem :: string where "walSubSystem \<equiv> ''wal''"
abbreviation walReceiverSubSystem :: string where "walReceiverSubSystem \<equiv> ''wal_receiver''"

definition MetricPrefixPgStat :: string where "MetricPrefixPgStat = ''pg_stat''"
definition MetricPrefixPg :: string where "MetricPrefixPg = ''pg''"

definition SetMetricPrefix :: "string \<Rightarrow> namespaces \<Rightarrow> namespaces" where
  "SetMetricPrefix p g =
     (let p' = (if p = [] then MetricPrefixPgStat else p) in g\<lparr>namespace := p'\<rparr>)"

subsection \<open>counterDelta\<close>

record 'cv counterDelta =
  cd_vec :: 'cv
  cd_last :: "string \<Rightarrow> f64 option"

definition newCounterDelta :: "'cv \<Rightarrow> 'cv counterDelta" where
  "newCounterDelta v = \<lparr>cd_vec = v, cd_last = Map.empty\<rparr>"

definition label_key :: "string list \<Rightarrow> string" where
  "label_key lvs = join [CHR 0x00] lvs"

definition Observe ::
  "('cv, 'gv) prom \<Rightarrow> f64 \<Rightarrow> string list \<Rightarrow> 'cv counterDelta \<Rightarrow> 'cv counterDelta option" where
  "Observe P value lvs c =
     (let key = label_key lvs;
          added = (case cd_last c key of
              None \<Rightarrow> CounterAdd P (cd_vec c) lvs value
            | Some lst \<Rightarrow>
                if f64_less value lst then CounterAdd P (CounterDelete P (cd_vec c) lvs) lvs value
                else CounterAdd P (cd_vec c) lvs (f64_sub value lst))
      in case added of
           None \<Rightarrow> None
         | Some v' \<Rightarrow> Some (c\<lparr>cd_vec := v', cd_last := (cd_last c)(key \<mapsto> value)\<rparr>))"

definition cd_Describe :: "('cv, 'gv) prom \<Rightarrow> 'cv counterDelta \<Rightarrow> desc list" where
  "cd_Describe P c = [CounterDesc P (cd_vec c)]"

definition cd_Collect :: "('cv, 'gv) prom \<Rightarrow> 'cv counterDelta \<Rightarrow> metric list" where
  "cd_Collect P c = CounterCollect P (cd_vec c)"

definition cd_value :: "('cv, 'gv) prom \<Rightarrow> 'cv counterDelta \<Rightarrow> string list \<Rightarrow> f64 option" where
  "cd_value P c lvs = CounterValue P (cd_vec c) lvs"

subsection \<open>Factories\<close>

definition vec_opts :: "string \<Rightarrow> string \<Rightarrow> string \<Rightarrow> string \<Rightarrow> opts" where
  "vec_opts ns subsystem name help = \<lparr>opt_Namespace = ns, opt_Subsystem = subsystem,
     opt_Name = name, opt_Help = help, opt_ConstLabels = []\<rparr>"

definition counterFactory :: "('cv, 'gv) prom \<Rightarrow> namespaces \<Rightarrow> string \<Rightarrow> string list \<Rightarrow>
    string \<Rightarrow> string \<Rightarrow> 'cv counterDelta" where
  "counterFactory P g subsystem ls name help =
     newCounterDelta (NewCounterVec P (vec_opts (namespace g) subsystem name help) ls)"

definition counterFactoryIO :: "('cv, 'gv) prom \<Rightarrow> namespaces \<Rightarrow> string \<Rightarrow> string list \<Rightarrow>
    string \<Rightarrow> string \<Rightarrow> 'cv counterDelta" where
  "counterFactoryIO P g subsystem ls name help =
     newCounterDelta (NewCounterVec P (vec_opts (namespaceIO g) subsystem name help) ls)"

definition gaugeFactory :: "('cv, 'gv) prom \<Rightarrow> namespaces \<Rightarrow> string \<Rightarrow> string list \<Rightarrow>
    string \<Rightarrow> string \<Rightarrow> 'gv" where
  "gaugeFactory P g subsystem ls name help =
     NewGaugeVec P (vec_opts (namespace g) subsystem name help) ls"

definition gaugeFactoryRawPg :: "('cv, 'gv) prom \<Rightarrow> namespaces \<Rightarrow> string \<Rightarrow> string list \<Rightarrow>
    string \<Rightarrow> string \<Rightarrow> 'gv" where
  "gaugeFactoryRawPg P g subsystem ls name help =
     NewGaugeVec P (vec_opts (namespaceRawPg g) subsystem name help) ls"

subsection \<open>Keys\<close>

definition nul_free :: "string list \<Rightarrow> bool" where
  "nul_free lvs \<longleftrightarrow> (\<forall>l \<in> set lvs. CHR 0x00 \<notin> set l)"

lemma label_key_inj [label_simps]:
  "length xs = length ys \<Longrightarrow> nul_free xs \<Longrightarrow> nul_free ys \<Longrightarrow> label_key xs = label_key ys \<longleftrightarrow> xs = ys"
  unfolding label_key_def nul_free_def by (metis join_inj)

subsection \<open>The specification: the last value observed for each label set\<close>

definition last_observed :: "(f64 \<times> string list) list \<Rightarrow> string list \<Rightarrow> f64 option" where
  "last_observed obs = map_of (rev (map (\<lambda>(v, l). (l, v)) obs))"

lemma last_observed_Nil [simp]: "last_observed [] = Map.empty"
  by (simp add: last_observed_def)

lemma last_observed_snoc [simp]:
  "last_observed (obs @ [(v, l)]) = (last_observed obs)(l \<mapsto> v)"
  by (simp add: last_observed_def)

definition observe_all :: "('cv, 'gv) prom \<Rightarrow> (f64 \<times> string list) list \<Rightarrow>
    'cv counterDelta \<Rightarrow> 'cv counterDelta option" where
  "observe_all P obs c = fold_opt (\<lambda>(v, l). Observe P v l) obs c"

lemma observe_all_snoc:
  "observe_all P (obs @ [(v, l)]) c =
     (case observe_all P obs c of None \<Rightarrow> None | Some c' \<Rightarrow> Observe P v l c')"
  by (auto simp: observe_all_def fold_opt_append split: option.splits)

text \<open>The invariant of a \<open>counterDelta\<close> whose observations are exact integers: \<open>last\<close> and the
  children of the vector agree, and only well-formed label sets have a child.\<close>

definition label_ok :: "('cv, 'gv) prom \<Rightarrow> 'cv counterDelta \<Rightarrow> string list \<Rightarrow> bool" where
  "label_ok P c lvs \<longleftrightarrow> fits P (CounterDesc P (cd_vec c)) lvs \<and> nul_free lvs"

definition tracks :: "('cv, 'gv) prom \<Rightarrow> 'cv counterDelta \<Rightarrow> bool" where
  "tracks P c \<longleftrightarrow>
     (\<forall>lvs. label_ok P c lvs \<longrightarrow> cd_value P c lvs = cd_last c (label_key lvs)) \<and>
     (\<forall>lvs v. cd_value P c lvs = Some v \<longrightarrow> label_ok P c lvs \<and> exact_nat v)"

subsection \<open>Observe, for any vector that keeps the library's promises\<close>

context prom_counters
begin

lemma Observe_desc: "Observe P v lvs c = Some c' \<Longrightarrow> CounterDesc P (cd_vec c') = CounterDesc P (cd_vec c)"
  by (auto simp: Observe_def Let_def counter_delete_desc split: option.splits if_splits
      dest: counter_add_desc)

lemma Observe_last: "Observe P v lvs c = Some c' \<Longrightarrow> cd_last c' = (cd_last c)(label_key lvs \<mapsto> v)"
  by (auto simp: Observe_def Let_def split: option.splits)

lemma Observe_frame:
  "Observe P v lvs c = Some c' \<Longrightarrow> lvs' \<noteq> lvs \<Longrightarrow> cd_value P c' lvs' = cd_value P c lvs'"
  by (auto simp: Observe_def Let_def cd_value_def counter_delete_value split: option.splits if_splits
      dest: counter_add_other)

lemma Observe_keeps: "Observe P v lvs c = Some c' \<Longrightarrow> cd_value P c' lvs \<noteq> None"
  by (auto simp: Observe_def Let_def cd_value_def split: option.splits if_splits
      dest: counter_add_keeps)

lemma Observe_restarts:
  assumes "Observe P v lvs c = Some c'"
    and "case cd_last c (label_key lvs) of None \<Rightarrow> cd_value P c lvs = None | Some l \<Rightarrow> f64_less v l"
  shows "cd_value P c' lvs = Some v"
  using assms
  by (auto simp: Observe_def Let_def cd_value_def counter_delete_value split: option.splits if_splits
      dest: counter_add_fresh)

lemma counter_add_None_iff:
  "fits P (CounterDesc P cv) lvs \<Longrightarrow> CounterAdd P cv lvs v = None \<longleftrightarrow> f64_less v f64_zero"
  using counter_add_ok counter_add_negative by blast

lemma Observe_None_iff:
  assumes "fits P (CounterDesc P (cd_vec c)) lvs"
  shows "Observe P v lvs c = None \<longleftrightarrow> f64_less v f64_zero \<and>
    (case cd_last c (label_key lvs) of None \<Rightarrow> True | Some l \<Rightarrow> f64_less v l)"
proof (cases "cd_last c (label_key lvs)")
  case None
  with counter_add_None_iff [OF assms, of v] show ?thesis
    by (auto simp: Observe_def split: option.splits)
next
  case (Some l)
  have "fits P (CounterDesc P (CounterDelete P (cd_vec c) lvs)) lvs"
    using assms by (simp add: counter_delete_desc)
  note add = counter_add_None_iff [OF this, of v] counter_add_None_iff [OF assms, of "f64_sub v l"]
  show ?thesis
    using Some add f64_sub_not_negative [of v l] by (auto simp: Observe_def split: option.splits)
qed

lemma Observe_advances:
  assumes "Observe P v lvs c = Some c'" and "cd_value P c lvs = Some l"
    and "cd_last c (label_key lvs) = Some l" and "exact_nat l" and "exact_nat v" and "\<not> f64_less v l"
  shows "cd_value P c' lvs = Some v"
proof -
  from assms(1,3,6) obtain cv where cv: "CounterAdd P (cd_vec c) lvs (f64_sub v l) = Some cv"
    and c': "cd_vec c' = cv"
    by (auto simp: Observe_def Let_def split: option.splits)
  note e = exact_nat_sub [OF assms(5,4,6)]
  have "CounterValue P cv lvs = Some (f64_add l (f64_sub v l))"
    by (rule counter_add_exact [OF cv]) (use assms(2,4,5) e in \<open>simp_all add: cd_value_def\<close>)
  then show ?thesis by (simp add: cd_value_def c' e(2))
qed

lemma Observe_tracks:
  assumes tr: "tracks P c" and ok: "label_ok P c lvs" and v: "exact_nat v"
  shows "\<exists>c'. Observe P v lvs c = Some c' \<and> tracks P c' \<and>
    CounterDesc P (cd_vec c') = CounterDesc P (cd_vec c) \<and>
    cd_value P c' = (cd_value P c)(lvs \<mapsto> v)"
proof -
  have "Observe P v lvs c \<noteq> None"
    using Observe_None_iff ok exact_nat_not_less_zero [OF v] by (simp add: label_ok_def)
  then obtain c' where c': "Observe P v lvs c = Some c'" by blast
  note d = Observe_desc [OF c']
  have same: "cd_value P c lvs = cd_last c (label_key lvs)"
    using tr ok by (simp add: tracks_def)
  have here: "cd_value P c' lvs = Some v"
  proof (cases "cd_last c (label_key lvs)")
    case None
    then show ?thesis using Observe_restarts [OF c'] same by simp
  next
    case (Some l)
    with same tr have "exact_nat l" by (simp add: tracks_def)
    with Some same show ?thesis
      using Observe_restarts [OF c'] Observe_advances [OF c'] v by (cases "f64_less v l") auto
  qed
  have vals: "cd_value P c' = (cd_value P c)(lvs \<mapsto> v)"
    using here Observe_frame [OF c'] by auto
  have lok: "label_ok P c' = label_ok P c" by (simp add: label_ok_def d fun_eq_iff)
  have "label_key l = label_key lvs \<longleftrightarrow> l = lvs" if "label_ok P c l" for l
    using that ok by (intro label_key_inj) (auto simp: label_ok_def fits_def)
  then have "tracks P c'"
    using tr ok v by (auto simp: tracks_def lok vals Observe_last [OF c'])
  with c' d vals show ?thesis by blast
qed

lemma new_tracks: "tracks P (newCounterDelta (NewCounterVec P o1 ls))"
  by (simp add: tracks_def newCounterDelta_def cd_value_def counter_new_value)

lemma observe_all_tracks:
  assumes "\<forall>(v, lvs) \<in> set obs. exact_nat v \<and> fits P (o1, ls) lvs \<and> nul_free lvs"
  shows "\<exists>c. observe_all P obs (newCounterDelta (NewCounterVec P o1 ls)) = Some c \<and> tracks P c \<and>
    CounterDesc P (cd_vec c) = (o1, ls) \<and> cd_value P c = last_observed obs"
  using assms
proof (induction obs rule: rev_induct)
  case Nil
  show ?case
    using new_tracks [of o1 ls]
    by (auto simp: observe_all_def newCounterDelta_def counter_new_desc cd_value_def counter_new_value)
next
  case (snoc ob obs)
  obtain v lvs where ob: "ob = (v, lvs)" by (cases ob)
  from snoc obtain c where c: "observe_all P obs (newCounterDelta (NewCounterVec P o1 ls)) = Some c"
    "tracks P c" "CounterDesc P (cd_vec c) = (o1, ls)" "cd_value P c = last_observed obs" by auto
  have "label_ok P c lvs" "exact_nat v" using snoc.prems c(3) ob by (auto simp: label_ok_def)
  from Observe_tracks [OF c(2) this] c show ?case
    by (auto simp: ob observe_all_snoc)
qed

lemma cd_Collect_set:
  "set (cd_Collect P c) = {\<lparr>m_desc = CounterDesc P (cd_vec c), m_labels = lvs, m_value = v\<rparr> | lvs v.
     cd_value P c lvs = Some v}"
  by (simp add: cd_Collect_def cd_value_def counter_collect_set)

end

subsection \<open>Properties\<close>

text \<open>
  C4. After any sequence of \<open>Observe\<close> calls with exact integer values on a fresh counter, no
  call has panicked and \<open>Collect\<close> yields exactly one metric per observed label set, carrying
  the value observed last: the delta bookkeeping with its reset handling refines the plain map
  of last observed values.
\<close>

theorem counterDelta_refines_last_observed:
  assumes "prom_counters P"
    and "\<forall>(v, lvs) \<in> set obs. exact_nat v \<and> fits P (o1, ls) lvs \<and> nul_free lvs"
  shows "\<exists>c. observe_all P obs (newCounterDelta (NewCounterVec P o1 ls)) = Some c \<and>
    set (cd_Collect P c) = {\<lparr>m_desc = (o1, ls), m_labels = lvs, m_value = v\<rparr> | lvs v.
      last_observed obs lvs = Some v} \<and>
    distinct (map m_labels (cd_Collect P c))"
proof -
  obtain c where c: "observe_all P obs (newCounterDelta (NewCounterVec P o1 ls)) = Some c"
    "CounterDesc P (cd_vec c) = (o1, ls)" "cd_value P c = last_observed obs"
    using prom_counters.observe_all_tracks [OF assms] by blast
  have "distinct (map m_labels (cd_Collect P c))"
    using prom_counters.counter_collect_distinct [OF assms(1)] by (simp add: cd_Collect_def)
  with c prom_counters.cd_Collect_set [OF assms(1), of c] show ?thesis by auto
qed

definition demo_opts :: opts where
  "demo_opts = vec_opts ''pg_stat'' ''database'' ''xact_commit_total'' ''''"

definition demo_obs :: "(f64 \<times> string list) list" where
  "demo_obs = [(Fin 5, [''a'']), (Fin 7, [''b'']), (Fin 3, [''a''])]"

theorem counterDelta_refines_witness:
  "\<exists>c. observe_all ref_prom demo_obs
      (newCounterDelta (NewCounterVec ref_prom demo_opts [''database''])) = Some c \<and>
    set (cd_Collect ref_prom c) = {\<lparr>m_desc = (demo_opts, [''database'']), m_labels = lvs, m_value = v\<rparr> | lvs v.
      last_observed demo_obs lvs = Some v} \<and>
    distinct (map m_labels (cd_Collect ref_prom c))"
proof (rule counterDelta_refines_last_observed [OF ref.prom_counters_axioms])
  show "\<forall>(v, lvs) \<in> set demo_obs. exact_nat v \<and> fits ref_prom (demo_opts, [''database'']) lvs \<and> nul_free lvs"
    by (simp add: demo_obs_def exact_nat_numeral fits_def ref_prom_def nul_free_def)
qed

end
