(* ===== verification/PgTypes.thy ===== *)
theory PgTypes
  imports Float64
begin

text \<open>
  The \<open>pgtype\<close> wrappers of \<open>exporter/db/model/model.go\<close>: a value and its \<open>Valid\<close> flag, false
  for SQL NULL. A NULL scanned by pgx leaves the zero value. \<open>int64\<close> is a 64-bit word, a
  \<open>timestamptz\<close> a \<open>time.Time\<close> given by its Unix second and its nanosecond.
\<close>

datatype pg_text = Text (String: string) (TextValid: bool)
datatype pg_int8 = Int8 (Int64: "64 word") (Int8Valid: bool)
datatype pg_float8 = Float8 (Float64: f64) (Float8Valid: bool)
datatype pg_bool = PgBool (Bool: bool) (BoolValid: bool)

record gotime =
  unix_sec :: "64 word"
  unix_nsec :: "64 word"

datatype pg_timestamptz = Timestamptz (Time: gotime) (TimestamptzValid: bool)

definition zero_time :: gotime where
  "zero_time = \<lparr>unix_sec = word_of_int (- 62135596800), unix_nsec = 0\<rparr>"

definition null_text :: pg_text where "null_text = Text '''' False"
definition null_int8 :: pg_int8 where "null_int8 = Int8 0 False"
definition null_float8 :: pg_float8 where "null_float8 = Float8 f64_zero False"
definition null_bool :: pg_bool where "null_bool = PgBool False False"
definition null_timestamptz :: pg_timestamptz where "null_timestamptz = Timestamptz zero_time False"

lemmas null_defs = null_text_def null_int8_def null_float8_def null_bool_def null_timestamptz_def

text \<open>\<open>float64(x)\<close> of an \<open>int64\<close>, \<open>time.Time.Unix\<close> and \<open>UnixMicro\<close>.\<close>

definition f64_of_int64 :: "64 word \<Rightarrow> f64" where
  "f64_of_int64 w = f64_of_int (sint w)"

definition Unix :: "gotime \<Rightarrow> 64 word" where
  "Unix t = unix_sec t"

definition UnixMicro :: "gotime \<Rightarrow> 64 word" where
  "UnixMicro t = unix_sec t * 1000000 + word_of_int (sint (unix_nsec t) div 1000)"

text \<open>Division by 1000 (milliseconds to seconds) as the collectors write it.\<close>

definition millis_as_secs :: "f64 \<Rightarrow> f64" where
  "millis_as_secs v = f64_div_const v 1000"

lemma exact_nat_of_int64:
  "0 \<le> sint w \<Longrightarrow> sint w \<le> 2 ^ 53 \<Longrightarrow> exact_nat (f64_of_int64 w)"
  by (simp add: f64_of_int64_def exact_nat_of_int)

lemma f64_of_int64_not_negative: "0 \<le> sint w \<Longrightarrow> \<not> f64_less (f64_of_int64 w) f64_zero"
  unfolding f64_of_int64_def f64_of_int_def by (rule mk_f64_not_negative) (simp only: of_int_0_le_iff)

lemma millis_as_secs_not_negative: "\<not> f64_less v f64_zero \<Longrightarrow> \<not> f64_less (millis_as_secs v) f64_zero"
  by (cases v) (auto simp: millis_as_secs_def mk_f64_not_negative)

end
