(* ===== verification/PgModel.thy ===== *)
theory PgModel
  imports PgTypes
begin

text \<open>
  \<open>exporter/db/model/model.go\<close>: the row structs that scany scans query results into, one record
  per struct with the fields in the order of the source, and the \<open>db\<close> tags of each struct in
  the same order. The tag names the result column that a field receives, so a query may only
  project columns that are tags of its row struct (theory \<open>Select\<close>). Fields of different
  structs share names; they are written with the struct's name, as in
  \<open>PgStatDatabase.XactCommit stat\<close>.
\<close>

record PgStatDatabase =
  Database :: pg_text
  DatID :: pg_int8
  DatName :: pg_text
  NumBackends :: pg_int8
  XactCommit :: pg_int8
  XactRollback :: pg_int8
  BlksRead :: pg_int8
  BlksHit :: pg_int8
  TupReturned :: pg_int8
  TupFetched :: pg_int8
  TupInserted :: pg_int8
  TupUpdated :: pg_int8
  TupDeleted :: pg_int8
  Conflicts :: pg_int8
  TempFiles :: pg_int8
  TempBytes :: pg_int8
  Deadlocks :: pg_int8
  ChecksumFailures :: pg_int8
  ChecksumLastFailure :: pg_timestamptz
  BlkReadTime :: pg_float8
  BlkWriteTime :: pg_float8
  SessionTime :: pg_float8
  ActiveTime :: pg_float8
  IdleInTransactionTime :: pg_float8
  Sessions :: pg_int8
  SessionsAbandoned :: pg_int8
  SessionsFatal :: pg_int8
  SessionsKilled :: pg_int8
  StatsReset :: pg_timestamptz

definition PgStatDatabase_tags :: "string list" where
  "PgStatDatabase_tags = [
  ''database'', ''datid'', ''datname'', ''numbackends'', ''xact_commit'', ''xact_rollback'',
   ''blks_read'', ''blks_hit'', ''tup_returned'', ''tup_fetched'', ''tup_inserted'',
   ''tup_updated'', ''tup_deleted'', ''conflicts'', ''temp_files'', ''temp_bytes'',
   ''deadlocks'', ''checksum_failures'', ''checksum_last_failure'', ''blk_read_time'',
   ''blk_write_time'', ''session_time'', ''active_time'', ''idle_in_transaction_time'',
   ''sessions'', ''sessions_abandoned'', ''sessions_fatal'', ''sessions_killed'',
   ''stats_reset'']"

record PgStatBgwriter =
  Database :: pg_text
  BuffersClean :: pg_int8
  MaxwrittenClean :: pg_int8
  BuffersAlloc :: pg_int8
  StatsReset :: pg_timestamptz
  CheckpointsTimed :: pg_int8
  CheckpointsReq :: pg_int8
  CheckpointWriteTime :: pg_float8
  CheckpointSyncTime :: pg_float8
  BuffersCheckpoint :: pg_int8
  BuffersBackend :: pg_int8
  BuffersBackendFsync :: pg_int8

definition PgStatBgwriter_tags :: "string list" where
  "PgStatBgwriter_tags = [
  ''database'', ''buffers_clean'', ''maxwritten_clean'', ''buffers_alloc'', ''stats_reset'',
   ''checkpoints_timed'', ''checkpoints_req'', ''checkpoint_write_time'',
   ''checkpoint_sync_time'', ''buffers_checkpoint'', ''buffers_backend'',
   ''buffers_backend_fsync'']"

record PgStatCheckpointer =
  Database :: pg_text
  NumTimed :: pg_int8
  NumRequested :: pg_int8
  RestartpointsTimed :: pg_int8
  RestartpointsReq :: pg_int8
  RestartpointsDone :: pg_int8
  WriteTime :: pg_float8
  SyncTime :: pg_float8
  BuffersWritten :: pg_int8
  StatsReset :: pg_timestamptz

definition PgStatCheckpointer_tags :: "string list" where
  "PgStatCheckpointer_tags = [
  ''database'', ''num_timed'', ''num_requested'', ''restartpoints_timed'',
   ''restartpoints_req'', ''restartpoints_done'', ''write_time'', ''sync_time'',
   ''buffers_written'', ''stats_reset'']"

record PgStatArchiver =
  Database :: pg_text
  ArchivedCount :: pg_int8
  LastArchivedTime :: pg_timestamptz
  FailedCount :: pg_int8
  LastFailedTime :: pg_timestamptz
  StatsReset :: pg_timestamptz

definition PgStatArchiver_tags :: "string list" where
  "PgStatArchiver_tags = [
  ''database'', ''archived_count'', ''last_archived_time'', ''failed_count'',
   ''last_failed_time'', ''stats_reset'']"

record PgStatReplication =
  Database :: pg_text
  Pid :: pg_int8
  ApplicationName :: pg_text
  ClientAddr :: pg_text
  State :: pg_text
  SyncState :: pg_text
  SentLagBytes :: pg_float8
  WriteLagBytes :: pg_float8
  FlushLagBytes :: pg_float8
  ReplayLagBytes :: pg_float8
  WriteLagSeconds :: pg_float8
  FlushLagSeconds :: pg_float8
  ReplayLagSeconds :: pg_float8

definition PgStatReplication_tags :: "string list" where
  "PgStatReplication_tags = [
  ''database'', ''pid'', ''application_name'', ''client_addr'', ''state'', ''sync_state'',
   ''sent_lag_bytes'', ''write_lag_bytes'', ''flush_lag_bytes'', ''replay_lag_bytes'',
   ''write_lag_seconds'', ''flush_lag_seconds'', ''replay_lag_seconds'']"

record PgStatWalReceiver =
  Database :: pg_text
  Pid :: pg_int8
  Status :: pg_text
  ReceiveStartLsnBytes :: pg_float8
  WrittenLsnBytes :: pg_float8
  FlushedLsnBytes :: pg_float8
  LatestEndLsnBytes :: pg_float8
  LastMsgSendTime :: pg_timestamptz
  LastMsgReceiptTime :: pg_timestamptz
  LatestEndTime :: pg_timestamptz
  SlotName :: pg_text
  SenderHost :: pg_text

definition PgStatWalReceiver_tags :: "string list" where
  "PgStatWalReceiver_tags = [
  ''database'', ''pid'', ''status'', ''receive_start_lsn_bytes'', ''written_lsn_bytes'',
   ''flushed_lsn_bytes'', ''latest_end_lsn_bytes'', ''last_msg_send_time'',
   ''last_msg_receipt_time'', ''latest_end_time'', ''slot_name'', ''sender_host'']"

record PgReplicationSlot =
  Database :: pg_text
  SlotName :: pg_text
  Plugin :: pg_text
  SlotType :: pg_text
  DatName :: pg_text
  Active :: pg_bool
  Temporary :: pg_bool
  RestartLsnBytes :: pg_float8
  ConfirmedFlushLsn :: pg_float8
  RetainedWalBytes :: pg_float8
  WalStatus :: pg_text
  SafeWalSizeBytes :: pg_int8
  Conflicting :: pg_bool

definition PgReplicationSlot_tags :: "string list" where
  "PgReplicationSlot_tags = [
  ''database'', ''slot_name'', ''plugin'', ''slot_type'', ''datname'', ''active'',
   ''temporary'', ''restart_lsn_bytes'', ''confirmed_flush_lsn_bytes'', ''retained_wal_bytes'',
   ''wal_status'', ''safe_wal_size_bytes'', ''conflicting'']"

record PgDatabaseSize =
  Database :: pg_text
  DatName :: pg_text
  Bytes :: pg_int8

definition PgDatabaseSize_tags :: "string list" where
  "PgDatabaseSize_tags = [
  ''database'', ''datname'', ''bytes'']"

record PgStatWal =
  Database :: pg_text
  WalRecords :: pg_int8
  WalFpi :: pg_int8
  WalBytes :: pg_float8
  WalBuffersFull :: pg_int8
  WalWrite :: pg_int8
  WalSync :: pg_int8
  WalWriteTime :: pg_float8
  WalSyncTime :: pg_float8
  StatsReset :: pg_timestamptz

definition PgStatWal_tags :: "string list" where
  "PgStatWal_tags = [
  ''database'', ''wal_records'', ''wal_fpi'', ''wal_bytes'', ''wal_buffers_full'',
   ''wal_write'', ''wal_sync'', ''wal_write_time'', ''wal_sync_time'', ''stats_reset'']"

record PgStatProgressVacuum =
  Database :: pg_text
  DatName :: pg_text
  RelID :: pg_text
  Phase :: pg_text
  HeapBlksTotal :: pg_int8
  HeapBlksScanned :: pg_int8
  HeapBlksVacuumed :: pg_int8
  IndexVacuumCount :: pg_int8

definition PgStatProgressVacuum_tags :: "string list" where
  "PgStatProgressVacuum_tags = [
  ''database'', ''datname'', ''relid'', ''phase'', ''heap_blks_total'', ''heap_blks_scanned'',
   ''heap_blks_vacuumed'', ''index_vacuum_count'']"

record PgStatProgressAnalyze =
  Database :: pg_text
  DatName :: pg_text
  RelID :: pg_text
  Phase :: pg_text
  SampleBlksTotal :: pg_int8
  SampleBlksScanned :: pg_int8
  ExtStatsTotal :: pg_int8
  ExtStatsComputed :: pg_int8
  ChildTablesTotal :: pg_int8
  ChildTablesDone :: pg_int8

definition PgStatProgressAnalyze_tags :: "string list" where
  "PgStatProgressAnalyze_tags = [
  ''database'', ''datname'', ''relid'', ''phase'', ''sample_blks_total'',
   ''sample_blks_scanned'', ''ext_stats_total'', ''ext_stats_computed'',
   ''child_tables_total'', ''child_tables_done'']"

record PgStatProgressBasebackup =
  Database :: pg_text
  Phase :: pg_text
  BackupTotalBytes :: pg_int8
  BackupStreamedBytes :: pg_int8
  TablespacesTotal :: pg_int8
  TablespacesStreamed :: pg_int8

definition PgStatProgressBasebackup_tags :: "string list" where
  "PgStatProgressBasebackup_tags = [
  ''database'', ''phase'', ''backup_total'', ''backup_streamed'', ''tablespaces_total'',
   ''tablespaces_streamed'']"

record PgStatProgressCopy =
  Database :: pg_text
  DatName :: pg_text
  RelID :: pg_text
  Command :: pg_text
  Type :: pg_text
  BytesTotal :: pg_int8
  BytesProcessed :: pg_int8
  TuplesProcessed :: pg_int8
  TuplesExcluded :: pg_int8

definition PgStatProgressCopy_tags :: "string list" where
  "PgStatProgressCopy_tags = [
  ''database'', ''datname'', ''relid'', ''command'', ''type'', ''bytes_total'',
   ''bytes_processed'', ''tuples_processed'', ''tuples_excluded'']"

record PgStatProgressCreateIndex =
  Database :: pg_text
  DatName :: pg_text
  RelID :: pg_text
  IndexRelID :: pg_text
  Command :: pg_text
  Phase :: pg_text
  LockersTotal :: pg_int8
  LockersDone :: pg_int8
  BlocksTotal :: pg_int8
  BlocksDone :: pg_int8
  TuplesTotal :: pg_int8
  TuplesDone :: pg_int8
  PartitionsTotal :: pg_int8
  PartitionsDone :: pg_int8

definition PgStatProgressCreateIndex_tags :: "string list" where
  "PgStatProgressCreateIndex_tags = [
  ''database'', ''datname'', ''relid'', ''index_relid'', ''command'', ''phase'',
   ''lockers_total'', ''lockers_done'', ''blocks_total'', ''blocks_done'', ''tuples_total'',
   ''tuples_done'', ''partitions_total'', ''partitions_done'']"

record PgStatProgressCluster =
  Database :: pg_text
  DatName :: pg_text
  RelID :: pg_text
  Command :: pg_text
  Phase :: pg_text
  HeapTuplesScanned :: pg_int8
  HeapTuplesWritten :: pg_int8
  HeapBlksTotal :: pg_int8
  HeapBlksScanned :: pg_int8
  IndexRebuildCount :: pg_int8

definition PgStatProgressCluster_tags :: "string list" where
  "PgStatProgressCluster_tags = [
  ''database'', ''datname'', ''relid'', ''command'', ''phase'', ''heap_tuples_scanned'',
   ''heap_tuples_written'', ''heap_blks_total'', ''heap_blks_scanned'', ''index_rebuild_count'']"

record PgStatIO =
  Database :: pg_text
  BackendType :: pg_text
  Object :: pg_text
  Context :: pg_text
  Reads :: pg_int8
  ReadTime :: pg_float8
  Writes :: pg_int8
  WriteTime :: pg_float8
  Writebacks :: pg_int8
  WritebackTime :: pg_float8
  Extends :: pg_int8
  ExtendTime :: pg_float8
  OpBytes :: pg_int8
  Hits :: pg_int8
  Evictions :: pg_int8
  Reuses :: pg_int8
  Fsyncs :: pg_int8
  FsyncTime :: pg_float8
  StatsReset :: pg_timestamptz

definition PgStatIO_tags :: "string list" where
  "PgStatIO_tags = [
  ''database'', ''backend_type'', ''object'', ''context'', ''reads'', ''read_time'',
   ''writes'', ''write_time'', ''writebacks'', ''writeback_time'', ''extends'',
   ''extend_time'', ''op_bytes'', ''hits'', ''evictions'', ''reuses'', ''fsyncs'',
   ''fsync_time'', ''stats_reset'']"

record PgStatSLRU =
  Database :: pg_text
  Name :: pg_text
  BlksZeroed :: pg_int8
  BlksHit :: pg_int8
  BlksRead :: pg_int8
  BlksWritten :: pg_int8
  BlksExists :: pg_int8
  Flushes :: pg_int8
  Truncates :: pg_int8
  StatsReset :: pg_timestamptz

definition PgStatSLRU_tags :: "string list" where
  "PgStatSLRU_tags = [
  ''database'', ''name'', ''blks_zeroed'', ''blks_hit'', ''blks_read'', ''blks_written'',
   ''blks_exists'', ''flushes'', ''truncates'', ''stats_reset'']"

record PgLock =
  Database :: pg_text
  DatName :: pg_text
  Mode :: pg_text
  LockType :: pg_text
  Granted :: pg_bool
  Count :: pg_int8

definition PgLock_tags :: "string list" where
  "PgLock_tags = [
  ''database'', ''datname'', ''mode'', ''locktype'', ''granted'', ''count'']"

record PgLocksBlockingSummary =
  Database :: pg_text
  BlockedBackends :: pg_int8
  BlockerEdges :: pg_int8

definition PgLocksBlockingSummary_tags :: "string list" where
  "PgLocksBlockingSummary_tags = [
  ''database'', ''blocked_backends'', ''blocker_edges'']"

record PgStatActivity =
  Database :: pg_text
  DatName :: pg_text
  State :: pg_text
  WaitEventType :: pg_text
  BackendType :: pg_text
  Count :: pg_int8
  MaxTxDurationSeconds :: pg_float8
  MaxQueryDurationSeconds :: pg_float8
  MaxBackendAgeSeconds :: pg_float8

definition PgStatActivity_tags :: "string list" where
  "PgStatActivity_tags = [
  ''database'', ''datname'', ''state'', ''wait_event_type'', ''backend_type'', ''count'',
   ''max_tx_duration_seconds'', ''max_query_duration_seconds'', ''max_backend_age_seconds'']"

record PgStatUserTable =
  Database :: pg_text
  SchemaName :: pg_text
  RelName :: pg_text
  SeqScan :: pg_int8
  LastSeqScan :: pg_timestamptz
  SeqTupRead :: pg_int8
  IndexScan :: pg_int8
  LastIdxScan :: pg_timestamptz
  IndexTupFetch :: pg_int8
  NTupInsert :: pg_int8
  NTupUpdate :: pg_int8
  NTupDelete :: pg_int8
  NTupHotUpdate :: pg_int8
  NTupNewpageUpdate :: pg_int8
  NLiveTup :: pg_int8
  NDeadTup :: pg_int8
  NModSinceAnalyze :: pg_int8
  NInsSinceVacuum :: pg_int8
  LastVacuum :: pg_timestamptz
  LastAutoVacuum :: pg_timestamptz
  LastAnalyze :: pg_timestamptz
  LastAutoAnalyze :: pg_timestamptz
  VacuumCount :: pg_int8
  AutoVacuumCount :: pg_int8
  AnalyzeCount :: pg_int8
  AutoAnalyzeCount :: pg_int8

definition PgStatUserTable_tags :: "string list" where
  "PgStatUserTable_tags = [
  ''database'', ''schemaname'', ''relname'', ''seq_scan'', ''last_seq_scan'', ''seq_tup_read'',
   ''idx_scan'', ''last_idx_scan'', ''idx_tup_fetch'', ''n_tup_ins'', ''n_tup_upd'',
   ''n_tup_del'', ''n_tup_hot_upd'', ''n_tup_newpage_upd'', ''n_live_tup'', ''n_dead_tup'',
   ''n_mod_since_analyze'', ''n_ins_since_vacuum'', ''last_vacuum'', ''last_autovacuum'',
   ''last_analyze'', ''last_autoanalyze'', ''vacuum_count'', ''autovacuum_count'',
   ''analyze_count'', ''autoanalyze_count'']"

record PgStatIOUserTable =
  Database :: pg_text
  SchemaName :: pg_text
  RelName :: pg_text
  HeapBlksRead :: pg_int8
  HeapBlksHit :: pg_int8
  IndexBlksRead :: pg_int8
  IndexBlksHit :: pg_int8
  ToastBlksRead :: pg_int8
  ToastBlksHit :: pg_int8
  TidxBlksRead :: pg_int8
  TidxBlksHit :: pg_int8

definition PgStatIOUserTable_tags :: "string list" where
  "PgStatIOUserTable_tags = [
  ''database'', ''schemaname'', ''relname'', ''heap_blks_read'', ''heap_blks_hit'',
   ''idx_blks_read'', ''idx_blks_hit'', ''toast_blks_read'', ''toast_blks_hit'',
   ''tidx_blks_read'', ''tidx_blks_hit'']"

record PgStatUserIndex =
  Database :: pg_text
  SchemaName :: pg_text
  RelName :: pg_text
  IndexRelName :: pg_text
  IndexScan :: pg_int8
  IndexTupRead :: pg_int8
  IndexTupFetch :: pg_int8

definition PgStatUserIndex_tags :: "string list" where
  "PgStatUserIndex_tags = [
  ''database'', ''schemaname'', ''relname'', ''indexrelname'', ''idx_scan'', ''idx_tup_read'',
   ''idx_tup_fetch'']"

record PgStatIOUserIndex =
  Database :: pg_text
  SchemaName :: pg_text
  RelName :: pg_text
  IndexRelName :: pg_text
  IndexBlksRead :: pg_int8
  IndexBlksHit :: pg_int8

definition PgStatIOUserIndex_tags :: "string list" where
  "PgStatIOUserIndex_tags = [
  ''database'', ''schemaname'', ''relname'', ''indexrelname'', ''idx_blks_read'',
   ''idx_blks_hit'']"

record PgStatSSL =
  Database :: pg_text
  SSL :: pg_bool
  Version :: pg_text
  Cipher :: pg_text
  Bits :: pg_int8
  Connections :: pg_int8

definition PgStatSSL_tags :: "string list" where
  "PgStatSSL_tags = [
  ''database'', ''ssl'', ''version'', ''cipher'', ''bits'', ''connections'']"

record PgStatSubscription =
  Database :: pg_text
  SubName :: pg_text
  Active :: pg_bool
  ReceivedLsnBytes :: pg_int8
  LastMsgSendTime :: pg_timestamptz
  LastMsgReceiptTime :: pg_timestamptz
  LatestEndLsnBytes :: pg_int8
  LatestEndTime :: pg_timestamptz

definition PgStatSubscription_tags :: "string list" where
  "PgStatSubscription_tags = [
  ''database'', ''subname'', ''active'', ''received_lsn_bytes'', ''last_msg_send_time'',
   ''last_msg_receipt_time'', ''latest_end_lsn_bytes'', ''latest_end_time'']"

record PgStatSubscriptionStats =
  Database :: pg_text
  SubName :: pg_text
  ApplyErrorCount :: pg_int8
  SyncErrorCount :: pg_int8
  StatsReset :: pg_timestamptz

definition PgStatSubscriptionStats_tags :: "string list" where
  "PgStatSubscriptionStats_tags = [
  ''database'', ''subname'', ''apply_error_count'', ''sync_error_count'', ''stats_reset'']"

record PgSetting =
  Database :: pg_text
  Name :: pg_text
  Unit :: pg_text
  VarType :: pg_text
  Value :: pg_float8

definition PgSetting_tags :: "string list" where
  "PgSetting_tags = [
  ''database'', ''name'', ''unit'', ''vartype'', ''value'']"

record PgStatStatement =
  Database :: pg_text
  RolName :: pg_text
  DatName :: pg_text
  QueryID :: pg_int8
  Query :: pg_text
  Calls :: pg_int8
  TotalTimeSeconds :: pg_float8
  MinTimeSeconds :: pg_float8
  MaxTimeSeconds :: pg_float8
  MeanTimeSeconds :: pg_float8
  StdDevTimeSeconds :: pg_float8
  Rows :: pg_int8
  SharedBlksHit :: pg_int8
  SharedBlksRead :: pg_int8
  SharedBlksDirtied :: pg_int8
  SharedBlksWritten :: pg_int8
  LocalBlksHit :: pg_int8
  LocalBlksRead :: pg_int8
  LocalBlksDirtied :: pg_int8
  LocalBlksWritten :: pg_int8
  TempBlksRead :: pg_int8
  TempBlksWritten :: pg_int8
  BlkReadTimeSeconds :: pg_float8
  BlkWriteTimeSeconds :: pg_float8

definition PgStatStatement_tags :: "string list" where
  "PgStatStatement_tags = [
  ''database'', ''rolname'', ''datname'', ''queryid'', ''query'', ''calls'',
   ''total_time_seconds'', ''min_time_seconds'', ''max_time_seconds'', ''mean_time_seconds'',
   ''stddev_time_seconds'', ''rows'', ''shared_blks_hit'', ''shared_blks_read'',
   ''shared_blks_dirtied'', ''shared_blks_written'', ''local_blks_hit'', ''local_blks_read'',
   ''local_blks_dirtied'', ''local_blks_written'', ''temp_blks_read'', ''temp_blks_written'',
   ''blk_read_time_seconds'', ''blk_write_time_seconds'']"

end
