(* ===== verification/Select.thy ===== *)
theory Select
  imports PgModel DbClient
begin

text \<open>
  The queries of \<open>exporter/db/pg_*.go\<close>. Each \<open>SelectX\<close> takes what \<open>Client.Select\<close> (query and
  scan, see \<open>DbClient.Client_Select\<close>) answers to a SQL text as the argument \<open>q\<close>, and the
  client with its version probes, which the version gates read and change. \<open>X_cols\<close> is the list
  of projected columns of a query, in its order; where the source composes the list from the
  server version, it is a function of the client. White space inside the SQL texts is one space.
\<close>

definition qq :: string where "qq = [CHR 0x27, CHR 0x27]"

definition sql_query :: "string list \<Rightarrow> string \<Rightarrow> string" where
  "sql_query cols rest = ''SELECT '' @ join '', '' cols @ rest"

text \<open>The name under which the server returns a projected column: its alias or the column itself,
  the last word either way, without a table qualifier.\<close>

definition col_name :: "string \<Rightarrow> string" where
  "col_name c = rev (takeWhile (\<lambda>ch. ch \<noteq> CHR '' '' \<and> ch \<noteq> CHR ''.'') (rev c))"

subsection \<open>\<^verbatim>\<open>pg_stat_activity.go\<close>\<close>

definition PgStatActivity_cols :: "string list" where
  "PgStatActivity_cols = [
     ''current_database() AS database'',
     ''COALESCE(datname, '' @ qq @ '') AS datname'',
     ''COALESCE(state, 'disabled') AS state'',
     ''COALESCE(wait_event_type, 'none') AS wait_event_type'',
     ''COALESCE(backend_type, 'unknown') AS backend_type'',
     ''count(*) AS count'',
     ''COALESCE(MAX(EXTRACT(EPOCH FROM now() - xact_start))::float8, 0) AS max_tx_duration_seconds'',
     ''COALESCE(MAX(EXTRACT(EPOCH FROM now() - query_start))::float8, 0) AS max_query_duration_seconds'',
     ''COALESCE(MAX(EXTRACT(EPOCH FROM now() - backend_start))::float8, 0) AS max_backend_age_seconds'']"

definition SelectPgStatActivity :: "(string \<Rightarrow> error + PgStatActivity list) \<Rightarrow> cstate \<Rightarrow> (error + PgStatActivity list) \<times> cstate" where
  "SelectPgStatActivity q s =
    (q (sql_query PgStatActivity_cols ('' FROM pg_stat_activity GROUP BY datname, state, wait_event_type, backend_type'')), s)"

subsection \<open>\<^verbatim>\<open>pg_lock.go\<close>\<close>

definition PgLocks_cols :: "string list" where
  "PgLocks_cols = [
     ''current_database() AS database'',
     ''COALESCE(pg_database.datname, '' @ qq @ '') AS datname'',
     ''mode'',
     ''locktype'',
     ''granted'',
     ''count(*) AS count'']"

definition SelectPgLocks :: "(string \<Rightarrow> error + PgLock list) \<Rightarrow> cstate \<Rightarrow> (error + PgLock list) \<times> cstate" where
  "SelectPgLocks q s =
    (q (sql_query PgLocks_cols ('' FROM pg_locks LEFT JOIN pg_database ON pg_database.oid = pg_locks.database GROUP BY pg_database.datname, mode, locktype, granted'')), s)"

definition PgLocksBlockingSummary_cols :: "string list" where
  "PgLocksBlockingSummary_cols = [
     ''current_database() AS database'',
     ''COUNT(*) FILTER (WHERE cardinality(pg_blocking_pids(pid)) > 0)::bigint AS blocked_backends'',
     ''COALESCE(SUM(cardinality(pg_blocking_pids(pid))), 0)::bigint AS blocker_edges'']"

definition SelectPgLocksBlockingSummary :: "(string \<Rightarrow> error + PgLocksBlockingSummary list) \<Rightarrow> cstate \<Rightarrow> (error + PgLocksBlockingSummary list) \<times> cstate" where
  "SelectPgLocksBlockingSummary q s =
    (q (sql_query PgLocksBlockingSummary_cols ('' FROM pg_stat_activity WHERE state IS NOT NULL'')), s)"

subsection \<open>\<^verbatim>\<open>pg_stat_database.go\<close>\<close>

definition PgStatDatabase_cols :: "cstate \<Rightarrow> string list \<times> cstate" where
  "PgStatDatabase_cols s =
   (let cols = [
       ''current_database() as database'',
       ''datid'',
       ''datname'',
       ''numbackends'',
       ''xact_commit'',
       ''xact_rollback'',
       ''blks_read'',
       ''blks_hit'',
       ''tup_returned'',
       ''tup_fetched'',
       ''tup_inserted'',
       ''tup_updated'',
       ''tup_deleted'',
       ''conflicts'',
       ''temp_files'',
       ''temp_bytes'',
       ''deadlocks'',
       ''blk_read_time'',
       ''blk_write_time'',
       ''stats_reset''];
        (b1, s) = AtLeast 12 0 s;
        cols = (if b1 then cols @ [
       ''checksum_failures'',
       ''checksum_last_failure''] else cols);
        (b2, s) = AtLeast 14 0 s;
        cols = (if b2 then cols @ [
       ''session_time'',
       ''active_time'',
       ''idle_in_transaction_time'',
       ''sessions'',
       ''sessions_abandoned'',
       ''sessions_fatal'',
       ''sessions_killed''] else cols)
    in (cols, s))"

definition SelectPgStatDatabase :: "(string \<Rightarrow> error + PgStatDatabase list) \<Rightarrow> cstate \<Rightarrow> (error + PgStatDatabase list) \<times> cstate" where
  "SelectPgStatDatabase q s =
    (case PgStatDatabase_cols s of (cols, s) \<Rightarrow> (q (sql_query cols ('' FROM pg_stat_database WHERE datname IS NOT NULL AND datname NOT LIKE 'template%'' @ [CHR 0x27])), s))"

subsection \<open>\<^verbatim>\<open>pg_database_size.go\<close>\<close>

definition PgDatabaseSize_cols :: "string list" where
  "PgDatabaseSize_cols = [
     ''current_database() AS database'',
     ''datname'',
     ''pg_database_size(datname) AS bytes'']"

definition SelectPgDatabaseSize :: "(string \<Rightarrow> error + PgDatabaseSize list) \<Rightarrow> cstate \<Rightarrow> (error + PgDatabaseSize list) \<times> cstate" where
  "SelectPgDatabaseSize q s =
    (q (sql_query PgDatabaseSize_cols ('' FROM pg_database WHERE datallowconn AND NOT datistemplate'')), s)"

subsection \<open>\<^verbatim>\<open>pg_stat_bgwriter.go\<close>\<close>

definition PgStatBgwriter_cols :: "cstate \<Rightarrow> string list \<times> cstate" where
  "PgStatBgwriter_cols s =
   (let cols = [
       ''current_database() as database'',
       ''buffers_clean'',
       ''maxwritten_clean'',
       ''buffers_alloc'',
       ''stats_reset''];
        (b1, s) = AtLeast 17 0 s;
        cols = (if \<not> b1 then cols @ [
       ''checkpoints_timed'',
       ''checkpoints_req'',
       ''checkpoint_write_time'',
       ''checkpoint_sync_time'',
       ''buffers_checkpoint'',
       ''buffers_backend'',
       ''buffers_backend_fsync''] else cols)
    in (cols, s))"

definition SelectPgStatBgwriter :: "(string \<Rightarrow> error + PgStatBgwriter list) \<Rightarrow> cstate \<Rightarrow> (error + PgStatBgwriter list) \<times> cstate" where
  "SelectPgStatBgwriter q s =
    (case PgStatBgwriter_cols s of (cols, s) \<Rightarrow> (q (sql_query cols ('' FROM pg_stat_bgwriter'')), s))"

subsection \<open>\<^verbatim>\<open>pg_stat_checkpointer.go\<close>\<close>

definition PgStatCheckpointer_cols :: "string list" where
  "PgStatCheckpointer_cols = [
     ''current_database() as database'',
     ''num_timed'',
     ''num_requested'',
     ''restartpoints_timed'',
     ''restartpoints_req'',
     ''restartpoints_done'',
     ''write_time'',
     ''sync_time'',
     ''buffers_written'',
     ''stats_reset'']"

definition SelectPgStatCheckpointer :: "(string \<Rightarrow> error + PgStatCheckpointer list) \<Rightarrow> cstate \<Rightarrow> (error + PgStatCheckpointer list) \<times> cstate" where
  "SelectPgStatCheckpointer q s =
    (case AtLeast 17 0 s of (b, s) \<Rightarrow>
     if \<not> b then (Inr [], s) else (q (sql_query PgStatCheckpointer_cols ('' FROM pg_stat_checkpointer'')), s))"

subsection \<open>\<^verbatim>\<open>pg_stat_archiver.go\<close>\<close>

definition PgStatArchiver_cols :: "string list" where
  "PgStatArchiver_cols = [
     ''current_database() as database'',
     ''archived_count'',
     ''last_archived_time'',
     ''failed_count'',
     ''last_failed_time'',
     ''stats_reset'']"

definition SelectPgStatArchiver :: "(string \<Rightarrow> error + PgStatArchiver list) \<Rightarrow> cstate \<Rightarrow> (error + PgStatArchiver list) \<times> cstate" where
  "SelectPgStatArchiver q s =
    (q (sql_query PgStatArchiver_cols ('' FROM pg_stat_archiver'')), s)"

subsection \<open>\<^verbatim>\<open>pg_stat_wal.go\<close>\<close>

definition PgStatWal_cols :: "cstate \<Rightarrow> string list \<times> cstate" where
  "PgStatWal_cols s =
   (let cols = [
       ''current_database() AS database'',
       ''wal_records'',
       ''wal_fpi'',
       ''wal_bytes::float8 AS wal_bytes'',
       ''wal_buffers_full'',
       ''stats_reset''];
        (b1, s) = AtLeast 14 0 s;
        (b2, s) = (if b1 then AtLeast 15 0 s else (True, s));
        cols = (if b1 \<and> \<not> b2 then cols @ [
       ''wal_write'',
       ''wal_sync'',
       ''wal_write_time'',
       ''wal_sync_time''] else cols)
    in (cols, s))"

definition SelectPgStatWal :: "(string \<Rightarrow> error + PgStatWal list) \<Rightarrow> cstate \<Rightarrow> (error + PgStatWal list) \<times> cstate" where
  "SelectPgStatWal q s =
    (case AtLeast 14 0 s of (b, s) \<Rightarrow>
     if \<not> b then (Inr [], s) else (case PgStatWal_cols s of (cols, s) \<Rightarrow> (q (sql_query cols ('' FROM pg_stat_wal'')), s)))"

subsection \<open>\<^verbatim>\<open>pg_stat_wal_receiver.go\<close>\<close>

definition PgStatWalReceiver_cols :: "string list" where
  "PgStatWalReceiver_cols = [
     ''current_database() AS database'',
     ''pid'',
     ''status'',
     ''pg_wal_lsn_diff(receive_start_lsn, '0/0')::float8 AS receive_start_lsn_bytes'',
     ''pg_wal_lsn_diff(written_lsn, '0/0')::float8 AS written_lsn_bytes'',
     ''pg_wal_lsn_diff(flushed_lsn, '0/0')::float8 AS flushed_lsn_bytes'',
     ''pg_wal_lsn_diff(latest_end_lsn, '0/0')::float8 AS latest_end_lsn_bytes'',
     ''last_msg_send_time'',
     ''last_msg_receipt_time'',
     ''latest_end_time'',
     ''slot_name'',
     ''sender_host'']"

definition SelectPgStatWalReceiver :: "(string \<Rightarrow> error + PgStatWalReceiver list) \<Rightarrow> cstate \<Rightarrow> (error + PgStatWalReceiver list) \<times> cstate" where
  "SelectPgStatWalReceiver q s =
    (q (sql_query PgStatWalReceiver_cols ('' FROM pg_stat_wal_receiver'')), s)"

subsection \<open>\<^verbatim>\<open>pg_stat_replication.go\<close>\<close>

definition PgStatReplication_cols :: "string list" where
  "PgStatReplication_cols = [
     ''current_database() AS database'',
     ''pid'',
     ''application_name'',
     ''client_addr::text AS client_addr'',
     ''state'',
     ''sync_state'',
     ''CASE WHEN pg_is_in_recovery() THEN NULL ELSE pg_wal_lsn_diff(pg_current_wal_lsn(), sent_lsn)::float8 END AS sent_lag_bytes'',
     ''CASE WHEN pg_is_in_recovery() THEN NULL ELSE pg_wal_lsn_diff(pg_current_wal_lsn(), write_lsn)::float8 END AS write_lag_bytes'',
     ''CASE WHEN pg_is_in_recovery() THEN NULL ELSE pg_wal_lsn_diff(pg_current_wal_lsn(), flush_lsn)::float8 END AS flush_lag_bytes'',
     ''CASE WHEN pg_is_in_recovery() THEN NULL ELSE pg_wal_lsn_diff(pg_current_wal_lsn(), replay_lsn)::float8 END AS replay_lag_bytes'',
     ''EXTRACT(EPOCH FROM write_lag)::float8 AS write_lag_seconds'',
     ''EXTRACT(EPOCH FROM flush_lag)::float8 AS flush_lag_seconds'',
     ''EXTRACT(EPOCH FROM replay_lag)::float8 AS replay_lag_seconds'']"

definition SelectPgStatReplication :: "(string \<Rightarrow> error + PgStatReplication list) \<Rightarrow> cstate \<Rightarrow> (error + PgStatReplication list) \<times> cstate" where
  "SelectPgStatReplication q s =
    (q (sql_query PgStatReplication_cols ('' FROM pg_stat_replication'')), s)"

subsection \<open>\<^verbatim>\<open>pg_replication_slots.go\<close>\<close>

definition PgReplicationSlots_cols :: "cstate \<Rightarrow> string list \<times> cstate" where
  "PgReplicationSlots_cols s =
   (let cols = [
       ''current_database() AS database'',
       ''slot_name'',
       ''COALESCE(plugin, '' @ qq @ '') AS plugin'',
       ''slot_type'',
       ''COALESCE(database, '' @ qq @ '') AS datname'',
       ''active'',
       ''temporary'',
       ''pg_wal_lsn_diff(restart_lsn, '0/0')::float8 AS restart_lsn_bytes'',
       ''pg_wal_lsn_diff(confirmed_flush_lsn, '0/0')::float8 AS confirmed_flush_lsn_bytes'',
       ''CASE WHEN pg_is_in_recovery() THEN NULL ELSE pg_wal_lsn_diff(pg_current_wal_lsn(), restart_lsn)::float8 END AS retained_wal_bytes''];
        (b1, s) = AtLeast 13 0 s;
        cols = (if b1 then cols @ [
       ''wal_status'',
       ''safe_wal_size AS safe_wal_size_bytes''] else cols);
        (b2, s) = AtLeast 16 0 s;
        cols = (if b2 then cols @ [
       ''conflicting''] else cols)
    in (cols, s))"

definition SelectPgReplicationSlots :: "(string \<Rightarrow> error + PgReplicationSlot list) \<Rightarrow> cstate \<Rightarrow> (error + PgReplicationSlot list) \<times> cstate" where
  "SelectPgReplicationSlots q s =
    (case PgReplicationSlots_cols s of (cols, s) \<Rightarrow> (q (sql_query cols ('' FROM pg_replication_slots'')), s))"

subsection \<open>\<^verbatim>\<open>pg_stat_io.go\<close>\<close>

definition PgStatIO_cols :: "cstate \<Rightarrow> string list \<times> cstate" where
  "PgStatIO_cols s =
   (let cols = [
       ''current_database() AS database'',
       ''COALESCE(backend_type, '' @ qq @ '') AS backend_type'',
       ''COALESCE(object, '' @ qq @ '') AS object'',
       ''COALESCE(context, '' @ qq @ '') AS context'',
       ''reads'',
       ''read_time'',
       ''writes'',
       ''write_time'',
       ''writebacks'',
       ''writeback_time'',
       ''extends'',
       ''extend_time'',
       ''hits'',
       ''evictions'',
       ''reuses'',
       ''fsyncs'',
       ''fsync_time'',
       ''stats_reset''];
        (b1, s) = AtLeast 18 0 s;
        cols = (if \<not> b1 then cols @ [
       ''op_bytes''] else cols)
    in (cols, s))"

definition SelectPgStatIO :: "(string \<Rightarrow> error + PgStatIO list) \<Rightarrow> cstate \<Rightarrow> (error + PgStatIO list) \<times> cstate" where
  "SelectPgStatIO q s =
    (case AtLeast 16 0 s of (b, s) \<Rightarrow>
     if \<not> b then (Inr [], s) else (case PgStatIO_cols s of (cols, s) \<Rightarrow> (q (sql_query cols ('' FROM pg_stat_io'')), s)))"

subsection \<open>\<^verbatim>\<open>pg_stat_slru.go\<close>\<close>

definition PgStatSLRU_cols :: "string list" where
  "PgStatSLRU_cols = [
     ''current_database() AS database'',
     ''name'',
     ''blks_zeroed'',
     ''blks_hit'',
     ''blks_read'',
     ''blks_written'',
     ''blks_exists'',
     ''flushes'',
     ''truncates'',
     ''stats_reset'']"

definition SelectPgStatSLRU :: "(string \<Rightarrow> error + PgStatSLRU list) \<Rightarrow> cstate \<Rightarrow> (error + PgStatSLRU list) \<times> cstate" where
  "SelectPgStatSLRU q s =
    (case AtLeast 13 0 s of (b, s) \<Rightarrow>
     if \<not> b then (Inr [], s) else (q (sql_query PgStatSLRU_cols ('' FROM pg_stat_slru'')), s))"

subsection \<open>\<^verbatim>\<open>pg_stat_ssl.go\<close>\<close>

definition PgStatSSL_cols :: "string list" where
  "PgStatSSL_cols = [
     ''current_database() AS database'',
     ''ssl'',
     ''coalesce(version, '' @ qq @ '') AS version'',
     ''coalesce(cipher, '' @ qq @ '') AS cipher'',
     ''coalesce(bits, 0) AS bits'',
     ''count(*) AS connections'']"

definition SelectPgStatSSL :: "(string \<Rightarrow> error + PgStatSSL list) \<Rightarrow> cstate \<Rightarrow> (error + PgStatSSL list) \<times> cstate" where
  "SelectPgStatSSL q s =
    (q (sql_query PgStatSSL_cols ('' FROM pg_stat_ssl GROUP BY ssl, version, cipher, bits'')), s)"

subsection \<open>\<^verbatim>\<open>pg_stat_subscription.go\<close>\<close>

definition PgStatSubscription_cols :: "string list" where
  "PgStatSubscription_cols = [
     ''current_database() AS database'',
     ''subname'',
     ''bool_or(pid IS NOT NULL) AS active'',
     ''(max(received_lsn) - '0/0')::int8 AS received_lsn_bytes'',
     ''max(last_msg_send_time) AS last_msg_send_time'',
     ''max(last_msg_receipt_time) AS last_msg_receipt_time'',
     ''(max(latest_end_lsn) - '0/0')::int8 AS latest_end_lsn_bytes'',
     ''max(latest_end_time) AS latest_end_time'']"

definition SelectPgStatSubscription :: "(string \<Rightarrow> error + PgStatSubscription list) \<Rightarrow> cstate \<Rightarrow> (error + PgStatSubscription list) \<times> cstate" where
  "SelectPgStatSubscription q s =
    (q (sql_query PgStatSubscription_cols ('' FROM pg_stat_subscription GROUP BY subname'')), s)"

definition PgStatSubscriptionStats_cols :: "string list" where
  "PgStatSubscriptionStats_cols = [
     ''current_database() AS database'',
     ''subname'',
     ''apply_error_count'',
     ''sync_error_count'',
     ''stats_reset'']"

definition SelectPgStatSubscriptionStats :: "(string \<Rightarrow> error + PgStatSubscriptionStats list) \<Rightarrow> cstate \<Rightarrow> (error + PgStatSubscriptionStats list) \<times> cstate" where
  "SelectPgStatSubscriptionStats q s =
    (case AtLeast 15 0 s of (b, s) \<Rightarrow>
     if \<not> b then (Inr [], s) else (q (sql_query PgStatSubscriptionStats_cols ('' FROM pg_stat_subscription_stats'')), s))"

subsection \<open>\<^verbatim>\<open>pg_settings.go\<close>\<close>

definition PgSettings_cols :: "string list" where
  "PgSettings_cols = [
     ''current_database() AS database'',
     ''name'',
     ''coalesce(unit, '' @ qq @ '') AS unit'',
     ''vartype'',
     ''CASE WHEN vartype = 'bool' THEN CASE WHEN setting = 'on' THEN 1 ELSE 0 END WHEN setting ~ '^-?[0-9]+('' @ [CHR 0x5C] @ ''.[0-9]+)?$' THEN setting::float8 ELSE 0 END AS value'']"

definition SelectPgSettings :: "(string \<Rightarrow> error + PgSetting list) \<Rightarrow> cstate \<Rightarrow> (error + PgSetting list) \<times> cstate" where
  "SelectPgSettings q s =
    (q (sql_query PgSettings_cols ('' FROM pg_settings WHERE vartype IN ('bool', 'integer', 'real')'')), s)"

subsection \<open>\<^verbatim>\<open>pg_stat_user_tables.go\<close>\<close>

definition PgStatUserTables_cols :: "cstate \<Rightarrow> string list \<times> cstate" where
  "PgStatUserTables_cols s =
   (let cols = [
       ''current_database() as database'',
       ''schemaname'',
       ''relname'',
       ''seq_scan'',
       ''seq_tup_read'',
       ''idx_scan'',
       ''idx_tup_fetch'',
       ''n_tup_ins'',
       ''n_tup_upd'',
       ''n_tup_del'',
       ''n_tup_hot_upd'',
       ''n_live_tup'',
       ''n_dead_tup'',
       ''n_mod_since_analyze'',
       ''last_vacuum'',
       ''last_autovacuum'',
       ''last_analyze'',
       ''last_autoanalyze'',
       ''vacuum_count'',
       ''autovacuum_count'',
       ''analyze_count'',
       ''autoanalyze_count''];
        (b1, s) = AtLeast 13 0 s;
        cols = (if b1 then cols @ [
       ''n_ins_since_vacuum''] else cols);
        (b2, s) = AtLeast 16 0 s;
        cols = (if b2 then cols @ [
       ''last_seq_scan'',
       ''last_idx_scan''] else cols);
        (b3, s) = AtLeast 17 0 s;
        cols = (if b3 then cols @ [
       ''n_tup_newpage_upd''] else cols)
    in (cols, s))"

definition SelectPgStatUserTables :: "(string \<Rightarrow> error + PgStatUserTable list) \<Rightarrow> cstate \<Rightarrow> (error + PgStatUserTable list) \<times> cstate" where
  "SelectPgStatUserTables q s =
    (case PgStatUserTables_cols s of (cols, s) \<Rightarrow> (q (sql_query cols ('' FROM pg_stat_user_tables'')), s))"

subsection \<open>\<^verbatim>\<open>pg_stat_user_indexes.go\<close>\<close>

definition PgStatUserIndexes_cols :: "string list" where
  "PgStatUserIndexes_cols = [
     ''current_database() as database'',
     ''schemaname'',
     ''relname'',
     ''indexrelname'',
     ''idx_scan'',
     ''idx_tup_read'',
     ''idx_tup_fetch'']"

definition SelectPgStatUserIndexes :: "(string \<Rightarrow> error + PgStatUserIndex list) \<Rightarrow> cstate \<Rightarrow> (error + PgStatUserIndex list) \<times> cstate" where
  "SelectPgStatUserIndexes q s =
    (q (sql_query PgStatUserIndexes_cols ('' FROM pg_stat_user_indexes'')), s)"

subsection \<open>\<^verbatim>\<open>pg_statio_user_tables.go\<close>\<close>

definition PgStatIOUserTables_cols :: "string list" where
  "PgStatIOUserTables_cols = [
     ''current_database() as database'',
     ''schemaname'',
     ''relname'',
     ''heap_blks_read'',
     ''heap_blks_hit'',
     ''idx_blks_read'',
     ''idx_blks_hit'',
     ''toast_blks_read'',
     ''toast_blks_hit'',
     ''tidx_blks_read'',
     ''tidx_blks_hit'']"

definition SelectPgStatIOUserTables :: "(string \<Rightarrow> error + PgStatIOUserTable list) \<Rightarrow> cstate \<Rightarrow> (error + PgStatIOUserTable list) \<times> cstate" where
  "SelectPgStatIOUserTables q s =
    (q (sql_query PgStatIOUserTables_cols ('' FROM pg_statio_user_tables'')), s)"

subsection \<open>\<^verbatim>\<open>pg_statio_user_indexes.go\<close>\<close>

definition PgStatIOUserIndexes_cols :: "string list" where
  "PgStatIOUserIndexes_cols = [
     ''current_database() as database'',
     ''schemaname'',
     ''relname'',
     ''indexrelname'',
     ''idx_blks_read'',
     ''idx_blks_hit'']"

definition SelectPgStatIOUserIndexes :: "(string \<Rightarrow> error + PgStatIOUserIndex list) \<Rightarrow> cstate \<Rightarrow> (error + PgStatIOUserIndex list) \<times> cstate" where
  "SelectPgStatIOUserIndexes q s =
    (q (sql_query PgStatIOUserIndexes_cols ('' FROM pg_statio_user_indexes'')), s)"

subsection \<open>\<^verbatim>\<open>pg_stat_statements.go\<close>\<close>

definition PgStatStatements_cols :: "string list" where
  "PgStatStatements_cols = [
     ''current_database() as database'',
     ''t2.rolname'',
     ''t3.datname'',
     ''queryid'',
     ''concat(left(query, 200), '__@',queryid::text, '__', length(query)) as query'',
     ''calls'',
     ''total_time / 1000 as total_time_seconds'',
     ''min_time / 1000 as min_time_seconds'',
     ''max_time / 1000 as max_time_seconds'',
     ''mean_time / 1000 as mean_time_seconds'',
     ''stddev_time / 1000 as stddev_time_seconds'',
     ''rows'',
     ''shared_blks_hit'',
     ''shared_blks_read'',
     ''shared_blks_dirtied'',
     ''shared_blks_written'',
     ''local_blks_hit'',
     ''local_blks_read'',
     ''local_blks_dirtied'',
     ''local_blks_written'',
     ''temp_blks_read'',
     ''temp_blks_written'',
     ''blk_read_time / 1000 as blk_read_time_seconds'',
     ''blk_write_time / 1000 as blk_write_time_seconds'']"

definition SelectPgStatStatements :: "(string \<Rightarrow> error + PgStatStatement list) \<Rightarrow> cstate \<Rightarrow> (error + PgStatStatement list) \<times> cstate" where
  "SelectPgStatStatements q s =
    (q (sql_query PgStatStatements_cols ('' FROM pg_stat_statements t1 JOIN pg_roles t2 ON (t1.userid=t2.oid) JOIN pg_database t3 ON (t1.dbid=t3.oid) WHERE t2.rolname != 'rdsadmin'' @ [CHR 0x27])), s)"

subsection \<open>\<^verbatim>\<open>pg_stat_progress_vacuum.go\<close>\<close>

definition PgStatProgressVacuum_cols :: "string list" where
  "PgStatProgressVacuum_cols = [
     ''current_database() AS database'',
     ''COALESCE(datname, '' @ qq @ '') AS datname'',
     ''relid::text AS relid'',
     ''COALESCE(phase, '' @ qq @ '') AS phase'',
     ''heap_blks_total'',
     ''heap_blks_scanned'',
     ''heap_blks_vacuumed'',
     ''index_vacuum_count'']"

definition SelectPgStatProgressVacuum :: "(string \<Rightarrow> error + PgStatProgressVacuum list) \<Rightarrow> cstate \<Rightarrow> (error + PgStatProgressVacuum list) \<times> cstate" where
  "SelectPgStatProgressVacuum q s =
    (q (sql_query PgStatProgressVacuum_cols ('' FROM pg_stat_progress_vacuum'')), s)"

subsection \<open>\<^verbatim>\<open>pg_stat_progress.go\<close>\<close>

definition PgStatProgressAnalyze_cols :: "string list" where
  "PgStatProgressAnalyze_cols = [
     ''current_database() AS database'',
     ''COALESCE(datname, '' @ qq @ '') AS datname'',
     ''relid::text AS relid'',
     ''COALESCE(phase, '' @ qq @ '') AS phase'',
     ''sample_blks_total'',
     ''sample_blks_scanned'',
     ''ext_stats_total'',
     ''ext_stats_computed'',
     ''child_tables_total'',
     ''child_tables_done'']"

definition SelectPgStatProgressAnalyze :: "(string \<Rightarrow> error + PgStatProgressAnalyze list) \<Rightarrow> cstate \<Rightarrow> (error + PgStatProgressAnalyze list) \<times> cstate" where
  "SelectPgStatProgressAnalyze q s =
    (case AtLeast 13 0 s of (b, s) \<Rightarrow>
     if \<not> b then (Inr [], s) else (q (sql_query PgStatProgressAnalyze_cols ('' FROM pg_stat_progress_analyze'')), s))"

definition PgStatProgressBasebackup_cols :: "string list" where
  "PgStatProgressBasebackup_cols = [
     ''current_database() AS database'',
     ''COALESCE(phase, '' @ qq @ '') AS phase'',
     ''backup_total'',
     ''backup_streamed'',
     ''tablespaces_total'',
     ''tablespaces_streamed'']"

definition SelectPgStatProgressBasebackup :: "(string \<Rightarrow> error + PgStatProgressBasebackup list) \<Rightarrow> cstate \<Rightarrow> (error + PgStatProgressBasebackup list) \<times> cstate" where
  "SelectPgStatProgressBasebackup q s =
    (case AtLeast 13 0 s of (b, s) \<Rightarrow>
     if \<not> b then (Inr [], s) else (q (sql_query PgStatProgressBasebackup_cols ('' FROM pg_stat_progress_basebackup'')), s))"

definition PgStatProgressCopy_cols :: "string list" where
  "PgStatProgressCopy_cols = [
     ''current_database() AS database'',
     ''COALESCE(datname, '' @ qq @ '') AS datname'',
     ''relid::text AS relid'',
     ''COALESCE(command, '' @ qq @ '') AS command'',
     ''COALESCE(type, '' @ qq @ '') AS type'',
     ''bytes_total'',
     ''bytes_processed'',
     ''tuples_processed'',
     ''tuples_excluded'']"

definition SelectPgStatProgressCopy :: "(string \<Rightarrow> error + PgStatProgressCopy list) \<Rightarrow> cstate \<Rightarrow> (error + PgStatProgressCopy list) \<times> cstate" where
  "SelectPgStatProgressCopy q s =
    (case AtLeast 14 0 s of (b, s) \<Rightarrow>
     if \<not> b then (Inr [], s) else (q (sql_query PgStatProgressCopy_cols ('' FROM pg_stat_progress_copy'')), s))"

definition PgStatProgressCreateIndex_cols :: "string list" where
  "PgStatProgressCreateIndex_cols = [
     ''current_database() AS database'',
     ''COALESCE(datname, '' @ qq @ '') AS datname'',
     ''relid::text AS relid'',
     ''index_relid::text AS index_relid'',
     ''COALESCE(command, '' @ qq @ '') AS command'',
     ''COALESCE(phase, '' @ qq @ '') AS phase'',
     ''lockers_total'',
     ''lockers_done'',
     ''blocks_total'',
     ''blocks_done'',
     ''tuples_total'',
     ''tuples_done'',
     ''partitions_total'',
     ''partitions_done'']"

definition SelectPgStatProgressCreateIndex :: "(string \<Rightarrow> error + PgStatProgressCreateIndex list) \<Rightarrow> cstate \<Rightarrow> (error + PgStatProgressCreateIndex list) \<times> cstate" where
  "SelectPgStatProgressCreateIndex q s =
    (q (sql_query PgStatProgressCreateIndex_cols ('' FROM pg_stat_progress_create_index'')), s)"

definition PgStatProgressCluster_cols :: "string list" where
  "PgStatProgressCluster_cols = [
     ''current_database() AS database'',
     ''COALESCE(datname, '' @ qq @ '') AS datname'',
     ''relid::text AS relid'',
     ''COALESCE(command, '' @ qq @ '') AS command'',
     ''COALESCE(phase, '' @ qq @ '') AS phase'',
     ''heap_tuples_scanned'',
     ''heap_tuples_written'',
     ''heap_blks_total'',
     ''heap_blks_scanned'',
     ''index_rebuild_count'']"

definition SelectPgStatProgressCluster :: "(string \<Rightarrow> error + PgStatProgressCluster list) \<Rightarrow> cstate \<Rightarrow> (error + PgStatProgressCluster list) \<times> cstate" where
  "SelectPgStatProgressCluster q s =
    (q (sql_query PgStatProgressCluster_cols ('' FROM pg_stat_progress_cluster'')), s)"

subsection \<open>Every projected column has a field in the row struct\<close>

text \<open>
  scany fails a scan when the result set has a column that no field of the destination struct
  is tagged with, or has one column twice. A query is safe when neither can happen.
\<close>

definition projects_into :: "string list \<Rightarrow> string list \<Rightarrow> bool" where
  "projects_into cols tags \<longleftrightarrow>
     list_all (\<lambda>c. List.member tags (col_name c)) cols \<and> distinct (map col_name cols)"

lemma PgStatActivity_projects: "projects_into PgStatActivity_cols PgStatActivity_tags"
  by code_simp

lemma PgLocks_projects: "projects_into PgLocks_cols PgLock_tags"
  by code_simp

lemma PgLocksBlockingSummary_projects: "projects_into PgLocksBlockingSummary_cols PgLocksBlockingSummary_tags"
  by code_simp

lemma PgDatabaseSize_projects: "projects_into PgDatabaseSize_cols PgDatabaseSize_tags"
  by code_simp

lemma PgStatCheckpointer_projects: "projects_into PgStatCheckpointer_cols PgStatCheckpointer_tags"
  by code_simp

lemma PgStatArchiver_projects: "projects_into PgStatArchiver_cols PgStatArchiver_tags"
  by code_simp

lemma PgStatWalReceiver_projects: "projects_into PgStatWalReceiver_cols PgStatWalReceiver_tags"
  by code_simp

lemma PgStatReplication_projects: "projects_into PgStatReplication_cols PgStatReplication_tags"
  by code_simp

lemma PgStatSLRU_projects: "projects_into PgStatSLRU_cols PgStatSLRU_tags"
  by code_simp

lemma PgStatSSL_projects: "projects_into PgStatSSL_cols PgStatSSL_tags"
  by code_simp

lemma PgStatSubscription_projects: "projects_into PgStatSubscription_cols PgStatSubscription_tags"
  by code_simp

lemma PgStatSubscriptionStats_projects: "projects_into PgStatSubscriptionStats_cols PgStatSubscriptionStats_tags"
  by code_simp

lemma PgSettings_projects: "projects_into PgSettings_cols PgSetting_tags"
  by code_simp

lemma PgStatUserIndexes_projects: "projects_into PgStatUserIndexes_cols PgStatUserIndex_tags"
  by code_simp

lemma PgStatIOUserTables_projects: "projects_into PgStatIOUserTables_cols PgStatIOUserTable_tags"
  by code_simp

lemma PgStatIOUserIndexes_projects: "projects_into PgStatIOUserIndexes_cols PgStatIOUserIndex_tags"
  by code_simp

lemma PgStatStatements_projects: "projects_into PgStatStatements_cols PgStatStatement_tags"
  by code_simp

lemma PgStatProgressVacuum_projects: "projects_into PgStatProgressVacuum_cols PgStatProgressVacuum_tags"
  by code_simp

lemma PgStatProgressAnalyze_projects: "projects_into PgStatProgressAnalyze_cols PgStatProgressAnalyze_tags"
  by code_simp

lemma PgStatProgressBasebackup_projects: "projects_into PgStatProgressBasebackup_cols PgStatProgressBasebackup_tags"
  by code_simp

lemma PgStatProgressCopy_projects: "projects_into PgStatProgressCopy_cols PgStatProgressCopy_tags"
  by code_simp

lemma PgStatProgressCreateIndex_projects: "projects_into PgStatProgressCreateIndex_cols PgStatProgressCreateIndex_tags"
  by code_simp

lemma PgStatProgressCluster_projects: "projects_into PgStatProgressCluster_cols PgStatProgressCluster_tags"
  by code_simp

lemma PgStatDatabase_projects: "projects_into (fst (PgStatDatabase_cols s)) PgStatDatabase_tags"
  unfolding PgStatDatabase_cols_def Let_def case_prod_beta fst_conv snd_conv
  by (split if_split)+ (intro conjI impI; ((erule thin_rl)+)?; code_simp)

lemma PgStatBgwriter_projects: "projects_into (fst (PgStatBgwriter_cols s)) PgStatBgwriter_tags"
  unfolding PgStatBgwriter_cols_def Let_def case_prod_beta fst_conv snd_conv
  by (split if_split)+ (intro conjI impI; ((erule thin_rl)+)?; code_simp)

lemma PgStatWal_projects: "projects_into (fst (PgStatWal_cols s)) PgStatWal_tags"
  unfolding PgStatWal_cols_def Let_def case_prod_beta fst_conv snd_conv
  by (split if_split)+ (intro conjI impI; ((erule thin_rl)+)?; code_simp)

lemma PgReplicationSlots_projects: "projects_into (fst (PgReplicationSlots_cols s)) PgReplicationSlot_tags"
  unfolding PgReplicationSlots_cols_def Let_def case_prod_beta fst_conv snd_conv
  by (split if_split)+ (intro conjI impI; ((erule thin_rl)+)?; code_simp)

lemma PgStatIO_projects: "projects_into (fst (PgStatIO_cols s)) PgStatIO_tags"
  unfolding PgStatIO_cols_def Let_def case_prod_beta fst_conv snd_conv
  by (split if_split)+ (intro conjI impI; ((erule thin_rl)+)?; code_simp)

lemma PgStatUserTables_projects: "projects_into (fst (PgStatUserTables_cols s)) PgStatUserTable_tags"
  unfolding PgStatUserTables_cols_def Let_def case_prod_beta fst_conv snd_conv
  by (split if_split)+ (intro conjI impI; ((erule thin_rl)+)?; code_simp)

lemmas projects =
  PgStatActivity_projects
  PgLocks_projects
  PgLocksBlockingSummary_projects
  PgStatDatabase_projects
  PgDatabaseSize_projects
  PgStatBgwriter_projects
  PgStatCheckpointer_projects
  PgStatArchiver_projects
  PgStatWal_projects
  PgStatWalReceiver_projects
  PgStatReplication_projects
  PgReplicationSlots_projects
  PgStatIO_projects
  PgStatSLRU_projects
  PgStatSSL_projects
  PgStatSubscription_projects
  PgStatSubscriptionStats_projects
  PgSettings_projects
  PgStatUserTables_projects
  PgStatUserIndexes_projects
  PgStatIOUserTables_projects
  PgStatIOUserIndexes_projects
  PgStatStatements_projects
  PgStatProgressVacuum_projects
  PgStatProgressAnalyze_projects
  PgStatProgressBasebackup_projects
  PgStatProgressCopy_projects
  PgStatProgressCreateIndex_projects
  PgStatProgressCluster_projects

lemmas query_defs =
  SelectPgStatActivity_def SelectPgLocks_def SelectPgLocksBlockingSummary_def SelectPgStatDatabase_def
  SelectPgDatabaseSize_def SelectPgStatBgwriter_def SelectPgStatCheckpointer_def SelectPgStatArchiver_def
  SelectPgStatWal_def SelectPgStatWalReceiver_def SelectPgStatReplication_def SelectPgReplicationSlots_def
  SelectPgStatIO_def SelectPgStatSLRU_def SelectPgStatSSL_def SelectPgStatSubscription_def
  SelectPgStatSubscriptionStats_def SelectPgSettings_def SelectPgStatUserTables_def
  SelectPgStatUserIndexes_def SelectPgStatIOUserTables_def SelectPgStatIOUserIndexes_def
  SelectPgStatStatements_def SelectPgStatProgressVacuum_def SelectPgStatProgressAnalyze_def
  SelectPgStatProgressBasebackup_def SelectPgStatProgressCopy_def SelectPgStatProgressCreateIndex_def
  SelectPgStatProgressCluster_def

lemmas cols_defs =
  PgStatDatabase_cols_def PgStatBgwriter_cols_def PgStatWal_cols_def PgReplicationSlots_cols_def
  PgStatIO_cols_def PgStatUserTables_cols_def

subsection \<open>Gates\<close>

text \<open>A query behind a gate is not sent when the gate is closed: its answer does not depend on
  what the server would answer, and is empty.\<close>

lemma some_answer_differs: "(\<forall>q :: 'a \<Rightarrow> error + 'b list. q sql = Inr []) \<longleftrightarrow> False"
  by (auto intro: exI [of _ "\<lambda>_. Inl []"])

lemma no_query_iff:
  "(\<forall>q. fst (SelectPgStatCheckpointer q s) = Inr []) \<longleftrightarrow> \<not> fst (AtLeast 17 0 s)"
  "(\<forall>q. fst (SelectPgStatWal q s) = Inr []) \<longleftrightarrow> \<not> fst (AtLeast 14 0 s)"
  "(\<forall>q. fst (SelectPgStatIO q s) = Inr []) \<longleftrightarrow> \<not> fst (AtLeast 16 0 s)"
  "(\<forall>q. fst (SelectPgStatSLRU q s) = Inr []) \<longleftrightarrow> \<not> fst (AtLeast 13 0 s)"
  "(\<forall>q. fst (SelectPgStatSubscriptionStats q s) = Inr []) \<longleftrightarrow> \<not> fst (AtLeast 15 0 s)"
  "(\<forall>q. fst (SelectPgStatProgressAnalyze q s) = Inr []) \<longleftrightarrow> \<not> fst (AtLeast 13 0 s)"
  "(\<forall>q. fst (SelectPgStatProgressBasebackup q s) = Inr []) \<longleftrightarrow> \<not> fst (AtLeast 13 0 s)"
  "(\<forall>q. fst (SelectPgStatProgressCopy q s) = Inr []) \<longleftrightarrow> \<not> fst (AtLeast 14 0 s)"
  by (simp_all add: SelectPgStatCheckpointer_def SelectPgStatWal_def SelectPgStatIO_def
      SelectPgStatSLRU_def SelectPgStatSubscriptionStats_def SelectPgStatProgressAnalyze_def
      SelectPgStatProgressBasebackup_def SelectPgStatProgressCopy_def case_prod_beta some_answer_differs)

subsection \<open>Properties\<close>

text \<open>
  C18. No server version can make a scan fail: whatever the version gates answer, every one of
  the 29 queries projects distinct columns, and each of them is the tag of a field of the row
  struct it is scanned into.
\<close>

theorem projected_columns_have_fields:
  "projects_into PgStatActivity_cols PgStatActivity_tags \<and>
   projects_into PgLocks_cols PgLock_tags \<and>
   projects_into PgLocksBlockingSummary_cols PgLocksBlockingSummary_tags \<and>
   projects_into (fst (PgStatDatabase_cols s)) PgStatDatabase_tags \<and>
   projects_into PgDatabaseSize_cols PgDatabaseSize_tags \<and>
   projects_into (fst (PgStatBgwriter_cols s)) PgStatBgwriter_tags \<and>
   projects_into PgStatCheckpointer_cols PgStatCheckpointer_tags \<and>
   projects_into PgStatArchiver_cols PgStatArchiver_tags \<and>
   projects_into (fst (PgStatWal_cols s)) PgStatWal_tags \<and>
   projects_into PgStatWalReceiver_cols PgStatWalReceiver_tags \<and>
   projects_into PgStatReplication_cols PgStatReplication_tags \<and>
   projects_into (fst (PgReplicationSlots_cols s)) PgReplicationSlot_tags \<and>
   projects_into (fst (PgStatIO_cols s)) PgStatIO_tags \<and>
   projects_into PgStatSLRU_cols PgStatSLRU_tags \<and>
   projects_into PgStatSSL_cols PgStatSSL_tags \<and>
   projects_into PgStatSubscription_cols PgStatSubscription_tags \<and>
   projects_into PgStatSubscriptionStats_cols PgStatSubscriptionStats_tags \<and>
   projects_into PgSettings_cols PgSetting_tags \<and>
   projects_into (fst (PgStatUserTables_cols s)) PgStatUserTable_tags \<and>
   projects_into PgStatUserIndexes_cols PgStatUserIndex_tags \<and>
   projects_into PgStatIOUserTables_cols PgStatIOUserTable_tags \<and>
   projects_into PgStatIOUserIndexes_cols PgStatIOUserIndex_tags \<and>
   projects_into PgStatStatements_cols PgStatStatement_tags \<and>
   projects_into PgStatProgressVacuum_cols PgStatProgressVacuum_tags \<and>
   projects_into PgStatProgressAnalyze_cols PgStatProgressAnalyze_tags \<and>
   projects_into PgStatProgressBasebackup_cols PgStatProgressBasebackup_tags \<and>
   projects_into PgStatProgressCopy_cols PgStatProgressCopy_tags \<and>
   projects_into PgStatProgressCreateIndex_cols PgStatProgressCreateIndex_tags \<and>
   projects_into PgStatProgressCluster_cols PgStatProgressCluster_tags"
  by (intro conjI) (rule projects)+

text \<open>
  C19. The views that a server lacks are never queried: on a client whose server version is known
  to be \<open>v\<close>, each of the eight gated queries is sent exactly when \<open>v\<close> has the view, and answers
  no rows otherwise. The check for both statistics views of the checkpointer is complementary:
  \<open>pg_stat_bgwriter\<close> is asked for the checkpoint columns exactly when \<open>pg_stat_checkpointer\<close> is
  not read.
\<close>

theorem gated_views:
  assumes "ServerVersionNum (fst s) = v" and "v \<noteq> 0"
  shows "((\<forall>q. fst (SelectPgStatCheckpointer q s) = Inr []) \<longleftrightarrow> v < 170000) \<and>
    ((\<forall>q. fst (SelectPgStatWal q s) = Inr []) \<longleftrightarrow> v < 140000) \<and>
    ((\<forall>q. fst (SelectPgStatIO q s) = Inr []) \<longleftrightarrow> v < 160000) \<and>
    ((\<forall>q. fst (SelectPgStatSLRU q s) = Inr []) \<longleftrightarrow> v < 130000) \<and>
    ((\<forall>q. fst (SelectPgStatSubscriptionStats q s) = Inr []) \<longleftrightarrow> v < 150000) \<and>
    ((\<forall>q. fst (SelectPgStatProgressAnalyze q s) = Inr []) \<longleftrightarrow> v < 130000) \<and>
    ((\<forall>q. fst (SelectPgStatProgressBasebackup q s) = Inr []) \<longleftrightarrow> v < 130000) \<and>
    ((\<forall>q. fst (SelectPgStatProgressCopy q s) = Inr []) \<longleftrightarrow> v < 140000) \<and>
    (''checkpoints_timed'' \<in> set (fst (PgStatBgwriter_cols s)) \<longleftrightarrow>
       (\<forall>q. fst (SelectPgStatCheckpointer q s) = Inr []))"
proof -
  have gate: "fst (AtLeast a b s) \<longleftrightarrow> a * 10000 + b \<le> v" for a b
    using assms by (cases s) (simp add: AtLeast_known)
  have "''checkpoints_timed'' \<in> set (fst (PgStatBgwriter_cols s)) \<longleftrightarrow> \<not> fst (AtLeast 17 0 s)"
    by (simp add: PgStatBgwriter_cols_def Let_def case_prod_beta)
  then show ?thesis by (simp only: no_query_iff gate) (simp add: not_le)
qed

definition demo_state :: "int \<Rightarrow> cstate" where
  "demo_state v = (demo_client\<lparr>ServerVersionNum := v\<rparr>, [])"

theorem gated_views_witness:
  "(\<forall>q. fst (SelectPgStatCheckpointer q (demo_state 160004)) = Inr []) \<and>
   \<not> (\<forall>q. fst (SelectPgStatIO q (demo_state 160004)) = Inr []) \<and>
   ''checkpoints_timed'' \<in> set (fst (PgStatBgwriter_cols (demo_state 160004)))"
  using gated_views [of "demo_state 160004" 160004] by (simp add: demo_state_def)

text \<open>
  C33. Losing the version degrades a scrape and does not break it: while the version of a server
  is unknown, the queries composed per version project only columns that they project for every
  server, whatever its version. The one exception is \<open>pg_stat_bgwriter\<close>, whose gate is negated:
  it then asks a server of version 17 for columns which that version has dropped.
\<close>

theorem unknown_version_degrades:
  assumes "version_unknown s"
  shows "set (fst (PgStatDatabase_cols s)) \<subseteq> set (fst (PgStatDatabase_cols t)) \<and>
    set (fst (PgReplicationSlots_cols s)) \<subseteq> set (fst (PgReplicationSlots_cols t)) \<and>
    set (fst (PgStatUserTables_cols s)) \<subseteq> set (fst (PgStatUserTables_cols t)) \<and>
    (\<forall>q. fst (SelectPgStatWal q s) = Inr []) \<and>
    (\<forall>q. fst (SelectPgStatIO q s) = Inr []) \<and>
    (ServerVersionNum (fst t) \<ge> 170000 \<longrightarrow>
      ''buffers_backend'' \<in> set (fst (PgStatBgwriter_cols s)) - set (fst (PgStatBgwriter_cols t)))"
proof -
  note unk = AtLeast_unknown [OF assms]
  have chain: "\<not> fst (AtLeast a b (snd (AtLeast c d s)))"
    "\<not> fst (AtLeast a b (snd (AtLeast c d (snd (AtLeast e f s)))))" for a b c d e f
    using AtLeast_unknown unk by blast+
  have known: "fst (AtLeast 17 0 t)" if "ServerVersionNum (fst t) \<ge> 170000"
    using that by (cases t) (simp add: AtLeast_known)
  have dbs: "set (fst (PgStatDatabase_cols s)) \<subseteq> set (fst (PgStatDatabase_cols t))"
    unfolding PgStatDatabase_cols_def Let_def case_prod_beta fst_conv snd_conv
    by (simp only: unk chain if_False) auto
  have slots: "set (fst (PgReplicationSlots_cols s)) \<subseteq> set (fst (PgReplicationSlots_cols t))"
    unfolding PgReplicationSlots_cols_def Let_def case_prod_beta fst_conv snd_conv
    by (simp only: unk chain if_False) auto
  have tables: "set (fst (PgStatUserTables_cols s)) \<subseteq> set (fst (PgStatUserTables_cols t))"
    unfolding PgStatUserTables_cols_def Let_def case_prod_beta fst_conv snd_conv
    by (simp only: unk chain if_False) auto
  have bg: "ServerVersionNum (fst t) \<ge> 170000 \<longrightarrow>
      ''buffers_backend'' \<in> set (fst (PgStatBgwriter_cols s)) - set (fst (PgStatBgwriter_cols t))"
    by (simp add: PgStatBgwriter_cols_def Let_def case_prod_beta unk known)
  show ?thesis using dbs slots tables bg by (simp only: no_query_iff) (simp add: unk)
qed

theorem unknown_version_degrades_witness:
  "set (fst (PgStatUserTables_cols (demo_state 0))) \<subseteq> set (fst (PgStatUserTables_cols (demo_state 170002))) \<and>
   ''buffers_backend'' \<in> set (fst (PgStatBgwriter_cols (demo_state 0))) -
     set (fst (PgStatBgwriter_cols (demo_state 170002)))"
  using unknown_version_degrades [of "demo_state 0" "demo_state 170002"]
  by (simp add: demo_state_def version_unknown_def)

end
