(* ===== verification/Collector.thy ===== *)
theory Collector
  imports Vec Select
begin

text \<open>
  What the 27 collectors of \<open>exporter/collectors/\<close> share. A collector struct is the list of the
  clients it scrapes and its vectors by field name. Its \<open>emit\<close> method is modelled by the list
  of \<open>emission\<close>s it performs, each a call on one of the struct's vectors; \<open>apply_emission\<close> is
  the effect of such a call. \<open>Scrape_group\<close> is the body of every \<open>Scrape\<close> method: one
  goroutine per client, joined by an \<open>errgroup\<close>, then \<open>collectInto\<close>. A goroutine is the
  list of its atomic blocks of emissions (one emission, unless the code holds a lock around
  several) and its error.
\<close>

subsection \<open>Emissions\<close>

datatype emission =
    ObserveC (em_field: string) (em_value: f64) (em_labels: "string list")
      \<comment> \<open>\<open>c.field.Observe(value, labels...)\<close>\<close>
  | SetG (em_field: string) (em_value: f64) (em_labels: "string list")
      \<comment> \<open>\<open>c.field.WithLabelValues(labels...).Set(value)\<close>\<close>

fun is_Observe :: "emission \<Rightarrow> bool" where
  "is_Observe (ObserveC _ _ _) = True"
| "is_Observe (SetG _ _ _) = False"

text \<open>The local closures of the \<open>emit\<close> methods: nothing happens on NULL.\<close>

definition emitCounter :: "string \<Rightarrow> pg_int8 \<Rightarrow> string list \<Rightarrow> emission list" where
  "emitCounter f v lvs = (if Int8Valid v then [ObserveC f (f64_of_int64 (Int64 v)) lvs] else [])"

definition emitGauge :: "string \<Rightarrow> pg_int8 \<Rightarrow> string list \<Rightarrow> emission list" where
  "emitGauge f v lvs = (if Int8Valid v then [SetG f (f64_of_int64 (Int64 v)) lvs] else [])"

definition setInt :: "string \<Rightarrow> pg_int8 \<Rightarrow> string list \<Rightarrow> emission list" where
  "setInt f v lvs = (if Int8Valid v then [SetG f (f64_of_int64 (Int64 v)) lvs] else [])"

definition emitCounterFloat :: "string \<Rightarrow> pg_float8 \<Rightarrow> string list \<Rightarrow> emission list" where
  "emitCounterFloat f v lvs = (if Float8Valid v then [ObserveC f (Float64 v) lvs] else [])"

definition emitMillisAsSecs :: "string \<Rightarrow> pg_float8 \<Rightarrow> string list \<Rightarrow> emission list" where
  "emitMillisAsSecs f v lvs =
     (if Float8Valid v then [ObserveC f (millis_as_secs (Float64 v)) lvs] else [])"

definition emitFloat :: "string \<Rightarrow> pg_float8 \<Rightarrow> string list \<Rightarrow> emission list" where
  "emitFloat f v lvs = (if Float8Valid v then [SetG f (Float64 v) lvs] else [])"

definition emitTime :: "string \<Rightarrow> pg_timestamptz \<Rightarrow> string list \<Rightarrow> emission list" where
  "emitTime f v lvs =
     (if TimestamptzValid v then [SetG f (f64_of_int64 (Unix (Time v))) lvs] else [])"

definition emitTimeMicro :: "string \<Rightarrow> pg_timestamptz \<Rightarrow> string list \<Rightarrow> emission list" where
  "emitTimeMicro f v lvs =
     (if TimestamptzValid v then [SetG f (f64_of_int64 (UnixMicro (Time v))) lvs] else [])"

definition emitBool :: "string \<Rightarrow> pg_bool \<Rightarrow> string list \<Rightarrow> emission list" where
  "emitBool f v lvs =
     (if BoolValid v then [SetG f (if Bool v then Fin 1 else f64_zero) lvs] else [])"

lemmas emit_defs = emitCounter_def emitGauge_def setInt_def emitCounterFloat_def
  emitMillisAsSecs_def emitFloat_def emitTime_def emitTimeMicro_def emitBool_def

subsection \<open>Collectors\<close>

datatype ('cv, 'gv) vec_field = CounterField "'cv counterDelta" | GaugeField 'gv

record ('cv, 'gv) collector =
  dbClients :: "nat list"
  vecs :: "(string \<times> ('cv, 'gv) vec_field) list"

fun vec_desc :: "('cv, 'gv) prom \<Rightarrow> ('cv, 'gv) vec_field \<Rightarrow> desc" where
  "vec_desc P (CounterField cd) = CounterDesc P (cd_vec cd)"
| "vec_desc P (GaugeField gv) = GaugeDesc P gv"

fun vec_value :: "('cv, 'gv) prom \<Rightarrow> ('cv, 'gv) vec_field \<Rightarrow> string list \<Rightarrow> f64 option" where
  "vec_value P (CounterField cd) lvs = cd_value P cd lvs"
| "vec_value P (GaugeField gv) lvs = GaugeValue P gv lvs"

fun vec_Collect :: "('cv, 'gv) prom \<Rightarrow> ('cv, 'gv) vec_field \<Rightarrow> metric list" where
  "vec_Collect P (CounterField cd) = cd_Collect P cd"
| "vec_Collect P (GaugeField gv) = GaugeCollect P gv"

fun is_counter :: "('cv, 'gv) vec_field \<Rightarrow> bool" where
  "is_counter (CounterField _) = True"
| "is_counter (GaugeField _) = False"

definition put_field :: "string \<Rightarrow> 'v \<Rightarrow> (string \<times> 'v) list \<Rightarrow> (string \<times> 'v) list" where
  "put_field f v = map (\<lambda>(n, w). (n, if n = f then v else w))"

text \<open>A call on a field that the constructor has not set is a nil pointer dereference.\<close>

fun apply_emission :: "('cv, 'gv) prom \<Rightarrow> emission \<Rightarrow> ('cv, 'gv) collector \<Rightarrow>
    ('cv, 'gv) collector option" where
  "apply_emission P (ObserveC f v lvs) c =
     (case map_of (vecs c) f of
        Some (CounterField cd) \<Rightarrow>
          (case Observe P v lvs cd of
             None \<Rightarrow> None
           | Some cd' \<Rightarrow> Some (c\<lparr>vecs := put_field f (CounterField cd') (vecs c)\<rparr>))
      | _ \<Rightarrow> None)"
| "apply_emission P (SetG f v lvs) c =
     (case map_of (vecs c) f of
        Some (GaugeField gv) \<Rightarrow>
          (case GaugeSet P gv lvs v of
             None \<Rightarrow> None
           | Some gv' \<Rightarrow> Some (c\<lparr>vecs := put_field f (GaugeField gv') (vecs c)\<rparr>))
      | _ \<Rightarrow> None)"

definition run_emissions :: "('cv, 'gv) prom \<Rightarrow> emission list \<Rightarrow> ('cv, 'gv) collector \<Rightarrow>
    ('cv, 'gv) collector option" where
  "run_emissions P es c = fold_opt (apply_emission P) es c"

text \<open>The calls of \<open>Describe\<close> and of \<open>Collect\<close> on the listed fields, in this order.\<close>

definition describe_fields :: "('cv, 'gv) prom \<Rightarrow> string list \<Rightarrow> ('cv, 'gv) collector \<Rightarrow> desc list" where
  "describe_fields P fs c = map (vec_desc P \<circ> the \<circ> map_of (vecs c)) fs"

definition collect_fields :: "('cv, 'gv) prom \<Rightarrow> string list \<Rightarrow> ('cv, 'gv) collector \<Rightarrow> metric list" where
  "collect_fields P fs c = concat (map (vec_Collect P \<circ> the \<circ> map_of (vecs c)) fs)"

subsection \<open>Servers and scrapes\<close>

text \<open>What the server of one client answers to a query, per row type.\<close>

record server =
  q_PgStatActivity :: "string \<Rightarrow> error + PgStatActivity list"
  q_PgLocks :: "string \<Rightarrow> error + PgLock list"
  q_PgLocksBlockingSummary :: "string \<Rightarrow> error + PgLocksBlockingSummary list"
  q_PgStatDatabase :: "string \<Rightarrow> error + PgStatDatabase list"
  q_PgDatabaseSize :: "string \<Rightarrow> error + PgDatabaseSize list"
  q_PgStatBgwriter :: "string \<Rightarrow> error + PgStatBgwriter list"
  q_PgStatCheckpointer :: "string \<Rightarrow> error + PgStatCheckpointer list"
  q_PgStatArchiver :: "string \<Rightarrow> error + PgStatArchiver list"
  q_PgStatWal :: "string \<Rightarrow> error + PgStatWal list"
  q_PgStatWalReceiver :: "string \<Rightarrow> error + PgStatWalReceiver list"
  q_PgStatReplication :: "string \<Rightarrow> error + PgStatReplication list"
  q_PgReplicationSlots :: "string \<Rightarrow> error + PgReplicationSlot list"
  q_PgStatIO :: "string \<Rightarrow> error + PgStatIO list"
  q_PgStatSLRU :: "string \<Rightarrow> error + PgStatSLRU list"
  q_PgStatSSL :: "string \<Rightarrow> error + PgStatSSL list"
  q_PgStatSubscription :: "string \<Rightarrow> error + PgStatSubscription list"
  q_PgStatSubscriptionStats :: "string \<Rightarrow> error + PgStatSubscriptionStats list"
  q_PgSettings :: "string \<Rightarrow> error + PgSetting list"
  q_PgStatUserTables :: "string \<Rightarrow> error + PgStatUserTable list"
  q_PgStatUserIndexes :: "string \<Rightarrow> error + PgStatUserIndex list"
  q_PgStatIOUserTables :: "string \<Rightarrow> error + PgStatIOUserTable list"
  q_PgStatIOUserIndexes :: "string \<Rightarrow> error + PgStatIOUserIndex list"
  q_PgStatStatements :: "string \<Rightarrow> error + PgStatStatement list"
  q_PgStatProgressVacuum :: "string \<Rightarrow> error + PgStatProgressVacuum list"
  q_PgStatProgressAnalyze :: "string \<Rightarrow> error + PgStatProgressAnalyze list"
  q_PgStatProgressBasebackup :: "string \<Rightarrow> error + PgStatProgressBasebackup list"
  q_PgStatProgressCopy :: "string \<Rightarrow> error + PgStatProgressCopy list"
  q_PgStatProgressCreateIndex :: "string \<Rightarrow> error + PgStatProgressCreateIndex list"
  q_PgStatProgressCluster :: "string \<Rightarrow> error + PgStatProgressCluster list"

type_synonym goroutine = "emission list list \<times> error option"
type_synonym scrape_body = "server \<Rightarrow> cstate \<Rightarrow> goroutine \<times> cstate"

text \<open>Emissions that no lock groups.\<close>

definition singles :: "emission list \<Rightarrow> emission list list" where
  "singles es = map (\<lambda>e. [e]) es"

text \<open>The result of a \<open>Scrape\<close>: the metrics sent on the channel, the error, the collector
  after it and the clients after it.\<close>

record ('cv, 'gv) outcome =
  oc_metrics :: "metric list"
  oc_err :: "error option"
  oc_collector :: "('cv, 'gv) collector"
  oc_clients :: "nat \<Rightarrow> cstate"

definition group_results :: "scrape_body \<Rightarrow> (nat \<Rightarrow> server) \<Rightarrow> (nat \<Rightarrow> cstate) \<Rightarrow> nat list \<Rightarrow>
    goroutine list" where
  "group_results body srv cl is = map (\<lambda>i. fst (body (srv i) (cl i))) is"

definition group_clients :: "scrape_body \<Rightarrow> (nat \<Rightarrow> server) \<Rightarrow> (nat \<Rightarrow> cstate) \<Rightarrow> nat list \<Rightarrow>
    nat \<Rightarrow> cstate" where
  "group_clients body srv cl is = (\<lambda>i. if i \<in> set is then snd (body (srv i) (cl i)) else cl i)"

definition Scrape_group :: "('cv, 'gv) prom \<Rightarrow> (error option list \<Rightarrow> error option) \<Rightarrow> nat list \<Rightarrow>
    scrape_body \<Rightarrow> (('cv, 'gv) prom \<Rightarrow> ('cv, 'gv) collector \<Rightarrow> metric list) \<Rightarrow>
    (nat \<Rightarrow> server) \<Rightarrow> (nat \<Rightarrow> cstate) \<Rightarrow> ('cv, 'gv) collector \<Rightarrow> ('cv, 'gv) outcome option" where
  "Scrape_group P wait sched body collectInto srv cl c =
     (let results = group_results body srv cl (dbClients c);
          cl' = group_clients body srv cl (dbClients c)
      in case run_emissions P (concat (interleave sched (map fst results))) c of
           None \<Rightarrow> None
         | Some c' \<Rightarrow>
             (case wait (map snd results) of
                Some e \<Rightarrow> Some \<lparr>oc_metrics = [], oc_err = Some (''scraping: '' @ e),
                                 oc_collector = c', oc_clients = cl'\<rparr>
              | None \<Rightarrow> Some \<lparr>oc_metrics = collectInto P c', oc_err = None,
                               oc_collector = c', oc_clients = cl'\<rparr>))"

text \<open>\<open>errgroup.Group.Wait\<close> is outside the repository: it returns the error of one of the
  goroutines that failed, and nil when none did.\<close>

locale errgroup =
  fixes wait :: "error option list \<Rightarrow> error option"
  assumes wait_None: "wait rs = None \<longleftrightarrow> (\<forall>r \<in> set rs. r = None)"
    and wait_Some: "wait rs = Some e \<Longrightarrow> Some e \<in> set rs"

text \<open>The group that returns the error of the first failing client in list order.\<close>

definition first_error :: "error option list \<Rightarrow> error option" where
  "first_error rs = (case dropWhile (\<lambda>r. r = None) rs of [] \<Rightarrow> None | r # _ \<Rightarrow> r)"

lemma first_error_None: "first_error rs = None \<longleftrightarrow> (\<forall>r \<in> set rs. r = None)"
  by (induction rs) (auto simp: first_error_def)

lemma first_error_Some: "first_error rs = Some e \<Longrightarrow> Some e \<in> set rs"
  by (induction rs) (auto simp: first_error_def split: if_splits)

interpretation first_error: errgroup first_error
  by unfold_locales (auto simp: first_error_None first_error_Some)

subsection \<open>The abstract view: series\<close>

text \<open>The value a collector holds for a field and a label set, and what a list of emissions
  writes: the last value for each field and label set.\<close>

definition series :: "('cv, 'gv) prom \<Rightarrow> ('cv, 'gv) collector \<Rightarrow> string \<Rightarrow> string list \<Rightarrow> f64 option" where
  "series P c f lvs = (case map_of (vecs c) f of None \<Rightarrow> None | Some v \<Rightarrow> vec_value P v lvs)"

definition written :: "emission list \<Rightarrow> string \<Rightarrow> string list \<Rightarrow> f64 option" where
  "written es f lvs = map_of (rev (map (\<lambda>e. ((em_field e, em_labels e), em_value e)) es)) (f, lvs)"

text \<open>The schema of a collector: its fields with their kind and descriptor. An emission fits a
  schema when it names a field of its kind and passes as many label values as the vector has.\<close>

type_synonym schema = "(string \<times> bool \<times> desc) list"

definition schema_of :: "('cv, 'gv) prom \<Rightarrow> ('cv, 'gv) collector \<Rightarrow> schema" where
  "schema_of P c = map (\<lambda>(f, v). (f, is_counter v, vec_desc P v)) (vecs c)"

definition emission_shape :: "schema \<Rightarrow> emission \<Rightarrow> bool" where
  "emission_shape sch e \<longleftrightarrow>
     (case map_of sch (em_field e) of
        None \<Rightarrow> False
      | Some (k, d) \<Rightarrow> k = is_Observe e \<and> length (em_labels e) = length (snd d))"

text \<open>Emissions that cannot make the library panic: no negative cumulative value, and label
  values that it accepts.\<close>

definition benign :: "('cv, 'gv) prom \<Rightarrow> emission \<Rightarrow> bool" where
  "benign P e \<longleftrightarrow> (is_Observe e \<longrightarrow> \<not> f64_less (em_value e) f64_zero) \<and>
     (\<forall>l \<in> set (em_labels e). LabelValueOK P l)"

text \<open>Emissions whose sums are exact: gauges, and counters of natural numbers up to \<open>2^53\<close>.\<close>

definition exact_emission :: "emission \<Rightarrow> bool" where
  "exact_emission e \<longleftrightarrow> is_Observe e \<longrightarrow> exact_nat (em_value e) \<and> nul_free (em_labels e)"

text \<open>The counters of a collector are in the state that \<open>Observe\<close> maintains.\<close>

definition field_tracks :: "('cv, 'gv) prom \<Rightarrow> ('cv, 'gv) collector \<Rightarrow> string \<Rightarrow> bool" where
  "field_tracks P c f \<longleftrightarrow> (case map_of (vecs c) f of Some (CounterField cd) \<Rightarrow> tracks P cd | _ \<Rightarrow> True)"

subsection \<open>Lemmas: fields\<close>

lemma map_of_put_field:
  "map_of (put_field f v fs) g =
     (if g = f then map_option (\<lambda>_. v) (map_of fs f) else map_of fs g)"
  by (induction fs) (auto simp: put_field_def)

lemma put_field_names [simp]: "map fst (put_field f v fs) = map fst fs"
  by (induction fs) (auto simp: put_field_def)

lemma schema_put_field:
  assumes "\<And>w. (f, w) \<in> set fs \<Longrightarrow> h w = h v"
  shows "map (\<lambda>(g, w). (g, h w)) (put_field f v fs) = map (\<lambda>(g, w). (g, h w)) fs"
  using assms by (auto simp: put_field_def)

lemma map_of_schema:
  "map_of (schema_of P c) f = map_option (\<lambda>v. (is_counter v, vec_desc P v)) (map_of (vecs c) f)"
  by (simp add: schema_of_def map_of_map)

lemma emission_shape_cases:
  assumes "emission_shape (schema_of P c) e"
  obtains (counter) f v lvs cd where "e = ObserveC f v lvs" "map_of (vecs c) f = Some (CounterField cd)"
      "length lvs = length (snd (CounterDesc P (cd_vec cd)))"
  | (gauge) f v lvs gv where "e = SetG f v lvs" "map_of (vecs c) f = Some (GaugeField gv)"
      "length lvs = length (snd (GaugeDesc P gv))"
proof -
  from assms obtain w where w: "map_of (vecs c) (em_field e) = Some w" "is_counter w = is_Observe e"
    "length (em_labels e) = length (snd (vec_desc P w))"
    by (auto simp: emission_shape_def map_of_schema split: option.splits)
  then show thesis using counter gauge by (cases e; cases w) auto
qed

lemma run_emissions_Nil [simp]: "run_emissions P [] c = Some c"
  by (simp add: run_emissions_def)

lemma run_emissions_Cons:
  "run_emissions P (e # es) c =
     (case apply_emission P e c of None \<Rightarrow> None | Some c' \<Rightarrow> run_emissions P es c')"
  by (simp add: run_emissions_def split: option.split)

lemma run_emissions_append:
  "run_emissions P (xs @ ys) c =
     (case run_emissions P xs c of None \<Rightarrow> None | Some c' \<Rightarrow> run_emissions P ys c')"
  by (simp add: run_emissions_def fold_opt_append split: option.split)

lemma written_Nil [simp]: "written [] f lvs = None"
  by (simp add: written_def)

lemma written_Cons:
  "written (e # es) f lvs =
     (case written es f lvs of
        Some v \<Rightarrow> Some v
      | None \<Rightarrow> if em_field e = f \<and> em_labels e = lvs then Some (em_value e) else None)"
  by (auto simp: written_def map_add_def split: option.splits)

lemma written_filter:
  "written (filter (\<lambda>e. em_field e = f \<and> em_labels e = lvs) es) f lvs = written es f lvs"
  by (induction es) (auto simp: written_Cons split: option.splits)

lemma written_in: "written es f lvs = Some v \<Longrightarrow> \<exists>e \<in> set es. em_field e = f \<and> em_labels e = lvs \<and> em_value e = v"
  by (induction es) (auto simp: written_Cons split: option.splits if_splits)

lemma singles_simps [simp]: "singles [] = []" "concat (singles es) = es"
  by (induction es) (auto simp: singles_def)

subsection \<open>Lemmas: what emissions do to a collector\<close>

context prom_vecs
begin

lemma apply_emission_schema:
  assumes "apply_emission P e c = Some c'" and "distinct (map fst (vecs c))"
  shows "schema_of P c' = schema_of P c \<and> dbClients c' = dbClients c"
proof (cases e)
  case (ObserveC f v lvs)
  with assms obtain cd cd' where cd: "map_of (vecs c) f = Some (CounterField cd)"
    "Observe P v lvs cd = Some cd'" "c' = c\<lparr>vecs := put_field f (CounterField cd') (vecs c)\<rparr>"
    by (auto split: option.splits vec_field.splits)
  have only: "w = CounterField cd" if "(f, w) \<in> set (vecs c)" for w
    using that cd(1) assms(2) by (auto dest: map_of_is_SomeI)
  have "map (\<lambda>(n, w). (n, is_counter w, vec_desc P w)) (put_field f (CounterField cd') (vecs c))
      = map (\<lambda>(n, w). (n, is_counter w, vec_desc P w)) (vecs c)"
    by (rule schema_put_field, drule only) (simp add: Observe_desc [OF cd(2)])
  then show ?thesis using cd(3) by (simp add: schema_of_def)
next
  case (SetG f v lvs)
  with assms obtain gv gv' where gv: "map_of (vecs c) f = Some (GaugeField gv)"
    "GaugeSet P gv lvs v = Some gv'" "c' = c\<lparr>vecs := put_field f (GaugeField gv') (vecs c)\<rparr>"
    by (auto split: option.splits vec_field.splits)
  have only: "w = GaugeField gv" if "(f, w) \<in> set (vecs c)" for w
    using that gv(1) assms(2) by (auto dest: map_of_is_SomeI)
  have "map (\<lambda>(n, w). (n, is_counter w, vec_desc P w)) (put_field f (GaugeField gv') (vecs c))
      = map (\<lambda>(n, w). (n, is_counter w, vec_desc P w)) (vecs c)"
    by (rule schema_put_field, drule only) (simp add: gauge_set_desc [OF gv(2)])
  then show ?thesis using gv(3) by (simp add: schema_of_def)
qed

lemma apply_emission_total:
  assumes "emission_shape (schema_of P c) e" and "benign P e"
  shows "apply_emission P e c \<noteq> None"
  using assms(1)
proof (cases rule: emission_shape_cases)
  case (counter f v lvs cd)
  with assms(2) have "fits P (CounterDesc P (cd_vec cd)) lvs" "\<not> f64_less v f64_zero"
    by (auto simp: benign_def fits_def)
  with Observe_None_iff have "Observe P v lvs cd \<noteq> None" by blast
  with counter show ?thesis by auto
next
  case (gauge f v lvs gv)
  with assms(2) have "fits P (GaugeDesc P gv) lvs" by (auto simp: benign_def fits_def)
  then obtain gv' where "GaugeSet P gv lvs v = Some gv'" using gauge_set_ok by blast
  with gauge show ?thesis by simp
qed

lemma schema_names: "map fst (schema_of P c) = map fst (vecs c)"
  by (simp add: schema_of_def o_def case_prod_beta)

lemma run_emissions_total:
  assumes "\<forall>e \<in> set es. emission_shape (schema_of P c) e \<and> benign P e"
    and "distinct (map fst (vecs c))"
  shows "\<exists>c'. run_emissions P es c = Some c'"
  using assms
proof (induction es arbitrary: c)
  case Nil
  then show ?case by simp
next
  case (Cons e es)
  then obtain c1 where c1: "apply_emission P e c = Some c1"
    using apply_emission_total [of c e] by auto
  note sch = apply_emission_schema [OF c1 Cons.prems(2)]
  then have "distinct (map fst (vecs c1))" using Cons.prems(2) schema_names by metis
  with Cons.IH [of c1] Cons.prems sch c1 show ?case by (simp add: run_emissions_Cons)
qed

lemma run_emissions_schema:
  assumes "run_emissions P es c = Some c'" and "distinct (map fst (vecs c))"
  shows "schema_of P c' = schema_of P c \<and> dbClients c' = dbClients c \<and> distinct (map fst (vecs c'))"
  using assms
proof (induction es arbitrary: c)
  case Nil
  then show ?case by simp
next
  case (Cons e es)
  then obtain c1 where c1: "apply_emission P e c = Some c1" "run_emissions P es c1 = Some c'"
    by (auto simp: run_emissions_Cons split: option.splits)
  note sch = apply_emission_schema [OF c1(1) Cons.prems(2)]
  then have "distinct (map fst (vecs c1))" using Cons.prems(2) schema_names by metis
  from Cons.IH [OF c1(2) this] sch show ?case by simp
qed

lemma apply_emission_other:
  assumes "apply_emission P e c = Some c'" and "em_field e \<noteq> f"
  shows "map_of (vecs c') f = map_of (vecs c) f"
  using assms by (cases e) (auto simp: map_of_put_field split: option.splits vec_field.splits)

lemma apply_emission_series:
  assumes ap: "apply_emission P e c = Some c'" and sh: "emission_shape (schema_of P c) e"
    and be: "benign P e" and ex: "exact_emission e" and tr: "field_tracks P c (em_field e)"
  shows "series P c' (em_field e) = (series P c (em_field e))(em_labels e \<mapsto> em_value e) \<and>
    field_tracks P c' (em_field e)"
  using sh
proof (cases rule: emission_shape_cases)
  case (counter f v lvs cd)
  have "label_ok P cd lvs" "exact_nat v" "tracks P cd"
    using counter be ex tr by (auto simp: label_ok_def fits_def benign_def exact_emission_def field_tracks_def)
  from Observe_tracks [OF this(3,1,2)] obtain cd' where cd': "Observe P v lvs cd = Some cd'"
    "tracks P cd'" "cd_value P cd' = (cd_value P cd)(lvs \<mapsto> v)" by blast
  with ap counter have "c' = c\<lparr>vecs := put_field f (CounterField cd') (vecs c)\<rparr>" by simp
  with counter cd' show ?thesis
    by (auto simp: series_def map_of_put_field field_tracks_def fun_eq_iff)
next
  case (gauge f v lvs gv)
  with ap obtain gv' where gv': "GaugeSet P gv lvs v = Some gv'"
    "c' = c\<lparr>vecs := put_field f (GaugeField gv') (vecs c)\<rparr>"
    by (auto split: option.splits)
  with gauge gauge_set_value [OF gv'(1)] show ?thesis
    by (auto simp: series_def map_of_put_field field_tracks_def fun_eq_iff)
qed

text \<open>The refinement: after a list of emissions, a field holds what was written last, and what
  it held before where nothing was written.\<close>

lemma run_emissions_series:
  assumes "run_emissions P es c = Some c'" and "distinct (map fst (vecs c))"
    and "\<forall>e \<in> set es. em_field e = f \<longrightarrow>
      emission_shape (schema_of P c) e \<and> benign P e \<and> exact_emission e"
    and "field_tracks P c f"
  shows "(\<forall>lvs. series P c' f lvs =
      (case written es f lvs of Some v \<Rightarrow> Some v | None \<Rightarrow> series P c f lvs)) \<and> field_tracks P c' f"
  using assms
proof (induction es arbitrary: c)
  case Nil
  then show ?case by simp
next
  case (Cons e es)
  then obtain c1 where c1: "apply_emission P e c = Some c1" "run_emissions P es c1 = Some c'"
    by (auto simp: run_emissions_Cons split: option.splits)
  note sch = apply_emission_schema [OF c1(1) Cons.prems(2)]
  have d1: "distinct (map fst (vecs c1))" using sch Cons.prems(2) schema_names by metis
  have es1: "\<forall>e \<in> set es. em_field e = f \<longrightarrow>
      emission_shape (schema_of P c1) e \<and> benign P e \<and> exact_emission e"
    using Cons.prems(3) sch by simp
  show ?case
  proof (cases "em_field e = f")
    case True
    with Cons.prems c1 have s1: "series P c1 f = (series P c f)(em_labels e \<mapsto> em_value e)" "field_tracks P c1 f"
      using apply_emission_series [OF c1(1)] by auto
    from Cons.IH [OF c1(2) d1 es1 s1(2)] s1(1) True show ?thesis
      by (auto simp: written_Cons split: option.splits)
  next
    case False
    note same = apply_emission_other [OF c1(1) False]
    then have s1: "series P c1 f = series P c f" "field_tracks P c1 f"
      using Cons.prems(4) by (auto simp: series_def field_tracks_def fun_eq_iff)
    from Cons.IH [OF c1(2) d1 es1 s1(2)] s1(1) False show ?thesis
      by (auto simp: written_Cons split: option.splits)
  qed
qed

text \<open>Freshly built vectors are empty and in the state that \<open>Observe\<close> maintains.\<close>

lemma factory_desc:
  "CounterDesc P (cd_vec (counterFactory P g subsystem ls n h)) = (vec_opts (namespace g) subsystem n h, ls)"
  "CounterDesc P (cd_vec (counterFactoryIO P g subsystem ls n h)) = (vec_opts (namespaceIO g) subsystem n h, ls)"
  "GaugeDesc P (gaugeFactory P g subsystem ls n h) = (vec_opts (namespace g) subsystem n h, ls)"
  "GaugeDesc P (gaugeFactoryRawPg P g subsystem ls n h) = (vec_opts (namespaceRawPg g) subsystem n h, ls)"
  by (simp_all add: counterFactory_def counterFactoryIO_def gaugeFactory_def gaugeFactoryRawPg_def
      newCounterDelta_def counter_new_desc gauge_new_desc)

lemma collect_vec_set:
  "set (vec_Collect P v) = {\<lparr>m_desc = vec_desc P v, m_labels = lvs, m_value = x\<rparr> | lvs x.
     vec_value P v lvs = Some x}"
  by (cases v) (simp_all add: cd_Collect_set gauge_collect_set)

end

subsection \<open>Lemmas: schemas of freshly built collectors\<close>

text \<open>What an emission needs to know of a schema: per field its kind and its number of labels.\<close>

definition shapes :: "schema \<Rightarrow> (string \<times> bool \<times> nat) list" where
  "shapes sch = map (\<lambda>(f, k, d). (f, k, length (snd d))) sch"

lemma map_of_shapes:
  "map_of (shapes sch) f = map_option (\<lambda>(k, d). (k, length (snd d))) (map_of sch f)"
  by (induction sch) (auto simp: shapes_def)

lemma emission_shape_iff:
  "emission_shape sch e \<longleftrightarrow> map_of (shapes sch) (em_field e) = Some (is_Observe e, length (em_labels e))"
  by (auto simp: emission_shape_def map_of_shapes split: option.splits)

named_theorems schema_simps \<open>evaluation of the schema of a constructor\<close>
named_theorems shape_simps \<open>the shapes of the collectors\<close>
named_theorems shape_intros \<open>the emissions of each collector fit its schema\<close>

lemmas [schema_simps] = shapes_def schema_of_def Let_def prom_vecs.factory_desc

lemma list_all_concat: "list_all Q (concat xss) \<longleftrightarrow> list_all (list_all Q) xss"
  by (induction xss) auto

lemma list_all_emit:
  "map_of (shapes sch) f = Some (True, length lvs) \<Longrightarrow> list_all (emission_shape sch) (emitCounter f v lvs)"
  "map_of (shapes sch) f = Some (False, length lvs) \<Longrightarrow> list_all (emission_shape sch) (emitGauge f v lvs)"
  "map_of (shapes sch) f = Some (False, length lvs) \<Longrightarrow> list_all (emission_shape sch) (setInt f v lvs)"
  "map_of (shapes sch) f = Some (True, length lvs) \<Longrightarrow> list_all (emission_shape sch) (emitCounterFloat f w lvs)"
  "map_of (shapes sch) f = Some (True, length lvs) \<Longrightarrow> list_all (emission_shape sch) (emitMillisAsSecs f w lvs)"
  "map_of (shapes sch) f = Some (False, length lvs) \<Longrightarrow> list_all (emission_shape sch) (emitFloat f w lvs)"
  "map_of (shapes sch) f = Some (False, length lvs) \<Longrightarrow> list_all (emission_shape sch) (emitTime f t lvs)"
  "map_of (shapes sch) f = Some (False, length lvs) \<Longrightarrow> list_all (emission_shape sch) (emitTimeMicro f t lvs)"
  "map_of (shapes sch) f = Some (False, length lvs) \<Longrightarrow> list_all (emission_shape sch) (emitBool f b lvs)"
  by (simp_all add: emit_defs emission_shape_iff)

lemma list_all_const: "list_all (\<lambda>x. True) xs"
  by (simp add: list_all_iff)

lemmas list_all_emits = list_all_concat list_all_emit list_all_const list.pred_map o_def emission_shape_iff

text \<open>\<open>Describe\<close> and \<open>collectInto\<close> that name every field once reach every vector once.\<close>

definition names_all :: "string list \<Rightarrow> string list \<Rightarrow> bool" where
  "names_all fs ns \<longleftrightarrow> distinct fs \<and> distinct ns \<and> set fs = set ns"

lemma mset_lookup:
  assumes "names_all fs (map fst al)"
  shows "mset (map (\<lambda>f. h (the (map_of al f))) fs) = mset (map (h \<circ> snd) al)"
proof -
  have "mset fs = mset (map fst al)"
    using assms by (metis names_all_def set_eq_iff_mset_eq_distinct)
  then have "mset (map (\<lambda>f. h (the (map_of al f))) fs)
      = mset (map (\<lambda>f. h (the (map_of al f))) (map fst al))"
    by (metis mset_map)
  also have "map (\<lambda>f. h (the (map_of al f))) (map fst al) = map (h \<circ> snd) al"
    using assms by (auto simp: names_all_def)
  finally show ?thesis .
qed

lemma mset_concat_cong: "mset xs = mset ys \<Longrightarrow> mset (concat xs) = mset (concat ys)"
  by (simp add: mset_concat flip: sum_mset_sum_list)

lemma describe_fields_all:
  assumes "map fst (vecs c) = ns" and "names_all fs ns"
  shows "mset (describe_fields P fs c) = mset (map (vec_desc P \<circ> snd) (vecs c))"
  using mset_lookup [of fs "vecs c" "vec_desc P"] assms by (simp add: describe_fields_def o_def)

lemma collect_fields_all:
  assumes "map fst (vecs c) = ns" and "names_all fs ns"
  shows "mset (collect_fields P fs c) = mset (concat (map (vec_Collect P \<circ> snd) (vecs c)))"
  using mset_concat_cong [OF mset_lookup [of fs "vecs c" "vec_Collect P"]] assms
  by (simp add: collect_fields_def o_def)

end
