(* ===== verification/CollServer.thy ===== *)
theory CollServer
  imports Collector
begin

text \<open>
  Activity, locks, SSL, settings, archiver and the write-ahead log.
  Per collector of \<open>exporter/collectors/\<close>: the constructor, \<open>Describe\<close> and
  \<open>collectInto\<close> with the fields in the order of the source, \<open>emit\<close>, the scrape of one client
  and \<open>Scrape\<close>. The lemmas show that every emission names a field of its kind with the right
  number of label values, and that \<open>Describe\<close> and \<open>collectInto\<close> reach every field once.
\<close>

subsection \<open>\<^verbatim>\<open>PgStatActivityCollector\<close>\<close>

definition NewPgStatActivityCollector :: "('cv, 'gv) prom \<Rightarrow> namespaces \<Rightarrow> nat list \<Rightarrow>
    ('cv, 'gv) collector" where
  "NewPgStatActivityCollector P g clients =
    (let labels = [''database'', ''datname'', ''state'', ''wait_event_type'', ''backend_type''];
         gauge = (\<lambda>n h. GaugeField (gaugeFactory P g activitySubSystem labels n h))
     in \<lparr>dbClients = clients, vecs = [
       (''count'', gauge ''count'' ''Connections in this (state, wait_event_type, backend_type) bucket''),
       (''maxTxDurationSeconds'', gauge ''max_tx_duration_seconds'' ''Longest open transaction in this bucket''),
       (''maxQueryDurationSeconds'', gauge ''max_query_duration_seconds'' ''Longest running query in this bucket''),
       (''maxBackendAgeSeconds'', gauge ''max_backend_age_seconds'' ''Oldest backend_start in this bucket'')]\<rparr>)"

definition PgStatActivityCollector_Describe :: "('cv, 'gv) prom \<Rightarrow> ('cv, 'gv) collector \<Rightarrow> desc list" where
  "PgStatActivityCollector_Describe P c = describe_fields P [
     ''count'', ''maxTxDurationSeconds'', ''maxQueryDurationSeconds'', ''maxBackendAgeSeconds''] c"

definition PgStatActivityCollector_collectInto :: "('cv, 'gv) prom \<Rightarrow> ('cv, 'gv) collector \<Rightarrow> metric list" where
  "PgStatActivityCollector_collectInto P c = collect_fields P [
     ''count'', ''maxTxDurationSeconds'', ''maxQueryDurationSeconds'', ''maxBackendAgeSeconds''] c"

definition PgStatActivityCollector_emit :: "PgStatActivity list \<Rightarrow> emission list" where
  "PgStatActivityCollector_emit stats = concat (map (\<lambda>stat.
     let labels = [String (PgStatActivity.Database stat),
                   String (PgStatActivity.DatName stat),
                   String (PgStatActivity.State stat),
                   String (PgStatActivity.WaitEventType stat),
                   String (PgStatActivity.BackendType stat)]
     in concat [
       emitGauge ''count'' (PgStatActivity.Count stat) labels,
       emitFloat ''maxTxDurationSeconds'' (PgStatActivity.MaxTxDurationSeconds stat) labels,
       emitFloat ''maxQueryDurationSeconds'' (PgStatActivity.MaxQueryDurationSeconds stat) labels,
       emitFloat ''maxBackendAgeSeconds'' (PgStatActivity.MaxBackendAgeSeconds stat) labels]) stats)"

definition PgStatActivityCollector_scrape :: scrape_body where
  "PgStatActivityCollector_scrape srv s =
    (case SelectPgStatActivity (q_PgStatActivity srv) s of
       (Inl e, s) \<Rightarrow> (([], Some (''activity stats: '' @ e)), s)
     | (Inr stats, s) \<Rightarrow> ((singles (PgStatActivityCollector_emit stats), None), s))"

definition PgStatActivityCollector_Scrape :: "('cv, 'gv) prom \<Rightarrow> (error option list \<Rightarrow> error option) \<Rightarrow> nat list \<Rightarrow>
    (nat \<Rightarrow> server) \<Rightarrow> (nat \<Rightarrow> cstate) \<Rightarrow> ('cv, 'gv) collector \<Rightarrow> ('cv, 'gv) outcome option" where
  "PgStatActivityCollector_Scrape P wait sched srv cl c =
     Scrape_group P wait sched PgStatActivityCollector_scrape PgStatActivityCollector_collectInto srv cl c"

lemma PgStatActivityCollector_shapes [shape_simps]:
  "prom_vecs P \<Longrightarrow> shapes (schema_of P (NewPgStatActivityCollector P g cs)) = [
      (''count'', False, 5), (''maxTxDurationSeconds'', False, 5),
      (''maxQueryDurationSeconds'', False, 5), (''maxBackendAgeSeconds'', False, 5)]"
  by (simp add: NewPgStatActivityCollector_def schema_simps)

lemma PgStatActivityCollector_emit_shape [shape_intros]:
  "prom_vecs P \<Longrightarrow>
   list_all (emission_shape (schema_of P (NewPgStatActivityCollector P g cs))) (PgStatActivityCollector_emit stats)"
  by (simp add: PgStatActivityCollector_emit_def list_all_emits Let_def shape_simps)

lemma PgStatActivityCollector_scrape_shape:
  "prom_vecs P \<Longrightarrow>
   list_all (emission_shape (schema_of P (NewPgStatActivityCollector P g cs)))
     (concat (fst (fst (PgStatActivityCollector_scrape srv s))))"
  by (simp add: PgStatActivityCollector_scrape_def shape_intros split: prod.splits sum.splits)


lemma PgStatActivityCollector_names [shape_simps]:
  "map fst (vecs (NewPgStatActivityCollector P g cs)) = [
      ''count'', ''maxTxDurationSeconds'', ''maxQueryDurationSeconds'', ''maxBackendAgeSeconds'']"
  by (simp add: NewPgStatActivityCollector_def Let_def)

lemma PgStatActivityCollector_Describe_all:
  "map fst (vecs c) = map fst (vecs (NewPgStatActivityCollector P g cs)) \<Longrightarrow>
   mset (PgStatActivityCollector_Describe P c) = mset (map (vec_desc P \<circ> snd) (vecs c))"
  unfolding PgStatActivityCollector_names PgStatActivityCollector_Describe_def
  by (rule describe_fields_all, assumption) code_simp

lemma PgStatActivityCollector_collectInto_all:
  "map fst (vecs c) = map fst (vecs (NewPgStatActivityCollector P g cs)) \<Longrightarrow>
   mset (PgStatActivityCollector_collectInto P c) = mset (concat (map (vec_Collect P \<circ> snd) (vecs c)))"
  unfolding PgStatActivityCollector_names PgStatActivityCollector_collectInto_def
  by (rule collect_fields_all, assumption) code_simp

subsection \<open>\<^verbatim>\<open>PgLocksCollector\<close>\<close>

definition NewPgLocksCollector :: "('cv, 'gv) prom \<Rightarrow> namespaces \<Rightarrow> nat list \<Rightarrow>
    ('cv, 'gv) collector" where
  "NewPgLocksCollector P g clients =
    (let labels1 = [''database'', ''datname'', ''mode'', ''locktype'', ''granted''];
         labels2 = [''database''];
         gauge1 = (\<lambda>n h. GaugeField (gaugeFactory P g locksSubSystem labels1 n h));
         gauge2 = (\<lambda>n h. GaugeField (gaugeFactory P g locksSubSystem labels2 n h))
     in \<lparr>dbClients = clients, vecs = [
       (''count'', gauge1 ''count'' ''Number of locks in this (mode, locktype, granted) bucket''),
       (''blockedBackends'', gauge2 ''blocked_backends'' ''Number of backends currently waiting on another backend''),
       (''blockerEdges'', gauge2 ''blocker_edges'' (''Total (blocked, blocker) pairs across the cluster '' @ [CHR 0xE2, CHR 0x80, CHR 0x94] @ '' sum of |pg_blocking_pids(pid)|''))]\<rparr>)"

definition PgLocksCollector_Describe :: "('cv, 'gv) prom \<Rightarrow> ('cv, 'gv) collector \<Rightarrow> desc list" where
  "PgLocksCollector_Describe P c = describe_fields P [
     ''count'', ''blockedBackends'', ''blockerEdges''] c"

definition PgLocksCollector_collectInto :: "('cv, 'gv) prom \<Rightarrow> ('cv, 'gv) collector \<Rightarrow> metric list" where
  "PgLocksCollector_collectInto P c = collect_fields P [
     ''count'', ''blockedBackends'', ''blockerEdges''] c"

definition PgLocksCollector_emit :: "PgLock list \<Rightarrow> PgLocksBlockingSummary list \<Rightarrow> emission list" where
  "PgLocksCollector_emit locks summary =
     concat (map (\<lambda>stat.
       if \<not> Int8Valid (PgLock.Count stat) then [] else
       let granted = (if BoolValid (PgLock.Granted stat) then FormatBool (Bool (PgLock.Granted stat)) else [])
       in [SetG ''count'' (f64_of_int64 (Int64 (PgLock.Count stat)))
             [String (PgLock.Database stat), String (PgLock.DatName stat), String (PgLock.Mode stat),
              String (PgLock.LockType stat), granted]]) locks) @
     concat (map (\<lambda>s. concat [
       emitGauge ''blockedBackends'' (PgLocksBlockingSummary.BlockedBackends s) [String (PgLocksBlockingSummary.Database s)],
       emitGauge ''blockerEdges'' (PgLocksBlockingSummary.BlockerEdges s) [String (PgLocksBlockingSummary.Database s)]]) summary)"

definition PgLocksCollector_scrape :: scrape_body where
  "PgLocksCollector_scrape srv s =
    (case SelectPgLocks (q_PgLocks srv) s of
       (Inl e, s) \<Rightarrow> (([], Some (''lock stats: '' @ e)), s)
     | (Inr locks, s) \<Rightarrow>
         (case SelectPgLocksBlockingSummary (q_PgLocksBlockingSummary srv) s of
            (Inl e, s) \<Rightarrow> (([], Some (''lock blocking summary: '' @ e)), s)
          | (Inr summary, s) \<Rightarrow> ((singles (PgLocksCollector_emit locks summary), None), s)))"

definition PgLocksCollector_Scrape :: "('cv, 'gv) prom \<Rightarrow> (error option list \<Rightarrow> error option) \<Rightarrow> nat list \<Rightarrow>
    (nat \<Rightarrow> server) \<Rightarrow> (nat \<Rightarrow> cstate) \<Rightarrow> ('cv, 'gv) collector \<Rightarrow> ('cv, 'gv) outcome option" where
  "PgLocksCollector_Scrape P wait sched srv cl c =
     Scrape_group P wait sched PgLocksCollector_scrape PgLocksCollector_collectInto srv cl c"

lemma PgLocksCollector_shapes [shape_simps]:
  "prom_vecs P \<Longrightarrow> shapes (schema_of P (NewPgLocksCollector P g cs)) = [
      (''count'', False, 5), (''blockedBackends'', False, 1), (''blockerEdges'', False, 1)]"
  by (simp add: NewPgLocksCollector_def schema_simps)

lemma PgLocksCollector_emit_shape [shape_intros]:
  "prom_vecs P \<Longrightarrow>
   list_all (emission_shape (schema_of P (NewPgLocksCollector P g cs))) (PgLocksCollector_emit stats summary)"
  by (simp add: PgLocksCollector_emit_def list_all_emits Let_def shape_simps)

lemma PgLocksCollector_scrape_shape:
  "prom_vecs P \<Longrightarrow>
   list_all (emission_shape (schema_of P (NewPgLocksCollector P g cs)))
     (concat (fst (fst (PgLocksCollector_scrape srv s))))"
  by (simp add: PgLocksCollector_scrape_def shape_intros split: prod.splits sum.splits)


lemma PgLocksCollector_names [shape_simps]:
  "map fst (vecs (NewPgLocksCollector P g cs)) = [
      ''count'', ''blockedBackends'', ''blockerEdges'']"
  by (simp add: NewPgLocksCollector_def Let_def)

lemma PgLocksCollector_Describe_all:
  "map fst (vecs c) = map fst (vecs (NewPgLocksCollector P g cs)) \<Longrightarrow>
   mset (PgLocksCollector_Describe P c) = mset (map (vec_desc P \<circ> snd) (vecs c))"
  unfolding PgLocksCollector_names PgLocksCollector_Describe_def
  by (rule describe_fields_all, assumption) code_simp

lemma PgLocksCollector_collectInto_all:
  "map fst (vecs c) = map fst (vecs (NewPgLocksCollector P g cs)) \<Longrightarrow>
   mset (PgLocksCollector_collectInto P c) = mset (concat (map (vec_Collect P \<circ> snd) (vecs c)))"
  unfolding PgLocksCollector_names PgLocksCollector_collectInto_def
  by (rule collect_fields_all, assumption) code_simp

subsection \<open>\<^verbatim>\<open>PgStatSSLCollector\<close>\<close>

definition NewPgStatSSLCollector :: "('cv, 'gv) prom \<Rightarrow> namespaces \<Rightarrow> nat list \<Rightarrow>
    ('cv, 'gv) collector" where
  "NewPgStatSSLCollector P g clients =
    (let labels = [''database'', ''ssl'', ''version'', ''cipher'', ''bits''];
         gauge = (\<lambda>n h. GaugeField (gaugeFactory P g sslSubSystem labels n h))
     in \<lparr>dbClients = clients, vecs = [
       (''connections'', gauge ''connections'' ''Number of connections grouped by TLS parameters'')]\<rparr>)"

definition PgStatSSLCollector_Describe :: "('cv, 'gv) prom \<Rightarrow> ('cv, 'gv) collector \<Rightarrow> desc list" where
  "PgStatSSLCollector_Describe P c = describe_fields P [
     ''connections''] c"

definition PgStatSSLCollector_collectInto :: "('cv, 'gv) prom \<Rightarrow> ('cv, 'gv) collector \<Rightarrow> metric list" where
  "PgStatSSLCollector_collectInto P c = collect_fields P [
     ''connections''] c"

definition PgStatSSLCollector_emit :: "PgStatSSL list \<Rightarrow> emission list" where
  "PgStatSSLCollector_emit stats = concat (map (\<lambda>stat.
     if \<not> BoolValid (PgStatSSL.SSL stat) \<or> \<not> Int8Valid (PgStatSSL.Connections stat) then [] else
     [SetG ''connections'' (f64_of_int64 (Int64 (PgStatSSL.Connections stat)))
        [String (PgStatSSL.Database stat),
         FormatBool (Bool (PgStatSSL.SSL stat)),
         String (PgStatSSL.Version stat),
         String (PgStatSSL.Cipher stat),
         Itoa (sint (Int64 (PgStatSSL.Bits stat)))]]) stats)"

definition PgStatSSLCollector_scrape :: scrape_body where
  "PgStatSSLCollector_scrape srv s =
    (case SelectPgStatSSL (q_PgStatSSL srv) s of
       (Inl e, s) \<Rightarrow> (([], Some (''ssl stats: '' @ e)), s)
     | (Inr stats, s) \<Rightarrow> ((singles (PgStatSSLCollector_emit stats), None), s))"

definition PgStatSSLCollector_Scrape :: "('cv, 'gv) prom \<Rightarrow> (error option list \<Rightarrow> error option) \<Rightarrow> nat list \<Rightarrow>
    (nat \<Rightarrow> server) \<Rightarrow> (nat \<Rightarrow> cstate) \<Rightarrow> ('cv, 'gv) collector \<Rightarrow> ('cv, 'gv) outcome option" where
  "PgStatSSLCollector_Scrape P wait sched srv cl c =
     Scrape_group P wait sched PgStatSSLCollector_scrape PgStatSSLCollector_collectInto srv cl c"

lemma PgStatSSLCollector_shapes [shape_simps]:
  "prom_vecs P \<Longrightarrow> shapes (schema_of P (NewPgStatSSLCollector P g cs)) = [
      (''connections'', False, 5)]"
  by (simp add: NewPgStatSSLCollector_def schema_simps)

lemma PgStatSSLCollector_emit_shape [shape_intros]:
  "prom_vecs P \<Longrightarrow>
   list_all (emission_shape (schema_of P (NewPgStatSSLCollector P g cs))) (PgStatSSLCollector_emit stats)"
  by (simp add: PgStatSSLCollector_emit_def list_all_emits Let_def shape_simps)

lemma PgStatSSLCollector_scrape_shape:
  "prom_vecs P \<Longrightarrow>
   list_all (emission_shape (schema_of P (NewPgStatSSLCollector P g cs)))
     (concat (fst (fst (PgStatSSLCollector_scrape srv s))))"
  by (simp add: PgStatSSLCollector_scrape_def shape_intros split: prod.splits sum.splits)


lemma PgStatSSLCollector_names [shape_simps]:
  "map fst (vecs (NewPgStatSSLCollector P g cs)) = [
      ''connections'']"
  by (simp add: NewPgStatSSLCollector_def Let_def)

lemma PgStatSSLCollector_Describe_all:
  "map fst (vecs c) = map fst (vecs (NewPgStatSSLCollector P g cs)) \<Longrightarrow>
   mset (PgStatSSLCollector_Describe P c) = mset (map (vec_desc P \<circ> snd) (vecs c))"
  unfolding PgStatSSLCollector_names PgStatSSLCollector_Describe_def
  by (rule describe_fields_all, assumption) code_simp

lemma PgStatSSLCollector_collectInto_all:
  "map fst (vecs c) = map fst (vecs (NewPgStatSSLCollector P g cs)) \<Longrightarrow>
   mset (PgStatSSLCollector_collectInto P c) = mset (concat (map (vec_Collect P \<circ> snd) (vecs c)))"
  unfolding PgStatSSLCollector_names PgStatSSLCollector_collectInto_def
  by (rule collect_fields_all, assumption) code_simp

subsection \<open>\<^verbatim>\<open>PgSettingsCollector\<close>\<close>

definition NewPgSettingsCollector :: "('cv, 'gv) prom \<Rightarrow> namespaces \<Rightarrow> nat list \<Rightarrow>
    ('cv, 'gv) collector" where
  "NewPgSettingsCollector P g clients =
    (let labels = [''database'', ''name'', ''unit'', ''vartype''];
         gauge = (\<lambda>n h. GaugeField (gaugeFactoryRawPg P g settingsSubSystem labels n h))
     in \<lparr>dbClients = clients, vecs = [
       (''value'', gauge ''value'' ''Value of the pg_settings entry (bool as 0/1, integer/real as numeric)'')]\<rparr>)"

definition PgSettingsCollector_Describe :: "('cv, 'gv) prom \<Rightarrow> ('cv, 'gv) collector \<Rightarrow> desc list" where
  "PgSettingsCollector_Describe P c = describe_fields P [
     ''value''] c"

definition PgSettingsCollector_collectInto :: "('cv, 'gv) prom \<Rightarrow> ('cv, 'gv) collector \<Rightarrow> metric list" where
  "PgSettingsCollector_collectInto P c = collect_fields P [
     ''value''] c"

definition PgSettingsCollector_emit :: "PgSetting list \<Rightarrow> emission list" where
  "PgSettingsCollector_emit stats = concat (map (\<lambda>stat.
     if \<not> TextValid (PgSetting.Name stat) \<or> \<not> Float8Valid (PgSetting.Value stat) then [] else
     [SetG ''value'' (Float64 (PgSetting.Value stat))
        [String (PgSetting.Database stat),
         String (PgSetting.Name stat),
         String (PgSetting.Unit stat),
         String (PgSetting.VarType stat)]]) stats)"

definition PgSettingsCollector_scrape :: scrape_body where
  "PgSettingsCollector_scrape srv s =
    (case SelectPgSettings (q_PgSettings srv) s of
       (Inl e, s) \<Rightarrow> (([], Some (''pg_settings: '' @ e)), s)
     | (Inr stats, s) \<Rightarrow> ((singles (PgSettingsCollector_emit stats), None), s))"

definition PgSettingsCollector_Scrape :: "('cv, 'gv) prom \<Rightarrow> (error option list \<Rightarrow> error option) \<Rightarrow> nat list \<Rightarrow>
    (nat \<Rightarrow> server) \<Rightarrow> (nat \<Rightarrow> cstate) \<Rightarrow> ('cv, 'gv) collector \<Rightarrow> ('cv, 'gv) outcome option" where
  "PgSettingsCollector_Scrape P wait sched srv cl c =
     Scrape_group P wait sched PgSettingsCollector_scrape PgSettingsCollector_collectInto srv cl c"

lemma PgSettingsCollector_shapes [shape_simps]:
  "prom_vecs P \<Longrightarrow> shapes (schema_of P (NewPgSettingsCollector P g cs)) = [
      (''value'', False, 4)]"
  by (simp add: NewPgSettingsCollector_def schema_simps)

lemma PgSettingsCollector_emit_shape [shape_intros]:
  "prom_vecs P \<Longrightarrow>
   list_all (emission_shape (schema_of P (NewPgSettingsCollector P g cs))) (PgSettingsCollector_emit stats)"
  by (simp add: PgSettingsCollector_emit_def list_all_emits Let_def shape_simps)

lemma PgSettingsCollector_scrape_shape:
  "prom_vecs P \<Longrightarrow>
   list_all (emission_shape (schema_of P (NewPgSettingsCollector P g cs)))
     (concat (fst (fst (PgSettingsCollector_scrape srv s))))"
  by (simp add: PgSettingsCollector_scrape_def shape_intros split: prod.splits sum.splits)


lemma PgSettingsCollector_names [shape_simps]:
  "map fst (vecs (NewPgSettingsCollector P g cs)) = [
      ''value'']"
  by (simp add: NewPgSettingsCollector_def Let_def)

lemma PgSettingsCollector_Describe_all:
  "map fst (vecs c) = map fst (vecs (NewPgSettingsCollector P g cs)) \<Longrightarrow>
   mset (PgSettingsCollector_Describe P c) = mset (map (vec_desc P \<circ> snd) (vecs c))"
  unfolding PgSettingsCollector_names PgSettingsCollector_Describe_def
  by (rule describe_fields_all, assumption) code_simp

lemma PgSettingsCollector_collectInto_all:
  "map fst (vecs c) = map fst (vecs (NewPgSettingsCollector P g cs)) \<Longrightarrow>
   mset (PgSettingsCollector_collectInto P c) = mset (concat (map (vec_Collect P \<circ> snd) (vecs c)))"
  unfolding PgSettingsCollector_names PgSettingsCollector_collectInto_def
  by (rule collect_fields_all, assumption) code_simp

subsection \<open>\<^verbatim>\<open>PgStatArchiverCollector\<close>\<close>

definition NewPgStatArchiverCollector :: "('cv, 'gv) prom \<Rightarrow> namespaces \<Rightarrow> nat list \<Rightarrow>
    ('cv, 'gv) collector" where
  "NewPgStatArchiverCollector P g clients =
    (let labels = [''database''];
         counter = (\<lambda>n h. CounterField (counterFactory P g archiverSubSystem labels n h));
         gauge = (\<lambda>n h. GaugeField (gaugeFactory P g archiverSubSystem labels n h))
     in \<lparr>dbClients = clients, vecs = [
       (''archivedCount'', counter ''archived_count_total'' ''WAL files successfully archived''),
       (''lastArchivedTime'', gauge ''last_archived_timestamp_seconds'' ''Unix time of the most recent successful archive''),
       (''failedCount'', counter ''failed_count_total'' ''Failed attempts to archive WAL files''),
       (''lastFailedTime'', gauge ''last_failed_timestamp_seconds'' ''Unix time of the most recent archive failure''),
       (''statsReset'', gauge ''stats_reset_timestamp_seconds'' ''Unix time at which these stats were last reset'')]\<rparr>)"

definition PgStatArchiverCollector_Describe :: "('cv, 'gv) prom \<Rightarrow> ('cv, 'gv) collector \<Rightarrow> desc list" where
  "PgStatArchiverCollector_Describe P c = describe_fields P [
     ''archivedCount'', ''lastArchivedTime'', ''failedCount'', ''lastFailedTime'', ''statsReset''] c"

definition PgStatArchiverCollector_collectInto :: "('cv, 'gv) prom \<Rightarrow> ('cv, 'gv) collector \<Rightarrow> metric list" where
  "PgStatArchiverCollector_collectInto P c = collect_fields P [
     ''archivedCount'', ''lastArchivedTime'', ''failedCount'', ''lastFailedTime'', ''statsReset''] c"

definition PgStatArchiverCollector_emit :: "PgStatArchiver list \<Rightarrow> emission list" where
  "PgStatArchiverCollector_emit stats = concat (map (\<lambda>stat.
     let labels = [String (PgStatArchiver.Database stat)]
     in concat [
       emitCounter ''archivedCount'' (PgStatArchiver.ArchivedCount stat) labels,
       emitTime ''lastArchivedTime'' (PgStatArchiver.LastArchivedTime stat) labels,
       emitCounter ''failedCount'' (PgStatArchiver.FailedCount stat) labels,
       emitTime ''lastFailedTime'' (PgStatArchiver.LastFailedTime stat) labels,
       emitTime ''statsReset'' (PgStatArchiver.StatsReset stat) labels]) stats)"

definition PgStatArchiverCollector_scrape :: scrape_body where
  "PgStatArchiverCollector_scrape srv s =
    (case SelectPgStatArchiver (q_PgStatArchiver srv) s of
       (Inl e, s) \<Rightarrow> (([], Some (''archiver stats: '' @ e)), s)
     | (Inr stats, s) \<Rightarrow> ((singles (PgStatArchiverCollector_emit stats), None), s))"

definition PgStatArchiverCollector_Scrape :: "('cv, 'gv) prom \<Rightarrow> (error option list \<Rightarrow> error option) \<Rightarrow> nat list \<Rightarrow>
    (nat \<Rightarrow> server) \<Rightarrow> (nat \<Rightarrow> cstate) \<Rightarrow> ('cv, 'gv) collector \<Rightarrow> ('cv, 'gv) outcome option" where
  "PgStatArchiverCollector_Scrape P wait sched srv cl c =
     Scrape_group P wait sched PgStatArchiverCollector_scrape PgStatArchiverCollector_collectInto srv cl c"

lemma PgStatArchiverCollector_shapes [shape_simps]:
  "prom_vecs P \<Longrightarrow> shapes (schema_of P (NewPgStatArchiverCollector P g cs)) = [
      (''archivedCount'', True, 1), (''lastArchivedTime'', False, 1), (''failedCount'', True, 1),
      (''lastFailedTime'', False, 1), (''statsReset'', False, 1)]"
  by (simp add: NewPgStatArchiverCollector_def schema_simps)

lemma PgStatArchiverCollector_emit_shape [shape_intros]:
  "prom_vecs P \<Longrightarrow>
   list_all (emission_shape (schema_of P (NewPgStatArchiverCollector P g cs))) (PgStatArchiverCollector_emit stats)"
  by (simp add: PgStatArchiverCollector_emit_def list_all_emits Let_def shape_simps)

lemma PgStatArchiverCollector_scrape_shape:
  "prom_vecs P \<Longrightarrow>
   list_all (emission_shape (schema_of P (NewPgStatArchiverCollector P g cs)))
     (concat (fst (fst (PgStatArchiverCollector_scrape srv s))))"
  by (simp add: PgStatArchiverCollector_scrape_def shape_intros split: prod.splits sum.splits)


lemma PgStatArchiverCollector_names [shape_simps]:
  "map fst (vecs (NewPgStatArchiverCollector P g cs)) = [
      ''archivedCount'', ''lastArchivedTime'', ''failedCount'', ''lastFailedTime'', ''statsReset'']"
  by (simp add: NewPgStatArchiverCollector_def Let_def)

lemma PgStatArchiverCollector_Describe_all:
  "map fst (vecs c) = map fst (vecs (NewPgStatArchiverCollector P g cs)) \<Longrightarrow>
   mset (PgStatArchiverCollector_Describe P c) = mset (map (vec_desc P \<circ> snd) (vecs c))"
  unfolding PgStatArchiverCollector_names PgStatArchiverCollector_Describe_def
  by (rule describe_fields_all, assumption) code_simp

lemma PgStatArchiverCollector_collectInto_all:
  "map fst (vecs c) = map fst (vecs (NewPgStatArchiverCollector P g cs)) \<Longrightarrow>
   mset (PgStatArchiverCollector_collectInto P c) = mset (concat (map (vec_Collect P \<circ> snd) (vecs c)))"
  unfolding PgStatArchiverCollector_names PgStatArchiverCollector_collectInto_def
  by (rule collect_fields_all, assumption) code_simp

subsection \<open>\<^verbatim>\<open>PgStatWalCollector\<close>\<close>

definition NewPgStatWalCollector :: "('cv, 'gv) prom \<Rightarrow> namespaces \<Rightarrow> nat list \<Rightarrow>
    ('cv, 'gv) collector" where
  "NewPgStatWalCollector P g clients =
    (let labels = [''database''];
         counter = (\<lambda>n h. CounterField (counterFactory P g walSubSystem labels n h));
         gauge = (\<lambda>n h. GaugeField (gaugeFactory P g walSubSystem labels n h))
     in \<lparr>dbClients = clients, vecs = [
       (''walRecords'', counter ''records_total'' ''WAL records generated''),
       (''walFpi'', counter ''fpi_total'' ''WAL full-page images generated''),
       (''walBytes'', counter ''bytes_total'' ''Total WAL bytes generated''),
       (''walBuffersFull'', counter ''buffers_full_total'' ''Times WAL data was written because buffers were full''),
       (''walWrite'', counter ''write_total'' (''WAL writes issued (PG 14 only '' @ [CHR 0xE2, CHR 0x80, CHR 0x94] @ '' merged into pg_stat_io in PG 15)'')),
       (''walSync'', counter ''sync_total'' ''WAL syncs issued (PG 14 only)''),
       (''walWriteTime'', counter ''write_time_seconds_total'' ''Total time spent in WAL writes, seconds (PG 14 only)''),
       (''walSyncTime'', counter ''sync_time_seconds_total'' ''Total time spent in WAL syncs, seconds (PG 14 only)''),
       (''statsReset'', gauge ''stats_reset_timestamp_seconds'' ''Unix time at which these stats were last reset'')]\<rparr>)"

definition PgStatWalCollector_Describe :: "('cv, 'gv) prom \<Rightarrow> ('cv, 'gv) collector \<Rightarrow> desc list" where
  "PgStatWalCollector_Describe P c = describe_fields P [
     ''walRecords'', ''walFpi'', ''walBytes'', ''walBuffersFull'', ''walWrite'', ''walSync'',
     ''walWriteTime'', ''walSyncTime'', ''statsReset''] c"

definition PgStatWalCollector_collectInto :: "('cv, 'gv) prom \<Rightarrow> ('cv, 'gv) collector \<Rightarrow> metric list" where
  "PgStatWalCollector_collectInto P c = collect_fields P [
     ''walRecords'', ''walFpi'', ''walBytes'', ''walBuffersFull'', ''walWrite'', ''walSync'',
     ''walWriteTime'', ''walSyncTime'', ''statsReset''] c"

definition PgStatWalCollector_emit :: "PgStatWal list \<Rightarrow> emission list" where
  "PgStatWalCollector_emit stats = concat (map (\<lambda>stat.
     let labels = [String (PgStatWal.Database stat)]
     in concat [
       emitCounter ''walRecords'' (PgStatWal.WalRecords stat) labels,
       emitCounter ''walFpi'' (PgStatWal.WalFpi stat) labels,
       emitCounterFloat ''walBytes'' (PgStatWal.WalBytes stat) labels,
       emitCounter ''walBuffersFull'' (PgStatWal.WalBuffersFull stat) labels,
       emitCounter ''walWrite'' (PgStatWal.WalWrite stat) labels,
       emitCounter ''walSync'' (PgStatWal.WalSync stat) labels,
       emitMillisAsSecs ''walWriteTime'' (PgStatWal.WalWriteTime stat) labels,
       emitMillisAsSecs ''walSyncTime'' (PgStatWal.WalSyncTime stat) labels,
       emitTime ''statsReset'' (PgStatWal.StatsReset stat) labels]) stats)"

definition PgStatWalCollector_scrape :: scrape_body where
  "PgStatWalCollector_scrape srv s =
    (case SelectPgStatWal (q_PgStatWal srv) s of
       (Inl e, s) \<Rightarrow> (([], Some (''wal stats: '' @ e)), s)
     | (Inr stats, s) \<Rightarrow> ((singles (PgStatWalCollector_emit stats), None), s))"

definition PgStatWalCollector_Scrape :: "('cv, 'gv) prom \<Rightarrow> (error option list \<Rightarrow> error option) \<Rightarrow> nat list \<Rightarrow>
    (nat \<Rightarrow> server) \<Rightarrow> (nat \<Rightarrow> cstate) \<Rightarrow> ('cv, 'gv) collector \<Rightarrow> ('cv, 'gv) outcome option" where
  "PgStatWalCollector_Scrape P wait sched srv cl c =
     Scrape_group P wait sched PgStatWalCollector_scrape PgStatWalCollector_collectInto srv cl c"

lemma PgStatWalCollector_shapes [shape_simps]:
  "prom_vecs P \<Longrightarrow> shapes (schema_of P (NewPgStatWalCollector P g cs)) = [
      (''walRecords'', True, 1), (''walFpi'', True, 1), (''walBytes'', True, 1),
      (''walBuffersFull'', True, 1), (''walWrite'', True, 1), (''walSync'', True, 1),
      (''walWriteTime'', True, 1), (''walSyncTime'', True, 1), (''statsReset'', False, 1)]"
  by (simp add: NewPgStatWalCollector_def schema_simps)

lemma PgStatWalCollector_emit_shape [shape_intros]:
  "prom_vecs P \<Longrightarrow>
   list_all (emission_shape (schema_of P (NewPgStatWalCollector P g cs))) (PgStatWalCollector_emit stats)"
  by (simp add: PgStatWalCollector_emit_def list_all_emits Let_def shape_simps)

lemma PgStatWalCollector_scrape_shape:
  "prom_vecs P \<Longrightarrow>
   list_all (emission_shape (schema_of P (NewPgStatWalCollector P g cs)))
     (concat (fst (fst (PgStatWalCollector_scrape srv s))))"
  by (simp add: PgStatWalCollector_scrape_def shape_intros split: prod.splits sum.splits)


lemma PgStatWalCollector_names [shape_simps]:
  "map fst (vecs (NewPgStatWalCollector P g cs)) = [
      ''walRecords'', ''walFpi'', ''walBytes'', ''walBuffersFull'', ''walWrite'', ''walSync'',
      ''walWriteTime'', ''walSyncTime'', ''statsReset'']"
  by (simp add: NewPgStatWalCollector_def Let_def)

lemma PgStatWalCollector_Describe_all:
  "map fst (vecs c) = map fst (vecs (NewPgStatWalCollector P g cs)) \<Longrightarrow>
   mset (PgStatWalCollector_Describe P c) = mset (map (vec_desc P \<circ> snd) (vecs c))"
  unfolding PgStatWalCollector_names PgStatWalCollector_Describe_def
  by (rule describe_fields_all, assumption) code_simp

lemma PgStatWalCollector_collectInto_all:
  "map fst (vecs c) = map fst (vecs (NewPgStatWalCollector P g cs)) \<Longrightarrow>
   mset (PgStatWalCollector_collectInto P c) = mset (concat (map (vec_Collect P \<circ> snd) (vecs c)))"
  unfolding PgStatWalCollector_names PgStatWalCollector_collectInto_def
  by (rule collect_fields_all, assumption) code_simp

subsection \<open>\<^verbatim>\<open>PgStatWalReceiverCollector\<close>\<close>

definition NewPgStatWalReceiverCollector :: "('cv, 'gv) prom \<Rightarrow> namespaces \<Rightarrow> nat list \<Rightarrow>
    ('cv, 'gv) collector" where
  "NewPgStatWalReceiverCollector P g clients =
    (let labels = [''database'', ''status'', ''slot_name'', ''sender_host''];
         gauge = (\<lambda>n h. GaugeField (gaugeFactory P g walReceiverSubSystem labels n h))
     in \<lparr>dbClients = clients, vecs = [
       (''receiveStartLsn'', gauge ''receive_start_lsn_bytes'' ''WAL location at which streaming started, as a byte offset''),
       (''writtenLsn'', gauge ''written_lsn_bytes'' ''Last WAL byte written to disk by the receiver''),
       (''flushedLsn'', gauge ''flushed_lsn_bytes'' ''Last WAL byte flushed to disk by the receiver''),
       (''latestEndLsn'', gauge ''latest_end_lsn_bytes'' ''Last WAL byte reported to the upstream by the receiver''),
       (''lastMsgSendTime'', gauge ''last_msg_send_timestamp_seconds'' ''Unix time when the last message was sent from the upstream''),
       (''lastMsgReceiptTime'', gauge ''last_msg_receipt_timestamp_seconds'' ''Unix time when the last message was received from the upstream''),
       (''latestEndTime'', gauge ''latest_end_timestamp_seconds'' ''Unix time of the last message the receiver replied to'')]\<rparr>)"

definition PgStatWalReceiverCollector_Describe :: "('cv, 'gv) prom \<Rightarrow> ('cv, 'gv) collector \<Rightarrow> desc list" where
  "PgStatWalReceiverCollector_Describe P c = describe_fields P [
     ''receiveStartLsn'', ''writtenLsn'', ''flushedLsn'', ''latestEndLsn'', ''lastMsgSendTime'',
     ''lastMsgReceiptTime'', ''latestEndTime''] c"

definition PgStatWalReceiverCollector_collectInto :: "('cv, 'gv) prom \<Rightarrow> ('cv, 'gv) collector \<Rightarrow> metric list" where
  "PgStatWalReceiverCollector_collectInto P c = collect_fields P [
     ''receiveStartLsn'', ''writtenLsn'', ''flushedLsn'', ''latestEndLsn'', ''lastMsgSendTime'',
     ''lastMsgReceiptTime'', ''latestEndTime''] c"

definition PgStatWalReceiverCollector_emit :: "PgStatWalReceiver list \<Rightarrow> emission list" where
  "PgStatWalReceiverCollector_emit stats = concat (map (\<lambda>stat.
     let labels = [String (PgStatWalReceiver.Database stat),
                   String (PgStatWalReceiver.Status stat),
                   String (PgStatWalReceiver.SlotName stat),
                   String (PgStatWalReceiver.SenderHost stat)]
     in concat [
       emitFloat ''receiveStartLsn'' (PgStatWalReceiver.ReceiveStartLsnBytes stat) labels,
       emitFloat ''writtenLsn'' (PgStatWalReceiver.WrittenLsnBytes stat) labels,
       emitFloat ''flushedLsn'' (PgStatWalReceiver.FlushedLsnBytes stat) labels,
       emitFloat ''latestEndLsn'' (PgStatWalReceiver.LatestEndLsnBytes stat) labels,
       emitTime ''lastMsgSendTime'' (PgStatWalReceiver.LastMsgSendTime stat) labels,
       emitTime ''lastMsgReceiptTime'' (PgStatWalReceiver.LastMsgReceiptTime stat) labels,
       emitTime ''latestEndTime'' (PgStatWalReceiver.LatestEndTime stat) labels]) stats)"

definition PgStatWalReceiverCollector_scrape :: scrape_body where
  "PgStatWalReceiverCollector_scrape srv s =
    (case SelectPgStatWalReceiver (q_PgStatWalReceiver srv) s of
       (Inl e, s) \<Rightarrow> (([], Some (''wal_receiver stats: '' @ e)), s)
     | (Inr stats, s) \<Rightarrow> ((singles (PgStatWalReceiverCollector_emit stats), None), s))"

definition PgStatWalReceiverCollector_Scrape :: "('cv, 'gv) prom \<Rightarrow> (error option list \<Rightarrow> error option) \<Rightarrow> nat list \<Rightarrow>
    (nat \<Rightarrow> server) \<Rightarrow> (nat \<Rightarrow> cstate) \<Rightarrow> ('cv, 'gv) collector \<Rightarrow> ('cv, 'gv) outcome option" where
  "PgStatWalReceiverCollector_Scrape P wait sched srv cl c =
     Scrape_group P wait sched PgStatWalReceiverCollector_scrape PgStatWalReceiverCollector_collectInto srv cl c"

lemma PgStatWalReceiverCollector_shapes [shape_simps]:
  "prom_vecs P \<Longrightarrow> shapes (schema_of P (NewPgStatWalReceiverCollector P g cs)) = [
      (''receiveStartLsn'', False, 4), (''writtenLsn'', False, 4), (''flushedLsn'', False, 4),
      (''latestEndLsn'', False, 4), (''lastMsgSendTime'', False, 4),
      (''lastMsgReceiptTime'', False, 4), (''latestEndTime'', False, 4)]"
  by (simp add: NewPgStatWalReceiverCollector_def schema_simps)

lemma PgStatWalReceiverCollector_emit_shape [shape_intros]:
  "prom_vecs P \<Longrightarrow>
   list_all (emission_shape (schema_of P (NewPgStatWalReceiverCollector P g cs))) (PgStatWalReceiverCollector_emit stats)"
  by (simp add: PgStatWalReceiverCollector_emit_def list_all_emits Let_def shape_simps)

lemma PgStatWalReceiverCollector_scrape_shape:
  "prom_vecs P \<Longrightarrow>
   list_all (emission_shape (schema_of P (NewPgStatWalReceiverCollector P g cs)))
     (concat (fst (fst (PgStatWalReceiverCollector_scrape srv s))))"
  by (simp add: PgStatWalReceiverCollector_scrape_def shape_intros split: prod.splits sum.splits)


lemma PgStatWalReceiverCollector_names [shape_simps]:
  "map fst (vecs (NewPgStatWalReceiverCollector P g cs)) = [
      ''receiveStartLsn'', ''writtenLsn'', ''flushedLsn'', ''latestEndLsn'', ''lastMsgSendTime'',
      ''lastMsgReceiptTime'', ''latestEndTime'']"
  by (simp add: NewPgStatWalReceiverCollector_def Let_def)

lemma PgStatWalReceiverCollector_Describe_all:
  "map fst (vecs c) = map fst (vecs (NewPgStatWalReceiverCollector P g cs)) \<Longrightarrow>
   mset (PgStatWalReceiverCollector_Describe P c) = mset (map (vec_desc P \<circ> snd) (vecs c))"
  unfolding PgStatWalReceiverCollector_names PgStatWalReceiverCollector_Describe_def
  by (rule describe_fields_all, assumption) code_simp

lemma PgStatWalReceiverCollector_collectInto_all:
  "map fst (vecs c) = map fst (vecs (NewPgStatWalReceiverCollector P g cs)) \<Longrightarrow>
   mset (PgStatWalReceiverCollector_collectInto P c) = mset (concat (map (vec_Collect P \<circ> snd) (vecs c)))"
  unfolding PgStatWalReceiverCollector_names PgStatWalReceiverCollector_collectInto_def
  by (rule collect_fields_all, assumption) code_simp

end
