(* ===== verification/CollDatabase.thy ===== *)
theory CollDatabase
  imports Collector
begin

text \<open>
  Databases, background writer and checkpointer.
  Per collector of \<open>exporter/collectors/\<close>: the constructor, \<open>Describe\<close> and
  \<open>collectInto\<close> with the fields in the order of the source, \<open>emit\<close>, the scrape of one client
  and \<open>Scrape\<close>. The lemmas show that every emission names a field of its kind with the right
  number of label values, and that \<open>Describe\<close> and \<open>collectInto\<close> reach every field once.
\<close>

subsection \<open>\<^verbatim>\<open>PgStatDatabaseCollector\<close>\<close>

definition NewPgStatDatabaseCollector :: "('cv, 'gv) prom \<Rightarrow> namespaces \<Rightarrow> nat list \<Rightarrow>
    ('cv, 'gv) collector" where
  "NewPgStatDatabaseCollector P g clients =
    (let labels = [''database'', ''datname''];
         gauge = (\<lambda>n h. GaugeField (gaugeFactory P g databaseSubSystem labels n h));
         counter = (\<lambda>n h. CounterField (counterFactory P g databaseSubSystem labels n h))
     in \<lparr>dbClients = clients, vecs = [
       (''numBackends'', gauge ''numbackends'' ''Number of backends currently connected to this database''),
       (''xactCommit'', counter ''xact_commit_total'' ''Transactions committed in this database''),
       (''xactRollback'', counter ''xact_rollback_total'' ''Transactions rolled back in this database''),
       (''blksRead'', counter ''blks_read_total'' ''Disk blocks read in this database''),
       (''blksHit'', counter ''blks_hit_total'' ''Buffer cache hits in this database''),
       (''tupReturned'', counter ''tup_returned_total'' ''Live rows fetched by sequential scans + index entries returned by index scans''),
       (''tupFetched'', counter ''tup_fetched_total'' ''Live rows fetched by index scans''),
       (''tupInserted'', counter ''tup_inserted_total'' ''Rows inserted by queries in this database''),
       (''tupUpdated'', counter ''tup_updated_total'' ''Rows updated by queries in this database''),
       (''tupDeleted'', counter ''tup_deleted_total'' ''Rows deleted by queries in this database''),
       (''conflicts'', counter ''conflicts_total'' ''Queries canceled due to conflicts with recovery on standbys''),
       (''tempFiles'', counter ''temp_files_total'' ''Temporary files created by queries in this database''),
       (''tempBytes'', counter ''temp_bytes_total'' ''Bytes written to temporary files in this database''),
       (''deadlocks'', counter ''deadlocks_total'' ''Deadlocks detected in this database''),
       (''blkReadTime'', counter ''blk_read_time_seconds_total'' ''Time spent reading data blocks by backends in this database (seconds)''),
       (''blkWriteTime'', counter ''blk_write_time_seconds_total'' ''Time spent writing data blocks by backends in this database (seconds)''),
       (''statsReset'', gauge ''stats_reset_timestamp_seconds'' ''Unix time at which these stats were last reset''),
       (''checksumFailures'', counter ''checksum_failures_total'' ''Data page checksum failures detected in this database (PG 12+)''),
       (''checksumLastFailure'', gauge ''checksum_last_failure_timestamp_seconds'' ''Unix time of the last data page checksum failure (PG 12+)''),
       (''sessionTime'', counter ''session_time_seconds_total'' ''Total session time in this database (seconds, PG 14+)''),
       (''activeTime'', counter ''active_time_seconds_total'' ''Total active-query time in this database (seconds, PG 14+)''),
       (''idleInTransactionTime'', counter ''idle_in_transaction_time_seconds_total'' ''Total idle-in-transaction time in this database (seconds, PG 14+)''),
       (''sessions'', counter ''sessions_total'' ''Sessions established in this database (PG 14+)''),
       (''sessionsAbandoned'', counter ''sessions_abandoned_total'' ''Sessions abandoned due to connection loss (PG 14+)''),
       (''sessionsFatal'', counter ''sessions_fatal_total'' ''Sessions terminated by fatal errors (PG 14+)''),
       (''sessionsKilled'', counter ''sessions_killed_total'' ''Sessions terminated by operator intervention (PG 14+)'')]\<rparr>)"

definition PgStatDatabaseCollector_Describe :: "('cv, 'gv) prom \<Rightarrow> ('cv, 'gv) collector \<Rightarrow> desc list" where
  "PgStatDatabaseCollector_Describe P c = describe_fields P [
     ''numBackends'', ''xactCommit'', ''xactRollback'', ''blksRead'', ''blksHit'', ''tupReturned'',
     ''tupFetched'', ''tupInserted'', ''tupUpdated'', ''tupDeleted'', ''conflicts'', ''tempFiles'',
     ''tempBytes'', ''deadlocks'', ''blkReadTime'', ''blkWriteTime'', ''statsReset'',
     ''checksumFailures'', ''checksumLastFailure'', ''sessionTime'', ''activeTime'',
     ''idleInTransactionTime'', ''sessions'', ''sessionsAbandoned'', ''sessionsFatal'',
     ''sessionsKilled''] c"

definition PgStatDatabaseCollector_collectInto :: "('cv, 'gv) prom \<Rightarrow> ('cv, 'gv) collector \<Rightarrow> metric list" where
  "PgStatDatabaseCollector_collectInto P c = collect_fields P [
     ''numBackends'', ''xactCommit'', ''xactRollback'', ''blksRead'', ''blksHit'', ''tupReturned'',
     ''tupFetched'', ''tupInserted'', ''tupUpdated'', ''tupDeleted'', ''conflicts'', ''tempFiles'',
     ''tempBytes'', ''deadlocks'', ''blkReadTime'', ''blkWriteTime'', ''statsReset'',
     ''checksumFailures'', ''checksumLastFailure'', ''sessionTime'', ''activeTime'',
     ''idleInTransactionTime'', ''sessions'', ''sessionsAbandoned'', ''sessionsFatal'',
     ''sessionsKilled''] c"

definition PgStatDatabaseCollector_emit :: "PgStatDatabase list \<Rightarrow> emission list" where
  "PgStatDatabaseCollector_emit stats = concat (map (\<lambda>stat.
     let labels = [String (PgStatDatabase.Database stat),
                   String (PgStatDatabase.DatName stat)]
     in concat [
       emitGauge ''numBackends'' (PgStatDatabase.NumBackends stat) labels,
       emitCounter ''xactCommit'' (PgStatDatabase.XactCommit stat) labels,
       emitCounter ''xactRollback'' (PgStatDatabase.XactRollback stat) labels,
       emitCounter ''blksRead'' (PgStatDatabase.BlksRead stat) labels,
       emitCounter ''blksHit'' (PgStatDatabase.BlksHit stat) labels,
       emitCounter ''tupReturned'' (PgStatDatabase.TupReturned stat) labels,
       emitCounter ''tupFetched'' (PgStatDatabase.TupFetched stat) labels,
       emitCounter ''tupInserted'' (PgStatDatabase.TupInserted stat) labels,
       emitCounter ''tupUpdated'' (PgStatDatabase.TupUpdated stat) labels,
       emitCounter ''tupDeleted'' (PgStatDatabase.TupDeleted stat) labels,
       emitCounter ''conflicts'' (PgStatDatabase.Conflicts stat) labels,
       emitCounter ''tempFiles'' (PgStatDatabase.TempFiles stat) labels,
       emitCounter ''tempBytes'' (PgStatDatabase.TempBytes stat) labels,
       emitCounter ''deadlocks'' (PgStatDatabase.Deadlocks stat) labels,
       emitMillisAsSecs ''blkReadTime'' (PgStatDatabase.BlkReadTime stat) labels,
       emitMillisAsSecs ''blkWriteTime'' (PgStatDatabase.BlkWriteTime stat) labels,
       emitTime ''statsReset'' (PgStatDatabase.StatsReset stat) labels,
       emitCounter ''checksumFailures'' (PgStatDatabase.ChecksumFailures stat) labels,
       emitTime ''checksumLastFailure'' (PgStatDatabase.ChecksumLastFailure stat) labels,
       emitMillisAsSecs ''sessionTime'' (PgStatDatabase.SessionTime stat) labels,
       emitMillisAsSecs ''activeTime'' (PgStatDatabase.ActiveTime stat) labels,
       emitMillisAsSecs ''idleInTransactionTime'' (PgStatDatabase.IdleInTransactionTime stat) labels,
       emitCounter ''sessions'' (PgStatDatabase.Sessions stat) labels,
       emitCounter ''sessionsAbandoned'' (PgStatDatabase.SessionsAbandoned stat) labels,
       emitCounter ''sessionsFatal'' (PgStatDatabase.SessionsFatal stat) labels,
       emitCounter ''sessionsKilled'' (PgStatDatabase.SessionsKilled stat) labels]) stats)"

definition PgStatDatabaseCollector_scrape :: scrape_body where
  "PgStatDatabaseCollector_scrape srv s =
    (case SelectPgStatDatabase (q_PgStatDatabase srv) s of
       (Inl e, s) \<Rightarrow> (([], Some (''database stats: '' @ e)), s)
     | (Inr stats, s) \<Rightarrow> ((singles (PgStatDatabaseCollector_emit stats), None), s))"

definition PgStatDatabaseCollector_Scrape :: "('cv, 'gv) prom \<Rightarrow> (error option list \<Rightarrow> error option) \<Rightarrow> nat list \<Rightarrow>
    (nat \<Rightarrow> server) \<Rightarrow> (nat \<Rightarrow> cstate) \<Rightarrow> ('cv, 'gv) collector \<Rightarrow> ('cv, 'gv) outcome option" where
  "PgStatDatabaseCollector_Scrape P wait sched srv cl c =
     Scrape_group P wait sched PgStatDatabaseCollector_scrape PgStatDatabaseCollector_collectInto srv cl c"

lemma PgStatDatabaseCollector_shapes [shape_simps]:
  "prom_vecs P \<Longrightarrow> shapes (schema_of P (NewPgStatDatabaseCollector P g cs)) = [
      (''numBackends'', False, 2), (''xactCommit'', True, 2), (''xactRollback'', True, 2),
      (''blksRead'', True, 2), (''blksHit'', True, 2), (''tupReturned'', True, 2),
      (''tupFetched'', True, 2), (''tupInserted'', True, 2), (''tupUpdated'', True, 2),
      (''tupDeleted'', True, 2), (''conflicts'', True, 2), (''tempFiles'', True, 2),
      (''tempBytes'', True, 2), (''deadlocks'', True, 2), (''blkReadTime'', True, 2),
      (''blkWriteTime'', True, 2), (''statsReset'', False, 2), (''checksumFailures'', True, 2),
      (''checksumLastFailure'', False, 2), (''sessionTime'', True, 2), (''activeTime'', True, 2),
      (''idleInTransactionTime'', True, 2), (''sessions'', True, 2),
      (''sessionsAbandoned'', True, 2), (''sessionsFatal'', True, 2), (''sessionsKilled'', True, 2)]"
  by (simp add: NewPgStatDatabaseCollector_def schema_simps)

lemma PgStatDatabaseCollector_emit_shape [shape_intros]:
  "prom_vecs P \<Longrightarrow>
   list_all (emission_shape (schema_of P (NewPgStatDatabaseCollector P g cs))) (PgStatDatabaseCollector_emit stats)"
  by (simp add: PgStatDatabaseCollector_emit_def list_all_emits Let_def shape_simps)

lemma PgStatDatabaseCollector_scrape_shape:
  "prom_vecs P \<Longrightarrow>
   list_all (emission_shape (schema_of P (NewPgStatDatabaseCollector P g cs)))
     (concat (fst (fst (PgStatDatabaseCollector_scrape srv s))))"
  by (simp add: PgStatDatabaseCollector_scrape_def shape_intros split: prod.splits sum.splits)


lemma PgStatDatabaseCollector_names [shape_simps]:
  "map fst (vecs (NewPgStatDatabaseCollector P g cs)) = [
      ''numBackends'', ''xactCommit'', ''xactRollback'', ''blksRead'', ''blksHit'',
      ''tupReturned'', ''tupFetched'', ''tupInserted'', ''tupUpdated'', ''tupDeleted'',
      ''conflicts'', ''tempFiles'', ''tempBytes'', ''deadlocks'', ''blkReadTime'',
      ''blkWriteTime'', ''statsReset'', ''checksumFailures'', ''checksumLastFailure'',
      ''sessionTime'', ''activeTime'', ''idleInTransactionTime'', ''sessions'',
      ''sessionsAbandoned'', ''sessionsFatal'', ''sessionsKilled'']"
  by (simp add: NewPgStatDatabaseCollector_def Let_def)

lemma PgStatDatabaseCollector_Describe_all:
  "map fst (vecs c) = map fst (vecs (NewPgStatDatabaseCollector P g cs)) \<Longrightarrow>
   mset (PgStatDatabaseCollector_Describe P c) = mset (map (vec_desc P \<circ> snd) (vecs c))"
  unfolding PgStatDatabaseCollector_names PgStatDatabaseCollector_Describe_def
  by (rule describe_fields_all, assumption) code_simp

lemma PgStatDatabaseCollector_collectInto_all:
  "map fst (vecs c) = map fst (vecs (NewPgStatDatabaseCollector P g cs)) \<Longrightarrow>
   mset (PgStatDatabaseCollector_collectInto P c) = mset (concat (map (vec_Collect P \<circ> snd) (vecs c)))"
  unfolding PgStatDatabaseCollector_names PgStatDatabaseCollector_collectInto_def
  by (rule collect_fields_all, assumption) code_simp

subsection \<open>\<^verbatim>\<open>PgDatabaseSizeCollector\<close>\<close>

definition NewPgDatabaseSizeCollector :: "('cv, 'gv) prom \<Rightarrow> namespaces \<Rightarrow> nat list \<Rightarrow>
    ('cv, 'gv) collector" where
  "NewPgDatabaseSizeCollector P g clients =
    (let labels = [''database'', ''datname''];
         gauge = (\<lambda>n h. GaugeField (gaugeFactoryRawPg P g ''database'' labels n h))
     in \<lparr>dbClients = clients, vecs = [
       (''sizeBytes'', gauge ''size_bytes'' ''Disk space used by the database, in bytes'')]\<rparr>)"

definition PgDatabaseSizeCollector_Describe :: "('cv, 'gv) prom \<Rightarrow> ('cv, 'gv) collector \<Rightarrow> desc list" where
  "PgDatabaseSizeCollector_Describe P c = describe_fields P [
     ''sizeBytes''] c"

definition PgDatabaseSizeCollector_collectInto :: "('cv, 'gv) prom \<Rightarrow> ('cv, 'gv) collector \<Rightarrow> metric list" where
  "PgDatabaseSizeCollector_collectInto P c = collect_fields P [
     ''sizeBytes''] c"

definition PgDatabaseSizeCollector_emit :: "PgDatabaseSize list \<Rightarrow> emission list" where
  "PgDatabaseSizeCollector_emit stats = concat (map (\<lambda>stat.
     let labels = [String (PgDatabaseSize.Database stat),
                   String (PgDatabaseSize.DatName stat)]
     in concat [
       emitGauge ''sizeBytes'' (PgDatabaseSize.Bytes stat) labels]) stats)"

definition PgDatabaseSizeCollector_scrape :: scrape_body where
  "PgDatabaseSizeCollector_scrape srv s =
    (case SelectPgDatabaseSize (q_PgDatabaseSize srv) s of
       (Inl e, s) \<Rightarrow> (([], Some (''database size: '' @ e)), s)
     | (Inr stats, s) \<Rightarrow> ((singles (PgDatabaseSizeCollector_emit stats), None), s))"

definition PgDatabaseSizeCollector_Scrape :: "('cv, 'gv) prom \<Rightarrow> (error option list \<Rightarrow> error option) \<Rightarrow> nat list \<Rightarrow>
    (nat \<Rightarrow> server) \<Rightarrow> (nat \<Rightarrow> cstate) \<Rightarrow> ('cv, 'gv) collector \<Rightarrow> ('cv, 'gv) outcome option" where
  "PgDatabaseSizeCollector_Scrape P wait sched srv cl c =
     Scrape_group P wait sched PgDatabaseSizeCollector_scrape PgDatabaseSizeCollector_collectInto srv cl c"

lemma PgDatabaseSizeCollector_shapes [shape_simps]:
  "prom_vecs P \<Longrightarrow> shapes (schema_of P (NewPgDatabaseSizeCollector P g cs)) = [
      (''sizeBytes'', False, 2)]"
  by (simp add: NewPgDatabaseSizeCollector_def schema_simps)

lemma PgDatabaseSizeCollector_emit_shape [shape_intros]:
  "prom_vecs P \<Longrightarrow>
   list_all (emission_shape (schema_of P (NewPgDatabaseSizeCollector P g cs))) (PgDatabaseSizeCollector_emit stats)"
  by (simp add: PgDatabaseSizeCollector_emit_def list_all_emits Let_def shape_simps)

lemma PgDatabaseSizeCollector_scrape_shape:
  "prom_vecs P \<Longrightarrow>
   list_all (emission_shape (schema_of P (NewPgDatabaseSizeCollector P g cs)))
     (concat (fst (fst (PgDatabaseSizeCollector_scrape srv s))))"
  by (simp add: PgDatabaseSizeCollector_scrape_def shape_intros split: prod.splits sum.splits)


lemma PgDatabaseSizeCollector_names [shape_simps]:
  "map fst (vecs (NewPgDatabaseSizeCollector P g cs)) = [
      ''sizeBytes'']"
  by (simp add: NewPgDatabaseSizeCollector_def Let_def)

lemma PgDatabaseSizeCollector_Describe_all:
  "map fst (vecs c) = map fst (vecs (NewPgDatabaseSizeCollector P g cs)) \<Longrightarrow>
   mset (PgDatabaseSizeCollector_Describe P c) = mset (map (vec_desc P \<circ> snd) (vecs c))"
  unfolding PgDatabaseSizeCollector_names PgDatabaseSizeCollector_Describe_def
  by (rule describe_fields_all, assumption) code_simp

lemma PgDatabaseSizeCollector_collectInto_all:
  "map fst (vecs c) = map fst (vecs (NewPgDatabaseSizeCollector P g cs)) \<Longrightarrow>
   mset (PgDatabaseSizeCollector_collectInto P c) = mset (concat (map (vec_Collect P \<circ> snd) (vecs c)))"
  unfolding PgDatabaseSizeCollector_names PgDatabaseSizeCollector_collectInto_def
  by (rule collect_fields_all, assumption) code_simp

subsection \<open>\<^verbatim>\<open>PgStatBgwriterCollector\<close>\<close>

definition NewPgStatBgwriterCollector :: "('cv, 'gv) prom \<Rightarrow> namespaces \<Rightarrow> nat list \<Rightarrow>
    ('cv, 'gv) collector" where
  "NewPgStatBgwriterCollector P g clients =
    (let labels = [''database''];
         counter = (\<lambda>n h. CounterField (counterFactory P g bgwriterSubSystem labels n h));
         gauge = (\<lambda>n h. GaugeField (gaugeFactory P g bgwriterSubSystem labels n h))
     in \<lparr>dbClients = clients, vecs = [
       (''buffersClean'', counter ''buffers_clean_total'' ''Buffers written by the background writer''),
       (''maxwrittenClean'', counter ''maxwritten_clean_total'' ''Times the background writer stopped a cleaning scan because it had written too many buffers''),
       (''buffersAlloc'', counter ''buffers_alloc_total'' ''Buffers allocated''),
       (''statsReset'', gauge ''stats_reset_timestamp_seconds'' ''Unix time at which these stats were last reset''),
       (''checkpointsTimed'', counter ''checkpoints_timed_total'' (''Scheduled checkpoints performed (PG <17 only '' @ [CHR 0xE2, CHR 0x80, CHR 0x94] @ '' see pg_stat_checkpointer on PG 17+)'')),
       (''checkpointsReq'', counter ''checkpoints_req_total'' ''Requested (non-scheduled) checkpoints performed (PG <17)''),
       (''checkpointWriteTime'', counter ''checkpoint_write_time_seconds_total'' ''Total time spent writing files to disk during checkpoints, seconds (PG <17)''),
       (''checkpointSyncTime'', counter ''checkpoint_sync_time_seconds_total'' ''Total time spent synchronizing files to disk during checkpoints, seconds (PG <17)''),
       (''buffersCheckpoint'', counter ''buffers_checkpoint_total'' ''Buffers written during checkpoints (PG <17)''),
       (''buffersBackend'', counter ''buffers_backend_total'' ''Buffers written directly by a backend (PG <17)''),
       (''buffersBackendFsync'', counter ''buffers_backend_fsync_total'' ''Times a backend had to execute its own fsync (PG <17)'')]\<rparr>)"

definition PgStatBgwriterCollector_Describe :: "('cv, 'gv) prom \<Rightarrow> ('cv, 'gv) collector \<Rightarrow> desc list" where
  "PgStatBgwriterCollector_Describe P c = describe_fields P [
     ''buffersClean'', ''maxwrittenClean'', ''buffersAlloc'', ''statsReset'', ''checkpointsTimed'',
     ''checkpointsReq'', ''checkpointWriteTime'', ''checkpointSyncTime'', ''buffersCheckpoint'',
     ''buffersBackend'', ''buffersBackendFsync''] c"

definition PgStatBgwriterCollector_collectInto :: "('cv, 'gv) prom \<Rightarrow> ('cv, 'gv) collector \<Rightarrow> metric list" where
  "PgStatBgwriterCollector_collectInto P c = collect_fields P [
     ''buffersClean'', ''maxwrittenClean'', ''buffersAlloc'', ''statsReset'', ''checkpointsTimed'',
     ''checkpointsReq'', ''checkpointWriteTime'', ''checkpointSyncTime'', ''buffersCheckpoint'',
     ''buffersBackend'', ''buffersBackendFsync''] c"

definition PgStatBgwriterCollector_emit :: "PgStatBgwriter list \<Rightarrow> emission list" where
  "PgStatBgwriterCollector_emit stats = concat (map (\<lambda>stat.
     let labels = [String (PgStatBgwriter.Database stat)]
     in concat [
       emitCounter ''buffersClean'' (PgStatBgwriter.BuffersClean stat) labels,
       emitCounter ''maxwrittenClean'' (PgStatBgwriter.MaxwrittenClean stat) labels,
       emitCounter ''buffersAlloc'' (PgStatBgwriter.BuffersAlloc stat) labels,
       emitTime ''statsReset'' (PgStatBgwriter.StatsReset stat) labels,
       emitCounter ''checkpointsTimed'' (PgStatBgwriter.CheckpointsTimed stat) labels,
       emitCounter ''checkpointsReq'' (PgStatBgwriter.CheckpointsReq stat) labels,
       emitMillisAsSecs ''checkpointWriteTime'' (PgStatBgwriter.CheckpointWriteTime stat) labels,
       emitMillisAsSecs ''checkpointSyncTime'' (PgStatBgwriter.CheckpointSyncTime stat) labels,
       emitCounter ''buffersCheckpoint'' (PgStatBgwriter.BuffersCheckpoint stat) labels,
       emitCounter ''buffersBackend'' (PgStatBgwriter.BuffersBackend stat) labels,
       emitCounter ''buffersBackendFsync'' (PgStatBgwriter.BuffersBackendFsync stat) labels]) stats)"

definition PgStatBgwriterCollector_scrape :: scrape_body where
  "PgStatBgwriterCollector_scrape srv s =
    (case SelectPgStatBgwriter (q_PgStatBgwriter srv) s of
       (Inl e, s) \<Rightarrow> (([], Some (''bgwriter stats: '' @ e)), s)
     | (Inr stats, s) \<Rightarrow> ((singles (PgStatBgwriterCollector_emit stats), None), s))"

definition PgStatBgwriterCollector_Scrape :: "('cv, 'gv) prom \<Rightarrow> (error option list \<Rightarrow> error option) \<Rightarrow> nat list \<Rightarrow>
    (nat \<Rightarrow> server) \<Rightarrow> (nat \<Rightarrow> cstate) \<Rightarrow> ('cv, 'gv) collector \<Rightarrow> ('cv, 'gv) outcome option" where
  "PgStatBgwriterCollector_Scrape P wait sched srv cl c =
     Scrape_group P wait sched PgStatBgwriterCollector_scrape PgStatBgwriterCollector_collectInto srv cl c"

lemma PgStatBgwriterCollector_shapes [shape_simps]:
  "prom_vecs P \<Longrightarrow> shapes (schema_of P (NewPgStatBgwriterCollector P g cs)) = [
      (''buffersClean'', True, 1), (''maxwrittenClean'', True, 1), (''buffersAlloc'', True, 1),
      (''statsReset'', False, 1), (''checkpointsTimed'', True, 1), (''checkpointsReq'', True, 1),
      (''checkpointWriteTime'', True, 1), (''checkpointSyncTime'', True, 1),
      (''buffersCheckpoint'', True, 1), (''buffersBackend'', True, 1),
      (''buffersBackendFsync'', True, 1)]"
  by (simp add: NewPgStatBgwriterCollector_def schema_simps)

lemma PgStatBgwriterCollector_emit_shape [shape_intros]:
  "prom_vecs P \<Longrightarrow>
   list_all (emission_shape (schema_of P (NewPgStatBgwriterCollector P g cs))) (PgStatBgwriterCollector_emit stats)"
  by (simp add: PgStatBgwriterCollector_emit_def list_all_emits Let_def shape_simps)

lemma PgStatBgwriterCollector_scrape_shape:
  "prom_vecs P \<Longrightarrow>
   list_all (emission_shape (schema_of P (NewPgStatBgwriterCollector P g cs)))
     (concat (fst (fst (PgStatBgwriterCollector_scrape srv s))))"
  by (simp add: PgStatBgwriterCollector_scrape_def shape_intros split: prod.splits sum.splits)


lemma PgStatBgwriterCollector_names [shape_simps]:
  "map fst (vecs (NewPgStatBgwriterCollector P g cs)) = [
      ''buffersClean'', ''maxwrittenClean'', ''buffersAlloc'', ''statsReset'',
      ''checkpointsTimed'', ''checkpointsReq'', ''checkpointWriteTime'', ''checkpointSyncTime'',
      ''buffersCheckpoint'', ''buffersBackend'', ''buffersBackendFsync'']"
  by (simp add: NewPgStatBgwriterCollector_def Let_def)

lemma PgStatBgwriterCollector_Describe_all:
  "map fst (vecs c) = map fst (vecs (NewPgStatBgwriterCollector P g cs)) \<Longrightarrow>
   mset (PgStatBgwriterCollector_Describe P c) = mset (map (vec_desc P \<circ> snd) (vecs c))"
  unfolding PgStatBgwriterCollector_names PgStatBgwriterCollector_Describe_def
  by (rule describe_fields_all, assumption) code_simp

lemma PgStatBgwriterCollector_collectInto_all:
  "map fst (vecs c) = map fst (vecs (NewPgStatBgwriterCollector P g cs)) \<Longrightarrow>
   mset (PgStatBgwriterCollector_collectInto P c) = mset (concat (map (vec_Collect P \<circ> snd) (vecs c)))"
  unfolding PgStatBgwriterCollector_names PgStatBgwriterCollector_collectInto_def
  by (rule collect_fields_all, assumption) code_simp

subsection \<open>\<^verbatim>\<open>PgStatCheckpointerCollector\<close>\<close>

definition NewPgStatCheckpointerCollector :: "('cv, 'gv) prom \<Rightarrow> namespaces \<Rightarrow> nat list \<Rightarrow>
    ('cv, 'gv) collector" where
  "NewPgStatCheckpointerCollector P g clients =
    (let labels = [''database''];
         counter = (\<lambda>n h. CounterField (counterFactory P g checkpointerSubSystem labels n h));
         gauge = (\<lambda>n h. GaugeField (gaugeFactory P g checkpointerSubSystem labels n h))
     in \<lparr>dbClients = clients, vecs = [
       (''numTimed'', counter ''num_timed_total'' ''Scheduled checkpoints performed''),
       (''numRequested'', counter ''num_requested_total'' ''Requested (non-scheduled) checkpoints performed''),
       (''restartpointsTimed'', counter ''restartpoints_timed_total'' ''Scheduled restartpoints performed (standby)''),
       (''restartpointsReq'', counter ''restartpoints_req_total'' ''Requested restartpoints performed (standby)''),
       (''restartpointsDone'', counter ''restartpoints_done_total'' ''Restartpoints that were successfully completed (standby)''),
       (''writeTime'', counter ''write_time_seconds_total'' ''Total time spent writing files to disk during checkpoints, seconds''),
       (''syncTime'', counter ''sync_time_seconds_total'' ''Total time spent synchronizing files to disk during checkpoints, seconds''),
       (''buffersWritten'', counter ''buffers_written_total'' ''Buffers written during checkpoints''),
       (''statsReset'', gauge ''stats_reset_timestamp_seconds'' ''Unix time at which these stats were last reset'')]\<rparr>)"

definition PgStatCheckpointerCollector_Describe :: "('cv, 'gv) prom \<Rightarrow> ('cv, 'gv) collector \<Rightarrow> desc list" where
  "PgStatCheckpointerCollector_Describe P c = describe_fields P [
     ''numTimed'', ''numRequested'', ''restartpointsTimed'', ''restartpointsReq'',
     ''restartpointsDone'', ''writeTime'', ''syncTime'', ''buffersWritten'', ''statsReset''] c"

definition PgStatCheckpointerCollector_collectInto :: "('cv, 'gv) prom \<Rightarrow> ('cv, 'gv) collector \<Rightarrow> metric list" where
  "PgStatCheckpointerCollector_collectInto P c = collect_fields P [
     ''numTimed'', ''numRequested'', ''restartpointsTimed'', ''restartpointsReq'',
     ''restartpointsDone'', ''writeTime'', ''syncTime'', ''buffersWritten'', ''statsReset''] c"

definition PgStatCheckpointerCollector_emit :: "PgStatCheckpointer list \<Rightarrow> emission list" where
  "PgStatCheckpointerCollector_emit stats = concat (map (\<lambda>stat.
     let labels = [String (PgStatCheckpointer.Database stat)]
     in concat [
       emitCounter ''numTimed'' (PgStatCheckpointer.NumTimed stat) labels,
       emitCounter ''numRequested'' (PgStatCheckpointer.NumRequested stat) labels,
       emitCounter ''restartpointsTimed'' (PgStatCheckpointer.RestartpointsTimed stat) labels,
       emitCounter ''restartpointsReq'' (PgStatCheckpointer.RestartpointsReq stat) labels,
       emitCounter ''restartpointsDone'' (PgStatCheckpointer.RestartpointsDone stat) labels,
       emitMillisAsSecs ''writeTime'' (PgStatCheckpointer.WriteTime stat) labels,
       emitMillisAsSecs ''syncTime'' (PgStatCheckpointer.SyncTime stat) labels,
       emitCounter ''buffersWritten'' (PgStatCheckpointer.BuffersWritten stat) labels,
       emitTime ''statsReset'' (PgStatCheckpointer.StatsReset stat) labels]) stats)"

definition PgStatCheckpointerCollector_scrape :: scrape_body where
  "PgStatCheckpointerCollector_scrape srv s =
    (case SelectPgStatCheckpointer (q_PgStatCheckpointer srv) s of
       (Inl e, s) \<Rightarrow> (([], Some (''checkpointer stats: '' @ e)), s)
     | (Inr stats, s) \<Rightarrow> ((singles (PgStatCheckpointerCollector_emit stats), None), s))"

definition PgStatCheckpointerCollector_Scrape :: "('cv, 'gv) prom \<Rightarrow> (error option list \<Rightarrow> error option) \<Rightarrow> nat list \<Rightarrow>
    (nat \<Rightarrow> server) \<Rightarrow> (nat \<Rightarrow> cstate) \<Rightarrow> ('cv, 'gv) collector \<Rightarrow> ('cv, 'gv) outcome option" where
  "PgStatCheckpointerCollector_Scrape P wait sched srv cl c =
     Scrape_group P wait sched PgStatCheckpointerCollector_scrape PgStatCheckpointerCollector_collectInto srv cl c"

lemma PgStatCheckpointerCollector_shapes [shape_simps]:
  "prom_vecs P \<Longrightarrow> shapes (schema_of P (NewPgStatCheckpointerCollector P g cs)) = [
      (''numTimed'', True, 1), (''numRequested'', True, 1), (''restartpointsTimed'', True, 1),
      (''restartpointsReq'', True, 1), (''restartpointsDone'', True, 1), (''writeTime'', True, 1),
      (''syncTime'', True, 1), (''buffersWritten'', True, 1), (''statsReset'', False, 1)]"
  by (simp add: NewPgStatCheckpointerCollector_def schema_simps)

lemma PgStatCheckpointerCollector_emit_shape [shape_intros]:
  "prom_vecs P \<Longrightarrow>
   list_all (emission_shape (schema_of P (NewPgStatCheckpointerCollector P g cs))) (PgStatCheckpointerCollector_emit stats)"
  by (simp add: PgStatCheckpointerCollector_emit_def list_all_emits Let_def shape_simps)

lemma PgStatCheckpointerCollector_scrape_shape:
  "prom_vecs P \<Longrightarrow>
   list_all (emission_shape (schema_of P (NewPgStatCheckpointerCollector P g cs)))
     (concat (fst (fst (PgStatCheckpointerCollector_scrape srv s))))"
  by (simp add: PgStatCheckpointerCollector_scrape_def shape_intros split: prod.splits sum.splits)


lemma PgStatCheckpointerCollector_names [shape_simps]:
  "map fst (vecs (NewPgStatCheckpointerCollector P g cs)) = [
      ''numTimed'', ''numRequested'', ''restartpointsTimed'', ''restartpointsReq'',
      ''restartpointsDone'', ''writeTime'', ''syncTime'', ''buffersWritten'', ''statsReset'']"
  by (simp add: NewPgStatCheckpointerCollector_def Let_def)

lemma PgStatCheckpointerCollector_Describe_all:
  "map fst (vecs c) = map fst (vecs (NewPgStatCheckpointerCollector P g cs)) \<Longrightarrow>
   mset (PgStatCheckpointerCollector_Describe P c) = mset (map (vec_desc P \<circ> snd) (vecs c))"
  unfolding PgStatCheckpointerCollector_names PgStatCheckpointerCollector_Describe_def
  by (rule describe_fields_all, assumption) code_simp

lemma PgStatCheckpointerCollector_collectInto_all:
  "map fst (vecs c) = map fst (vecs (NewPgStatCheckpointerCollector P g cs)) \<Longrightarrow>
   mset (PgStatCheckpointerCollector_collectInto P c) = mset (concat (map (vec_Collect P \<circ> snd) (vecs c)))"
  unfolding PgStatCheckpointerCollector_names PgStatCheckpointerCollector_collectInto_def
  by (rule collect_fields_all, assumption) code_simp

end
