(* ===== verification/CollIO.thy ===== *)
theory CollIO
  imports Collector
begin

text \<open>
  I/O, SLRU caches and statements.
  Per collector of \<open>exporter/collectors/\<close>: the constructor, \<open>Describe\<close> and
  \<open>collectInto\<close> with the fields in the order of the source, \<open>emit\<close>, the scrape of one client
  and \<open>Scrape\<close>. The lemmas show that every emission names a field of its kind with the right
  number of label values, and that \<open>Describe\<close> and \<open>collectInto\<close> reach every field once.
\<close>

subsection \<open>\<^verbatim>\<open>PgStatIOCollector\<close>\<close>

definition NewPgStatIOCollector :: "('cv, 'gv) prom \<Rightarrow> namespaces \<Rightarrow> nat list \<Rightarrow>
    ('cv, 'gv) collector" where
  "NewPgStatIOCollector P g clients =
    (let labels = [''database'', ''backend_type'', ''object'', ''context''];
         counter = (\<lambda>n h. CounterField (counterFactory P g ioSubSystem labels n h));
         gauge = (\<lambda>n h. GaugeField (gaugeFactory P g ioSubSystem labels n h))
     in \<lparr>dbClients = clients, vecs = [
       (''reads'', counter ''reads_total'' ''Read operations issued''),
       (''readTime'', counter ''read_time_seconds_total'' ''Total time spent in read operations, seconds''),
       (''writes'', counter ''writes_total'' ''Write operations issued''),
       (''writeTime'', counter ''write_time_seconds_total'' ''Total time spent in write operations, seconds''),
       (''writebacks'', counter ''writebacks_total'' ''Writeback operations (dirty buffers flushed)''),
       (''writebackTime'', counter ''writeback_time_seconds_total'' ''Total time spent in writeback operations, seconds''),
       (''extends'', counter ''extends_total'' ''Relation-extension operations''),
       (''extendTime'', counter ''extend_time_seconds_total'' ''Total time spent extending relations, seconds''),
       (''opBytes'', gauge ''op_bytes'' ''Block size for I/O operations in this bucket, bytes (typically 8192)''),
       (''hits'', counter ''hits_total'' ''Shared-buffer hits''),
       (''evictions'', counter ''evictions_total'' ''Buffers evicted to make room''),
       (''reuses'', counter ''reuses_total'' ''Buffers reused from a previous strategy ring''),
       (''fsyncs'', counter ''fsyncs_total'' ''fsync operations issued''),
       (''fsyncTime'', counter ''fsync_time_seconds_total'' ''Total time spent in fsync operations, seconds''),
       (''statsReset'', gauge ''stats_reset_timestamp_seconds'' ''Unix time at which these stats were last reset'')]\<rparr>)"

definition PgStatIOCollector_Describe :: "('cv, 'gv) prom \<Rightarrow> ('cv, 'gv) collector \<Rightarrow> desc list" where
  "PgStatIOCollector_Describe P c = describe_fields P [
     ''reads'', ''readTime'', ''writes'', ''writeTime'', ''writebacks'', ''writebackTime'',
     ''extends'', ''extendTime'', ''opBytes'', ''hits'', ''evictions'', ''reuses'', ''fsyncs'',
     ''fsyncTime'', ''statsReset''] c"

definition PgStatIOCollector_collectInto :: "('cv, 'gv) prom \<Rightarrow> ('cv, 'gv) collector \<Rightarrow> metric list" where
  "PgStatIOCollector_collectInto P c = collect_fields P [
     ''reads'', ''readTime'', ''writes'', ''writeTime'', ''writebacks'', ''writebackTime'',
     ''extends'', ''extendTime'', ''opBytes'', ''hits'', ''evictions'', ''reuses'', ''fsyncs'',
     ''fsyncTime'', ''statsReset''] c"

definition PgStatIOCollector_emit :: "PgStatIO list \<Rightarrow> emission list" where
  "PgStatIOCollector_emit stats = concat (map (\<lambda>stat.
     let labels = [String (PgStatIO.Database stat),
                   String (PgStatIO.BackendType stat),
                   String (PgStatIO.Object stat),
                   String (PgStatIO.Context stat)]
     in concat [
       emitCounter ''reads'' (PgStatIO.Reads stat) labels,
       emitMillisAsSecs ''readTime'' (PgStatIO.ReadTime stat) labels,
       emitCounter ''writes'' (PgStatIO.Writes stat) labels,
       emitMillisAsSecs ''writeTime'' (PgStatIO.WriteTime stat) labels,
       emitCounter ''writebacks'' (PgStatIO.Writebacks stat) labels,
       emitMillisAsSecs ''writebackTime'' (PgStatIO.WritebackTime stat) labels,
       emitCounter ''extends'' (PgStatIO.Extends stat) labels,
       emitMillisAsSecs ''extendTime'' (PgStatIO.ExtendTime stat) labels,
       emitGauge ''opBytes'' (PgStatIO.OpBytes stat) labels,
       emitCounter ''hits'' (PgStatIO.Hits stat) labels,
       emitCounter ''evictions'' (PgStatIO.Evictions stat) labels,
       emitCounter ''reuses'' (PgStatIO.Reuses stat) labels,
       emitCounter ''fsyncs'' (PgStatIO.Fsyncs stat) labels,
       emitMillisAsSecs ''fsyncTime'' (PgStatIO.FsyncTime stat) labels,
       emitTime ''statsReset'' (PgStatIO.StatsReset stat) labels]) stats)"

definition PgStatIOCollector_scrape :: scrape_body where
  "PgStatIOCollector_scrape srv s =
    (case SelectPgStatIO (q_PgStatIO srv) s of
       (Inl e, s) \<Rightarrow> (([], Some (''io stats: '' @ e)), s)
     | (Inr stats, s) \<Rightarrow> ((singles (PgStatIOCollector_emit stats), None), s))"

definition PgStatIOCollector_Scrape :: "('cv, 'gv) prom \<Rightarrow> (error option list \<Rightarrow> error option) \<Rightarrow> nat list \<Rightarrow>
    (nat \<Rightarrow> server) \<Rightarrow> (nat \<Rightarrow> cstate) \<Rightarrow> ('cv, 'gv) collector \<Rightarrow> ('cv, 'gv) outcome option" where
  "PgStatIOCollector_Scrape P wait sched srv cl c =
     Scrape_group P wait sched PgStatIOCollector_scrape PgStatIOCollector_collectInto srv cl c"

lemma PgStatIOCollector_shapes [shape_simps]:
  "prom_vecs P \<Longrightarrow> shapes (schema_of P (NewPgStatIOCollector P g cs)) = [
      (''reads'', True, 4), (''readTime'', True, 4), (''writes'', True, 4),
      (''writeTime'', True, 4), (''writebacks'', True, 4), (''writebackTime'', True, 4),
      (''extends'', True, 4), (''extendTime'', True, 4), (''opBytes'', False, 4),
      (''hits'', True, 4), (''evictions'', True, 4), (''reuses'', True, 4), (''fsyncs'', True, 4),
      (''fsyncTime'', True, 4), (''statsReset'', False, 4)]"
  by (simp add: NewPgStatIOCollector_def schema_simps)

lemma PgStatIOCollector_emit_shape [shape_intros]:
  "prom_vecs P \<Longrightarrow>
   list_all (emission_shape (schema_of P (NewPgStatIOCollector P g cs))) (PgStatIOCollector_emit stats)"
  by (simp add: PgStatIOCollector_emit_def list_all_emits Let_def shape_simps)

lemma PgStatIOCollector_scrape_shape:
  "prom_vecs P \<Longrightarrow>
   list_all (emission_shape (schema_of P (NewPgStatIOCollector P g cs)))
     (concat (fst (fst (PgStatIOCollector_scrape srv s))))"
  by (simp add: PgStatIOCollector_scrape_def shape_intros split: prod.splits sum.splits)


lemma PgStatIOCollector_names [shape_simps]:
  "map fst (vecs (NewPgStatIOCollector P g cs)) = [
      ''reads'', ''readTime'', ''writes'', ''writeTime'', ''writebacks'', ''writebackTime'',
      ''extends'', ''extendTime'', ''opBytes'', ''hits'', ''evictions'', ''reuses'', ''fsyncs'',
      ''fsyncTime'', ''statsReset'']"
  by (simp add: NewPgStatIOCollector_def Let_def)

lemma PgStatIOCollector_Describe_all:
  "map fst (vecs c) = map fst (vecs (NewPgStatIOCollector P g cs)) \<Longrightarrow>
   mset (PgStatIOCollector_Describe P c) = mset (map (vec_desc P \<circ> snd) (vecs c))"
  unfolding PgStatIOCollector_names PgStatIOCollector_Describe_def
  by (rule describe_fields_all, assumption) code_simp

lemma PgStatIOCollector_collectInto_all:
  "map fst (vecs c) = map fst (vecs (NewPgStatIOCollector P g cs)) \<Longrightarrow>
   mset (PgStatIOCollector_collectInto P c) = mset (concat (map (vec_Collect P \<circ> snd) (vecs c)))"
  unfolding PgStatIOCollector_names PgStatIOCollector_collectInto_def
  by (rule collect_fields_all, assumption) code_simp

subsection \<open>\<^verbatim>\<open>PgStatSLRUCollector\<close>\<close>

definition NewPgStatSLRUCollector :: "('cv, 'gv) prom \<Rightarrow> namespaces \<Rightarrow> nat list \<Rightarrow>
    ('cv, 'gv) collector" where
  "NewPgStatSLRUCollector P g clients =
    (let labels = [''database'', ''name''];
         counter = (\<lambda>n h. CounterField (counterFactory P g slruSubSystem labels n h));
         gauge = (\<lambda>n h. GaugeField (gaugeFactory P g slruSubSystem labels n h))
     in \<lparr>dbClients = clients, vecs = [
       (''blksZeroed'', counter ''blks_zeroed_total'' ''Blocks zeroed during initialisation''),
       (''blksHit'', counter ''blks_hit_total'' ''Times a disk block was found in the SLRU''),
       (''blksRead'', counter ''blks_read_total'' ''Disk blocks read for the SLRU''),
       (''blksWritten'', counter ''blks_written_total'' ''Disk blocks written for the SLRU''),
       (''blksExists'', counter ''blks_exists_total'' ''Blocks checked for existence for the SLRU''),
       (''flushes'', counter ''flushes_total'' ''SLRU flushes issued''),
       (''truncates'', counter ''truncates_total'' ''SLRU truncates issued''),
       (''statsReset'', gauge ''stats_reset_timestamp_seconds'' ''Unix time at which these stats were last reset'')]\<rparr>)"

definition PgStatSLRUCollector_Describe :: "('cv, 'gv) prom \<Rightarrow> ('cv, 'gv) collector \<Rightarrow> desc list" where
  "PgStatSLRUCollector_Describe P c = describe_fields P [
     ''blksZeroed'', ''blksHit'', ''blksRead'', ''blksWritten'', ''blksExists'', ''flushes'',
     ''truncates'', ''statsReset''] c"

definition PgStatSLRUCollector_collectInto :: "('cv, 'gv) prom \<Rightarrow> ('cv, 'gv) collector \<Rightarrow> metric list" where
  "PgStatSLRUCollector_collectInto P c = collect_fields P [
     ''blksZeroed'', ''blksHit'', ''blksRead'', ''blksWritten'', ''blksExists'', ''flushes'',
     ''truncates'', ''statsReset''] c"

definition PgStatSLRUCollector_emit :: "PgStatSLRU list \<Rightarrow> emission list" where
  "PgStatSLRUCollector_emit stats = concat (map (\<lambda>stat.
     let labels = [String (PgStatSLRU.Database stat),
                   String (PgStatSLRU.Name stat)]
     in concat [
       emitCounter ''blksZeroed'' (PgStatSLRU.BlksZeroed stat) labels,
       emitCounter ''blksHit'' (PgStatSLRU.BlksHit stat) labels,
       emitCounter ''blksRead'' (PgStatSLRU.BlksRead stat) labels,
       emitCounter ''blksWritten'' (PgStatSLRU.BlksWritten stat) labels,
       emitCounter ''blksExists'' (PgStatSLRU.BlksExists stat) labels,
       emitCounter ''flushes'' (PgStatSLRU.Flushes stat) labels,
       emitCounter ''truncates'' (PgStatSLRU.Truncates stat) labels,
       emitTime ''statsReset'' (PgStatSLRU.StatsReset stat) labels]) stats)"

definition PgStatSLRUCollector_scrape :: scrape_body where
  "PgStatSLRUCollector_scrape srv s =
    (case SelectPgStatSLRU (q_PgStatSLRU srv) s of
       (Inl e, s) \<Rightarrow> (([], Some (''slru stats: '' @ e)), s)
     | (Inr stats, s) \<Rightarrow> ((singles (PgStatSLRUCollector_emit stats), None), s))"

definition PgStatSLRUCollector_Scrape :: "('cv, 'gv) prom \<Rightarrow> (error option list \<Rightarrow> error option) \<Rightarrow> nat list \<Rightarrow>
    (nat \<Rightarrow> server) \<Rightarrow> (nat \<Rightarrow> cstate) \<Rightarrow> ('cv, 'gv) collector \<Rightarrow> ('cv, 'gv) outcome option" where
  "PgStatSLRUCollector_Scrape P wait sched srv cl c =
     Scrape_group P wait sched PgStatSLRUCollector_scrape PgStatSLRUCollector_collectInto srv cl c"

lemma PgStatSLRUCollector_shapes [shape_simps]:
  "prom_vecs P \<Longrightarrow> shapes (schema_of P (NewPgStatSLRUCollector P g cs)) = [
      (''blksZeroed'', True, 2), (''blksHit'', True, 2), (''blksRead'', True, 2),
      (''blksWritten'', True, 2), (''blksExists'', True, 2), (''flushes'', True, 2),
      (''truncates'', True, 2), (''statsReset'', False, 2)]"
  by (simp add: NewPgStatSLRUCollector_def schema_simps)

lemma PgStatSLRUCollector_emit_shape [shape_intros]:
  "prom_vecs P \<Longrightarrow>
   list_all (emission_shape (schema_of P (NewPgStatSLRUCollector P g cs))) (PgStatSLRUCollector_emit stats)"
  by (simp add: PgStatSLRUCollector_emit_def list_all_emits Let_def shape_simps)

lemma PgStatSLRUCollector_scrape_shape:
  "prom_vecs P \<Longrightarrow>
   list_all (emission_shape (schema_of P (NewPgStatSLRUCollector P g cs)))
     (concat (fst (fst (PgStatSLRUCollector_scrape srv s))))"
  by (simp add: PgStatSLRUCollector_scrape_def shape_intros split: prod.splits sum.splits)


lemma PgStatSLRUCollector_names [shape_simps]:
  "map fst (vecs (NewPgStatSLRUCollector P g cs)) = [
      ''blksZeroed'', ''blksHit'', ''blksRead'', ''blksWritten'', ''blksExists'', ''flushes'',
      ''truncates'', ''statsReset'']"
  by (simp add: NewPgStatSLRUCollector_def Let_def)

lemma PgStatSLRUCollector_Describe_all:
  "map fst (vecs c) = map fst (vecs (NewPgStatSLRUCollector P g cs)) \<Longrightarrow>
   mset (PgStatSLRUCollector_Describe P c) = mset (map (vec_desc P \<circ> snd) (vecs c))"
  unfolding PgStatSLRUCollector_names PgStatSLRUCollector_Describe_def
  by (rule describe_fields_all, assumption) code_simp

lemma PgStatSLRUCollector_collectInto_all:
  "map fst (vecs c) = map fst (vecs (NewPgStatSLRUCollector P g cs)) \<Longrightarrow>
   mset (PgStatSLRUCollector_collectInto P c) = mset (concat (map (vec_Collect P \<circ> snd) (vecs c)))"
  unfolding PgStatSLRUCollector_names PgStatSLRUCollector_collectInto_def
  by (rule collect_fields_all, assumption) code_simp

subsection \<open>\<^verbatim>\<open>PgStatStatementsCollector\<close>\<close>

definition NewPgStatStatementsCollector :: "('cv, 'gv) prom \<Rightarrow> namespaces \<Rightarrow> nat list \<Rightarrow>
    ('cv, 'gv) collector" where
  "NewPgStatStatementsCollector P g clients =
    (let labels = [''database'', ''rolname'', ''datname'', ''queryid'', ''query''];
         counter = (\<lambda>n h. CounterField (counterFactory P g statementsSubSystem labels n h));
         gauge = (\<lambda>n h. GaugeField (gaugeFactory P g statementsSubSystem labels n h))
     in \<lparr>dbClients = clients, vecs = [
       (''calls'', counter ''calls'' ''''),
       (''totalTimeSeconds'', counter ''total_time_seconds'' ''''),
       (''minTimeSeconds'', gauge ''min_time_seconds'' ''''),
       (''maxTimeSeconds'', gauge ''max_time_seconds'' ''''),
       (''meanTimeSeconds'', gauge ''mean_time_seconds'' ''''),
       (''stdDevTimeSeconds'', gauge ''std_dev_time_seconds'' ''''),
       (''rows'', counter ''rows'' ''''),
       (''sharedBlksHit'', counter ''shared_blks_hit'' ''''),
       (''sharedBlksRead'', counter ''shared_blks_read'' ''''),
       (''sharedBlksDirtied'', counter ''shared_blks_dirtied'' ''''),
       (''sharedBlksWritten'', counter ''shared_blks_written'' ''''),
       (''localBlksHit'', counter ''local_blks_hit'' ''''),
       (''localBlksRead'', counter ''local_blks_read'' ''''),
       (''localBlksDirtied'', counter ''local_blks_dirtied'' ''''),
       (''localBlksWritten'', counter ''local_blks_written'' ''''),
       (''tempBlksRead'', counter ''templ_blks_read'' ''''),
       (''tempBlksWritten'', counter ''temp_blks_written'' ''''),
       (''blkReadTimeSeconds'', counter ''blk_read_time_seconds'' ''''),
       (''blkWriteTimeSeconds'', counter ''blk_write_time_seconds'' '''')]\<rparr>)"

definition PgStatStatementsCollector_Describe :: "('cv, 'gv) prom \<Rightarrow> ('cv, 'gv) collector \<Rightarrow> desc list" where
  "PgStatStatementsCollector_Describe P c = describe_fields P [
     ''calls'', ''totalTimeSeconds'', ''minTimeSeconds'', ''maxTimeSeconds'', ''meanTimeSeconds'',
     ''stdDevTimeSeconds'', ''rows'', ''sharedBlksHit'', ''sharedBlksRead'', ''sharedBlksDirtied'',
     ''sharedBlksWritten'', ''localBlksHit'', ''localBlksRead'', ''localBlksDirtied'',
     ''localBlksWritten'', ''tempBlksRead'', ''tempBlksWritten'', ''blkReadTimeSeconds'',
     ''blkWriteTimeSeconds''] c"

definition PgStatStatementsCollector_collectInto :: "('cv, 'gv) prom \<Rightarrow> ('cv, 'gv) collector \<Rightarrow> metric list" where
  "PgStatStatementsCollector_collectInto P c = collect_fields P [
     ''calls'', ''totalTimeSeconds'', ''minTimeSeconds'', ''maxTimeSeconds'', ''meanTimeSeconds'',
     ''stdDevTimeSeconds'', ''rows'', ''sharedBlksHit'', ''sharedBlksRead'', ''sharedBlksDirtied'',
     ''sharedBlksWritten'', ''localBlksHit'', ''localBlksRead'', ''localBlksDirtied'',
     ''localBlksWritten'', ''tempBlksRead'', ''tempBlksWritten'', ''blkReadTimeSeconds'',
     ''blkWriteTimeSeconds''] c"

definition PgStatStatementsCollector_emit :: "PgStatStatement list \<Rightarrow> emission list" where
  "PgStatStatementsCollector_emit stats = concat (map (\<lambda>stat.
     let queryID = (if Int8Valid (PgStatStatement.QueryID stat) then Itoa (sint (Int64 (PgStatStatement.QueryID stat))) else []);
         labels = [String (PgStatStatement.Database stat),
                   String (PgStatStatement.RolName stat),
                   String (PgStatStatement.DatName stat),
                   queryID,
                   String (PgStatStatement.Query stat)]
     in concat [
       emitCounter ''calls'' (PgStatStatement.Calls stat) labels,
       emitCounterFloat ''totalTimeSeconds'' (PgStatStatement.TotalTimeSeconds stat) labels,
       emitFloat ''minTimeSeconds'' (PgStatStatement.MinTimeSeconds stat) labels,
       emitFloat ''maxTimeSeconds'' (PgStatStatement.MaxTimeSeconds stat) labels,
       emitFloat ''meanTimeSeconds'' (PgStatStatement.MeanTimeSeconds stat) labels,
       emitFloat ''stdDevTimeSeconds'' (PgStatStatement.StdDevTimeSeconds stat) labels,
       emitCounter ''rows'' (PgStatStatement.Rows stat) labels,
       emitCounter ''sharedBlksHit'' (PgStatStatement.SharedBlksHit stat) labels,
       emitCounter ''sharedBlksRead'' (PgStatStatement.SharedBlksRead stat) labels,
       emitCounter ''sharedBlksDirtied'' (PgStatStatement.SharedBlksDirtied stat) labels,
       emitCounter ''sharedBlksWritten'' (PgStatStatement.SharedBlksWritten stat) labels,
       emitCounter ''localBlksHit'' (PgStatStatement.LocalBlksHit stat) labels,
       emitCounter ''localBlksRead'' (PgStatStatement.LocalBlksRead stat) labels,
       emitCounter ''localBlksDirtied'' (PgStatStatement.LocalBlksDirtied stat) labels,
       emitCounter ''localBlksWritten'' (PgStatStatement.LocalBlksWritten stat) labels,
       emitCounter ''tempBlksRead'' (PgStatStatement.TempBlksRead stat) labels,
       emitCounter ''tempBlksWritten'' (PgStatStatement.TempBlksWritten stat) labels,
       emitCounterFloat ''blkReadTimeSeconds'' (PgStatStatement.BlkReadTimeSeconds stat) labels,
       emitCounterFloat ''blkWriteTimeSeconds'' (PgStatStatement.BlkWriteTimeSeconds stat) labels]) stats)"

definition PgStatStatementsCollector_scrape :: scrape_body where
  "PgStatStatementsCollector_scrape srv s =
    (case SelectPgStatStatements (q_PgStatStatements srv) s of
       (Inl e, s) \<Rightarrow> (([], Some (''statement stats: '' @ e)), s)
     | (Inr stats, s) \<Rightarrow> ((singles (PgStatStatementsCollector_emit stats), None), s))"

definition PgStatStatementsCollector_Scrape :: "('cv, 'gv) prom \<Rightarrow> (error option list \<Rightarrow> error option) \<Rightarrow> nat list \<Rightarrow>
    (nat \<Rightarrow> server) \<Rightarrow> (nat \<Rightarrow> cstate) \<Rightarrow> ('cv, 'gv) collector \<Rightarrow> ('cv, 'gv) outcome option" where
  "PgStatStatementsCollector_Scrape P wait sched srv cl c =
     Scrape_group P wait sched PgStatStatementsCollector_scrape PgStatStatementsCollector_collectInto srv cl c"

lemma PgStatStatementsCollector_shapes [shape_simps]:
  "prom_vecs P \<Longrightarrow> shapes (schema_of P (NewPgStatStatementsCollector P g cs)) = [
      (''calls'', True, 5), (''totalTimeSeconds'', True, 5), (''minTimeSeconds'', False, 5),
      (''maxTimeSeconds'', False, 5), (''meanTimeSeconds'', False, 5),
      (''stdDevTimeSeconds'', False, 5), (''rows'', True, 5), (''sharedBlksHit'', True, 5),
      (''sharedBlksRead'', True, 5), (''sharedBlksDirtied'', True, 5),
      (''sharedBlksWritten'', True, 5), (''localBlksHit'', True, 5), (''localBlksRead'', True, 5),
      (''localBlksDirtied'', True, 5), (''localBlksWritten'', True, 5),
      (''tempBlksRead'', True, 5), (''tempBlksWritten'', True, 5),
      (''blkReadTimeSeconds'', True, 5), (''blkWriteTimeSeconds'', True, 5)]"
  by (simp add: NewPgStatStatementsCollector_def schema_simps)

lemma PgStatStatementsCollector_emit_shape [shape_intros]:
  "prom_vecs P \<Longrightarrow>
   list_all (emission_shape (schema_of P (NewPgStatStatementsCollector P g cs))) (PgStatStatementsCollector_emit stats)"
  by (simp add: PgStatStatementsCollector_emit_def list_all_emits Let_def shape_simps)

lemma PgStatStatementsCollector_scrape_shape:
  "prom_vecs P \<Longrightarrow>
   list_all (emission_shape (schema_of P (NewPgStatStatementsCollector P g cs)))
     (concat (fst (fst (PgStatStatementsCollector_scrape srv s))))"
  by (simp add: PgStatStatementsCollector_scrape_def shape_intros split: prod.splits sum.splits)


lemma PgStatStatementsCollector_names [shape_simps]:
  "map fst (vecs (NewPgStatStatementsCollector P g cs)) = [
      ''calls'', ''totalTimeSeconds'', ''minTimeSeconds'', ''maxTimeSeconds'', ''meanTimeSeconds'',
      ''stdDevTimeSeconds'', ''rows'', ''sharedBlksHit'', ''sharedBlksRead'',
      ''sharedBlksDirtied'', ''sharedBlksWritten'', ''localBlksHit'', ''localBlksRead'',
      ''localBlksDirtied'', ''localBlksWritten'', ''tempBlksRead'', ''tempBlksWritten'',
      ''blkReadTimeSeconds'', ''blkWriteTimeSeconds'']"
  by (simp add: NewPgStatStatementsCollector_def Let_def)

lemma PgStatStatementsCollector_Describe_all:
  "map fst (vecs c) = map fst (vecs (NewPgStatStatementsCollector P g cs)) \<Longrightarrow>
   mset (PgStatStatementsCollector_Describe P c) = mset (map (vec_desc P \<circ> snd) (vecs c))"
  unfolding PgStatStatementsCollector_names PgStatStatementsCollector_Describe_def
  by (rule describe_fields_all, assumption) code_simp

lemma PgStatStatementsCollector_collectInto_all:
  "map fst (vecs c) = map fst (vecs (NewPgStatStatementsCollector P g cs)) \<Longrightarrow>
   mset (PgStatStatementsCollector_collectInto P c) = mset (concat (map (vec_Collect P \<circ> snd) (vecs c)))"
  unfolding PgStatStatementsCollector_names PgStatStatementsCollector_collectInto_def
  by (rule collect_fields_all, assumption) code_simp

end
