(* ===== verification/CollRelation.thy ===== *)
theory CollRelation
  imports Collector
begin

text \<open>
  Tables and indexes.
  Per collector of \<open>exporter/collectors/\<close>: the constructor, \<open>Describe\<close> and
  \<open>collectInto\<close> with the fields in the order of the source, \<open>emit\<close>, the scrape of one client
  and \<open>Scrape\<close>. The lemmas show that every emission names a field of its kind with the right
  number of label values, and that \<open>Describe\<close> and \<open>collectInto\<close> reach every field once.
\<close>

subsection \<open>\<^verbatim>\<open>PgStatUserTableCollector\<close>\<close>

definition NewPgStatUserTableCollector :: "('cv, 'gv) prom \<Rightarrow> namespaces \<Rightarrow> nat list \<Rightarrow>
    ('cv, 'gv) collector" where
  "NewPgStatUserTableCollector P g clients =
    (let labels = [''database'', ''schemaname'', ''relname''];
         counter = (\<lambda>n h. CounterField (counterFactory P g userTablesSubSystem labels n h));
         gauge = (\<lambda>n h. GaugeField (gaugeFactory P g userTablesSubSystem labels n h))
     in \<lparr>dbClients = clients, vecs = [
       (''seqScan'', counter ''sequential_scan'' ''Number of sequential scans initiated on this table''),
       (''seqTupRead'', counter ''sequential_scan_tup_read'' ''Number of live rows fetched by sequential scans''),
       (''idxScan'', counter ''index_scan'' ''Number of index scans initiated on this table''),
       (''idxTupFetch'', counter ''index_tup_fetch'' ''Number of live rows fetched by index scans''),
       (''nTupIns'', counter ''n_tup_ins'' ''Number of rows inserted''),
       (''nTupUpd'', counter ''n_tup_upd'' ''Number of rows updated''),
       (''nTupDel'', counter ''n_tup_del'' ''Number of rows deleted''),
       (''nTupHotUpd'', counter ''n_tup_hot_upd'' ''Number of rows HOT updated''),
       (''nLiveTup'', gauge ''n_live_tup'' ''Estimated number of live rows''),
       (''nDeadTup'', gauge ''n_dead_tup'' ''Estimated number of dead rows''),
       (''nModSinceAnalyze'', gauge ''n_mod_since_analyze'' ''Estimated number of rows changed since last analyze''),
       (''lastVacuum'', gauge ''last_vacuum'' ''Last time at which this table was manually vacuumed (not counting VACUUM FULL)''),
       (''lastAutoVacuum'', gauge ''last_autovacuum'' ''Last time at which this table was vacuumed by the autovacuum daemon''),
       (''lastAnalyze'', gauge ''last_analyze'' ''Last time at which this table was manually analyzed''),
       (''lastAutoAnalyze'', gauge ''last_autoanalyze'' ''Last time at which this table was analyzed by the autovacuum daemon''),
       (''vacuumCount'', counter ''vacuum_count'' ''Number of times this table has been manually vacuumed (not counting VACUUM FULL)''),
       (''autoVacuumCount'', counter ''autovacuum_count'' ''Number of times this table has been vacuumed by the autovacuum daemon''),
       (''analyzeCount'', counter ''analyze_count'' ''Number of times this table has been manually analyzed''),
       (''autoAnalyzeCount'', counter ''autoanalyze_count'' ''Number of times this table has been analyzed by the autovacuum daemon''),
       (''lastSeqScan'', gauge ''last_seq_scan'' ''Time of the last sequential scan on this table, as unix microseconds (PG 16+)''),
       (''lastIdxScan'', gauge ''last_idx_scan'' ''Time of the last index scan on this table, as unix microseconds (PG 16+)''),
       (''nTupNewpageUpd'', counter ''n_tup_newpage_upd'' ''Number of rows updated via a new-page mechanism, i.e. not HOT (PG 17+)''),
       (''nInsSinceVacuum'', gauge ''n_ins_since_vacuum'' ''Estimated number of rows inserted since this table was last vacuumed (PG 13+)'')]\<rparr>)"

definition PgStatUserTableCollector_Describe :: "('cv, 'gv) prom \<Rightarrow> ('cv, 'gv) collector \<Rightarrow> desc list" where
  "PgStatUserTableCollector_Describe P c = describe_fields P [
     ''seqScan'', ''lastSeqScan'', ''seqTupRead'', ''idxScan'', ''lastIdxScan'', ''idxTupFetch'',
     ''nTupIns'', ''nTupUpd'', ''nTupDel'', ''nTupHotUpd'', ''nTupNewpageUpd'', ''nLiveTup'',
     ''nDeadTup'', ''nModSinceAnalyze'', ''nInsSinceVacuum'', ''lastVacuum'', ''lastAutoVacuum'',
     ''lastAnalyze'', ''lastAutoAnalyze'', ''vacuumCount'', ''autoVacuumCount'', ''analyzeCount'',
     ''autoAnalyzeCount''] c"

definition PgStatUserTableCollector_collectInto :: "('cv, 'gv) prom \<Rightarrow> ('cv, 'gv) collector \<Rightarrow> metric list" where
  "PgStatUserTableCollector_collectInto P c = collect_fields P [
     ''seqScan'', ''lastSeqScan'', ''seqTupRead'', ''idxScan'', ''lastIdxScan'', ''idxTupFetch'',
     ''nTupIns'', ''nTupUpd'', ''nTupDel'', ''nTupHotUpd'', ''nTupNewpageUpd'', ''nLiveTup'',
     ''nDeadTup'', ''nModSinceAnalyze'', ''nInsSinceVacuum'', ''lastVacuum'', ''lastAutoVacuum'',
     ''lastAnalyze'', ''lastAutoAnalyze'', ''vacuumCount'', ''autoVacuumCount'', ''analyzeCount'',
     ''autoAnalyzeCount''] c"

definition PgStatUserTableCollector_emit :: "PgStatUserTable list \<Rightarrow> emission list" where
  "PgStatUserTableCollector_emit stats = concat (map (\<lambda>stat.
     let labels = [String (PgStatUserTable.Database stat),
                   String (PgStatUserTable.SchemaName stat),
                   String (PgStatUserTable.RelName stat)]
     in concat [
       emitCounter ''seqScan'' (PgStatUserTable.SeqScan stat) labels,
       emitTimeMicro ''lastSeqScan'' (PgStatUserTable.LastSeqScan stat) labels,
       emitCounter ''seqTupRead'' (PgStatUserTable.SeqTupRead stat) labels,
       emitCounter ''idxScan'' (PgStatUserTable.IndexScan stat) labels,
       emitTimeMicro ''lastIdxScan'' (PgStatUserTable.LastIdxScan stat) labels,
       emitCounter ''idxTupFetch'' (PgStatUserTable.IndexTupFetch stat) labels,
       emitCounter ''nTupIns'' (PgStatUserTable.NTupInsert stat) labels,
       emitCounter ''nTupUpd'' (PgStatUserTable.NTupUpdate stat) labels,
       emitCounter ''nTupDel'' (PgStatUserTable.NTupDelete stat) labels,
       emitCounter ''nTupHotUpd'' (PgStatUserTable.NTupHotUpdate stat) labels,
       emitCounter ''nTupNewpageUpd'' (PgStatUserTable.NTupNewpageUpdate stat) labels,
       emitGauge ''nLiveTup'' (PgStatUserTable.NLiveTup stat) labels,
       emitGauge ''nDeadTup'' (PgStatUserTable.NDeadTup stat) labels,
       emitGauge ''nModSinceAnalyze'' (PgStatUserTable.NModSinceAnalyze stat) labels,
       emitGauge ''nInsSinceVacuum'' (PgStatUserTable.NInsSinceVacuum stat) labels,
       emitTimeMicro ''lastVacuum'' (PgStatUserTable.LastVacuum stat) labels,
       emitTimeMicro ''lastAutoVacuum'' (PgStatUserTable.LastAutoVacuum stat) labels,
       emitTimeMicro ''lastAnalyze'' (PgStatUserTable.LastAnalyze stat) labels,
       emitTimeMicro ''lastAutoAnalyze'' (PgStatUserTable.LastAutoAnalyze stat) labels,
       emitCounter ''vacuumCount'' (PgStatUserTable.VacuumCount stat) labels,
       emitCounter ''autoVacuumCount'' (PgStatUserTable.AutoVacuumCount stat) labels,
       emitCounter ''analyzeCount'' (PgStatUserTable.AnalyzeCount stat) labels,
       emitCounter ''autoAnalyzeCount'' (PgStatUserTable.AutoAnalyzeCount stat) labels]) stats)"

definition PgStatUserTableCollector_scrape :: scrape_body where
  "PgStatUserTableCollector_scrape srv s =
    (case SelectPgStatUserTables (q_PgStatUserTables srv) s of
       (Inl e, s) \<Rightarrow> (([], Some (''user table stats: '' @ e)), s)
     | (Inr stats, s) \<Rightarrow> (([PgStatUserTableCollector_emit stats], None), s))"

definition PgStatUserTableCollector_Scrape :: "('cv, 'gv) prom \<Rightarrow> (error option list \<Rightarrow> error option) \<Rightarrow> nat list \<Rightarrow>
    (nat \<Rightarrow> server) \<Rightarrow> (nat \<Rightarrow> cstate) \<Rightarrow> ('cv, 'gv) collector \<Rightarrow> ('cv, 'gv) outcome option" where
  "PgStatUserTableCollector_Scrape P wait sched srv cl c =
     Scrape_group P wait sched PgStatUserTableCollector_scrape PgStatUserTableCollector_collectInto srv cl c"

lemma PgStatUserTableCollector_shapes [shape_simps]:
  "prom_vecs P \<Longrightarrow> shapes (schema_of P (NewPgStatUserTableCollector P g cs)) = [
      (''seqScan'', True, 3), (''seqTupRead'', True, 3), (''idxScan'', True, 3),
      (''idxTupFetch'', True, 3), (''nTupIns'', True, 3), (''nTupUpd'', True, 3),
      (''nTupDel'', True, 3), (''nTupHotUpd'', True, 3), (''nLiveTup'', False, 3),
      (''nDeadTup'', False, 3), (''nModSinceAnalyze'', False, 3), (''lastVacuum'', False, 3),
      (''lastAutoVacuum'', False, 3), (''lastAnalyze'', False, 3), (''lastAutoAnalyze'', False, 3),
      (''vacuumCount'', True, 3), (''autoVacuumCount'', True, 3), (''analyzeCount'', True, 3),
      (''autoAnalyzeCount'', True, 3), (''lastSeqScan'', False, 3), (''lastIdxScan'', False, 3),
      (''nTupNewpageUpd'', True, 3), (''nInsSinceVacuum'', False, 3)]"
  by (simp add: NewPgStatUserTableCollector_def schema_simps)

lemma PgStatUserTableCollector_emit_shape [shape_intros]:
  "prom_vecs P \<Longrightarrow>
   list_all (emission_shape (schema_of P (NewPgStatUserTableCollector P g cs))) (PgStatUserTableCollector_emit stats)"
  by (simp add: PgStatUserTableCollector_emit_def list_all_emits Let_def shape_simps)

lemma PgStatUserTableCollector_scrape_shape:
  "prom_vecs P \<Longrightarrow>
   list_all (emission_shape (schema_of P (NewPgStatUserTableCollector P g cs)))
     (concat (fst (fst (PgStatUserTableCollector_scrape srv s))))"
  by (simp add: PgStatUserTableCollector_scrape_def shape_intros split: prod.splits sum.splits)


lemma PgStatUserTableCollector_names [shape_simps]:
  "map fst (vecs (NewPgStatUserTableCollector P g cs)) = [
      ''seqScan'', ''seqTupRead'', ''idxScan'', ''idxTupFetch'', ''nTupIns'', ''nTupUpd'',
      ''nTupDel'', ''nTupHotUpd'', ''nLiveTup'', ''nDeadTup'', ''nModSinceAnalyze'',
      ''lastVacuum'', ''lastAutoVacuum'', ''lastAnalyze'', ''lastAutoAnalyze'', ''vacuumCount'',
      ''autoVacuumCount'', ''analyzeCount'', ''autoAnalyzeCount'', ''lastSeqScan'',
      ''lastIdxScan'', ''nTupNewpageUpd'', ''nInsSinceVacuum'']"
  by (simp add: NewPgStatUserTableCollector_def Let_def)

lemma PgStatUserTableCollector_Describe_all:
  "map fst (vecs c) = map fst (vecs (NewPgStatUserTableCollector P g cs)) \<Longrightarrow>
   mset (PgStatUserTableCollector_Describe P c) = mset (map (vec_desc P \<circ> snd) (vecs c))"
  unfolding PgStatUserTableCollector_names PgStatUserTableCollector_Describe_def
  by (rule describe_fields_all, assumption) code_simp

lemma PgStatUserTableCollector_collectInto_all:
  "map fst (vecs c) = map fst (vecs (NewPgStatUserTableCollector P g cs)) \<Longrightarrow>
   mset (PgStatUserTableCollector_collectInto P c) = mset (concat (map (vec_Collect P \<circ> snd) (vecs c)))"
  unfolding PgStatUserTableCollector_names PgStatUserTableCollector_collectInto_def
  by (rule collect_fields_all, assumption) code_simp

subsection \<open>\<^verbatim>\<open>PgStatUserIndexesCollector\<close>\<close>

definition NewPgStatUserIndexesCollector :: "('cv, 'gv) prom \<Rightarrow> namespaces \<Rightarrow> nat list \<Rightarrow>
    ('cv, 'gv) collector" where
  "NewPgStatUserIndexesCollector P g clients =
    (let labels = [''database'', ''schemaname'', ''relname'', ''indexrelname''];
         counter = (\<lambda>n h. CounterField (counterFactory P g userIndexesSubSystem labels n h))
     in \<lparr>dbClients = clients, vecs = [
       (''idxScan'', counter ''index_scan'' ''Number of index scans initiated on this index''),
       (''idxTupRead'', counter ''index_tup_read'' ''Number of index entries returned by scans on this index''),
       (''idxTupFetch'', counter ''index_tup_fetch'' ''Number of live table rows fetched by simple index scans using this index'')]\<rparr>)"

definition PgStatUserIndexesCollector_Describe :: "('cv, 'gv) prom \<Rightarrow> ('cv, 'gv) collector \<Rightarrow> desc list" where
  "PgStatUserIndexesCollector_Describe P c = describe_fields P [
     ''idxScan'', ''idxTupRead'', ''idxTupFetch''] c"

definition PgStatUserIndexesCollector_collectInto :: "('cv, 'gv) prom \<Rightarrow> ('cv, 'gv) collector \<Rightarrow> metric list" where
  "PgStatUserIndexesCollector_collectInto P c = collect_fields P [
     ''idxScan'', ''idxTupRead'', ''idxTupFetch''] c"

definition PgStatUserIndexesCollector_emit :: "PgStatUserIndex list \<Rightarrow> emission list" where
  "PgStatUserIndexesCollector_emit stats = concat (map (\<lambda>stat.
     let labels = [String (PgStatUserIndex.Database stat),
                   String (PgStatUserIndex.SchemaName stat),
                   String (PgStatUserIndex.RelName stat),
                   String (PgStatUserIndex.IndexRelName stat)]
     in concat [
       emitCounter ''idxScan'' (PgStatUserIndex.IndexScan stat) labels,
       emitCounter ''idxTupRead'' (PgStatUserIndex.IndexTupRead stat) labels,
       emitCounter ''idxTupFetch'' (PgStatUserIndex.IndexTupFetch stat) labels]) stats)"

definition PgStatUserIndexesCollector_scrape :: scrape_body where
  "PgStatUserIndexesCollector_scrape srv s =
    (case SelectPgStatUserIndexes (q_PgStatUserIndexes srv) s of
       (Inl e, s) \<Rightarrow> (([], Some (''user indexes stats: '' @ e)), s)
     | (Inr stats, s) \<Rightarrow> ((singles (PgStatUserIndexesCollector_emit stats), None), s))"

definition PgStatUserIndexesCollector_Scrape :: "('cv, 'gv) prom \<Rightarrow> (error option list \<Rightarrow> error option) \<Rightarrow> nat list \<Rightarrow>
    (nat \<Rightarrow> server) \<Rightarrow> (nat \<Rightarrow> cstate) \<Rightarrow> ('cv, 'gv) collector \<Rightarrow> ('cv, 'gv) outcome option" where
  "PgStatUserIndexesCollector_Scrape P wait sched srv cl c =
     Scrape_group P wait sched PgStatUserIndexesCollector_scrape PgStatUserIndexesCollector_collectInto srv cl c"

lemma PgStatUserIndexesCollector_shapes [shape_simps]:
  "prom_vecs P \<Longrightarrow> shapes (schema_of P (NewPgStatUserIndexesCollector P g cs)) = [
      (''idxScan'', True, 4), (''idxTupRead'', True, 4), (''idxTupFetch'', True, 4)]"
  by (simp add: NewPgStatUserIndexesCollector_def schema_simps)

lemma PgStatUserIndexesCollector_emit_shape [shape_intros]:
  "prom_vecs P \<Longrightarrow>
   list_all (emission_shape (schema_of P (NewPgStatUserIndexesCollector P g cs))) (PgStatUserIndexesCollector_emit stats)"
  by (simp add: PgStatUserIndexesCollector_emit_def list_all_emits Let_def shape_simps)

lemma PgStatUserIndexesCollector_scrape_shape:
  "prom_vecs P \<Longrightarrow>
   list_all (emission_shape (schema_of P (NewPgStatUserIndexesCollector P g cs)))
     (concat (fst (fst (PgStatUserIndexesCollector_scrape srv s))))"
  by (simp add: PgStatUserIndexesCollector_scrape_def shape_intros split: prod.splits sum.splits)


lemma PgStatUserIndexesCollector_names [shape_simps]:
  "map fst (vecs (NewPgStatUserIndexesCollector P g cs)) = [
      ''idxScan'', ''idxTupRead'', ''idxTupFetch'']"
  by (simp add: NewPgStatUserIndexesCollector_def Let_def)

lemma PgStatUserIndexesCollector_Describe_all:
  "map fst (vecs c) = map fst (vecs (NewPgStatUserIndexesCollector P g cs)) \<Longrightarrow>
   mset (PgStatUserIndexesCollector_Describe P c) = mset (map (vec_desc P \<circ> snd) (vecs c))"
  unfolding PgStatUserIndexesCollector_names PgStatUserIndexesCollector_Describe_def
  by (rule describe_fields_all, assumption) code_simp

lemma PgStatUserIndexesCollector_collectInto_all:
  "map fst (vecs c) = map fst (vecs (NewPgStatUserIndexesCollector P g cs)) \<Longrightarrow>
   mset (PgStatUserIndexesCollector_collectInto P c) = mset (concat (map (vec_Collect P \<circ> snd) (vecs c)))"
  unfolding PgStatUserIndexesCollector_names PgStatUserIndexesCollector_collectInto_def
  by (rule collect_fields_all, assumption) code_simp

subsection \<open>\<^verbatim>\<open>PgStatIOUserTableCollector\<close>\<close>

definition NewPgStatIOUserTableCollector :: "('cv, 'gv) prom \<Rightarrow> namespaces \<Rightarrow> nat list \<Rightarrow>
    ('cv, 'gv) collector" where
  "NewPgStatIOUserTableCollector P g clients =
    (let labels = [''database'', ''schemaname'', ''relname''];
         counter = (\<lambda>n h. CounterField (counterFactoryIO P g userTablesSubSystem labels n h))
     in \<lparr>dbClients = clients, vecs = [
       (''heapBlksRead'', counter ''heap_blks_read'' ''Number of disk blocks read from this table''),
       (''heapBlksHit'', counter ''heap_blks_hit'' ''Number of buffer hits in this table''),
       (''idxBlksRead'', counter ''idx_blks_read'' ''Number of disk blocks read from all indexes on this table''),
       (''idxBlksHit'', counter ''idx_blks_hit'' ''Number of buffer hits in all indexes on this table''),
       (''toastBlksRead'', counter ''toast_blks_read'' ''Number of disk blocks read from this table's TOAST table (if any)''),
       (''toastBlksHit'', counter ''toast_blks_hit'' ''Number of buffer hits in this table's TOAST table (if any)''),
       (''tidxBlksRead'', counter ''tidx_blks_read'' ''Number of disk blocks read from this table's TOAST table indexes (if any)''),
       (''tidxBlksHit'', counter ''tidx_blks_hit'' ''Number of buffer hits in this table's TOAST table indexes (if any)'')]\<rparr>)"

definition PgStatIOUserTableCollector_Describe :: "('cv, 'gv) prom \<Rightarrow> ('cv, 'gv) collector \<Rightarrow> desc list" where
  "PgStatIOUserTableCollector_Describe P c = describe_fields P [
     ''heapBlksRead'', ''heapBlksHit'', ''idxBlksRead'', ''idxBlksHit'', ''toastBlksRead'',
     ''toastBlksHit'', ''tidxBlksRead'', ''tidxBlksHit''] c"

definition PgStatIOUserTableCollector_collectInto :: "('cv, 'gv) prom \<Rightarrow> ('cv, 'gv) collector \<Rightarrow> metric list" where
  "PgStatIOUserTableCollector_collectInto P c = collect_fields P [
     ''heapBlksRead'', ''heapBlksHit'', ''idxBlksRead'', ''idxBlksHit'', ''toastBlksRead'',
     ''toastBlksHit'', ''tidxBlksRead'', ''tidxBlksHit''] c"

definition PgStatIOUserTableCollector_emit :: "PgStatIOUserTable list \<Rightarrow> emission list" where
  "PgStatIOUserTableCollector_emit stats = concat (map (\<lambda>stat.
     let labels = [String (PgStatIOUserTable.Database stat),
                   String (PgStatIOUserTable.SchemaName stat),
                   String (PgStatIOUserTable.RelName stat)]
     in concat [
       emitCounter ''heapBlksRead'' (PgStatIOUserTable.HeapBlksRead stat) labels,
       emitCounter ''heapBlksHit'' (PgStatIOUserTable.HeapBlksHit stat) labels,
       emitCounter ''idxBlksRead'' (PgStatIOUserTable.IndexBlksRead stat) labels,
       emitCounter ''idxBlksHit'' (PgStatIOUserTable.IndexBlksHit stat) labels,
       emitCounter ''toastBlksRead'' (PgStatIOUserTable.ToastBlksRead stat) labels,
       emitCounter ''toastBlksHit'' (PgStatIOUserTable.ToastBlksHit stat) labels,
       emitCounter ''tidxBlksRead'' (PgStatIOUserTable.TidxBlksRead stat) labels,
       emitCounter ''tidxBlksHit'' (PgStatIOUserTable.TidxBlksHit stat) labels]) stats)"

definition PgStatIOUserTableCollector_scrape :: scrape_body where
  "PgStatIOUserTableCollector_scrape srv s =
    (case SelectPgStatIOUserTables (q_PgStatIOUserTables srv) s of
       (Inl e, s) \<Rightarrow> (([], Some (''user table stats: '' @ e)), s)
     | (Inr stats, s) \<Rightarrow> ((singles (PgStatIOUserTableCollector_emit stats), None), s))"

definition PgStatIOUserTableCollector_Scrape :: "('cv, 'gv) prom \<Rightarrow> (error option list \<Rightarrow> error option) \<Rightarrow> nat list \<Rightarrow>
    (nat \<Rightarrow> server) \<Rightarrow> (nat \<Rightarrow> cstate) \<Rightarrow> ('cv, 'gv) collector \<Rightarrow> ('cv, 'gv) outcome option" where
  "PgStatIOUserTableCollector_Scrape P wait sched srv cl c =
     Scrape_group P wait sched PgStatIOUserTableCollector_scrape PgStatIOUserTableCollector_collectInto srv cl c"

lemma PgStatIOUserTableCollector_shapes [shape_simps]:
  "prom_vecs P \<Longrightarrow> shapes (schema_of P (NewPgStatIOUserTableCollector P g cs)) = [
      (''heapBlksRead'', True, 3), (''heapBlksHit'', True, 3), (''idxBlksRead'', True, 3),
      (''idxBlksHit'', True, 3), (''toastBlksRead'', True, 3), (''toastBlksHit'', True, 3),
      (''tidxBlksRead'', True, 3), (''tidxBlksHit'', True, 3)]"
  by (simp add: NewPgStatIOUserTableCollector_def schema_simps)

lemma PgStatIOUserTableCollector_emit_shape [shape_intros]:
  "prom_vecs P \<Longrightarrow>
   list_all (emission_shape (schema_of P (NewPgStatIOUserTableCollector P g cs))) (PgStatIOUserTableCollector_emit stats)"
  by (simp add: PgStatIOUserTableCollector_emit_def list_all_emits Let_def shape_simps)

lemma PgStatIOUserTableCollector_scrape_shape:
  "prom_vecs P \<Longrightarrow>
   list_all (emission_shape (schema_of P (NewPgStatIOUserTableCollector P g cs)))
     (concat (fst (fst (PgStatIOUserTableCollector_scrape srv s))))"
  by (simp add: PgStatIOUserTableCollector_scrape_def shape_intros split: prod.splits sum.splits)


lemma PgStatIOUserTableCollector_names [shape_simps]:
  "map fst (vecs (NewPgStatIOUserTableCollector P g cs)) = [
      ''heapBlksRead'', ''heapBlksHit'', ''idxBlksRead'', ''idxBlksHit'', ''toastBlksRead'',
      ''toastBlksHit'', ''tidxBlksRead'', ''tidxBlksHit'']"
  by (simp add: NewPgStatIOUserTableCollector_def Let_def)

lemma PgStatIOUserTableCollector_Describe_all:
  "map fst (vecs c) = map fst (vecs (NewPgStatIOUserTableCollector P g cs)) \<Longrightarrow>
   mset (PgStatIOUserTableCollector_Describe P c) = mset (map (vec_desc P \<circ> snd) (vecs c))"
  unfolding PgStatIOUserTableCollector_names PgStatIOUserTableCollector_Describe_def
  by (rule describe_fields_all, assumption) code_simp

lemma PgStatIOUserTableCollector_collectInto_all:
  "map fst (vecs c) = map fst (vecs (NewPgStatIOUserTableCollector P g cs)) \<Longrightarrow>
   mset (PgStatIOUserTableCollector_collectInto P c) = mset (concat (map (vec_Collect P \<circ> snd) (vecs c)))"
  unfolding PgStatIOUserTableCollector_names PgStatIOUserTableCollector_collectInto_def
  by (rule collect_fields_all, assumption) code_simp

subsection \<open>\<^verbatim>\<open>PgStatIOUserIndexesCollector\<close>\<close>

definition NewPgStatIOUserIndexesCollector :: "('cv, 'gv) prom \<Rightarrow> namespaces \<Rightarrow> nat list \<Rightarrow>
    ('cv, 'gv) collector" where
  "NewPgStatIOUserIndexesCollector P g clients =
    (let labels = [''database'', ''schemaname'', ''relname'', ''indexrelname''];
         counter = (\<lambda>n h. CounterField (counterFactoryIO P g userIndexesSubSystem labels n h))
     in \<lparr>dbClients = clients, vecs = [
       (''idxBlksRead'', counter ''idx_blks_read'' ''Number of disk blocks read from this index''),
       (''idxBlksHit'', counter ''idx_blks_hit'' ''Number of buffer hits in this index'')]\<rparr>)"

definition PgStatIOUserIndexesCollector_Describe :: "('cv, 'gv) prom \<Rightarrow> ('cv, 'gv) collector \<Rightarrow> desc list" where
  "PgStatIOUserIndexesCollector_Describe P c = describe_fields P [
     ''idxBlksRead'', ''idxBlksHit''] c"

definition PgStatIOUserIndexesCollector_collectInto :: "('cv, 'gv) prom \<Rightarrow> ('cv, 'gv) collector \<Rightarrow> metric list" where
  "PgStatIOUserIndexesCollector_collectInto P c = collect_fields P [
     ''idxBlksRead'', ''idxBlksHit''] c"

definition PgStatIOUserIndexesCollector_emit :: "PgStatIOUserIndex list \<Rightarrow> emission list" where
  "PgStatIOUserIndexesCollector_emit stats = concat (map (\<lambda>stat.
     let labels = [String (PgStatIOUserIndex.Database stat),
                   String (PgStatIOUserIndex.SchemaName stat),
                   String (PgStatIOUserIndex.RelName stat),
                   String (PgStatIOUserIndex.IndexRelName stat)]
     in concat [
       emitCounter ''idxBlksRead'' (PgStatIOUserIndex.IndexBlksRead stat) labels,
       emitCounter ''idxBlksHit'' (PgStatIOUserIndex.IndexBlksHit stat) labels]) stats)"

definition PgStatIOUserIndexesCollector_scrape :: scrape_body where
  "PgStatIOUserIndexesCollector_scrape srv s =
    (case SelectPgStatIOUserIndexes (q_PgStatIOUserIndexes srv) s of
       (Inl e, s) \<Rightarrow> (([], Some (''user index stats: '' @ e)), s)
     | (Inr stats, s) \<Rightarrow> ((singles (PgStatIOUserIndexesCollector_emit stats), None), s))"

definition PgStatIOUserIndexesCollector_Scrape :: "('cv, 'gv) prom \<Rightarrow> (error option list \<Rightarrow> error option) \<Rightarrow> nat list \<Rightarrow>
    (nat \<Rightarrow> server) \<Rightarrow> (nat \<Rightarrow> cstate) \<Rightarrow> ('cv, 'gv) collector \<Rightarrow> ('cv, 'gv) outcome option" where
  "PgStatIOUserIndexesCollector_Scrape P wait sched srv cl c =
     Scrape_group P wait sched PgStatIOUserIndexesCollector_scrape PgStatIOUserIndexesCollector_collectInto srv cl c"

lemma PgStatIOUserIndexesCollector_shapes [shape_simps]:
  "prom_vecs P \<Longrightarrow> shapes (schema_of P (NewPgStatIOUserIndexesCollector P g cs)) = [
      (''idxBlksRead'', True, 4), (''idxBlksHit'', True, 4)]"
  by (simp add: NewPgStatIOUserIndexesCollector_def schema_simps)

lemma PgStatIOUserIndexesCollector_emit_shape [shape_intros]:
  "prom_vecs P \<Longrightarrow>
   list_all (emission_shape (schema_of P (NewPgStatIOUserIndexesCollector P g cs))) (PgStatIOUserIndexesCollector_emit stats)"
  by (simp add: PgStatIOUserIndexesCollector_emit_def list_all_emits Let_def shape_simps)

lemma PgStatIOUserIndexesCollector_scrape_shape:
  "prom_vecs P \<Longrightarrow>
   list_all (emission_shape (schema_of P (NewPgStatIOUserIndexesCollector P g cs)))
     (concat (fst (fst (PgStatIOUserIndexesCollector_scrape srv s))))"
  by (simp add: PgStatIOUserIndexesCollector_scrape_def shape_intros split: prod.splits sum.splits)


lemma PgStatIOUserIndexesCollector_names [shape_simps]:
  "map fst (vecs (NewPgStatIOUserIndexesCollector P g cs)) = [
      ''idxBlksRead'', ''idxBlksHit'']"
  by (simp add: NewPgStatIOUserIndexesCollector_def Let_def)

lemma PgStatIOUserIndexesCollector_Describe_all:
  "map fst (vecs c) = map fst (vecs (NewPgStatIOUserIndexesCollector P g cs)) \<Longrightarrow>
   mset (PgStatIOUserIndexesCollector_Describe P c) = mset (map (vec_desc P \<circ> snd) (vecs c))"
  unfolding PgStatIOUserIndexesCollector_names PgStatIOUserIndexesCollector_Describe_def
  by (rule describe_fields_all, assumption) code_simp

lemma PgStatIOUserIndexesCollector_collectInto_all:
  "map fst (vecs c) = map fst (vecs (NewPgStatIOUserIndexesCollector P g cs)) \<Longrightarrow>
   mset (PgStatIOUserIndexesCollector_collectInto P c) = mset (concat (map (vec_Collect P \<circ> snd) (vecs c)))"
  unfolding PgStatIOUserIndexesCollector_names PgStatIOUserIndexesCollector_collectInto_def
  by (rule collect_fields_all, assumption) code_simp

end
