(* ===== verification/CollReplication.thy ===== *)
theory CollReplication
  imports Collector
begin

text \<open>
  Replication, slots and subscriptions.
  Per collector of \<open>exporter/collectors/\<close>: the constructor, \<open>Describe\<close> and
  \<open>collectInto\<close> with the fields in the order of the source, \<open>emit\<close>, the scrape of one client
  and \<open>Scrape\<close>. The lemmas show that every emission names a field of its kind with the right
  number of label values, and that \<open>Describe\<close> and \<open>collectInto\<close> reach every field once.
\<close>

subsection \<open>\<^verbatim>\<open>PgStatReplicationCollector\<close>\<close>

definition NewPgStatReplicationCollector :: "('cv, 'gv) prom \<Rightarrow> namespaces \<Rightarrow> nat list \<Rightarrow>
    ('cv, 'gv) collector" where
  "NewPgStatReplicationCollector P g clients =
    (let labels = [''database'', ''application_name'', ''client_addr'', ''state'', ''sync_state''];
         gauge = (\<lambda>n h. GaugeField (gaugeFactory P g replicationSubSystem labels n h))
     in \<lparr>dbClients = clients, vecs = [
       (''sentLagBytes'', gauge ''sent_lag_bytes'' ''WAL bytes generated on primary but not yet sent to replica''),
       (''writeLagBytes'', gauge ''write_lag_bytes'' ''WAL bytes sent to replica but not yet written to its OS buffers''),
       (''flushLagBytes'', gauge ''flush_lag_bytes'' ''WAL bytes written on replica but not yet flushed to disk''),
       (''replayLagBytes'', gauge ''replay_lag_bytes'' ''WAL bytes flushed on replica but not yet replayed''),
       (''writeLagSeconds'', gauge ''write_lag_seconds'' ''Time elapsed between local flush and receipt of write confirmation from replica''),
       (''flushLagSeconds'', gauge ''flush_lag_seconds'' ''Time elapsed between local flush and receipt of flush confirmation from replica''),
       (''replayLagSeconds'', gauge ''replay_lag_seconds'' ''Time elapsed between local flush and receipt of replay confirmation from replica'')]\<rparr>)"

definition PgStatReplicationCollector_Describe :: "('cv, 'gv) prom \<Rightarrow> ('cv, 'gv) collector \<Rightarrow> desc list" where
  "PgStatReplicationCollector_Describe P c = describe_fields P [
     ''sentLagBytes'', ''writeLagBytes'', ''flushLagBytes'', ''replayLagBytes'',
     ''writeLagSeconds'', ''flushLagSeconds'', ''replayLagSeconds''] c"

definition PgStatReplicationCollector_collectInto :: "('cv, 'gv) prom \<Rightarrow> ('cv, 'gv) collector \<Rightarrow> metric list" where
  "PgStatReplicationCollector_collectInto P c = collect_fields P [
     ''sentLagBytes'', ''writeLagBytes'', ''flushLagBytes'', ''replayLagBytes'',
     ''writeLagSeconds'', ''flushLagSeconds'', ''replayLagSeconds''] c"

definition PgStatReplicationCollector_emit :: "PgStatReplication list \<Rightarrow> emission list" where
  "PgStatReplicationCollector_emit stats = concat (map (\<lambda>stat.
     let labels = [String (PgStatReplication.Database stat),
                   String (PgStatReplication.ApplicationName stat),
                   String (PgStatReplication.ClientAddr stat),
                   String (PgStatReplication.State stat),
                   String (PgStatReplication.SyncState stat)]
     in concat [
       emitFloat ''sentLagBytes'' (PgStatReplication.SentLagBytes stat) labels,
       emitFloat ''writeLagBytes'' (PgStatReplication.WriteLagBytes stat) labels,
       emitFloat ''flushLagBytes'' (PgStatReplication.FlushLagBytes stat) labels,
       emitFloat ''replayLagBytes'' (PgStatReplication.ReplayLagBytes stat) labels,
       emitFloat ''writeLagSeconds'' (PgStatReplication.WriteLagSeconds stat) labels,
       emitFloat ''flushLagSeconds'' (PgStatReplication.FlushLagSeconds stat) labels,
       emitFloat ''replayLagSeconds'' (PgStatReplication.ReplayLagSeconds stat) labels]) stats)"

definition PgStatReplicationCollector_scrape :: scrape_body where
  "PgStatReplicationCollector_scrape srv s =
    (case SelectPgStatReplication (q_PgStatReplication srv) s of
       (Inl e, s) \<Rightarrow> (([], Some (''replication stats: '' @ e)), s)
     | (Inr stats, s) \<Rightarrow> ((singles (PgStatReplicationCollector_emit stats), None), s))"

definition PgStatReplicationCollector_Scrape :: "('cv, 'gv) prom \<Rightarrow> (error option list \<Rightarrow> error option) \<Rightarrow> nat list \<Rightarrow>
    (nat \<Rightarrow> server) \<Rightarrow> (nat \<Rightarrow> cstate) \<Rightarrow> ('cv, 'gv) collector \<Rightarrow> ('cv, 'gv) outcome option" where
  "PgStatReplicationCollector_Scrape P wait sched srv cl c =
     Scrape_group P wait sched PgStatReplicationCollector_scrape PgStatReplicationCollector_collectInto srv cl c"

lemma PgStatReplicationCollector_shapes [shape_simps]:
  "prom_vecs P \<Longrightarrow> shapes (schema_of P (NewPgStatReplicationCollector P g cs)) = [
      (''sentLagBytes'', False, 5), (''writeLagBytes'', False, 5), (''flushLagBytes'', False, 5),
      (''replayLagBytes'', False, 5), (''writeLagSeconds'', False, 5),
      (''flushLagSeconds'', False, 5), (''replayLagSeconds'', False, 5)]"
  by (simp add: NewPgStatReplicationCollector_def schema_simps)

lemma PgStatReplicationCollector_emit_shape [shape_intros]:
  "prom_vecs P \<Longrightarrow>
   list_all (emission_shape (schema_of P (NewPgStatReplicationCollector P g cs))) (PgStatReplicationCollector_emit stats)"
  by (simp add: PgStatReplicationCollector_emit_def list_all_emits Let_def shape_simps)

lemma PgStatReplicationCollector_scrape_shape:
  "prom_vecs P \<Longrightarrow>
   list_all (emission_shape (schema_of P (NewPgStatReplicationCollector P g cs)))
     (concat (fst (fst (PgStatReplicationCollector_scrape srv s))))"
  by (simp add: PgStatReplicationCollector_scrape_def shape_intros split: prod.splits sum.splits)


lemma PgStatReplicationCollector_names [shape_simps]:
  "map fst (vecs (NewPgStatReplicationCollector P g cs)) = [
      ''sentLagBytes'', ''writeLagBytes'', ''flushLagBytes'', ''replayLagBytes'',
      ''writeLagSeconds'', ''flushLagSeconds'', ''replayLagSeconds'']"
  by (simp add: NewPgStatReplicationCollector_def Let_def)

lemma PgStatReplicationCollector_Describe_all:
  "map fst (vecs c) = map fst (vecs (NewPgStatReplicationCollector P g cs)) \<Longrightarrow>
   mset (PgStatReplicationCollector_Describe P c) = mset (map (vec_desc P \<circ> snd) (vecs c))"
  unfolding PgStatReplicationCollector_names PgStatReplicationCollector_Describe_def
  by (rule describe_fields_all, assumption) code_simp

lemma PgStatReplicationCollector_collectInto_all:
  "map fst (vecs c) = map fst (vecs (NewPgStatReplicationCollector P g cs)) \<Longrightarrow>
   mset (PgStatReplicationCollector_collectInto P c) = mset (concat (map (vec_Collect P \<circ> snd) (vecs c)))"
  unfolding PgStatReplicationCollector_names PgStatReplicationCollector_collectInto_def
  by (rule collect_fields_all, assumption) code_simp

subsection \<open>\<^verbatim>\<open>PgReplicationSlotsCollector\<close>\<close>

definition NewPgReplicationSlotsCollector :: "('cv, 'gv) prom \<Rightarrow> namespaces \<Rightarrow> nat list \<Rightarrow>
    ('cv, 'gv) collector" where
  "NewPgReplicationSlotsCollector P g clients =
    (let labels = [''database'', ''slot_name'', ''slot_type'', ''plugin'', ''datname'', ''wal_status''];
         gauge = (\<lambda>n h. GaugeField (gaugeFactoryRawPg P g replicationSlotsSubSystem labels n h))
     in \<lparr>dbClients = clients, vecs = [
       (''active'', gauge ''active'' ''1 if the slot is currently active, 0 otherwise''),
       (''temporary'', gauge ''temporary'' ''1 if the slot is temporary (dies with session), 0 otherwise''),
       (''restartLsn'', gauge ''restart_lsn_bytes'' ''Oldest WAL location the slot requires, as a byte offset''),
       (''confirmedFlushLsn'', gauge ''confirmed_flush_lsn_bytes'' ''Logical-slot: last LSN confirmed flushed by the consumer''),
       (''retainedWalBytes'', gauge ''retained_wal_bytes'' ''WAL bytes retained by this slot (pg_current_wal_lsn - restart_lsn); NULL on standby''),
       (''safeWalSizeBytes'', gauge ''safe_wal_size_bytes'' ''WAL bytes remaining before the slot becomes 'lost' (PG 13+)''),
       (''conflicting'', gauge ''conflicting'' ''1 if the slot is conflicting with recovery, 0 otherwise (PG 16+)'')]\<rparr>)"

definition PgReplicationSlotsCollector_Describe :: "('cv, 'gv) prom \<Rightarrow> ('cv, 'gv) collector \<Rightarrow> desc list" where
  "PgReplicationSlotsCollector_Describe P c = describe_fields P [
     ''active'', ''temporary'', ''restartLsn'', ''confirmedFlushLsn'', ''retainedWalBytes'',
     ''safeWalSizeBytes'', ''conflicting''] c"

definition PgReplicationSlotsCollector_collectInto :: "('cv, 'gv) prom \<Rightarrow> ('cv, 'gv) collector \<Rightarrow> metric list" where
  "PgReplicationSlotsCollector_collectInto P c = collect_fields P [
     ''active'', ''temporary'', ''restartLsn'', ''confirmedFlushLsn'', ''retainedWalBytes'',
     ''safeWalSizeBytes'', ''conflicting''] c"

definition PgReplicationSlotsCollector_emit :: "PgReplicationSlot list \<Rightarrow> emission list" where
  "PgReplicationSlotsCollector_emit stats = concat (map (\<lambda>stat.
     let labels = [String (PgReplicationSlot.Database stat),
                   String (PgReplicationSlot.SlotName stat),
                   String (PgReplicationSlot.SlotType stat),
                   String (PgReplicationSlot.Plugin stat),
                   String (PgReplicationSlot.DatName stat),
                   String (PgReplicationSlot.WalStatus stat)]
     in concat [
       emitBool ''active'' (PgReplicationSlot.Active stat) labels,
       emitBool ''temporary'' (PgReplicationSlot.Temporary stat) labels,
       emitFloat ''restartLsn'' (PgReplicationSlot.RestartLsnBytes stat) labels,
       emitFloat ''confirmedFlushLsn'' (PgReplicationSlot.ConfirmedFlushLsn stat) labels,
       emitFloat ''retainedWalBytes'' (PgReplicationSlot.RetainedWalBytes stat) labels,
       emitGauge ''safeWalSizeBytes'' (PgReplicationSlot.SafeWalSizeBytes stat) labels,
       emitBool ''conflicting'' (PgReplicationSlot.Conflicting stat) labels]) stats)"

definition PgReplicationSlotsCollector_scrape :: scrape_body where
  "PgReplicationSlotsCollector_scrape srv s =
    (case SelectPgReplicationSlots (q_PgReplicationSlots srv) s of
       (Inl e, s) \<Rightarrow> (([], Some (''replication_slots stats: '' @ e)), s)
     | (Inr stats, s) \<Rightarrow> ((singles (PgReplicationSlotsCollector_emit stats), None), s))"

definition PgReplicationSlotsCollector_Scrape :: "('cv, 'gv) prom \<Rightarrow> (error option list \<Rightarrow> error option) \<Rightarrow> nat list \<Rightarrow>
    (nat \<Rightarrow> server) \<Rightarrow> (nat \<Rightarrow> cstate) \<Rightarrow> ('cv, 'gv) collector \<Rightarrow> ('cv, 'gv) outcome option" where
  "PgReplicationSlotsCollector_Scrape P wait sched srv cl c =
     Scrape_group P wait sched PgReplicationSlotsCollector_scrape PgReplicationSlotsCollector_collectInto srv cl c"

lemma PgReplicationSlotsCollector_shapes [shape_simps]:
  "prom_vecs P \<Longrightarrow> shapes (schema_of P (NewPgReplicationSlotsCollector P g cs)) = [
      (''active'', False, 6), (''temporary'', False, 6), (''restartLsn'', False, 6),
      (''confirmedFlushLsn'', False, 6), (''retainedWalBytes'', False, 6),
      (''safeWalSizeBytes'', False, 6), (''conflicting'', False, 6)]"
  by (simp add: NewPgReplicationSlotsCollector_def schema_simps)

lemma PgReplicationSlotsCollector_emit_shape [shape_intros]:
  "prom_vecs P \<Longrightarrow>
   list_all (emission_shape (schema_of P (NewPgReplicationSlotsCollector P g cs))) (PgReplicationSlotsCollector_emit stats)"
  by (simp add: PgReplicationSlotsCollector_emit_def list_all_emits Let_def shape_simps)

lemma PgReplicationSlotsCollector_scrape_shape:
  "prom_vecs P \<Longrightarrow>
   list_all (emission_shape (schema_of P (NewPgReplicationSlotsCollector P g cs)))
     (concat (fst (fst (PgReplicationSlotsCollector_scrape srv s))))"
  by (simp add: PgReplicationSlotsCollector_scrape_def shape_intros split: prod.splits sum.splits)


lemma PgReplicationSlotsCollector_names [shape_simps]:
  "map fst (vecs (NewPgReplicationSlotsCollector P g cs)) = [
      ''active'', ''temporary'', ''restartLsn'', ''confirmedFlushLsn'', ''retainedWalBytes'',
      ''safeWalSizeBytes'', ''conflicting'']"
  by (simp add: NewPgReplicationSlotsCollector_def Let_def)

lemma PgReplicationSlotsCollector_Describe_all:
  "map fst (vecs c) = map fst (vecs (NewPgReplicationSlotsCollector P g cs)) \<Longrightarrow>
   mset (PgReplicationSlotsCollector_Describe P c) = mset (map (vec_desc P \<circ> snd) (vecs c))"
  unfolding PgReplicationSlotsCollector_names PgReplicationSlotsCollector_Describe_def
  by (rule describe_fields_all, assumption) code_simp

lemma PgReplicationSlotsCollector_collectInto_all:
  "map fst (vecs c) = map fst (vecs (NewPgReplicationSlotsCollector P g cs)) \<Longrightarrow>
   mset (PgReplicationSlotsCollector_collectInto P c) = mset (concat (map (vec_Collect P \<circ> snd) (vecs c)))"
  unfolding PgReplicationSlotsCollector_names PgReplicationSlotsCollector_collectInto_def
  by (rule collect_fields_all, assumption) code_simp

subsection \<open>\<^verbatim>\<open>PgStatSubscriptionCollector\<close>\<close>

definition NewPgStatSubscriptionCollector :: "('cv, 'gv) prom \<Rightarrow> namespaces \<Rightarrow> nat list \<Rightarrow>
    ('cv, 'gv) collector" where
  "NewPgStatSubscriptionCollector P g clients =
    (let labels = [''database'', ''subname''];
         gauge = (\<lambda>n h. GaugeField (gaugeFactory P g subscriptionSubSystem labels n h));
         counter = (\<lambda>n h. CounterField (counterFactory P g subscriptionSubSystem labels n h))
     in \<lparr>dbClients = clients, vecs = [
       (''active'', gauge ''active'' ''1 if any worker for the subscription is running, 0 otherwise''),
       (''receivedLsn'', gauge ''received_lsn_bytes'' ''Last write-ahead log location received, as a byte offset''),
       (''lastMsgSendTime'', gauge ''last_msg_send_time_seconds'' ''Send time of the last message received from the origin''),
       (''lastMsgReceiptTime'', gauge ''last_msg_receipt_time_seconds'' ''Receipt time of the last message received from the origin''),
       (''latestEndLsn'', gauge ''latest_end_lsn_bytes'' ''Last WAL location reported to the origin, as a byte offset''),
       (''latestEndTime'', gauge ''latest_end_time_seconds'' ''Time of the last message reported to the origin''),
       (''applyErrorCount'', counter ''apply_error_count_total'' ''Number of times an error occurred while applying changes''),
       (''syncErrorCount'', counter ''sync_error_count_total'' ''Number of times an error occurred during initial table sync''),
       (''statsResetSecond'', gauge ''stats_reset_timestamp_seconds'' ''Unix time at which subscription stats were last reset'')]\<rparr>)"

definition PgStatSubscriptionCollector_Describe :: "('cv, 'gv) prom \<Rightarrow> ('cv, 'gv) collector \<Rightarrow> desc list" where
  "PgStatSubscriptionCollector_Describe P c = describe_fields P [
     ''active'', ''receivedLsn'', ''lastMsgSendTime'', ''lastMsgReceiptTime'', ''latestEndLsn'',
     ''latestEndTime'', ''applyErrorCount'', ''syncErrorCount'', ''statsResetSecond''] c"

definition PgStatSubscriptionCollector_collectInto :: "('cv, 'gv) prom \<Rightarrow> ('cv, 'gv) collector \<Rightarrow> metric list" where
  "PgStatSubscriptionCollector_collectInto P c = collect_fields P [
     ''active'', ''receivedLsn'', ''lastMsgSendTime'', ''lastMsgReceiptTime'', ''latestEndLsn'',
     ''latestEndTime'', ''applyErrorCount'', ''syncErrorCount'', ''statsResetSecond''] c"

definition PgStatSubscriptionCollector_emit :: "PgStatSubscription list \<Rightarrow> emission list" where
  "PgStatSubscriptionCollector_emit stats = concat (map (\<lambda>stat.
     if \<not> TextValid (PgStatSubscription.Database stat) \<or> \<not> TextValid (PgStatSubscription.SubName stat) then [] else
     let labels = [String (PgStatSubscription.Database stat),
                   String (PgStatSubscription.SubName stat)]
     in concat [
       emitBool ''active'' (PgStatSubscription.Active stat) labels,
       emitGauge ''receivedLsn'' (PgStatSubscription.ReceivedLsnBytes stat) labels,
       emitTime ''lastMsgSendTime'' (PgStatSubscription.LastMsgSendTime stat) labels,
       emitTime ''lastMsgReceiptTime'' (PgStatSubscription.LastMsgReceiptTime stat) labels,
       emitGauge ''latestEndLsn'' (PgStatSubscription.LatestEndLsnBytes stat) labels,
       emitTime ''latestEndTime'' (PgStatSubscription.LatestEndTime stat) labels]) stats)"

definition PgStatSubscriptionCollector_emitStats :: "PgStatSubscriptionStats list \<Rightarrow> emission list" where
  "PgStatSubscriptionCollector_emitStats stats = concat (map (\<lambda>stat.
     if \<not> TextValid (PgStatSubscriptionStats.Database stat) \<or> \<not> TextValid (PgStatSubscriptionStats.SubName stat) then [] else
     let labels = [String (PgStatSubscriptionStats.Database stat),
                   String (PgStatSubscriptionStats.SubName stat)]
     in concat [
       emitCounter ''applyErrorCount'' (PgStatSubscriptionStats.ApplyErrorCount stat) labels,
       emitCounter ''syncErrorCount'' (PgStatSubscriptionStats.SyncErrorCount stat) labels,
       emitTime ''statsResetSecond'' (PgStatSubscriptionStats.StatsReset stat) labels]) stats)"

definition PgStatSubscriptionCollector_scrape :: scrape_body where
  "PgStatSubscriptionCollector_scrape srv s =
    (case SelectPgStatSubscription (q_PgStatSubscription srv) s of
       (Inl e, s) \<Rightarrow> (([], Some (''subscription stats: '' @ e)), s)
     | (Inr subs, s) \<Rightarrow>
         (case SelectPgStatSubscriptionStats (q_PgStatSubscriptionStats srv) s of
            (Inl e, s) \<Rightarrow> ((singles (PgStatSubscriptionCollector_emit subs), Some (''subscription_stats: '' @ e)), s)
          | (Inr statsRows, s) \<Rightarrow>
              ((singles (PgStatSubscriptionCollector_emit subs) @ singles (PgStatSubscriptionCollector_emitStats statsRows), None), s)))"

definition PgStatSubscriptionCollector_Scrape :: "('cv, 'gv) prom \<Rightarrow> (error option list \<Rightarrow> error option) \<Rightarrow> nat list \<Rightarrow>
    (nat \<Rightarrow> server) \<Rightarrow> (nat \<Rightarrow> cstate) \<Rightarrow> ('cv, 'gv) collector \<Rightarrow> ('cv, 'gv) outcome option" where
  "PgStatSubscriptionCollector_Scrape P wait sched srv cl c =
     Scrape_group P wait sched PgStatSubscriptionCollector_scrape PgStatSubscriptionCollector_collectInto srv cl c"

lemma PgStatSubscriptionCollector_shapes [shape_simps]:
  "prom_vecs P \<Longrightarrow> shapes (schema_of P (NewPgStatSubscriptionCollector P g cs)) = [
      (''active'', False, 2), (''receivedLsn'', False, 2), (''lastMsgSendTime'', False, 2),
      (''lastMsgReceiptTime'', False, 2), (''latestEndLsn'', False, 2),
      (''latestEndTime'', False, 2), (''applyErrorCount'', True, 2), (''syncErrorCount'', True, 2),
      (''statsResetSecond'', False, 2)]"
  by (simp add: NewPgStatSubscriptionCollector_def schema_simps)

lemma PgStatSubscriptionCollector_emit_shape [shape_intros]:
  "prom_vecs P \<Longrightarrow>
   list_all (emission_shape (schema_of P (NewPgStatSubscriptionCollector P g cs))) (PgStatSubscriptionCollector_emit stats)"
  by (simp add: PgStatSubscriptionCollector_emit_def list_all_emits Let_def shape_simps)

lemma PgStatSubscriptionCollector_emitStats_shape [shape_intros]:
  "prom_vecs P \<Longrightarrow>
   list_all (emission_shape (schema_of P (NewPgStatSubscriptionCollector P g cs))) (PgStatSubscriptionCollector_emitStats stats)"
  by (simp add: PgStatSubscriptionCollector_emitStats_def list_all_emits Let_def shape_simps)

lemma PgStatSubscriptionCollector_scrape_shape:
  "prom_vecs P \<Longrightarrow>
   list_all (emission_shape (schema_of P (NewPgStatSubscriptionCollector P g cs)))
     (concat (fst (fst (PgStatSubscriptionCollector_scrape srv s))))"
  by (simp add: PgStatSubscriptionCollector_scrape_def shape_intros split: prod.splits sum.splits)


lemma PgStatSubscriptionCollector_names [shape_simps]:
  "map fst (vecs (NewPgStatSubscriptionCollector P g cs)) = [
      ''active'', ''receivedLsn'', ''lastMsgSendTime'', ''lastMsgReceiptTime'', ''latestEndLsn'',
      ''latestEndTime'', ''applyErrorCount'', ''syncErrorCount'', ''statsResetSecond'']"
  by (simp add: NewPgStatSubscriptionCollector_def Let_def)

lemma PgStatSubscriptionCollector_Describe_all:
  "map fst (vecs c) = map fst (vecs (NewPgStatSubscriptionCollector P g cs)) \<Longrightarrow>
   mset (PgStatSubscriptionCollector_Describe P c) = mset (map (vec_desc P \<circ> snd) (vecs c))"
  unfolding PgStatSubscriptionCollector_names PgStatSubscriptionCollector_Describe_def
  by (rule describe_fields_all, assumption) code_simp

lemma PgStatSubscriptionCollector_collectInto_all:
  "map fst (vecs c) = map fst (vecs (NewPgStatSubscriptionCollector P g cs)) \<Longrightarrow>
   mset (PgStatSubscriptionCollector_collectInto P c) = mset (concat (map (vec_Collect P \<circ> snd) (vecs c)))"
  unfolding PgStatSubscriptionCollector_names PgStatSubscriptionCollector_collectInto_def
  by (rule collect_fields_all, assumption) code_simp

end
