(* ===== verification/CollProgress.thy ===== *)
theory CollProgress
  imports Collector
begin

text \<open>
  The progress views.
  Per collector of \<open>exporter/collectors/\<close>: the constructor, \<open>Describe\<close> and
  \<open>collectInto\<close> with the fields in the order of the source, \<open>emit\<close>, the scrape of one client
  and \<open>Scrape\<close>. The lemmas show that every emission names a field of its kind with the right
  number of label values, and that \<open>Describe\<close> and \<open>collectInto\<close> reach every field once.
\<close>

subsection \<open>\<^verbatim>\<open>PgStatProgressVacuumCollector\<close>\<close>

definition NewPgStatProgressVacuumCollector :: "('cv, 'gv) prom \<Rightarrow> namespaces \<Rightarrow> nat list \<Rightarrow>
    ('cv, 'gv) collector" where
  "NewPgStatProgressVacuumCollector P g clients =
    (let labels = [''database'', ''datname'', ''relid'', ''phase''];
         gauge = (\<lambda>n h. GaugeField (gaugeFactory P g progressVacuumSubSystem labels n h))
     in \<lparr>dbClients = clients, vecs = [
       (''heapBlksTotal'', gauge ''heap_blks_total'' ''Total heap blocks in this relation''),
       (''heapBlksScanned'', gauge ''heap_blks_scanned'' ''Heap blocks scanned so far''),
       (''heapBlksVacuumed'', gauge ''heap_blks_vacuumed'' ''Heap blocks vacuumed so far''),
       (''indexVacuumCount'', gauge ''index_vacuum_count'' ''Number of index vacuum cycles completed'')]\<rparr>)"

definition PgStatProgressVacuumCollector_Describe :: "('cv, 'gv) prom \<Rightarrow> ('cv, 'gv) collector \<Rightarrow> desc list" where
  "PgStatProgressVacuumCollector_Describe P c = describe_fields P [
     ''heapBlksTotal'', ''heapBlksScanned'', ''heapBlksVacuumed'', ''indexVacuumCount''] c"

definition PgStatProgressVacuumCollector_collectInto :: "('cv, 'gv) prom \<Rightarrow> ('cv, 'gv) collector \<Rightarrow> metric list" where
  "PgStatProgressVacuumCollector_collectInto P c = collect_fields P [
     ''heapBlksTotal'', ''heapBlksScanned'', ''heapBlksVacuumed'', ''indexVacuumCount''] c"

definition PgStatProgressVacuumCollector_emit :: "PgStatProgressVacuum list \<Rightarrow> emission list" where
  "PgStatProgressVacuumCollector_emit stats = concat (map (\<lambda>stat.
     let labels = [String (PgStatProgressVacuum.Database stat),
                   String (PgStatProgressVacuum.DatName stat),
                   String (PgStatProgressVacuum.RelID stat),
                   String (PgStatProgressVacuum.Phase stat)]
     in concat [
       emitGauge ''heapBlksTotal'' (PgStatProgressVacuum.HeapBlksTotal stat) labels,
       emitGauge ''heapBlksScanned'' (PgStatProgressVacuum.HeapBlksScanned stat) labels,
       emitGauge ''heapBlksVacuumed'' (PgStatProgressVacuum.HeapBlksVacuumed stat) labels,
       emitGauge ''indexVacuumCount'' (PgStatProgressVacuum.IndexVacuumCount stat) labels]) stats)"

definition PgStatProgressVacuumCollector_scrape :: scrape_body where
  "PgStatProgressVacuumCollector_scrape srv s =
    (case SelectPgStatProgressVacuum (q_PgStatProgressVacuum srv) s of
       (Inl e, s) \<Rightarrow> (([], Some (''progress_vacuum stats: '' @ e)), s)
     | (Inr stats, s) \<Rightarrow> ((singles (PgStatProgressVacuumCollector_emit stats), None), s))"

definition PgStatProgressVacuumCollector_Scrape :: "('cv, 'gv) prom \<Rightarrow> (error option list \<Rightarrow> error option) \<Rightarrow> nat list \<Rightarrow>
    (nat \<Rightarrow> server) \<Rightarrow> (nat \<Rightarrow> cstate) \<Rightarrow> ('cv, 'gv) collector \<Rightarrow> ('cv, 'gv) outcome option" where
  "PgStatProgressVacuumCollector_Scrape P wait sched srv cl c =
     Scrape_group P wait sched PgStatProgressVacuumCollector_scrape PgStatProgressVacuumCollector_collectInto srv cl c"

lemma PgStatProgressVacuumCollector_shapes [shape_simps]:
  "prom_vecs P \<Longrightarrow> shapes (schema_of P (NewPgStatProgressVacuumCollector P g cs)) = [
      (''heapBlksTotal'', False, 4), (''heapBlksScanned'', False, 4),
      (''heapBlksVacuumed'', False, 4), (''indexVacuumCount'', False, 4)]"
  by (simp add: NewPgStatProgressVacuumCollector_def schema_simps)

lemma PgStatProgressVacuumCollector_emit_shape [shape_intros]:
  "prom_vecs P \<Longrightarrow>
   list_all (emission_shape (schema_of P (NewPgStatProgressVacuumCollector P g cs))) (PgStatProgressVacuumCollector_emit stats)"
  by (simp add: PgStatProgressVacuumCollector_emit_def list_all_emits Let_def shape_simps)

lemma PgStatProgressVacuumCollector_scrape_shape:
  "prom_vecs P \<Longrightarrow>
   list_all (emission_shape (schema_of P (NewPgStatProgressVacuumCollector P g cs)))
     (concat (fst (fst (PgStatProgressVacuumCollector_scrape srv s))))"
  by (simp add: PgStatProgressVacuumCollector_scrape_def shape_intros split: prod.splits sum.splits)


lemma PgStatProgressVacuumCollector_names [shape_simps]:
  "map fst (vecs (NewPgStatProgressVacuumCollector P g cs)) = [
      ''heapBlksTotal'', ''heapBlksScanned'', ''heapBlksVacuumed'', ''indexVacuumCount'']"
  by (simp add: NewPgStatProgressVacuumCollector_def Let_def)

lemma PgStatProgressVacuumCollector_Describe_all:
  "map fst (vecs c) = map fst (vecs (NewPgStatProgressVacuumCollector P g cs)) \<Longrightarrow>
   mset (PgStatProgressVacuumCollector_Describe P c) = mset (map (vec_desc P \<circ> snd) (vecs c))"
  unfolding PgStatProgressVacuumCollector_names PgStatProgressVacuumCollector_Describe_def
  by (rule describe_fields_all, assumption) code_simp

lemma PgStatProgressVacuumCollector_collectInto_all:
  "map fst (vecs c) = map fst (vecs (NewPgStatProgressVacuumCollector P g cs)) \<Longrightarrow>
   mset (PgStatProgressVacuumCollector_collectInto P c) = mset (concat (map (vec_Collect P \<circ> snd) (vecs c)))"
  unfolding PgStatProgressVacuumCollector_names PgStatProgressVacuumCollector_collectInto_def
  by (rule collect_fields_all, assumption) code_simp

subsection \<open>\<^verbatim>\<open>PgStatProgressAnalyzeCollector\<close>\<close>

definition NewPgStatProgressAnalyzeCollector :: "('cv, 'gv) prom \<Rightarrow> namespaces \<Rightarrow> nat list \<Rightarrow>
    ('cv, 'gv) collector" where
  "NewPgStatProgressAnalyzeCollector P g clients =
    (let labels = [''database'', ''datname'', ''relid'', ''phase''];
         gauge = (\<lambda>n h. GaugeField (gaugeFactory P g progressAnalyzeSubSystem labels n h))
     in \<lparr>dbClients = clients, vecs = [
       (''sampleBlksTotal'', gauge ''sample_blks_total'' ''Total heap blocks to sample''),
       (''sampleBlksScanned'', gauge ''sample_blks_scanned'' ''Heap blocks scanned so far''),
       (''extStatsTotal'', gauge ''ext_stats_total'' ''Extended statistics to compute''),
       (''extStatsComputed'', gauge ''ext_stats_computed'' ''Extended statistics computed so far''),
       (''childTablesTotal'', gauge ''child_tables_total'' ''Child tables to analyze (partitioned)''),
       (''childTablesDone'', gauge ''child_tables_done'' ''Child tables analyzed so far'')]\<rparr>)"

definition PgStatProgressAnalyzeCollector_Describe :: "('cv, 'gv) prom \<Rightarrow> ('cv, 'gv) collector \<Rightarrow> desc list" where
  "PgStatProgressAnalyzeCollector_Describe P c = describe_fields P [
     ''sampleBlksTotal'', ''sampleBlksScanned'', ''extStatsTotal'', ''extStatsComputed'',
     ''childTablesTotal'', ''childTablesDone''] c"

definition PgStatProgressAnalyzeCollector_collectInto :: "('cv, 'gv) prom \<Rightarrow> ('cv, 'gv) collector \<Rightarrow> metric list" where
  "PgStatProgressAnalyzeCollector_collectInto P c = collect_fields P [
     ''sampleBlksTotal'', ''sampleBlksScanned'', ''extStatsTotal'', ''extStatsComputed'',
     ''childTablesTotal'', ''childTablesDone''] c"

definition PgStatProgressAnalyzeCollector_emit :: "PgStatProgressAnalyze list \<Rightarrow> emission list" where
  "PgStatProgressAnalyzeCollector_emit stats = concat (map (\<lambda>stat.
     let labels = [String (PgStatProgressAnalyze.Database stat),
                   String (PgStatProgressAnalyze.DatName stat),
                   String (PgStatProgressAnalyze.RelID stat),
                   String (PgStatProgressAnalyze.Phase stat)]
     in concat [
       setInt ''sampleBlksTotal'' (PgStatProgressAnalyze.SampleBlksTotal stat) labels,
       setInt ''sampleBlksScanned'' (PgStatProgressAnalyze.SampleBlksScanned stat) labels,
       setInt ''extStatsTotal'' (PgStatProgressAnalyze.ExtStatsTotal stat) labels,
       setInt ''extStatsComputed'' (PgStatProgressAnalyze.ExtStatsComputed stat) labels,
       setInt ''childTablesTotal'' (PgStatProgressAnalyze.ChildTablesTotal stat) labels,
       setInt ''childTablesDone'' (PgStatProgressAnalyze.ChildTablesDone stat) labels]) stats)"

definition PgStatProgressAnalyzeCollector_scrape :: scrape_body where
  "PgStatProgressAnalyzeCollector_scrape srv s =
    (case SelectPgStatProgressAnalyze (q_PgStatProgressAnalyze srv) s of
       (Inl e, s) \<Rightarrow> (([], Some (''progress_analyze: '' @ e)), s)
     | (Inr stats, s) \<Rightarrow> ((singles (PgStatProgressAnalyzeCollector_emit stats), None), s))"

definition PgStatProgressAnalyzeCollector_Scrape :: "('cv, 'gv) prom \<Rightarrow> (error option list \<Rightarrow> error option) \<Rightarrow> nat list \<Rightarrow>
    (nat \<Rightarrow> server) \<Rightarrow> (nat \<Rightarrow> cstate) \<Rightarrow> ('cv, 'gv) collector \<Rightarrow> ('cv, 'gv) outcome option" where
  "PgStatProgressAnalyzeCollector_Scrape P wait sched srv cl c =
     Scrape_group P wait sched PgStatProgressAnalyzeCollector_scrape PgStatProgressAnalyzeCollector_collectInto srv cl c"

lemma PgStatProgressAnalyzeCollector_shapes [shape_simps]:
  "prom_vecs P \<Longrightarrow> shapes (schema_of P (NewPgStatProgressAnalyzeCollector P g cs)) = [
      (''sampleBlksTotal'', False, 4), (''sampleBlksScanned'', False, 4),
      (''extStatsTotal'', False, 4), (''extStatsComputed'', False, 4),
      (''childTablesTotal'', False, 4), (''childTablesDone'', False, 4)]"
  by (simp add: NewPgStatProgressAnalyzeCollector_def schema_simps)

lemma PgStatProgressAnalyzeCollector_emit_shape [shape_intros]:
  "prom_vecs P \<Longrightarrow>
   list_all (emission_shape (schema_of P (NewPgStatProgressAnalyzeCollector P g cs))) (PgStatProgressAnalyzeCollector_emit stats)"
  by (simp add: PgStatProgressAnalyzeCollector_emit_def list_all_emits Let_def shape_simps)

lemma PgStatProgressAnalyzeCollector_scrape_shape:
  "prom_vecs P \<Longrightarrow>
   list_all (emission_shape (schema_of P (NewPgStatProgressAnalyzeCollector P g cs)))
     (concat (fst (fst (PgStatProgressAnalyzeCollector_scrape srv s))))"
  by (simp add: PgStatProgressAnalyzeCollector_scrape_def shape_intros split: prod.splits sum.splits)


lemma PgStatProgressAnalyzeCollector_names [shape_simps]:
  "map fst (vecs (NewPgStatProgressAnalyzeCollector P g cs)) = [
      ''sampleBlksTotal'', ''sampleBlksScanned'', ''extStatsTotal'', ''extStatsComputed'',
      ''childTablesTotal'', ''childTablesDone'']"
  by (simp add: NewPgStatProgressAnalyzeCollector_def Let_def)

lemma PgStatProgressAnalyzeCollector_Describe_all:
  "map fst (vecs c) = map fst (vecs (NewPgStatProgressAnalyzeCollector P g cs)) \<Longrightarrow>
   mset (PgStatProgressAnalyzeCollector_Describe P c) = mset (map (vec_desc P \<circ> snd) (vecs c))"
  unfolding PgStatProgressAnalyzeCollector_names PgStatProgressAnalyzeCollector_Describe_def
  by (rule describe_fields_all, assumption) code_simp

lemma PgStatProgressAnalyzeCollector_collectInto_all:
  "map fst (vecs c) = map fst (vecs (NewPgStatProgressAnalyzeCollector P g cs)) \<Longrightarrow>
   mset (PgStatProgressAnalyzeCollector_collectInto P c) = mset (concat (map (vec_Collect P \<circ> snd) (vecs c)))"
  unfolding PgStatProgressAnalyzeCollector_names PgStatProgressAnalyzeCollector_collectInto_def
  by (rule collect_fields_all, assumption) code_simp

subsection \<open>\<^verbatim>\<open>PgStatProgressBasebackupCollector\<close>\<close>

definition NewPgStatProgressBasebackupCollector :: "('cv, 'gv) prom \<Rightarrow> namespaces \<Rightarrow> nat list \<Rightarrow>
    ('cv, 'gv) collector" where
  "NewPgStatProgressBasebackupCollector P g clients =
    (let labels = [''database'', ''phase''];
         gauge = (\<lambda>n h. GaugeField (gaugeFactory P g progressBasebackupSubSystem labels n h))
     in \<lparr>dbClients = clients, vecs = [
       (''backupTotalBytes'', gauge ''backup_total_bytes'' ''Estimated total backup size, bytes''),
       (''backupStreamedBytes'', gauge ''backup_streamed_bytes'' ''Bytes streamed so far''),
       (''tablespacesTotal'', gauge ''tablespaces_total'' ''Tablespaces to stream''),
       (''tablespacesStreamed'', gauge ''tablespaces_streamed'' ''Tablespaces streamed so far'')]\<rparr>)"

definition PgStatProgressBasebackupCollector_Describe :: "('cv, 'gv) prom \<Rightarrow> ('cv, 'gv) collector \<Rightarrow> desc list" where
  "PgStatProgressBasebackupCollector_Describe P c = describe_fields P [
     ''backupTotalBytes'', ''backupStreamedBytes'', ''tablespacesTotal'', ''tablespacesStreamed''] c"

definition PgStatProgressBasebackupCollector_collectInto :: "('cv, 'gv) prom \<Rightarrow> ('cv, 'gv) collector \<Rightarrow> metric list" where
  "PgStatProgressBasebackupCollector_collectInto P c = collect_fields P [
     ''backupTotalBytes'', ''backupStreamedBytes'', ''tablespacesTotal'', ''tablespacesStreamed''] c"

definition PgStatProgressBasebackupCollector_emit :: "PgStatProgressBasebackup list \<Rightarrow> emission list" where
  "PgStatProgressBasebackupCollector_emit stats = concat (map (\<lambda>stat.
     let labels = [String (PgStatProgressBasebackup.Database stat),
                   String (PgStatProgressBasebackup.Phase stat)]
     in concat [
       setInt ''backupTotalBytes'' (PgStatProgressBasebackup.BackupTotalBytes stat) labels,
       setInt ''backupStreamedBytes'' (PgStatProgressBasebackup.BackupStreamedBytes stat) labels,
       setInt ''tablespacesTotal'' (PgStatProgressBasebackup.TablespacesTotal stat) labels,
       setInt ''tablespacesStreamed'' (PgStatProgressBasebackup.TablespacesStreamed stat) labels]) stats)"

definition PgStatProgressBasebackupCollector_scrape :: scrape_body where
  "PgStatProgressBasebackupCollector_scrape srv s =
    (case SelectPgStatProgressBasebackup (q_PgStatProgressBasebackup srv) s of
       (Inl e, s) \<Rightarrow> (([], Some (''progress_basebackup: '' @ e)), s)
     | (Inr stats, s) \<Rightarrow> ((singles (PgStatProgressBasebackupCollector_emit stats), None), s))"

definition PgStatProgressBasebackupCollector_Scrape :: "('cv, 'gv) prom \<Rightarrow> (error option list \<Rightarrow> error option) \<Rightarrow> nat list \<Rightarrow>
    (nat \<Rightarrow> server) \<Rightarrow> (nat \<Rightarrow> cstate) \<Rightarrow> ('cv, 'gv) collector \<Rightarrow> ('cv, 'gv) outcome option" where
  "PgStatProgressBasebackupCollector_Scrape P wait sched srv cl c =
     Scrape_group P wait sched PgStatProgressBasebackupCollector_scrape PgStatProgressBasebackupCollector_collectInto srv cl c"

lemma PgStatProgressBasebackupCollector_shapes [shape_simps]:
  "prom_vecs P \<Longrightarrow> shapes (schema_of P (NewPgStatProgressBasebackupCollector P g cs)) = [
      (''backupTotalBytes'', False, 2), (''backupStreamedBytes'', False, 2),
      (''tablespacesTotal'', False, 2), (''tablespacesStreamed'', False, 2)]"
  by (simp add: NewPgStatProgressBasebackupCollector_def schema_simps)

lemma PgStatProgressBasebackupCollector_emit_shape [shape_intros]:
  "prom_vecs P \<Longrightarrow>
   list_all (emission_shape (schema_of P (NewPgStatProgressBasebackupCollector P g cs))) (PgStatProgressBasebackupCollector_emit stats)"
  by (simp add: PgStatProgressBasebackupCollector_emit_def list_all_emits Let_def shape_simps)

lemma PgStatProgressBasebackupCollector_scrape_shape:
  "prom_vecs P \<Longrightarrow>
   list_all (emission_shape (schema_of P (NewPgStatProgressBasebackupCollector P g cs)))
     (concat (fst (fst (PgStatProgressBasebackupCollector_scrape srv s))))"
  by (simp add: PgStatProgressBasebackupCollector_scrape_def shape_intros split: prod.splits sum.splits)


lemma PgStatProgressBasebackupCollector_names [shape_simps]:
  "map fst (vecs (NewPgStatProgressBasebackupCollector P g cs)) = [
      ''backupTotalBytes'', ''backupStreamedBytes'', ''tablespacesTotal'', ''tablespacesStreamed'']"
  by (simp add: NewPgStatProgressBasebackupCollector_def Let_def)

lemma PgStatProgressBasebackupCollector_Describe_all:
  "map fst (vecs c) = map fst (vecs (NewPgStatProgressBasebackupCollector P g cs)) \<Longrightarrow>
   mset (PgStatProgressBasebackupCollector_Describe P c) = mset (map (vec_desc P \<circ> snd) (vecs c))"
  unfolding PgStatProgressBasebackupCollector_names PgStatProgressBasebackupCollector_Describe_def
  by (rule describe_fields_all, assumption) code_simp

lemma PgStatProgressBasebackupCollector_collectInto_all:
  "map fst (vecs c) = map fst (vecs (NewPgStatProgressBasebackupCollector P g cs)) \<Longrightarrow>
   mset (PgStatProgressBasebackupCollector_collectInto P c) = mset (concat (map (vec_Collect P \<circ> snd) (vecs c)))"
  unfolding PgStatProgressBasebackupCollector_names PgStatProgressBasebackupCollector_collectInto_def
  by (rule collect_fields_all, assumption) code_simp

subsection \<open>\<^verbatim>\<open>PgStatProgressCopyCollector\<close>\<close>

definition NewPgStatProgressCopyCollector :: "('cv, 'gv) prom \<Rightarrow> namespaces \<Rightarrow> nat list \<Rightarrow>
    ('cv, 'gv) collector" where
  "NewPgStatProgressCopyCollector P g clients =
    (let labels = [''database'', ''datname'', ''relid'', ''command'', ''type''];
         gauge = (\<lambda>n h. GaugeField (gaugeFactory P g progressCopySubSystem labels n h))
     in \<lparr>dbClients = clients, vecs = [
       (''bytesTotal'', gauge ''bytes_total'' ''Estimated total bytes to process (0 if unknown)''),
       (''bytesProcessed'', gauge ''bytes_processed'' ''Bytes processed so far''),
       (''tuplesProcessed'', gauge ''tuples_processed'' ''Tuples processed so far''),
       (''tuplesExcluded'', gauge ''tuples_excluded'' ''Tuples excluded by WHERE clause'')]\<rparr>)"

definition PgStatProgressCopyCollector_Describe :: "('cv, 'gv) prom \<Rightarrow> ('cv, 'gv) collector \<Rightarrow> desc list" where
  "PgStatProgressCopyCollector_Describe P c = describe_fields P [
     ''bytesTotal'', ''bytesProcessed'', ''tuplesProcessed'', ''tuplesExcluded''] c"

definition PgStatProgressCopyCollector_collectInto :: "('cv, 'gv) prom \<Rightarrow> ('cv, 'gv) collector \<Rightarrow> metric list" where
  "PgStatProgressCopyCollector_collectInto P c = collect_fields P [
     ''bytesTotal'', ''bytesProcessed'', ''tuplesProcessed'', ''tuplesExcluded''] c"

definition PgStatProgressCopyCollector_emit :: "PgStatProgressCopy list \<Rightarrow> emission list" where
  "PgStatProgressCopyCollector_emit stats = concat (map (\<lambda>stat.
     let labels = [String (PgStatProgressCopy.Database stat),
                   String (PgStatProgressCopy.DatName stat),
                   String (PgStatProgressCopy.RelID stat),
                   String (PgStatProgressCopy.Command stat),
                   String (PgStatProgressCopy.Type stat)]
     in concat [
       setInt ''bytesTotal'' (PgStatProgressCopy.BytesTotal stat) labels,
       setInt ''bytesProcessed'' (PgStatProgressCopy.BytesProcessed stat) labels,
       setInt ''tuplesProcessed'' (PgStatProgressCopy.TuplesProcessed stat) labels,
       setInt ''tuplesExcluded'' (PgStatProgressCopy.TuplesExcluded stat) labels]) stats)"

definition PgStatProgressCopyCollector_scrape :: scrape_body where
  "PgStatProgressCopyCollector_scrape srv s =
    (case SelectPgStatProgressCopy (q_PgStatProgressCopy srv) s of
       (Inl e, s) \<Rightarrow> (([], Some (''progress_copy: '' @ e)), s)
     | (Inr stats, s) \<Rightarrow> ((singles (PgStatProgressCopyCollector_emit stats), None), s))"

definition PgStatProgressCopyCollector_Scrape :: "('cv, 'gv) prom \<Rightarrow> (error option list \<Rightarrow> error option) \<Rightarrow> nat list \<Rightarrow>
    (nat \<Rightarrow> server) \<Rightarrow> (nat \<Rightarrow> cstate) \<Rightarrow> ('cv, 'gv) collector \<Rightarrow> ('cv, 'gv) outcome option" where
  "PgStatProgressCopyCollector_Scrape P wait sched srv cl c =
     Scrape_group P wait sched PgStatProgressCopyCollector_scrape PgStatProgressCopyCollector_collectInto srv cl c"

lemma PgStatProgressCopyCollector_shapes [shape_simps]:
  "prom_vecs P \<Longrightarrow> shapes (schema_of P (NewPgStatProgressCopyCollector P g cs)) = [
      (''bytesTotal'', False, 5), (''bytesProcessed'', False, 5), (''tuplesProcessed'', False, 5),
      (''tuplesExcluded'', False, 5)]"
  by (simp add: NewPgStatProgressCopyCollector_def schema_simps)

lemma PgStatProgressCopyCollector_emit_shape [shape_intros]:
  "prom_vecs P \<Longrightarrow>
   list_all (emission_shape (schema_of P (NewPgStatProgressCopyCollector P g cs))) (PgStatProgressCopyCollector_emit stats)"
  by (simp add: PgStatProgressCopyCollector_emit_def list_all_emits Let_def shape_simps)

lemma PgStatProgressCopyCollector_scrape_shape:
  "prom_vecs P \<Longrightarrow>
   list_all (emission_shape (schema_of P (NewPgStatProgressCopyCollector P g cs)))
     (concat (fst (fst (PgStatProgressCopyCollector_scrape srv s))))"
  by (simp add: PgStatProgressCopyCollector_scrape_def shape_intros split: prod.splits sum.splits)


lemma PgStatProgressCopyCollector_names [shape_simps]:
  "map fst (vecs (NewPgStatProgressCopyCollector P g cs)) = [
      ''bytesTotal'', ''bytesProcessed'', ''tuplesProcessed'', ''tuplesExcluded'']"
  by (simp add: NewPgStatProgressCopyCollector_def Let_def)

lemma PgStatProgressCopyCollector_Describe_all:
  "map fst (vecs c) = map fst (vecs (NewPgStatProgressCopyCollector P g cs)) \<Longrightarrow>
   mset (PgStatProgressCopyCollector_Describe P c) = mset (map (vec_desc P \<circ> snd) (vecs c))"
  unfolding PgStatProgressCopyCollector_names PgStatProgressCopyCollector_Describe_def
  by (rule describe_fields_all, assumption) code_simp

lemma PgStatProgressCopyCollector_collectInto_all:
  "map fst (vecs c) = map fst (vecs (NewPgStatProgressCopyCollector P g cs)) \<Longrightarrow>
   mset (PgStatProgressCopyCollector_collectInto P c) = mset (concat (map (vec_Collect P \<circ> snd) (vecs c)))"
  unfolding PgStatProgressCopyCollector_names PgStatProgressCopyCollector_collectInto_def
  by (rule collect_fields_all, assumption) code_simp

subsection \<open>\<^verbatim>\<open>PgStatProgressCreateIndexCollector\<close>\<close>

definition NewPgStatProgressCreateIndexCollector :: "('cv, 'gv) prom \<Rightarrow> namespaces \<Rightarrow> nat list \<Rightarrow>
    ('cv, 'gv) collector" where
  "NewPgStatProgressCreateIndexCollector P g clients =
    (let labels = [''database'', ''datname'', ''relid'', ''index_relid'', ''command'', ''phase''];
         gauge = (\<lambda>n h. GaugeField (gaugeFactory P g progressCreateIndexSubSystem labels n h))
     in \<lparr>dbClients = clients, vecs = [
       (''lockersTotal'', gauge ''lockers_total'' ''Transactions holding conflicting locks''),
       (''lockersDone'', gauge ''lockers_done'' ''Locking transactions that have finished''),
       (''blocksTotal'', gauge ''blocks_total'' ''Blocks to process in this phase''),
       (''blocksDone'', gauge ''blocks_done'' ''Blocks processed so far''),
       (''tuplesTotal'', gauge ''tuples_total'' ''Tuples to process in this phase''),
       (''tuplesDone'', gauge ''tuples_done'' ''Tuples processed so far''),
       (''partitionsTotal'', gauge ''partitions_total'' ''Child partitions to process''),
       (''partitionsDone'', gauge ''partitions_done'' ''Child partitions processed so far'')]\<rparr>)"

definition PgStatProgressCreateIndexCollector_Describe :: "('cv, 'gv) prom \<Rightarrow> ('cv, 'gv) collector \<Rightarrow> desc list" where
  "PgStatProgressCreateIndexCollector_Describe P c = describe_fields P [
     ''lockersTotal'', ''lockersDone'', ''blocksTotal'', ''blocksDone'', ''tuplesTotal'',
     ''tuplesDone'', ''partitionsTotal'', ''partitionsDone''] c"

definition PgStatProgressCreateIndexCollector_collectInto :: "('cv, 'gv) prom \<Rightarrow> ('cv, 'gv) collector \<Rightarrow> metric list" where
  "PgStatProgressCreateIndexCollector_collectInto P c = collect_fields P [
     ''lockersTotal'', ''lockersDone'', ''blocksTotal'', ''blocksDone'', ''tuplesTotal'',
     ''tuplesDone'', ''partitionsTotal'', ''partitionsDone''] c"

definition PgStatProgressCreateIndexCollector_emit :: "PgStatProgressCreateIndex list \<Rightarrow> emission list" where
  "PgStatProgressCreateIndexCollector_emit stats = concat (map (\<lambda>stat.
     let labels = [String (PgStatProgressCreateIndex.Database stat),
                   String (PgStatProgressCreateIndex.DatName stat),
                   String (PgStatProgressCreateIndex.RelID stat),
                   String (PgStatProgressCreateIndex.IndexRelID stat),
                   String (PgStatProgressCreateIndex.Command stat),
                   String (PgStatProgressCreateIndex.Phase stat)]
     in concat [
       setInt ''lockersTotal'' (PgStatProgressCreateIndex.LockersTotal stat) labels,
       setInt ''lockersDone'' (PgStatProgressCreateIndex.LockersDone stat) labels,
       setInt ''blocksTotal'' (PgStatProgressCreateIndex.BlocksTotal stat) labels,
       setInt ''blocksDone'' (PgStatProgressCreateIndex.BlocksDone stat) labels,
       setInt ''tuplesTotal'' (PgStatProgressCreateIndex.TuplesTotal stat) labels,
       setInt ''tuplesDone'' (PgStatProgressCreateIndex.TuplesDone stat) labels,
       setInt ''partitionsTotal'' (PgStatProgressCreateIndex.PartitionsTotal stat) labels,
       setInt ''partitionsDone'' (PgStatProgressCreateIndex.PartitionsDone stat) labels]) stats)"

definition PgStatProgressCreateIndexCollector_scrape :: scrape_body where
  "PgStatProgressCreateIndexCollector_scrape srv s =
    (case SelectPgStatProgressCreateIndex (q_PgStatProgressCreateIndex srv) s of
       (Inl e, s) \<Rightarrow> (([], Some (''progress_create_index: '' @ e)), s)
     | (Inr stats, s) \<Rightarrow> ((singles (PgStatProgressCreateIndexCollector_emit stats), None), s))"

definition PgStatProgressCreateIndexCollector_Scrape :: "('cv, 'gv) prom \<Rightarrow> (error option list \<Rightarrow> error option) \<Rightarrow> nat list \<Rightarrow>
    (nat \<Rightarrow> server) \<Rightarrow> (nat \<Rightarrow> cstate) \<Rightarrow> ('cv, 'gv) collector \<Rightarrow> ('cv, 'gv) outcome option" where
  "PgStatProgressCreateIndexCollector_Scrape P wait sched srv cl c =
     Scrape_group P wait sched PgStatProgressCreateIndexCollector_scrape PgStatProgressCreateIndexCollector_collectInto srv cl c"

lemma PgStatProgressCreateIndexCollector_shapes [shape_simps]:
  "prom_vecs P \<Longrightarrow> shapes (schema_of P (NewPgStatProgressCreateIndexCollector P g cs)) = [
      (''lockersTotal'', False, 6), (''lockersDone'', False, 6), (''blocksTotal'', False, 6),
      (''blocksDone'', False, 6), (''tuplesTotal'', False, 6), (''tuplesDone'', False, 6),
      (''partitionsTotal'', False, 6), (''partitionsDone'', False, 6)]"
  by (simp add: NewPgStatProgressCreateIndexCollector_def schema_simps)

lemma PgStatProgressCreateIndexCollector_emit_shape [shape_intros]:
  "prom_vecs P \<Longrightarrow>
   list_all (emission_shape (schema_of P (NewPgStatProgressCreateIndexCollector P g cs))) (PgStatProgressCreateIndexCollector_emit stats)"
  by (simp add: PgStatProgressCreateIndexCollector_emit_def list_all_emits Let_def shape_simps)

lemma PgStatProgressCreateIndexCollector_scrape_shape:
  "prom_vecs P \<Longrightarrow>
   list_all (emission_shape (schema_of P (NewPgStatProgressCreateIndexCollector P g cs)))
     (concat (fst (fst (PgStatProgressCreateIndexCollector_scrape srv s))))"
  by (simp add: PgStatProgressCreateIndexCollector_scrape_def shape_intros split: prod.splits sum.splits)


lemma PgStatProgressCreateIndexCollector_names [shape_simps]:
  "map fst (vecs (NewPgStatProgressCreateIndexCollector P g cs)) = [
      ''lockersTotal'', ''lockersDone'', ''blocksTotal'', ''blocksDone'', ''tuplesTotal'',
      ''tuplesDone'', ''partitionsTotal'', ''partitionsDone'']"
  by (simp add: NewPgStatProgressCreateIndexCollector_def Let_def)

lemma PgStatProgressCreateIndexCollector_Describe_all:
  "map fst (vecs c) = map fst (vecs (NewPgStatProgressCreateIndexCollector P g cs)) \<Longrightarrow>
   mset (PgStatProgressCreateIndexCollector_Describe P c) = mset (map (vec_desc P \<circ> snd) (vecs c))"
  unfolding PgStatProgressCreateIndexCollector_names PgStatProgressCreateIndexCollector_Describe_def
  by (rule describe_fields_all, assumption) code_simp

lemma PgStatProgressCreateIndexCollector_collectInto_all:
  "map fst (vecs c) = map fst (vecs (NewPgStatProgressCreateIndexCollector P g cs)) \<Longrightarrow>
   mset (PgStatProgressCreateIndexCollector_collectInto P c) = mset (concat (map (vec_Collect P \<circ> snd) (vecs c)))"
  unfolding PgStatProgressCreateIndexCollector_names PgStatProgressCreateIndexCollector_collectInto_def
  by (rule collect_fields_all, assumption) code_simp

subsection \<open>\<^verbatim>\<open>PgStatProgressClusterCollector\<close>\<close>

definition NewPgStatProgressClusterCollector :: "('cv, 'gv) prom \<Rightarrow> namespaces \<Rightarrow> nat list \<Rightarrow>
    ('cv, 'gv) collector" where
  "NewPgStatProgressClusterCollector P g clients =
    (let labels = [''database'', ''datname'', ''relid'', ''command'', ''phase''];
         gauge = (\<lambda>n h. GaugeField (gaugeFactory P g progressClusterSubSystem labels n h))
     in \<lparr>dbClients = clients, vecs = [
       (''heapTuplesScanned'', gauge ''heap_tuples_scanned'' ''Heap tuples scanned so far''),
       (''heapTuplesWritten'', gauge ''heap_tuples_written'' ''Heap tuples written so far''),
       (''heapBlksTotal'', gauge ''heap_blks_total'' ''Total heap blocks in this relation''),
       (''heapBlksScanned'', gauge ''heap_blks_scanned'' ''Heap blocks scanned so far (sequential phase)''),
       (''indexRebuildCount'', gauge ''index_rebuild_count'' ''Indexes rebuilt so far'')]\<rparr>)"

definition PgStatProgressClusterCollector_Describe :: "('cv, 'gv) prom \<Rightarrow> ('cv, 'gv) collector \<Rightarrow> desc list" where
  "PgStatProgressClusterCollector_Describe P c = describe_fields P [
     ''heapTuplesScanned'', ''heapTuplesWritten'', ''heapBlksTotal'', ''heapBlksScanned'',
     ''indexRebuildCount''] c"

definition PgStatProgressClusterCollector_collectInto :: "('cv, 'gv) prom \<Rightarrow> ('cv, 'gv) collector \<Rightarrow> metric list" where
  "PgStatProgressClusterCollector_collectInto P c = collect_fields P [
     ''heapTuplesScanned'', ''heapTuplesWritten'', ''heapBlksTotal'', ''heapBlksScanned'',
     ''indexRebuildCount''] c"

definition PgStatProgressClusterCollector_emit :: "PgStatProgressCluster list \<Rightarrow> emission list" where
  "PgStatProgressClusterCollector_emit stats = concat (map (\<lambda>stat.
     let labels = [String (PgStatProgressCluster.Database stat),
                   String (PgStatProgressCluster.DatName stat),
                   String (PgStatProgressCluster.RelID stat),
                   String (PgStatProgressCluster.Command stat),
                   String (PgStatProgressCluster.Phase stat)]
     in concat [
       setInt ''heapTuplesScanned'' (PgStatProgressCluster.HeapTuplesScanned stat) labels,
       setInt ''heapTuplesWritten'' (PgStatProgressCluster.HeapTuplesWritten stat) labels,
       setInt ''heapBlksTotal'' (PgStatProgressCluster.HeapBlksTotal stat) labels,
       setInt ''heapBlksScanned'' (PgStatProgressCluster.HeapBlksScanned stat) labels,
       setInt ''indexRebuildCount'' (PgStatProgressCluster.IndexRebuildCount stat) labels]) stats)"

definition PgStatProgressClusterCollector_scrape :: scrape_body where
  "PgStatProgressClusterCollector_scrape srv s =
    (case SelectPgStatProgressCluster (q_PgStatProgressCluster srv) s of
       (Inl e, s) \<Rightarrow> (([], Some (''progress_cluster: '' @ e)), s)
     | (Inr stats, s) \<Rightarrow> ((singles (PgStatProgressClusterCollector_emit stats), None), s))"

definition PgStatProgressClusterCollector_Scrape :: "('cv, 'gv) prom \<Rightarrow> (error option list \<Rightarrow> error option) \<Rightarrow> nat list \<Rightarrow>
    (nat \<Rightarrow> server) \<Rightarrow> (nat \<Rightarrow> cstate) \<Rightarrow> ('cv, 'gv) collector \<Rightarrow> ('cv, 'gv) outcome option" where
  "PgStatProgressClusterCollector_Scrape P wait sched srv cl c =
     Scrape_group P wait sched PgStatProgressClusterCollector_scrape PgStatProgressClusterCollector_collectInto srv cl c"

lemma PgStatProgressClusterCollector_shapes [shape_simps]:
  "prom_vecs P \<Longrightarrow> shapes (schema_of P (NewPgStatProgressClusterCollector P g cs)) = [
      (''heapTuplesScanned'', False, 5), (''heapTuplesWritten'', False, 5),
      (''heapBlksTotal'', False, 5), (''heapBlksScanned'', False, 5),
      (''indexRebuildCount'', False, 5)]"
  by (simp add: NewPgStatProgressClusterCollector_def schema_simps)

lemma PgStatProgressClusterCollector_emit_shape [shape_intros]:
  "prom_vecs P \<Longrightarrow>
   list_all (emission_shape (schema_of P (NewPgStatProgressClusterCollector P g cs))) (PgStatProgressClusterCollector_emit stats)"
  by (simp add: PgStatProgressClusterCollector_emit_def list_all_emits Let_def shape_simps)

lemma PgStatProgressClusterCollector_scrape_shape:
  "prom_vecs P \<Longrightarrow>
   list_all (emission_shape (schema_of P (NewPgStatProgressClusterCollector P g cs)))
     (concat (fst (fst (PgStatProgressClusterCollector_scrape srv s))))"
  by (simp add: PgStatProgressClusterCollector_scrape_def shape_intros split: prod.splits sum.splits)


lemma PgStatProgressClusterCollector_names [shape_simps]:
  "map fst (vecs (NewPgStatProgressClusterCollector P g cs)) = [
      ''heapTuplesScanned'', ''heapTuplesWritten'', ''heapBlksTotal'', ''heapBlksScanned'',
      ''indexRebuildCount'']"
  by (simp add: NewPgStatProgressClusterCollector_def Let_def)

lemma PgStatProgressClusterCollector_Describe_all:
  "map fst (vecs c) = map fst (vecs (NewPgStatProgressClusterCollector P g cs)) \<Longrightarrow>
   mset (PgStatProgressClusterCollector_Describe P c) = mset (map (vec_desc P \<circ> snd) (vecs c))"
  unfolding PgStatProgressClusterCollector_names PgStatProgressClusterCollector_Describe_def
  by (rule describe_fields_all, assumption) code_simp

lemma PgStatProgressClusterCollector_collectInto_all:
  "map fst (vecs c) = map fst (vecs (NewPgStatProgressClusterCollector P g cs)) \<Longrightarrow>
   mset (PgStatProgressClusterCollector_collectInto P c) = mset (concat (map (vec_Collect P \<circ> snd) (vecs c)))"
  unfolding PgStatProgressClusterCollector_names PgStatProgressClusterCollector_collectInto_def
  by (rule collect_fields_all, assumption) code_simp

end
