(* ===== verification/Registry.thy ===== *)
theory Registry
  imports CollServer CollDatabase CollIO CollRelation CollReplication CollProgress
    "HOL-Library.List_Lexorder" "HOL-Library.Char_ord"
begin

text \<open>
  \<open>exporter/collectors/registry.go\<close> and \<open>DefaultCollectors\<close>: the table of the collectors with
  their names and defaults, and the choice of those to run. A value of the interface type
  \<open>Collector\<close> is its concrete type, a \<open>kind\<close>, with the struct; the methods dispatch on the kind.
  The lemmas of the six collector theories are collected here to facts about every kind.
\<close>

subsection \<open>The interface \<open>Collector\<close>\<close>

datatype kind =
    PgStatActivity
  | PgStatArchiver
  | PgStatBgwriter
  | PgStatCheckpointer
  | PgStatDatabase
  | PgDatabaseSize
  | PgStatIO
  | PgStatIOUserIndexes
  | PgStatIOUserTable
  | PgLocks
  | PgStatProgressAnalyze
  | PgStatProgressBasebackup
  | PgStatProgressCluster
  | PgStatProgressCopy
  | PgStatProgressCreateIndex
  | PgStatProgressVacuum
  | PgStatReplication
  | PgReplicationSlots
  | PgSettings
  | PgStatSLRU
  | PgStatSSL
  | PgStatStatements
  | PgStatSubscription
  | PgStatUserIndexes
  | PgStatUserTable
  | PgStatWal
  | PgStatWalReceiver

text \<open>The constructors, in the order of the registry.\<close>

definition all_kinds :: "kind list" where
  "all_kinds = [
     PgStatActivity, PgStatArchiver, PgStatBgwriter, PgStatCheckpointer, PgStatDatabase,
     PgDatabaseSize, PgStatIO, PgStatIOUserIndexes, PgStatIOUserTable, PgLocks,
     PgStatProgressAnalyze, PgStatProgressBasebackup, PgStatProgressCluster, PgStatProgressCopy,
     PgStatProgressCreateIndex, PgStatProgressVacuum, PgStatReplication, PgReplicationSlots,
     PgSettings, PgStatSLRU, PgStatSSL, PgStatStatements, PgStatSubscription, PgStatUserIndexes,
     PgStatUserTable, PgStatWal, PgStatWalReceiver]"

fun New_kind :: "kind \<Rightarrow> ('cv, 'gv) prom \<Rightarrow> namespaces \<Rightarrow> nat list \<Rightarrow> ('cv, 'gv) collector" where
  "New_kind PgStatActivity = NewPgStatActivityCollector"
| "New_kind PgStatArchiver = NewPgStatArchiverCollector"
| "New_kind PgStatBgwriter = NewPgStatBgwriterCollector"
| "New_kind PgStatCheckpointer = NewPgStatCheckpointerCollector"
| "New_kind PgStatDatabase = NewPgStatDatabaseCollector"
| "New_kind PgDatabaseSize = NewPgDatabaseSizeCollector"
| "New_kind PgStatIO = NewPgStatIOCollector"
| "New_kind PgStatIOUserIndexes = NewPgStatIOUserIndexesCollector"
| "New_kind PgStatIOUserTable = NewPgStatIOUserTableCollector"
| "New_kind PgLocks = NewPgLocksCollector"
| "New_kind PgStatProgressAnalyze = NewPgStatProgressAnalyzeCollector"
| "New_kind PgStatProgressBasebackup = NewPgStatProgressBasebackupCollector"
| "New_kind PgStatProgressCluster = NewPgStatProgressClusterCollector"
| "New_kind PgStatProgressCopy = NewPgStatProgressCopyCollector"
| "New_kind PgStatProgressCreateIndex = NewPgStatProgressCreateIndexCollector"
| "New_kind PgStatProgressVacuum = NewPgStatProgressVacuumCollector"
| "New_kind PgStatReplication = NewPgStatReplicationCollector"
| "New_kind PgReplicationSlots = NewPgReplicationSlotsCollector"
| "New_kind PgSettings = NewPgSettingsCollector"
| "New_kind PgStatSLRU = NewPgStatSLRUCollector"
| "New_kind PgStatSSL = NewPgStatSSLCollector"
| "New_kind PgStatStatements = NewPgStatStatementsCollector"
| "New_kind PgStatSubscription = NewPgStatSubscriptionCollector"
| "New_kind PgStatUserIndexes = NewPgStatUserIndexesCollector"
| "New_kind PgStatUserTable = NewPgStatUserTableCollector"
| "New_kind PgStatWal = NewPgStatWalCollector"
| "New_kind PgStatWalReceiver = NewPgStatWalReceiverCollector"

fun Describe_kind :: "kind \<Rightarrow> ('cv, 'gv) prom \<Rightarrow> ('cv, 'gv) collector \<Rightarrow> desc list" where
  "Describe_kind PgStatActivity = PgStatActivityCollector_Describe"
| "Describe_kind PgStatArchiver = PgStatArchiverCollector_Describe"
| "Describe_kind PgStatBgwriter = PgStatBgwriterCollector_Describe"
| "Describe_kind PgStatCheckpointer = PgStatCheckpointerCollector_Describe"
| "Describe_kind PgStatDatabase = PgStatDatabaseCollector_Describe"
| "Describe_kind PgDatabaseSize = PgDatabaseSizeCollector_Describe"
| "Describe_kind PgStatIO = PgStatIOCollector_Describe"
| "Describe_kind PgStatIOUserIndexes = PgStatIOUserIndexesCollector_Describe"
| "Describe_kind PgStatIOUserTable = PgStatIOUserTableCollector_Describe"
| "Describe_kind PgLocks = PgLocksCollector_Describe"
| "Describe_kind PgStatProgressAnalyze = PgStatProgressAnalyzeCollector_Describe"
| "Describe_kind PgStatProgressBasebackup = PgStatProgressBasebackupCollector_Describe"
| "Describe_kind PgStatProgressCluster = PgStatProgressClusterCollector_Describe"
| "Describe_kind PgStatProgressCopy = PgStatProgressCopyCollector_Describe"
| "Describe_kind PgStatProgressCreateIndex = PgStatProgressCreateIndexCollector_Describe"
| "Describe_kind PgStatProgressVacuum = PgStatProgressVacuumCollector_Describe"
| "Describe_kind PgStatReplication = PgStatReplicationCollector_Describe"
| "Describe_kind PgReplicationSlots = PgReplicationSlotsCollector_Describe"
| "Describe_kind PgSettings = PgSettingsCollector_Describe"
| "Describe_kind PgStatSLRU = PgStatSLRUCollector_Describe"
| "Describe_kind PgStatSSL = PgStatSSLCollector_Describe"
| "Describe_kind PgStatStatements = PgStatStatementsCollector_Describe"
| "Describe_kind PgStatSubscription = PgStatSubscriptionCollector_Describe"
| "Describe_kind PgStatUserIndexes = PgStatUserIndexesCollector_Describe"
| "Describe_kind PgStatUserTable = PgStatUserTableCollector_Describe"
| "Describe_kind PgStatWal = PgStatWalCollector_Describe"
| "Describe_kind PgStatWalReceiver = PgStatWalReceiverCollector_Describe"

fun collectInto_kind :: "kind \<Rightarrow> ('cv, 'gv) prom \<Rightarrow> ('cv, 'gv) collector \<Rightarrow> metric list" where
  "collectInto_kind PgStatActivity = PgStatActivityCollector_collectInto"
| "collectInto_kind PgStatArchiver = PgStatArchiverCollector_collectInto"
| "collectInto_kind PgStatBgwriter = PgStatBgwriterCollector_collectInto"
| "collectInto_kind PgStatCheckpointer = PgStatCheckpointerCollector_collectInto"
| "collectInto_kind PgStatDatabase = PgStatDatabaseCollector_collectInto"
| "collectInto_kind PgDatabaseSize = PgDatabaseSizeCollector_collectInto"
| "collectInto_kind PgStatIO = PgStatIOCollector_collectInto"
| "collectInto_kind PgStatIOUserIndexes = PgStatIOUserIndexesCollector_collectInto"
| "collectInto_kind PgStatIOUserTable = PgStatIOUserTableCollector_collectInto"
| "collectInto_kind PgLocks = PgLocksCollector_collectInto"
| "collectInto_kind PgStatProgressAnalyze = PgStatProgressAnalyzeCollector_collectInto"
| "collectInto_kind PgStatProgressBasebackup = PgStatProgressBasebackupCollector_collectInto"
| "collectInto_kind PgStatProgressCluster = PgStatProgressClusterCollector_collectInto"
| "collectInto_kind PgStatProgressCopy = PgStatProgressCopyCollector_collectInto"
| "collectInto_kind PgStatProgressCreateIndex = PgStatProgressCreateIndexCollector_collectInto"
| "collectInto_kind PgStatProgressVacuum = PgStatProgressVacuumCollector_collectInto"
| "collectInto_kind PgStatReplication = PgStatReplicationCollector_collectInto"
| "collectInto_kind PgReplicationSlots = PgReplicationSlotsCollector_collectInto"
| "collectInto_kind PgSettings = PgSettingsCollector_collectInto"
| "collectInto_kind PgStatSLRU = PgStatSLRUCollector_collectInto"
| "collectInto_kind PgStatSSL = PgStatSSLCollector_collectInto"
| "collectInto_kind PgStatStatements = PgStatStatementsCollector_collectInto"
| "collectInto_kind PgStatSubscription = PgStatSubscriptionCollector_collectInto"
| "collectInto_kind PgStatUserIndexes = PgStatUserIndexesCollector_collectInto"
| "collectInto_kind PgStatUserTable = PgStatUserTableCollector_collectInto"
| "collectInto_kind PgStatWal = PgStatWalCollector_collectInto"
| "collectInto_kind PgStatWalReceiver = PgStatWalReceiverCollector_collectInto"

fun scrape_kind :: "kind \<Rightarrow> scrape_body" where
  "scrape_kind PgStatActivity = PgStatActivityCollector_scrape"
| "scrape_kind PgStatArchiver = PgStatArchiverCollector_scrape"
| "scrape_kind PgStatBgwriter = PgStatBgwriterCollector_scrape"
| "scrape_kind PgStatCheckpointer = PgStatCheckpointerCollector_scrape"
| "scrape_kind PgStatDatabase = PgStatDatabaseCollector_scrape"
| "scrape_kind PgDatabaseSize = PgDatabaseSizeCollector_scrape"
| "scrape_kind PgStatIO = PgStatIOCollector_scrape"
| "scrape_kind PgStatIOUserIndexes = PgStatIOUserIndexesCollector_scrape"
| "scrape_kind PgStatIOUserTable = PgStatIOUserTableCollector_scrape"
| "scrape_kind PgLocks = PgLocksCollector_scrape"
| "scrape_kind PgStatProgressAnalyze = PgStatProgressAnalyzeCollector_scrape"
| "scrape_kind PgStatProgressBasebackup = PgStatProgressBasebackupCollector_scrape"
| "scrape_kind PgStatProgressCluster = PgStatProgressClusterCollector_scrape"
| "scrape_kind PgStatProgressCopy = PgStatProgressCopyCollector_scrape"
| "scrape_kind PgStatProgressCreateIndex = PgStatProgressCreateIndexCollector_scrape"
| "scrape_kind PgStatProgressVacuum = PgStatProgressVacuumCollector_scrape"
| "scrape_kind PgStatReplication = PgStatReplicationCollector_scrape"
| "scrape_kind PgReplicationSlots = PgReplicationSlotsCollector_scrape"
| "scrape_kind PgSettings = PgSettingsCollector_scrape"
| "scrape_kind PgStatSLRU = PgStatSLRUCollector_scrape"
| "scrape_kind PgStatSSL = PgStatSSLCollector_scrape"
| "scrape_kind PgStatStatements = PgStatStatementsCollector_scrape"
| "scrape_kind PgStatSubscription = PgStatSubscriptionCollector_scrape"
| "scrape_kind PgStatUserIndexes = PgStatUserIndexesCollector_scrape"
| "scrape_kind PgStatUserTable = PgStatUserTableCollector_scrape"
| "scrape_kind PgStatWal = PgStatWalCollector_scrape"
| "scrape_kind PgStatWalReceiver = PgStatWalReceiverCollector_scrape"

lemmas scrape_defs =
  PgStatActivityCollector_scrape_def PgStatArchiverCollector_scrape_def PgStatBgwriterCollector_scrape_def
  PgStatCheckpointerCollector_scrape_def PgStatDatabaseCollector_scrape_def
  PgDatabaseSizeCollector_scrape_def PgStatIOCollector_scrape_def PgStatIOUserIndexesCollector_scrape_def
  PgStatIOUserTableCollector_scrape_def PgLocksCollector_scrape_def PgStatProgressAnalyzeCollector_scrape_def
  PgStatProgressBasebackupCollector_scrape_def PgStatProgressClusterCollector_scrape_def
  PgStatProgressCopyCollector_scrape_def PgStatProgressCreateIndexCollector_scrape_def
  PgStatProgressVacuumCollector_scrape_def PgStatReplicationCollector_scrape_def
  PgReplicationSlotsCollector_scrape_def PgSettingsCollector_scrape_def PgStatSLRUCollector_scrape_def
  PgStatSSLCollector_scrape_def PgStatStatementsCollector_scrape_def PgStatSubscriptionCollector_scrape_def
  PgStatUserIndexesCollector_scrape_def PgStatUserTableCollector_scrape_def PgStatWalCollector_scrape_def
  PgStatWalReceiverCollector_scrape_def

fun Scrape_kind :: "kind \<Rightarrow> ('cv, 'gv) prom \<Rightarrow> (error option list \<Rightarrow> error option) \<Rightarrow> nat list \<Rightarrow>
    (nat \<Rightarrow> server) \<Rightarrow> (nat \<Rightarrow> cstate) \<Rightarrow> ('cv, 'gv) collector \<Rightarrow> ('cv, 'gv) outcome option" where
  "Scrape_kind PgStatActivity = PgStatActivityCollector_Scrape"
| "Scrape_kind PgStatArchiver = PgStatArchiverCollector_Scrape"
| "Scrape_kind PgStatBgwriter = PgStatBgwriterCollector_Scrape"
| "Scrape_kind PgStatCheckpointer = PgStatCheckpointerCollector_Scrape"
| "Scrape_kind PgStatDatabase = PgStatDatabaseCollector_Scrape"
| "Scrape_kind PgDatabaseSize = PgDatabaseSizeCollector_Scrape"
| "Scrape_kind PgStatIO = PgStatIOCollector_Scrape"
| "Scrape_kind PgStatIOUserIndexes = PgStatIOUserIndexesCollector_Scrape"
| "Scrape_kind PgStatIOUserTable = PgStatIOUserTableCollector_Scrape"
| "Scrape_kind PgLocks = PgLocksCollector_Scrape"
| "Scrape_kind PgStatProgressAnalyze = PgStatProgressAnalyzeCollector_Scrape"
| "Scrape_kind PgStatProgressBasebackup = PgStatProgressBasebackupCollector_Scrape"
| "Scrape_kind PgStatProgressCluster = PgStatProgressClusterCollector_Scrape"
| "Scrape_kind PgStatProgressCopy = PgStatProgressCopyCollector_Scrape"
| "Scrape_kind PgStatProgressCreateIndex = PgStatProgressCreateIndexCollector_Scrape"
| "Scrape_kind PgStatProgressVacuum = PgStatProgressVacuumCollector_Scrape"
| "Scrape_kind PgStatReplication = PgStatReplicationCollector_Scrape"
| "Scrape_kind PgReplicationSlots = PgReplicationSlotsCollector_Scrape"
| "Scrape_kind PgSettings = PgSettingsCollector_Scrape"
| "Scrape_kind PgStatSLRU = PgStatSLRUCollector_Scrape"
| "Scrape_kind PgStatSSL = PgStatSSLCollector_Scrape"
| "Scrape_kind PgStatStatements = PgStatStatementsCollector_Scrape"
| "Scrape_kind PgStatSubscription = PgStatSubscriptionCollector_Scrape"
| "Scrape_kind PgStatUserIndexes = PgStatUserIndexesCollector_Scrape"
| "Scrape_kind PgStatUserTable = PgStatUserTableCollector_Scrape"
| "Scrape_kind PgStatWal = PgStatWalCollector_Scrape"
| "Scrape_kind PgStatWalReceiver = PgStatWalReceiverCollector_Scrape"

lemma Scrape_kind_group:
  "Scrape_kind k P wait sched srv cl c =
     Scrape_group P wait sched (scrape_kind k) (collectInto_kind k) srv cl c"
  by (cases k) (simp_all add: PgStatActivityCollector_Scrape_def
      PgStatArchiverCollector_Scrape_def
      PgStatBgwriterCollector_Scrape_def
      PgStatCheckpointerCollector_Scrape_def
      PgStatDatabaseCollector_Scrape_def
      PgDatabaseSizeCollector_Scrape_def
      PgStatIOCollector_Scrape_def
      PgStatIOUserIndexesCollector_Scrape_def
      PgStatIOUserTableCollector_Scrape_def
      PgLocksCollector_Scrape_def
      PgStatProgressAnalyzeCollector_Scrape_def
      PgStatProgressBasebackupCollector_Scrape_def
      PgStatProgressClusterCollector_Scrape_def
      PgStatProgressCopyCollector_Scrape_def
      PgStatProgressCreateIndexCollector_Scrape_def
      PgStatProgressVacuumCollector_Scrape_def
      PgStatReplicationCollector_Scrape_def
      PgReplicationSlotsCollector_Scrape_def
      PgSettingsCollector_Scrape_def
      PgStatSLRUCollector_Scrape_def
      PgStatSSLCollector_Scrape_def
      PgStatStatementsCollector_Scrape_def
      PgStatSubscriptionCollector_Scrape_def
      PgStatUserIndexesCollector_Scrape_def
      PgStatUserTableCollector_Scrape_def
      PgStatWalCollector_Scrape_def
      PgStatWalReceiverCollector_Scrape_def)

lemmas new_collector_defs =
  NewPgStatActivityCollector_def NewPgStatArchiverCollector_def
  NewPgStatBgwriterCollector_def NewPgStatCheckpointerCollector_def
  NewPgStatDatabaseCollector_def NewPgDatabaseSizeCollector_def
  NewPgStatIOCollector_def NewPgStatIOUserIndexesCollector_def
  NewPgStatIOUserTableCollector_def NewPgLocksCollector_def
  NewPgStatProgressAnalyzeCollector_def NewPgStatProgressBasebackupCollector_def
  NewPgStatProgressClusterCollector_def NewPgStatProgressCopyCollector_def
  NewPgStatProgressCreateIndexCollector_def NewPgStatProgressVacuumCollector_def
  NewPgStatReplicationCollector_def NewPgReplicationSlotsCollector_def
  NewPgSettingsCollector_def NewPgStatSLRUCollector_def
  NewPgStatSSLCollector_def NewPgStatStatementsCollector_def
  NewPgStatSubscriptionCollector_def NewPgStatUserIndexesCollector_def
  NewPgStatUserTableCollector_def NewPgStatWalCollector_def
  NewPgStatWalReceiverCollector_def

lemma New_kind_clients [simp]: "dbClients (New_kind k P g cs) = cs"
  by (cases k) (simp_all add: Let_def new_collector_defs)

text \<open>The vectors do not depend on the clients.\<close>

lemma New_kind_vecs: "vecs (New_kind k P g cs) = vecs (New_kind k P g [])"
  by (cases k) (simp_all add: Let_def new_collector_defs)

lemma New_kind_distinct: "distinct (map fst (vecs (New_kind k P g cs)))"
  by (cases k) (simp_all add: PgStatActivityCollector_names
      PgStatArchiverCollector_names
      PgStatBgwriterCollector_names
      PgStatCheckpointerCollector_names
      PgStatDatabaseCollector_names
      PgDatabaseSizeCollector_names
      PgStatIOCollector_names
      PgStatIOUserIndexesCollector_names
      PgStatIOUserTableCollector_names
      PgLocksCollector_names
      PgStatProgressAnalyzeCollector_names
      PgStatProgressBasebackupCollector_names
      PgStatProgressClusterCollector_names
      PgStatProgressCopyCollector_names
      PgStatProgressCreateIndexCollector_names
      PgStatProgressVacuumCollector_names
      PgStatReplicationCollector_names
      PgReplicationSlotsCollector_names
      PgSettingsCollector_names
      PgStatSLRUCollector_names
      PgStatSSLCollector_names
      PgStatStatementsCollector_names
      PgStatSubscriptionCollector_names
      PgStatUserIndexesCollector_names
      PgStatUserTableCollector_names
      PgStatWalCollector_names
      PgStatWalReceiverCollector_names)

lemma scrape_kind_shape:
  "prom_vecs P \<Longrightarrow>
   list_all (emission_shape (schema_of P (New_kind k P g cs))) (concat (fst (fst (scrape_kind k srv s))))"
  by (cases k) (simp_all add: PgStatActivityCollector_scrape_shape
      PgStatArchiverCollector_scrape_shape
      PgStatBgwriterCollector_scrape_shape
      PgStatCheckpointerCollector_scrape_shape
      PgStatDatabaseCollector_scrape_shape
      PgDatabaseSizeCollector_scrape_shape
      PgStatIOCollector_scrape_shape
      PgStatIOUserIndexesCollector_scrape_shape
      PgStatIOUserTableCollector_scrape_shape
      PgLocksCollector_scrape_shape
      PgStatProgressAnalyzeCollector_scrape_shape
      PgStatProgressBasebackupCollector_scrape_shape
      PgStatProgressClusterCollector_scrape_shape
      PgStatProgressCopyCollector_scrape_shape
      PgStatProgressCreateIndexCollector_scrape_shape
      PgStatProgressVacuumCollector_scrape_shape
      PgStatReplicationCollector_scrape_shape
      PgReplicationSlotsCollector_scrape_shape
      PgSettingsCollector_scrape_shape
      PgStatSLRUCollector_scrape_shape
      PgStatSSLCollector_scrape_shape
      PgStatStatementsCollector_scrape_shape
      PgStatSubscriptionCollector_scrape_shape
      PgStatUserIndexesCollector_scrape_shape
      PgStatUserTableCollector_scrape_shape
      PgStatWalCollector_scrape_shape
      PgStatWalReceiverCollector_scrape_shape)

lemma Describe_kind_all:
  "map fst (vecs c) = map fst (vecs (New_kind k P g cs)) \<Longrightarrow>
   mset (Describe_kind k P c) = mset (map (vec_desc P \<circ> snd) (vecs c))"
  by (cases k) (simp_all only: New_kind.simps Describe_kind.simps
      PgStatActivityCollector_Describe_all PgStatArchiverCollector_Describe_all
      PgStatBgwriterCollector_Describe_all PgStatCheckpointerCollector_Describe_all
      PgStatDatabaseCollector_Describe_all PgDatabaseSizeCollector_Describe_all
      PgStatIOCollector_Describe_all PgStatIOUserIndexesCollector_Describe_all
      PgStatIOUserTableCollector_Describe_all PgLocksCollector_Describe_all
      PgStatProgressAnalyzeCollector_Describe_all PgStatProgressBasebackupCollector_Describe_all
      PgStatProgressClusterCollector_Describe_all PgStatProgressCopyCollector_Describe_all
      PgStatProgressCreateIndexCollector_Describe_all PgStatProgressVacuumCollector_Describe_all
      PgStatReplicationCollector_Describe_all PgReplicationSlotsCollector_Describe_all
      PgSettingsCollector_Describe_all PgStatSLRUCollector_Describe_all
      PgStatSSLCollector_Describe_all PgStatStatementsCollector_Describe_all
      PgStatSubscriptionCollector_Describe_all PgStatUserIndexesCollector_Describe_all
      PgStatUserTableCollector_Describe_all PgStatWalCollector_Describe_all
      PgStatWalReceiverCollector_Describe_all)

lemma collectInto_kind_all:
  "map fst (vecs c) = map fst (vecs (New_kind k P g cs)) \<Longrightarrow>
   mset (collectInto_kind k P c) = mset (concat (map (vec_Collect P \<circ> snd) (vecs c)))"
  by (cases k) (simp_all only: New_kind.simps collectInto_kind.simps
      PgStatActivityCollector_collectInto_all PgStatArchiverCollector_collectInto_all
      PgStatBgwriterCollector_collectInto_all PgStatCheckpointerCollector_collectInto_all
      PgStatDatabaseCollector_collectInto_all PgDatabaseSizeCollector_collectInto_all
      PgStatIOCollector_collectInto_all PgStatIOUserIndexesCollector_collectInto_all
      PgStatIOUserTableCollector_collectInto_all PgLocksCollector_collectInto_all
      PgStatProgressAnalyzeCollector_collectInto_all
      PgStatProgressBasebackupCollector_collectInto_all
      PgStatProgressClusterCollector_collectInto_all PgStatProgressCopyCollector_collectInto_all
      PgStatProgressCreateIndexCollector_collectInto_all
      PgStatProgressVacuumCollector_collectInto_all PgStatReplicationCollector_collectInto_all
      PgReplicationSlotsCollector_collectInto_all PgSettingsCollector_collectInto_all
      PgStatSLRUCollector_collectInto_all PgStatSSLCollector_collectInto_all
      PgStatStatementsCollector_collectInto_all PgStatSubscriptionCollector_collectInto_all
      PgStatUserIndexesCollector_collectInto_all PgStatUserTableCollector_collectInto_all
      PgStatWalCollector_collectInto_all PgStatWalReceiverCollector_collectInto_all)

subsection \<open>The registry\<close>

text \<open>The names of the collectors.\<close>

abbreviation CollectorActivity :: string where "CollectorActivity \<equiv> ''activity''"
abbreviation CollectorArchiver :: string where "CollectorArchiver \<equiv> ''archiver''"
abbreviation CollectorBgwriter :: string where "CollectorBgwriter \<equiv> ''bgwriter''"
abbreviation CollectorCheckpointer :: string where "CollectorCheckpointer \<equiv> ''checkpointer''"
abbreviation CollectorDatabase :: string where "CollectorDatabase \<equiv> ''database''"
abbreviation CollectorDatabaseSize :: string where "CollectorDatabaseSize \<equiv> ''database_size''"
abbreviation CollectorIO :: string where "CollectorIO \<equiv> ''io''"
abbreviation CollectorLocks :: string where "CollectorLocks \<equiv> ''locks''"
abbreviation CollectorProgressAnalyze :: string where "CollectorProgressAnalyze \<equiv> ''progress_analyze''"
abbreviation CollectorProgressBasebackup :: string where "CollectorProgressBasebackup \<equiv> ''progress_basebackup''"
abbreviation CollectorProgressCluster :: string where "CollectorProgressCluster \<equiv> ''progress_cluster''"
abbreviation CollectorProgressCopy :: string where "CollectorProgressCopy \<equiv> ''progress_copy''"
abbreviation CollectorProgressCreateIndex :: string where "CollectorProgressCreateIndex \<equiv> ''progress_create_index''"
abbreviation CollectorProgressVacuum :: string where "CollectorProgressVacuum \<equiv> ''progress_vacuum''"
abbreviation CollectorReplication :: string where "CollectorReplication \<equiv> ''replication''"
abbreviation CollectorReplicationSlots :: string where "CollectorReplicationSlots \<equiv> ''replication_slots''"
abbreviation CollectorSettings :: string where "CollectorSettings \<equiv> ''settings''"
abbreviation CollectorSLRU :: string where "CollectorSLRU \<equiv> ''slru''"
abbreviation CollectorSSL :: string where "CollectorSSL \<equiv> ''ssl''"
abbreviation CollectorStatements :: string where "CollectorStatements \<equiv> ''statements''"
abbreviation CollectorSubscription :: string where "CollectorSubscription \<equiv> ''subscription''"
abbreviation CollectorUserIndexes :: string where "CollectorUserIndexes \<equiv> ''user_indexes''"
abbreviation CollectorUserTables :: string where "CollectorUserTables \<equiv> ''user_tables''"
abbreviation CollectorIOUserIndexes :: string where "CollectorIOUserIndexes \<equiv> ''io_user_indexes''"
abbreviation CollectorIOUserTables :: string where "CollectorIOUserTables \<equiv> ''io_user_tables''"
abbreviation CollectorWAL :: string where "CollectorWAL \<equiv> ''wal''"
abbreviation CollectorWALReceiver :: string where "CollectorWALReceiver \<equiv> ''wal_receiver''"

record collectorEntry =
  ce_Name :: string
  ce_Default :: bool
  ce_New :: kind

definition collectorRegistry :: "collectorEntry list" where
  "collectorRegistry = [
     \<lparr>ce_Name = CollectorActivity, ce_Default = True, ce_New = PgStatActivity\<rparr>,
     \<lparr>ce_Name = CollectorArchiver, ce_Default = True, ce_New = PgStatArchiver\<rparr>,
     \<lparr>ce_Name = CollectorBgwriter, ce_Default = True, ce_New = PgStatBgwriter\<rparr>,
     \<lparr>ce_Name = CollectorCheckpointer, ce_Default = True, ce_New = PgStatCheckpointer\<rparr>,
     \<lparr>ce_Name = CollectorDatabase, ce_Default = True, ce_New = PgStatDatabase\<rparr>,
     \<lparr>ce_Name = CollectorDatabaseSize, ce_Default = True, ce_New = PgDatabaseSize\<rparr>,
     \<lparr>ce_Name = CollectorIO, ce_Default = True, ce_New = PgStatIO\<rparr>,
     \<lparr>ce_Name = CollectorIOUserIndexes, ce_Default = True, ce_New = PgStatIOUserIndexes\<rparr>,
     \<lparr>ce_Name = CollectorIOUserTables, ce_Default = True, ce_New = PgStatIOUserTable\<rparr>,
     \<lparr>ce_Name = CollectorLocks, ce_Default = True, ce_New = PgLocks\<rparr>,
     \<lparr>ce_Name = CollectorProgressAnalyze, ce_Default = True, ce_New = PgStatProgressAnalyze\<rparr>,
     \<lparr>ce_Name = CollectorProgressBasebackup, ce_Default = True, ce_New = PgStatProgressBasebackup\<rparr>,
     \<lparr>ce_Name = CollectorProgressCluster, ce_Default = True, ce_New = PgStatProgressCluster\<rparr>,
     \<lparr>ce_Name = CollectorProgressCopy, ce_Default = True, ce_New = PgStatProgressCopy\<rparr>,
     \<lparr>ce_Name = CollectorProgressCreateIndex, ce_Default = True, ce_New = PgStatProgressCreateIndex\<rparr>,
     \<lparr>ce_Name = CollectorProgressVacuum, ce_Default = True, ce_New = PgStatProgressVacuum\<rparr>,
     \<lparr>ce_Name = CollectorReplication, ce_Default = True, ce_New = PgStatReplication\<rparr>,
     \<lparr>ce_Name = CollectorReplicationSlots, ce_Default = True, ce_New = PgReplicationSlots\<rparr>,
     \<lparr>ce_Name = CollectorSettings, ce_Default = False, ce_New = PgSettings\<rparr>,
     \<lparr>ce_Name = CollectorSLRU, ce_Default = True, ce_New = PgStatSLRU\<rparr>,
     \<lparr>ce_Name = CollectorSSL, ce_Default = True, ce_New = PgStatSSL\<rparr>,
     \<lparr>ce_Name = CollectorStatements, ce_Default = False, ce_New = PgStatStatements\<rparr>,
     \<lparr>ce_Name = CollectorSubscription, ce_Default = False, ce_New = PgStatSubscription\<rparr>,
     \<lparr>ce_Name = CollectorUserIndexes, ce_Default = True, ce_New = PgStatUserIndexes\<rparr>,
     \<lparr>ce_Name = CollectorUserTables, ce_Default = True, ce_New = PgStatUserTable\<rparr>,
     \<lparr>ce_Name = CollectorWAL, ce_Default = True, ce_New = PgStatWal\<rparr>,
     \<lparr>ce_Name = CollectorWALReceiver, ce_Default = True, ce_New = PgStatWalReceiver\<rparr>]"

definition AvailableCollectors :: "string list" where
  "AvailableCollectors = sort (map ce_Name collectorRegistry)"

record ('cv, 'gv) NamedCollector =
  nc_Name :: string
  nc_kind :: kind
  nc_collector :: "('cv, 'gv) collector"

text \<open>\<open>fmt\<close> of a slice of strings with the verb \<open>%v\<close>.\<close>

definition fmt_strings :: "string list \<Rightarrow> string" where
  "fmt_strings xs = ''['' @ join '' '' xs @ '']''"

definition unknown_names :: "string list \<Rightarrow> string list" where
  "unknown_names ns = filter (\<lambda>n. n \<notin> set (map ce_Name collectorRegistry)) ns"

definition ResolveCollectors :: "('cv, 'gv) prom \<Rightarrow> namespaces \<Rightarrow> nat list \<Rightarrow> string list \<Rightarrow> string list \<Rightarrow>
    ('cv, 'gv) NamedCollector list \<times> error option" where
  "ResolveCollectors P g clients enabled disabled =
     (let known = set (map ce_Name collectorRegistry);
          unknown = unknown_names enabled @ unknown_names disabled;
          enabledSet = set (filter (\<lambda>n. n \<in> known) enabled);
          disabledSet = set (filter (\<lambda>n. n \<in> known) disabled);
          explicitEnable = enabled \<noteq> [];
          out = concat (map (\<lambda>e.
            let incl = ce_Default e;
                incl = (if explicitEnable then ce_Name e \<in> enabledSet else incl);
                incl = (if ce_Name e \<in> disabledSet then False else incl)
            in if incl then [\<lparr>nc_Name = ce_Name e, nc_kind = ce_New e,
                              nc_collector = New_kind (ce_New e) P g clients\<rparr>]
               else []) collectorRegistry)
      in (out, if unknown \<noteq> []
               then Some (''unknown collector name(s): '' @ fmt_strings unknown @
                          '' (valid: '' @ fmt_strings AvailableCollectors @ '')'')
               else None))"

definition DefaultCollectors :: "('cv, 'gv) prom \<Rightarrow> namespaces \<Rightarrow> nat list \<Rightarrow>
    (kind \<times> ('cv, 'gv) collector) list" where
  "DefaultCollectors P g clients =
     (case ResolveCollectors P g clients [] [] of
        (named, _) \<Rightarrow> map (\<lambda>n. (nc_kind n, nc_collector n)) named)"

subsection \<open>Properties\<close>

lemma AvailableCollectors_eq: "AvailableCollectors = map ce_Name collectorRegistry"
  by code_simp

lemma registry_kinds: "map ce_New collectorRegistry = all_kinds"
  by (simp add: collectorRegistry_def all_kinds_def)

lemma registry_names_distinct: "distinct (map ce_Name collectorRegistry)"
  by code_simp

lemma concat_map_filter: "concat (map (\<lambda>x. if Q x then [f x] else []) xs) = map f (filter Q xs)"
  by (induction xs) auto

lemma ResolveCollectors_fst:
  "fst (ResolveCollectors P g cs enabled disabled) =
     map (\<lambda>e. \<lparr>nc_Name = ce_Name e, nc_kind = ce_New e, nc_collector = New_kind (ce_New e) P g cs\<rparr>)
       (filter (\<lambda>e. (if enabled \<noteq> [] then ce_Name e \<in> set enabled else ce_Default e) \<and>
          ce_Name e \<notin> set disabled) collectorRegistry)"
  unfolding ResolveCollectors_def Let_def fst_conv concat_map_filter
  by (intro arg_cong [where f = "map _"] filter_cong) auto

text \<open>
  The registry is a one-to-one table: every kind of collector occurs exactly once, under a
  name of its own, in alphabetical order, so \<open>AvailableCollectors\<close> lists the table as it stands.
\<close>

theorem registry_well_formed:
  "distinct (map ce_Name collectorRegistry) \<and> distinct (map ce_New collectorRegistry) \<and>
   set (map ce_New collectorRegistry) = UNIV \<and>
   AvailableCollectors = map ce_Name collectorRegistry \<and> sorted (map ce_Name collectorRegistry)"
proof -
  have "k \<in> set all_kinds" for k by (cases k) (simp_all add: all_kinds_def)
  moreover have "distinct all_kinds" by (simp add: all_kinds_def)
  moreover have "sorted AvailableCollectors" by (simp add: AvailableCollectors_def)
  ultimately show ?thesis
    using registry_names_distinct registry_kinds AvailableCollectors_eq by auto
qed

text \<open>
  C20. \<open>ResolveCollectors\<close> runs exactly the collectors asked for, in the order of the registry and
  each once: those enabled, or the defaults when nothing is enabled, minus the disabled ones,
  where disabling wins. It reports an error exactly when a name is unknown, and unknown names
  never change what runs.
\<close>

theorem resolve_collectors:
  "map nc_Name (fst (ResolveCollectors P g cs enabled disabled)) =
     filter (\<lambda>n. (if enabled \<noteq> [] then n \<in> set enabled
        else n \<in> ce_Name ` {e \<in> set collectorRegistry. ce_Default e}) \<and> n \<notin> set disabled)
       (map ce_Name collectorRegistry) \<and>
   (\<forall>n \<in> set (fst (ResolveCollectors P g cs enabled disabled)).
      nc_collector n = New_kind (nc_kind n) P g cs \<and>
      (\<exists>e \<in> set collectorRegistry. ce_Name e = nc_Name n \<and> ce_New e = nc_kind n)) \<and>
   (snd (ResolveCollectors P g cs enabled disabled) = None \<longleftrightarrow>
      set enabled \<union> set disabled \<subseteq> set AvailableCollectors)"
proof (intro conjI)
  have key: "ce_Name e \<in> ce_Name ` {e' \<in> set collectorRegistry. ce_Default e'} \<longleftrightarrow> ce_Default e"
    if "e \<in> set collectorRegistry" for e
  proof
    assume "ce_Name e \<in> ce_Name ` {e' \<in> set collectorRegistry. ce_Default e'}"
    then obtain e' where e': "e' \<in> set collectorRegistry" "ce_Default e'" "ce_Name e' = ce_Name e"
      by force
    with that registry_names_distinct have "e' = e"
      by (auto simp: distinct_map dest: inj_onD)
    with e' show "ce_Default e" by simp
  qed (use that in blast)
  show "map nc_Name (fst (ResolveCollectors P g cs enabled disabled)) =
     filter (\<lambda>n. (if enabled \<noteq> [] then n \<in> set enabled
        else n \<in> ce_Name ` {e \<in> set collectorRegistry. ce_Default e}) \<and> n \<notin> set disabled)
       (map ce_Name collectorRegistry)"
    unfolding ResolveCollectors_fst filter_map
    by (simp add: o_def) (intro arg_cong [where f = "map _"] filter_cong; simp add: key)
  show "\<forall>n \<in> set (fst (ResolveCollectors P g cs enabled disabled)).
      nc_collector n = New_kind (nc_kind n) P g cs \<and>
      (\<exists>e \<in> set collectorRegistry. ce_Name e = nc_Name n \<and> ce_New e = nc_kind n)"
    by (auto simp: ResolveCollectors_fst)
  show "snd (ResolveCollectors P g cs enabled disabled) = None \<longleftrightarrow>
      set enabled \<union> set disabled \<subseteq> set AvailableCollectors"
    by (auto simp: ResolveCollectors_def Let_def unknown_names_def filter_empty_conv AvailableCollectors_eq)
qed

theorem resolve_collectors_witness:
  "map nc_Name (fst (ResolveCollectors ref_prom initial_namespaces [0] [''wal'', ''locks'', ''typo''] [''wal''])) = [''locks''] \<and>
   snd (ResolveCollectors ref_prom initial_namespaces [0] [''wal'', ''locks'', ''typo''] [''wal'']) \<noteq> None"
proof -
  note r = resolve_collectors [of ref_prom initial_namespaces "[0]" "[''wal'', ''locks'', ''typo'']" "[''wal'']"]
  have "filter (\<lambda>n. n \<in> set [''wal'', ''locks'', ''typo''] \<and> n \<notin> set [''wal'']) (map ce_Name collectorRegistry) = [''locks'']"
    by code_simp
  moreover have "\<not> set [''wal'', ''locks'', ''typo''] \<union> set [''wal''] \<subseteq> set AvailableCollectors"
    unfolding AvailableCollectors_eq by code_simp
  ultimately show ?thesis using r by (simp only: if_True list.distinct simp_thms)
qed

end
