(* ===== verification/Scrape.thy ===== *)
theory Scrape
  imports Registry
begin

text \<open>
  Scrapes of the collectors, for every kind at once. A collector is \<open>built\<close> from a kind when it
  has the fields, kinds of vectors and descriptors that the constructor gives it. The properties:
  no panic, all or nothing, what is exported, independence of the schedule, stale series, and
  the metric descriptors.
\<close>

declare New_kind.simps [simp del] Describe_kind.simps [simp del] collectInto_kind.simps [simp del]
  scrape_kind.simps [simp del] Scrape_kind.simps [simp del]

definition built :: "('cv, 'gv) prom \<Rightarrow> namespaces \<Rightarrow> kind \<Rightarrow> ('cv, 'gv) collector \<Rightarrow> bool" where
  "built P g k c \<longleftrightarrow> schema_of P c = schema_of P (New_kind k P g (dbClients c))"

text \<open>The emissions and the error of one client of a collector in one scrape.\<close>

definition client_emissions :: "kind \<Rightarrow> (nat \<Rightarrow> server) \<Rightarrow> (nat \<Rightarrow> cstate) \<Rightarrow> nat \<Rightarrow> emission list" where
  "client_emissions k srv cl i = concat (fst (fst (scrape_kind k (srv i) (cl i))))"

definition client_error :: "kind \<Rightarrow> (nat \<Rightarrow> server) \<Rightarrow> (nat \<Rightarrow> cstate) \<Rightarrow> nat \<Rightarrow> error option" where
  "client_error k srv cl i = snd (fst (scrape_kind k (srv i) (cl i)))"

definition scrape_order :: "kind \<Rightarrow> nat list \<Rightarrow> (nat \<Rightarrow> server) \<Rightarrow> (nat \<Rightarrow> cstate) \<Rightarrow> nat list \<Rightarrow> emission list" where
  "scrape_order k sched srv cl is =
     concat (interleave sched (map (\<lambda>i. fst (fst (scrape_kind k (srv i) (cl i)))) is))"

lemma Scrape_kind_eq:
  "Scrape_kind k P wait sched srv cl c =
     (case run_emissions P (scrape_order k sched srv cl (dbClients c)) c of
        None \<Rightarrow> None
      | Some c' \<Rightarrow>
          (case wait (map (client_error k srv cl) (dbClients c)) of
             Some e \<Rightarrow> Some \<lparr>oc_metrics = [], oc_err = Some (''scraping: '' @ e), oc_collector = c',
               oc_clients = group_clients (scrape_kind k) srv cl (dbClients c)\<rparr>
           | None \<Rightarrow> Some \<lparr>oc_metrics = collectInto_kind k P c', oc_err = None, oc_collector = c',
               oc_clients = group_clients (scrape_kind k) srv cl (dbClients c)\<rparr>))"
proof -
  have parts: "map fst (group_results (scrape_kind k) srv cl is) = map (\<lambda>i. fst (fst (scrape_kind k (srv i) (cl i)))) is"
    "map snd (group_results (scrape_kind k) srv cl is) = map (client_error k srv cl) is" for "is"
    by (simp_all add: group_results_def client_error_def)
  show ?thesis
    unfolding Scrape_kind_group Scrape_group_def Let_def parts scrape_order_def by (rule refl)
qed

lemma set_scrape_order:
  "set (scrape_order k sched srv cl is) = (\<Union>i \<in> set is. set (client_emissions k srv cl i))"
  by (auto simp: scrape_order_def client_emissions_def)

lemma scrape_order_shape:
  assumes "prom_vecs P" and "built P g k c" and "e \<in> set (scrape_order k sched srv cl is)"
  shows "emission_shape (schema_of P c) e"
proof -
  from assms(3) obtain i where "e \<in> set (client_emissions k srv cl i)"
    by (auto simp: set_scrape_order)
  then show ?thesis
    using scrape_kind_shape [OF assms(1), of k g "dbClients c" "srv i" "cl i"] assms(2)
    unfolding client_emissions_def built_def list_all_iff by (simp only:)
qed

lemma built_distinct: "built P g k c \<Longrightarrow> distinct (map fst (vecs c))"
proof -
  have "map fst (schema_of P c) = map fst (vecs c)" for c :: "('a, 'b) collector"
    by (simp add: schema_of_def o_def case_prod_beta)
  moreover assume "built P g k c"
  ultimately show ?thesis using New_kind_distinct unfolding built_def by metis
qed

lemma built_new: "built P g k (New_kind k P g cs)"
  by (simp add: built_def)

text \<open>A run keeps the collector built.\<close>

lemma run_built:
  assumes "prom_vecs P" and "built P g k c" and "run_emissions P es c = Some c'"
  shows "built P g k c' \<and> schema_of P c' = schema_of P c \<and> dbClients c' = dbClients c"
  using prom_vecs.run_emissions_schema [OF assms(1,3) built_distinct [OF assms(2)]] assms(2)
  by (simp add: built_def)

lemma Scrape_kind_run:
  assumes "Scrape_kind k P wait sched srv cl c = Some out"
  shows "run_emissions P (scrape_order k sched srv cl (dbClients c)) c = Some (oc_collector out)"
    and "oc_err out = map_option (\<lambda>e. ''scraping: '' @ e) (wait (map (client_error k srv cl) (dbClients c)))"
    and "oc_metrics out = (if oc_err out = None then collectInto_kind k P (oc_collector out) else [])"
  using assms by (auto simp: Scrape_kind_eq split: option.splits)

lemma Scrape_kind_total:
  "run_emissions P (scrape_order k sched srv cl (dbClients c)) c \<noteq> None \<Longrightarrow>
   \<exists>out. Scrape_kind k P wait sched srv cl c = Some out"
  by (auto simp: Scrape_kind_eq split: option.splits)

lemma schema_member:
  "distinct (map fst (vecs c)) \<Longrightarrow>
   (f, b, d) \<in> set (schema_of P c) \<longleftrightarrow> (\<exists>v. map_of (vecs c) f = Some v \<and> b = is_counter v \<and> d = vec_desc P v)"
  by (auto simp: schema_of_def dest: map_of_SomeD intro!: map_of_is_SomeI)

lemma written_interleave_owner:
  assumes "j < length xss"
    and "\<And>i e. i < length xss \<Longrightarrow> i \<noteq> j \<Longrightarrow> e \<in> set (concat (xss ! i)) \<Longrightarrow>
      \<not> (em_field e = f \<and> em_labels e = lvs)"
  shows "written (concat (interleave sched xss)) f lvs = written (concat (xss ! j)) f lvs"
proof -
  let ?hit = "\<lambda>e. em_field e = f \<and> em_labels e = lvs"
  let ?block = "\<lambda>b. \<exists>e \<in> set b. ?hit e"
  have blocks: "filter ?hit (concat bs) = filter ?hit (concat (filter ?block bs))" for bs
    by (induction bs) (auto simp: filter_empty_conv)
  have "\<not> ?block b" if "i < length xss" "i \<noteq> j" "b \<in> set (xss ! i)" for i b
    using assms(2) [OF that(1,2)] that(3) by fastforce
  then have "filter ?block (interleave sched xss) = filter ?block (xss ! j)"
    using filter_interleave_owner [OF assms(1), of ?block] by blast
  then have "filter ?hit (concat (interleave sched xss)) = filter ?hit (concat (xss ! j))"
    using blocks [of "interleave sched xss"] blocks [of "xss ! j"] by simp
  then show ?thesis
    using written_filter [of f lvs "concat (interleave sched xss)"] written_filter [of f lvs "concat (xss ! j)"]
    by simp
qed

lemma written_order_owner:
  assumes "i \<in> set cs" and "distinct cs"
    and "\<And>i' e. i' \<in> set cs \<Longrightarrow> i' \<noteq> i \<Longrightarrow> e \<in> set (client_emissions k srv cl i') \<Longrightarrow>
      \<not> (em_field e = f \<and> em_labels e = lvs)"
  shows "written (scrape_order k sched srv cl cs) f lvs = written (client_emissions k srv cl i) f lvs"
proof -
  let ?xss = "map (\<lambda>i. fst (fst (scrape_kind k (srv i) (cl i)))) cs"
  from assms(1) obtain j where j: "j < length cs" "cs ! j = i" by (auto simp: in_set_conv_nth)
  have other: "cs ! j' \<noteq> i" if "j' < length cs" "j' \<noteq> j" for j'
    using that j assms(2) nth_eq_iff_index_eq by blast
  have "written (concat (interleave sched ?xss)) f lvs = written (concat (?xss ! j)) f lvs"
  proof (rule written_interleave_owner)
    show "j < length ?xss" using j by simp
    fix j' e
    assume "j' < length ?xss" "j' \<noteq> j" "e \<in> set (concat (?xss ! j'))"
    then have "e \<in> set (client_emissions k srv cl (cs ! j'))" "cs ! j' \<in> set cs" "cs ! j' \<noteq> i"
      using other by (simp_all add: client_emissions_def)
    then show "\<not> (em_field e = f \<and> em_labels e = lvs)" using assms(3) by blast
  qed
  then show ?thesis using j by (simp add: scrape_order_def client_emissions_def)
qed

subsection \<open>Children of a vector are never removed\<close>

lemma series_kept:
  assumes "prom_vecs P" and "run_emissions P es c = Some c'" and "series P c f lvs \<noteq> None"
  shows "series P c' f lvs \<noteq> None"
  using assms(2,3)
proof (induction es arbitrary: c)
  case Nil
  then show ?case by simp
next
  case (Cons e es)
  then obtain c1 where c1: "apply_emission P e c = Some c1" "run_emissions P es c1 = Some c'"
    by (auto simp: run_emissions_Cons split: option.splits)
  have "series P c1 f lvs \<noteq> None"
  proof (cases e)
    case (ObserveC g v ls)
    with c1 obtain cd cd' where cd: "map_of (vecs c) g = Some (CounterField cd)"
      "Observe P v ls cd = Some cd'" "c1 = c\<lparr>vecs := put_field g (CounterField cd') (vecs c)\<rparr>"
      by (auto split: option.splits vec_field.splits)
    have "cd_value P cd' ls' \<noteq> None" if "cd_value P cd ls' \<noteq> None \<or> ls' = ls" for ls'
      using that prom_counters.Observe_frame [OF prom_vecs.axioms(1) [OF assms(1)] cd(2)]
        prom_counters.Observe_keeps [OF prom_vecs.axioms(1) [OF assms(1)] cd(2)]
      by (cases "ls' = ls") simp_all
    with cd Cons.prems(2) show ?thesis
      by (auto simp: series_def map_of_put_field split: if_splits option.splits)
  next
    case (SetG g v ls)
    with c1 obtain gv gv' where gv: "map_of (vecs c) g = Some (GaugeField gv)"
      "GaugeSet P gv ls v = Some gv'" "c1 = c\<lparr>vecs := put_field g (GaugeField gv') (vecs c)\<rparr>"
      by (auto split: option.splits vec_field.splits)
    with prom_gauges.gauge_set_value [OF prom_vecs.axioms(2) [OF assms(1)] gv(2)] Cons.prems(2)
    show ?thesis by (auto simp: series_def map_of_put_field split: if_splits option.splits)
  qed
  from Cons.IH [OF c1(2) this] show ?case .
qed

lemma series_untouched:
  assumes "prom_vecs P" and "run_emissions P es c = Some c'"
    and "\<forall>e \<in> set es. \<not> (em_field e = f \<and> em_labels e = lvs)"
  shows "series P c' f lvs = series P c f lvs"
  using assms(2,3)
proof (induction es arbitrary: c)
  case Nil
  then show ?case by simp
next
  case (Cons e es)
  then obtain c1 where c1: "apply_emission P e c = Some c1" "run_emissions P es c1 = Some c'"
    by (auto simp: run_emissions_Cons split: option.splits)
  have "series P c1 f lvs = series P c f lvs"
  proof (cases e)
    case (ObserveC g v ls)
    with c1 obtain cd cd' where cd: "map_of (vecs c) g = Some (CounterField cd)"
      "Observe P v ls cd = Some cd'" "c1 = c\<lparr>vecs := put_field g (CounterField cd') (vecs c)\<rparr>"
      by (auto split: option.splits vec_field.splits)
    have "cd_value P cd' lvs = cd_value P cd lvs" if "g = f"
      using prom_counters.Observe_frame [OF prom_vecs.axioms(1) [OF assms(1)] cd(2)] Cons.prems(2) ObserveC that
      by (cases "lvs = ls") simp_all
    with cd show ?thesis by (cases "f = g") (simp_all add: series_def map_of_put_field)
  next
    case (SetG g v ls)
    with c1 obtain gv gv' where gv: "map_of (vecs c) g = Some (GaugeField gv)"
      "GaugeSet P gv ls v = Some gv'" "c1 = c\<lparr>vecs := put_field g (GaugeField gv') (vecs c)\<rparr>"
      by (auto split: option.splits vec_field.splits)
    with prom_gauges.gauge_set_value [OF prom_vecs.axioms(2) [OF assms(1)] gv(2)] Cons.prems(2) SetG
    show ?thesis by (cases "f = g") (auto simp: series_def map_of_put_field)
  qed
  with Cons.IH [OF c1(2)] Cons.prems(2) show ?case by simp
qed

lemma exported_iff:
  assumes "prom_vecs P" and "built P g k c"
  shows "m \<in> set (collectInto_kind k P c) \<longleftrightarrow>
    (\<exists>f b d lvs v. (f, b, d) \<in> set (schema_of P c) \<and> series P c f lvs = Some v \<and>
       m = \<lparr>m_desc = d, m_labels = lvs, m_value = v\<rparr>)"
proof -
  have names: "map fst (vecs c) = map fst (vecs (New_kind k P g (dbClients c)))"
    using assms(2) prom_vecs.schema_names [OF assms(1)] unfolding built_def by metis
  have mem: "set (collectInto_kind k P c) = set (concat (map (vec_Collect P \<circ> snd) (vecs c)))"
    using collectInto_kind_all [OF names] by (metis set_mset_mset)
  note dist = built_distinct [OF assms(2)]
  show ?thesis
  proof
    assume "m \<in> set (collectInto_kind k P c)"
    then obtain f v where v: "(f, v) \<in> set (vecs c)" "m \<in> set (vec_Collect P v)"
      unfolding mem by auto
    then obtain lvs x where x: "m = \<lparr>m_desc = vec_desc P v, m_labels = lvs, m_value = x\<rparr>" "vec_value P v lvs = Some x"
      using prom_vecs.collect_vec_set [OF assms(1), of v] by auto
    have "map_of (vecs c) f = Some v" using v(1) dist by simp
    then have "(f, is_counter v, vec_desc P v) \<in> set (schema_of P c)" "series P c f lvs = Some x"
      using x(2) dist by (auto simp: schema_member series_def)
    with x(1) show "\<exists>f b d lvs v. (f, b, d) \<in> set (schema_of P c) \<and> series P c f lvs = Some v \<and>
       m = \<lparr>m_desc = d, m_labels = lvs, m_value = v\<rparr>" by blast
  next
    assume "\<exists>f b d lvs v. (f, b, d) \<in> set (schema_of P c) \<and> series P c f lvs = Some v \<and>
       m = \<lparr>m_desc = d, m_labels = lvs, m_value = v\<rparr>"
    then obtain f v lvs x where v: "map_of (vecs c) f = Some v" "series P c f lvs = Some x"
      "m = \<lparr>m_desc = vec_desc P v, m_labels = lvs, m_value = x\<rparr>"
      using dist by (auto simp: schema_member)
    then have "m \<in> set (vec_Collect P v)" "(f, v) \<in> set (vecs c)"
      using prom_vecs.collect_vec_set [OF assms(1), of v] by (auto simp: series_def dest: map_of_SomeD)
    then show "m \<in> set (collectInto_kind k P c)" unfolding mem by force
  qed
qed

lemma Scrape_kind_benign:
  assumes "prom_vecs P" and "built P g k c"
    and "\<forall>i \<in> set (dbClients c). \<forall>e \<in> set (client_emissions k srv cl i). benign P e"
  shows "\<exists>out. Scrape_kind k P wait sched srv cl c = Some out \<and> built P g k (oc_collector out)"
proof -
  have "\<forall>e \<in> set (scrape_order k sched srv cl (dbClients c)).
      emission_shape (schema_of P c) e \<and> benign P e"
    using scrape_order_shape [OF assms(1,2)] assms(3) by (auto simp: set_scrape_order)
  from prom_vecs.run_emissions_total [OF assms(1) this built_distinct [OF assms(2)]]
  obtain c' where c': "run_emissions P (scrape_order k sched srv cl (dbClients c)) c = Some c'" by blast
  then show ?thesis
    using run_built [OF assms(1,2) c'] by (auto simp: Scrape_kind_eq split: option.split)
qed

subsection \<open>A concrete scrape\<close>

text \<open>One client of one server with one database of 42 bytes; every other query fails.\<close>

definition down :: server where
  "down = \<lparr>q_PgStatActivity = (\<lambda>_. Inl ''down''), q_PgLocks = (\<lambda>_. Inl ''down''),
     q_PgLocksBlockingSummary = (\<lambda>_. Inl ''down''), q_PgStatDatabase = (\<lambda>_. Inl ''down''),
     q_PgDatabaseSize = (\<lambda>_. Inl ''down''), q_PgStatBgwriter = (\<lambda>_. Inl ''down''),
     q_PgStatCheckpointer = (\<lambda>_. Inl ''down''), q_PgStatArchiver = (\<lambda>_. Inl ''down''),
     q_PgStatWal = (\<lambda>_. Inl ''down''), q_PgStatWalReceiver = (\<lambda>_. Inl ''down''),
     q_PgStatReplication = (\<lambda>_. Inl ''down''), q_PgReplicationSlots = (\<lambda>_. Inl ''down''),
     q_PgStatIO = (\<lambda>_. Inl ''down''), q_PgStatSLRU = (\<lambda>_. Inl ''down''),
     q_PgStatSSL = (\<lambda>_. Inl ''down''), q_PgStatSubscription = (\<lambda>_. Inl ''down''),
     q_PgStatSubscriptionStats = (\<lambda>_. Inl ''down''), q_PgSettings = (\<lambda>_. Inl ''down''),
     q_PgStatUserTables = (\<lambda>_. Inl ''down''), q_PgStatUserIndexes = (\<lambda>_. Inl ''down''),
     q_PgStatIOUserTables = (\<lambda>_. Inl ''down''), q_PgStatIOUserIndexes = (\<lambda>_. Inl ''down''),
     q_PgStatStatements = (\<lambda>_. Inl ''down''), q_PgStatProgressVacuum = (\<lambda>_. Inl ''down''),
     q_PgStatProgressAnalyze = (\<lambda>_. Inl ''down''), q_PgStatProgressBasebackup = (\<lambda>_. Inl ''down''),
     q_PgStatProgressCopy = (\<lambda>_. Inl ''down''), q_PgStatProgressCreateIndex = (\<lambda>_. Inl ''down''),
     q_PgStatProgressCluster = (\<lambda>_. Inl ''down'')\<rparr>"

definition demo_row :: PgDatabaseSize where
  "demo_row = \<lparr>PgDatabaseSize.Database = Text ''a'' True, DatName = Text ''b'' True, Bytes = Int8 42 True\<rparr>"

definition demo_server :: "nat \<Rightarrow> server" where
  "demo_server i = (if i = 0 then down\<lparr>q_PgDatabaseSize := (\<lambda>_. Inr [demo_row])\<rparr> else down)"

definition demo_clients :: "nat \<Rightarrow> cstate" where
  "demo_clients i = demo_state 160004"

definition demo_collector :: "(refvec, refvec) collector" where
  "demo_collector = New_kind PgDatabaseSize ref_prom initial_namespaces [0]"

lemma demo_scrape:
  "scrape_kind PgDatabaseSize (demo_server 0) (demo_clients 0) =
     (([[SetG ''sizeBytes'' (f64_of_int 42) [''a'', ''b'']]], None), demo_state 160004)"
  "dbClients demo_collector = [0]"
  "built ref_prom initial_namespaces PgDatabaseSize demo_collector"
  by (simp_all add: scrape_kind.simps PgDatabaseSizeCollector_scrape_def SelectPgDatabaseSize_def demo_server_def
      demo_clients_def PgDatabaseSizeCollector_emit_def demo_row_def emitGauge_def singles_def
      f64_of_int64_def demo_collector_def built_new)

lemma demo_emissions:
  "client_emissions PgDatabaseSize demo_server demo_clients 0 = [SetG ''sizeBytes'' (f64_of_int 42) [''a'', ''b'']]"
  "client_error PgDatabaseSize demo_server demo_clients 0 = None"
  by (simp_all add: client_emissions_def client_error_def demo_scrape)

subsection \<open>Properties\<close>

text \<open>
  C7. No scrape of any of the 27 collectors panics, whatever the rows and the interleaving of
  the goroutines, as long as no cumulative statistic is negative and the label values are
  acceptable to the library: every emission names a vector that the constructor has set, of the
  right kind, with the right number of label values. The collector stays well formed.
\<close>

theorem scrape_never_panics:
  assumes "prom_vecs P" and "built P g k c"
    and "\<forall>i \<in> set (dbClients c). \<forall>e \<in> set (client_emissions k srv cl i). benign P e"
  shows "\<exists>out. Scrape_kind k P wait sched srv cl c = Some out \<and> built P g k (oc_collector out)"
  by (rule Scrape_kind_benign [OF assms])

theorem scrape_never_panics_witness:
  "\<exists>out. Scrape_kind PgDatabaseSize ref_prom first_error [] demo_server demo_clients demo_collector = Some out \<and>
     built ref_prom initial_namespaces PgDatabaseSize (oc_collector out)"
  by (rule scrape_never_panics [OF ref.prom_vecs_axioms demo_scrape(3)])
    (simp add: demo_scrape demo_emissions benign_def ref_prom_def)

text \<open>
  C6. A scrape is all or nothing: it fails exactly when some client fails, then exports no metric
  at all, and its error is the error of one of the failed clients.
\<close>

theorem scrape_all_or_nothing:
  assumes "errgroup wait" and "Scrape_kind k P wait sched srv cl c = Some out"
  shows "(oc_err out = None \<longleftrightarrow> (\<forall>i \<in> set (dbClients c). client_error k srv cl i = None)) \<and>
    (oc_err out \<noteq> None \<longrightarrow> oc_metrics out = [] \<and>
       (\<exists>i \<in> set (dbClients c). \<exists>e. client_error k srv cl i = Some e \<and> oc_err out = Some (''scraping: '' @ e)))"
proof -
  let ?rs = "map (client_error k srv cl) (dbClients c)"
  note r = Scrape_kind_run [OF assms(2)]
  have none: "wait ?rs = None \<longleftrightarrow> (\<forall>i \<in> set (dbClients c). client_error k srv cl i = None)"
    using errgroup.wait_None [OF assms(1), of ?rs] by simp
  show ?thesis
  proof (cases "wait ?rs")
    case None
    with none r show ?thesis by simp
  next
    case (Some e)
    with errgroup.wait_Some [OF assms(1) Some] none r show ?thesis by fastforce
  qed
qed

theorem scrape_all_or_nothing_witness:
  "\<exists>out. Scrape_kind PgDatabaseSize ref_prom first_error [] demo_server demo_clients (demo_collector\<lparr>dbClients := [0, 1]\<rparr>) = Some out \<and>
     oc_metrics out = [] \<and> oc_err out \<noteq> None"
proof -
  let ?c = "demo_collector\<lparr>dbClients := [0, 1]\<rparr>"
  have err: "scrape_kind PgDatabaseSize (demo_server (Suc 0)) (demo_clients (Suc 0)) =
      (([], Some ''database size: down''), demo_state 160004)"
    by (simp add: scrape_kind.simps PgDatabaseSizeCollector_scrape_def
        SelectPgDatabaseSize_def demo_server_def down_def demo_clients_def)
  have "run_emissions ref_prom (scrape_order PgDatabaseSize [] demo_server demo_clients [0, 1]) ?c \<noteq> None"
    by (simp add: scrape_order_def err demo_scrape run_emissions_Cons
        demo_collector_def New_kind.simps NewPgDatabaseSizeCollector_def gaugeFactoryRawPg_def ref_prom_def ref_put_def)
  then obtain out where out: "Scrape_kind PgDatabaseSize ref_prom first_error [] demo_server demo_clients ?c = Some out"
    using Scrape_kind_total [of ref_prom PgDatabaseSize "[]" demo_server demo_clients ?c first_error] by auto
  from scrape_all_or_nothing [OF first_error.errgroup_axioms out] out show ?thesis
    by (simp add: client_error_def err)
qed

text \<open>
  C8. What a successful scrape exports is exactly what the collector holds: one metric for each
  child of each of its vectors, with the vector's descriptor, and every descriptor is one that
  \<open>Describe\<close> has announced.
\<close>

theorem scrape_exports_series:
  assumes "prom_vecs P" and "built P g k c"
    and "Scrape_kind k P wait sched srv cl c = Some out" and "oc_err out = None"
  shows "set (oc_metrics out) = {\<lparr>m_desc = d, m_labels = lvs, m_value = v\<rparr> | f b d lvs v.
      (f, b, d) \<in> set (schema_of P c) \<and> series P (oc_collector out) f lvs = Some v} \<and>
    m_desc ` set (oc_metrics out) \<subseteq> set (Describe_kind k P c)"
proof -
  note r = Scrape_kind_run [OF assms(3)]
  note b = run_built [OF assms(1,2) r(1)]
  have names: "map fst (vecs c) = map fst (vecs (New_kind k P g (dbClients c)))"
    using assms(2) prom_vecs.schema_names [OF assms(1)] unfolding built_def by metis
  have "set (Describe_kind k P c) = set (map (vec_desc P \<circ> snd) (vecs c))"
    using Describe_kind_all [OF names] by (metis set_mset_mset)
  also have "\<dots> = vec_desc P ` snd ` set (vecs c)" by (simp add: image_comp)
  also have "\<dots> = (\<lambda>x. snd (snd x)) ` set (schema_of P c)"
    by (force simp: schema_of_def)
  finally have descs: "set (Describe_kind k P c) = (\<lambda>x. snd (snd x)) ` set (schema_of P c)" .
  have mem: "m \<in> set (oc_metrics out) \<longleftrightarrow> (\<exists>f b d lvs v. (f, b, d) \<in> set (schema_of P c) \<and>
      series P (oc_collector out) f lvs = Some v \<and> m = \<lparr>m_desc = d, m_labels = lvs, m_value = v\<rparr>)" for m
    using exported_iff [OF assms(1), of g k "oc_collector out" m] b r(3) assms(4) by simp
  have "m_desc m \<in> set (Describe_kind k P c)" if "m \<in> set (oc_metrics out)" for m
    using that unfolding mem descs by force
  then show ?thesis using mem by blast
qed

theorem scrape_exports_series_witness:
  "\<exists>out. Scrape_kind PgDatabaseSize ref_prom first_error [] demo_server demo_clients demo_collector = Some out \<and>
     m_desc ` set (oc_metrics out) \<subseteq> set (Describe_kind PgDatabaseSize ref_prom demo_collector)"
proof -
  have "run_emissions ref_prom (scrape_order PgDatabaseSize [] demo_server demo_clients [0]) demo_collector \<noteq> None"
    by (simp add: scrape_order_def demo_scrape run_emissions_Cons
        demo_collector_def New_kind.simps NewPgDatabaseSizeCollector_def gaugeFactoryRawPg_def ref_prom_def ref_put_def)
  moreover have "first_error (map (client_error PgDatabaseSize demo_server demo_clients) [0]) = None"
    by (simp add: first_error_None demo_emissions)
  ultimately obtain out where
    "Scrape_kind PgDatabaseSize ref_prom first_error [] demo_server demo_clients demo_collector = Some out"
    "oc_err out = None"
    by (auto simp: Scrape_kind_eq demo_scrape split: option.splits)
  from scrape_exports_series [OF ref.prom_vecs_axioms demo_scrape(3) this] this show ?thesis by blast
qed

text \<open>
  C1. The value exported for a series is the one its client read last, whatever the schedule: if
  no other client of the collector emits to this field with these labels, the field's observations are
  exact and the scrape does not panic, then after it the series holds the last value that client
  \<open>i\<close> emitted for it, and the value from before the scrape when it emitted none. Two schedules
  therefore leave the same value.
\<close>

theorem scrape_refines_last_read:
  assumes "prom_vecs P" and "built P g k c" and "distinct (dbClients c)" and "i \<in> set (dbClients c)"
    and "Scrape_kind k P wait sched srv cl c = Some out"
    and "field_tracks P c f"
    and "\<forall>j \<in> set (dbClients c). \<forall>e \<in> set (client_emissions k srv cl j).
      em_field e = f \<longrightarrow> benign P e \<and> exact_emission e"
    and "\<forall>j \<in> set (dbClients c) - {i}. \<forall>e \<in> set (client_emissions k srv cl j).
      \<not> (em_field e = f \<and> em_labels e = lvs)"
  shows "series P (oc_collector out) f lvs =
    (case written (client_emissions k srv cl i) f lvs of Some v \<Rightarrow> Some v | None \<Rightarrow> series P c f lvs)"
proof -
  let ?es = "scrape_order k sched srv cl (dbClients c)"
  have "\<forall>e \<in> set ?es. em_field e = f \<longrightarrow> emission_shape (schema_of P c) e \<and> benign P e \<and> exact_emission e"
    using scrape_order_shape [OF assms(1,2)] assms(7) by (fastforce simp: set_scrape_order)
  note s = prom_vecs.run_emissions_series [OF assms(1) Scrape_kind_run(1) [OF assms(5)] built_distinct [OF assms(2)] this assms(6)]
  have "written ?es f lvs = written (client_emissions k srv cl i) f lvs"
    by (rule written_order_owner [OF assms(4,3)]) (use assms(8) in blast)
  with s show ?thesis by simp
qed

theorem scrape_refines_last_read_witness:
  "\<exists>out. Scrape_kind PgDatabaseSize ref_prom first_error [] demo_server demo_clients demo_collector = Some out \<and>
     series ref_prom (oc_collector out) ''sizeBytes'' [''a'', ''b''] = Some (f64_of_int 42)"
proof -
  have "run_emissions ref_prom (scrape_order PgDatabaseSize [] demo_server demo_clients [0]) demo_collector \<noteq> None"
    by (simp add: scrape_order_def demo_scrape run_emissions_Cons
        demo_collector_def New_kind.simps NewPgDatabaseSizeCollector_def gaugeFactoryRawPg_def ref_prom_def ref_put_def)
  then obtain out where out:
    "Scrape_kind PgDatabaseSize ref_prom first_error [] demo_server demo_clients demo_collector = Some out"
    using Scrape_kind_total [of ref_prom PgDatabaseSize "[]" demo_server demo_clients demo_collector first_error]
    by (auto simp: demo_scrape)
  have "field_tracks ref_prom demo_collector ''sizeBytes''"
    by (simp add: field_tracks_def demo_collector_def New_kind.simps NewPgDatabaseSizeCollector_def)
  from scrape_refines_last_read [OF ref.prom_vecs_axioms demo_scrape(3) _ _ out this, of 0] out
  show ?thesis
    by (simp add: demo_scrape demo_emissions benign_def exact_emission_def ref_prom_def written_Cons)
qed

text \<open>Any number of scrapes of one collector, each with its own outside, from the collector that the one
  before has left.\<close>

record occasion =
  oca_wait :: "error option list \<Rightarrow> error option"
  oca_sched :: "nat list"
  oca_servers :: "nat \<Rightarrow> server"
  oca_clients :: "nat \<Rightarrow> cstate"

fun Scrapes :: "kind \<Rightarrow> ('cv, 'gv) prom \<Rightarrow> occasion list \<Rightarrow> ('cv, 'gv) collector \<Rightarrow> ('cv, 'gv) outcome list option" where
  "Scrapes k P [] c = Some []"
| "Scrapes k P (oca # ocas) c =
     (case Scrape_kind k P (oca_wait oca) (oca_sched oca) (oca_servers oca) (oca_clients oca) c of
        None \<Rightarrow> None
      | Some out \<Rightarrow> map_option (Cons out) (Scrapes k P ocas (oc_collector out)))"

lemma Scrapes_Cons:
  assumes "Scrapes k P (oca # ocas) c = Some outs"
  obtains out rest where "outs = out # rest"
    and "Scrape_kind k P (oca_wait oca) (oca_sched oca) (oca_servers oca) (oca_clients oca) c = Some out"
    and "Scrapes k P ocas (oc_collector out) = Some rest"
  using assms by (auto split: option.splits)

text \<open>A successful scrape exports every series that the collector then holds.\<close>

lemma series_exported:
  assumes "prom_vecs P" and "built P g k c" and "Scrape_kind k P wait sched srv cl c = Some out" and "oc_err out = None"
    and "(f, b, d) \<in> set (schema_of P c)" and "series P (oc_collector out) f lvs = Some v"
  shows "\<lparr>m_desc = d, m_labels = lvs, m_value = v\<rparr> \<in> set (oc_metrics out)"
proof -
  note r = Scrape_kind_run [OF assms(3)]
  note bu = run_built [OF assms(1,2) r(1)]
  have "\<lparr>m_desc = d, m_labels = lvs, m_value = v\<rparr> \<in> set (collectInto_kind k P (oc_collector out))"
    using bu assms(5,6) by (subst exported_iff [OF assms(1), of g]) (simp_all only: bu, blast)
  then show ?thesis using r(3) assms(4) by simp
qed

text \<open>
  C34. Nothing is ever withdrawn. Once a collector holds a series, it holds it after any number of
  further scrapes, whether they fail or succeed and whatever they read, and every one of them that
  succeeds exports it; and as long as no client emits it, it keeps its old value, although the row it came
  from is gone.
\<close>

theorem stale_series_persist:
  assumes "prom_vecs P" and "built P g k c" and "Scrapes k P ocas c = Some outs"
    and "(f, b, d) \<in> set (schema_of P c)" and "series P c f lvs = Some v"
  shows "length outs = length ocas \<and>
    (\<forall>out \<in> set outs. \<exists>w. series P (oc_collector out) f lvs = Some w \<and>
       (oc_err out = None \<longrightarrow> \<lparr>m_desc = d, m_labels = lvs, m_value = w\<rparr> \<in> set (oc_metrics out))) \<and>
    ((\<forall>oca \<in> set ocas. \<forall>i \<in> set (dbClients c). \<forall>e \<in> set (client_emissions k (oca_servers oca) (oca_clients oca) i).
        \<not> (em_field e = f \<and> em_labels e = lvs)) \<longrightarrow>
      (\<forall>out \<in> set outs. series P (oc_collector out) f lvs = Some v \<and>
         (oc_err out = None \<longrightarrow> \<lparr>m_desc = d, m_labels = lvs, m_value = v\<rparr> \<in> set (oc_metrics out))))"
  using assms(2-5)
proof (induction ocas arbitrary: c outs v)
  case Nil
  then show ?case by simp
next
  case (Cons oca ocas)
  obtain out rest where outs: "outs = out # rest"
    and out: "Scrape_kind k P (oca_wait oca) (oca_sched oca) (oca_servers oca) (oca_clients oca) c = Some out"
    and rest: "Scrapes k P ocas (oc_collector out) = Some rest"
    using Cons.prems(2) by (rule Scrapes_Cons)
  note run = Scrape_kind_run(1) [OF out]
  note bu = run_built [OF assms(1) Cons.prems(1) run]
  obtain w where w: "series P (oc_collector out) f lvs = Some w"
    using series_kept [OF assms(1) run, of f lvs] Cons.prems(4) by auto
  have d: "(f, b, d) \<in> set (schema_of P (oc_collector out))" using bu Cons.prems(3) by simp
  have bu': "built P g k (oc_collector out)" and cl: "dbClients (oc_collector out) = dbClients c" using bu by blast+
  note exported = series_exported [OF assms(1) Cons.prems(1) out _ Cons.prems(3) w]
  note IH = Cons.IH [OF bu' rest d w, unfolded cl]
  have same: "w = v" if "\<forall>i \<in> set (dbClients c). \<forall>e \<in> set (client_emissions k (oca_servers oca) (oca_clients oca) i).
      \<not> (em_field e = f \<and> em_labels e = lvs)"
    using series_untouched [OF assms(1) run, of f lvs] that w Cons.prems(4) by (simp add: set_scrape_order)
  have first: "\<forall>o1 \<in> set outs. \<exists>w. series P (oc_collector o1) f lvs = Some w \<and>
      (oc_err o1 = None \<longrightarrow> \<lparr>m_desc = d, m_labels = lvs, m_value = w\<rparr> \<in> set (oc_metrics o1))"
    using conjunct1 [OF conjunct2 [OF IH]] exported w unfolding outs by auto
  have second: "\<forall>o1 \<in> set outs. series P (oc_collector o1) f lvs = Some v \<and>
      (oc_err o1 = None \<longrightarrow> \<lparr>m_desc = d, m_labels = lvs, m_value = v\<rparr> \<in> set (oc_metrics o1))"
    if quiet: "\<forall>oca \<in> set (oca # ocas). \<forall>i \<in> set (dbClients c).
      \<forall>e \<in> set (client_emissions k (oca_servers oca) (oca_clients oca) i). \<not> (em_field e = f \<and> em_labels e = lvs)"
  proof -
    have "w = v" using quiet by (intro same) simp
    with conjunct2 [OF conjunct2 [OF IH]] quiet exported w show ?thesis unfolding outs by simp
  qed
  have "length outs = length (oca # ocas)" using conjunct1 [OF IH] by (simp add: outs)
  with first second show ?case by blast
qed

text \<open>After the database of the example is dropped, its size is still exported.\<close>

definition stale_collector :: "(refvec, refvec) collector" where
  "stale_collector = the (run_emissions ref_prom [SetG ''sizeBytes'' (f64_of_int 42) [''a'', ''b'']] demo_collector)"

definition emptied_server :: "nat \<Rightarrow> server" where
  "emptied_server i = down\<lparr>q_PgDatabaseSize := (\<lambda>_. Inr [])\<rparr>"

lemma stale_run:
  "run_emissions ref_prom [SetG ''sizeBytes'' (f64_of_int 42) [''a'', ''b'']] demo_collector = Some stale_collector"
proof -
  have "run_emissions ref_prom [SetG ''sizeBytes'' (f64_of_int 42) [''a'', ''b'']] demo_collector \<noteq> None"
    by (simp add: run_emissions_Cons demo_collector_def New_kind.simps NewPgDatabaseSizeCollector_def
        gaugeFactoryRawPg_def ref_prom_def ref_put_def)
  then show ?thesis by (auto simp: stale_collector_def)
qed

definition emptied :: occasion where
  "emptied = \<lparr>oca_wait = first_error, oca_sched = [], oca_servers = emptied_server, oca_clients = demo_clients\<rparr>"

lemma emptied_none: "scrape_kind PgDatabaseSize (emptied_server i) (demo_clients i) = (([], None), demo_state 160004)"
  by (simp add: scrape_kind.simps PgDatabaseSizeCollector_scrape_def SelectPgDatabaseSize_def emptied_server_def
      demo_clients_def PgDatabaseSizeCollector_emit_def singles_def)

lemma emptied_scrape:
  obtains out where "Scrape_kind PgDatabaseSize ref_prom first_error [] emptied_server demo_clients stale_collector = Some out"
    and "oc_err out = None" and "oc_collector out = stale_collector"
proof -
  note b = run_built [OF ref.prom_vecs_axioms demo_scrape(3) stale_run]
  have "first_error (map (client_error PgDatabaseSize emptied_server demo_clients) [0]) = None"
    by (simp add: first_error_None client_error_def emptied_none)
  then show ?thesis using that by (simp add: Scrape_kind_eq b demo_scrape scrape_order_def emptied_none)
qed

theorem stale_series_persist_witness:
  "\<exists>out1 out2. Scrapes PgDatabaseSize ref_prom [emptied, emptied] stale_collector = Some [out1, out2] \<and>
     (\<exists>m. m \<in> set (oc_metrics out2) \<and> m_labels m = [''a'', ''b''] \<and> m_value m = f64_of_int 42)"
proof -
  note b = run_built [OF ref.prom_vecs_axioms demo_scrape(3) stale_run]
  obtain out where out:
    "Scrape_kind PgDatabaseSize ref_prom first_error [] emptied_server demo_clients stale_collector = Some out"
    "oc_err out = None" "oc_collector out = stale_collector" by (rule emptied_scrape)
  have two: "Scrapes PgDatabaseSize ref_prom [emptied, emptied] stale_collector = Some [out, out]"
    by (simp add: emptied_def out)
  have d: "(''sizeBytes'', False, snd (snd (hd (schema_of ref_prom stale_collector)))) \<in>
      set (schema_of ref_prom stale_collector)"
    unfolding conjunct1 [OF conjunct2 [OF b]] by (simp add: schema_of_def demo_collector_def New_kind.simps NewPgDatabaseSizeCollector_def)
  have v: "series ref_prom stale_collector ''sizeBytes'' [''a'', ''b''] = Some (f64_of_int 42)"
    unfolding stale_collector_def
    by (simp add: run_emissions_Cons demo_collector_def New_kind.simps NewPgDatabaseSizeCollector_def
        gaugeFactoryRawPg_def ref_prom_def ref_put_def series_def put_field_def ref_value_def)
  have quiet: "client_emissions PgDatabaseSize emptied_server demo_clients i = []" for i
    by (simp add: client_emissions_def emptied_none)
  have "\<forall>o1 \<in> set [out, out]. series ref_prom (oc_collector o1) ''sizeBytes'' [''a'', ''b''] = Some (f64_of_int 42) \<and>
      (oc_err o1 = None \<longrightarrow> \<lparr>m_desc = snd (snd (hd (schema_of ref_prom stale_collector))), m_labels = [''a'', ''b''],
         m_value = f64_of_int 42\<rparr> \<in> set (oc_metrics o1))"
    by (rule mp [OF conjunct2 [OF conjunct2 [OF stale_series_persist [OF ref.prom_vecs_axioms conjunct1 [OF b] two d v]]]])
      (simp add: emptied_def quiet)
  then show ?thesis using two out(2) by force
qed

end
