(* ===== verification/Spec.thy ===== *)
theory Spec
  imports Collector
begin

text \<open>
  \<open>exporter/collectors/spec.go\<close>: the collector that is driven by a declarative \<open>CollectorSpec\<close>
  instead of Go code. What pgx returns for the SQL of a spec is an argument: the column names,
  the values of each row or the error of decoding it, and the final error. A scanned value is an
  \<open>any\<close>, tagged with its Go type; the text that \<open>fmt\<close> or a \<open>String\<close> method prints for a value
  that is not a string, an integer or a boolean is part of the value.
\<close>

subsection \<open>Specs\<close>

text \<open>\<open>prometheus.ValueType\<close>; the zero value means that the type is not set.\<close>

datatype ValueType = UnsetValue | CounterValue | GaugeValue | UntypedValue

record MetricSpec =
  ms_Name :: string
  ms_Help :: string
  ms_Type :: ValueType
  ms_Column :: string
  ms_Scale :: f64
  ms_TimestampAsUnix :: bool

record CollectorSpec =
  sp_Subsystem :: string
  sp_Namespace :: string
  sp_SQL :: string
  sp_MinPGVersion :: "int \<times> int"
  sp_Labels :: "string list"
  sp_Metrics :: "MetricSpec list"

subsection \<open>Scanned values\<close>

datatype any =
    VNil
  | VString string
  | VBytes string
  | VBool bool
  | VInt "64 word"
  | VInt16 "16 word"
  | VInt32 "32 word"
  | VInt64 "64 word"
  | VFloat32 f64 string
  | VFloat64 f64 string
  | VTime gotime string
  | VOther string

fun coerceString :: "any \<Rightarrow> string" where
  "coerceString VNil = []"
| "coerceString (VString x) = x"
| "coerceString (VBytes x) = x"
| "coerceString (VBool b) = FormatBool b"
| "coerceString (VInt w) = Itoa (sint w)"
| "coerceString (VInt16 w) = Itoa (sint w)"
| "coerceString (VInt32 w) = Itoa (sint w)"
| "coerceString (VInt64 w) = Itoa (sint w)"
| "coerceString (VFloat32 _ t) = t"
| "coerceString (VFloat64 _ t) = t"
| "coerceString (VTime _ t) = t"
| "coerceString (VOther t) = t"

fun coerceFloat :: "any \<Rightarrow> bool \<Rightarrow> f64 \<times> bool" where
  "coerceFloat (VInt w) tsAsUnix = (f64_of_int (sint w), True)"
| "coerceFloat (VInt32 w) tsAsUnix = (f64_of_int (sint w), True)"
| "coerceFloat (VInt64 w) tsAsUnix = (f64_of_int64 w, True)"
| "coerceFloat (VFloat32 x _) tsAsUnix = (x, True)"
| "coerceFloat (VFloat64 x _) tsAsUnix = (x, True)"
| "coerceFloat (VTime t _) tsAsUnix = (if tsAsUnix then (f64_of_int64 (Unix t), True) else (f64_zero, False))"
| "coerceFloat _ tsAsUnix = (f64_zero, False)"

subsection \<open>The collector\<close>

record ('cv, 'gv) SpecCollector =
  sc_spec :: CollectorSpec
  sc_dbClients :: "nat list"
  sc_counter :: "'cv counterDelta option list"
  sc_gauge :: "'gv option list"

definition vtype_of :: "MetricSpec \<Rightarrow> ValueType" where
  "vtype_of m =
     (let vtype = ms_Type m;
          vtype = (if vtype = UnsetValue then GaugeValue else vtype);
          vtype = (if ms_TimestampAsUnix m then GaugeValue else vtype)
      in vtype)"

text \<open>\<open>None\<close> is the panic on an invalid spec.\<close>

definition NewSpecCollector :: "('cv, 'gv) prom \<Rightarrow> namespaces \<Rightarrow> CollectorSpec \<Rightarrow> nat list \<Rightarrow>
    ('cv, 'gv) SpecCollector option" where
  "NewSpecCollector P g spec clients =
     (if sp_Subsystem spec = [] then None
      else if sp_SQL spec = [] then None
      else if sp_Metrics spec = [] then None
      else
        let ns = (if sp_Namespace spec = [] then namespace g else sp_Namespace spec);
            labels = ''database'' # sp_Labels spec;
            counter = (\<lambda>m. if vtype_of m = CounterValue
              then Some (newCounterDelta (NewCounterVec P (vec_opts ns (sp_Subsystem spec) (ms_Name m) (ms_Help m)) labels))
              else None);
            gauge = (\<lambda>m. if vtype_of m = CounterValue then None
              else Some (NewGaugeVec P (vec_opts ns (sp_Subsystem spec) (ms_Name m) (ms_Help m)) labels))
        in if \<exists>m \<in> set (sp_Metrics spec). ms_Name m = [] \<or> ms_Column m = [] then None
           else Some \<lparr>sc_spec = spec, sc_dbClients = clients,
                       sc_counter = map counter (sp_Metrics spec),
                       sc_gauge = map gauge (sp_Metrics spec)\<rparr>)"

definition SpecCollector_Describe :: "('cv, 'gv) prom \<Rightarrow> ('cv, 'gv) SpecCollector \<Rightarrow> desc list" where
  "SpecCollector_Describe P c =
     concat (map (\<lambda>cd. case cd of None \<Rightarrow> [] | Some cd \<Rightarrow> cd_Describe P cd) (sc_counter c)) @
     concat (map (\<lambda>gv. case gv of None \<Rightarrow> [] | Some gv \<Rightarrow> [GaugeDesc P gv]) (sc_gauge c))"

definition SpecCollector_collectInto :: "('cv, 'gv) prom \<Rightarrow> ('cv, 'gv) SpecCollector \<Rightarrow> metric list" where
  "SpecCollector_collectInto P c =
     concat (map (\<lambda>cd. case cd of None \<Rightarrow> [] | Some cd \<Rightarrow> cd_Collect P cd) (sc_counter c)) @
     concat (map (\<lambda>gv. case gv of None \<Rightarrow> [] | Some gv \<Rightarrow> GaugeCollect P gv) (sc_gauge c))"

subsection \<open>Reading a result\<close>

record rows =
  rows_columns :: "string list"
  rows_values :: "(error + any list) list"
  rows_err :: "error option"

text \<open>The map from a column name to its index; of two columns of one name the last one counts.\<close>

definition colIdx :: "string list \<Rightarrow> string \<Rightarrow> nat option" where
  "colIdx cols = map_of (rev (zip cols [0..<length cols]))"

text \<open>The verb \<open>%q\<close> on text without control characters.\<close>

definition quoted :: "string \<Rightarrow> string" where
  "quoted s = [CHR 0x22] @ concat (map (\<lambda>c. if c = CHR 0x22 \<or> c = CHR 0x5C then [CHR 0x5C, c] else [c]) s) @ [CHR 0x22]"

definition spec_prefix :: "CollectorSpec \<Rightarrow> string" where
  "spec_prefix spec = ''spec('' @ sp_Subsystem spec @ ''): ''"

text \<open>The checks before the first row is read.\<close>

definition column_error :: "CollectorSpec \<Rightarrow> (string \<Rightarrow> nat option) \<Rightarrow> error option" where
  "column_error spec idx =
     (if idx ''database'' = None
      then Some (spec_prefix spec @ ''SELECT must return a 'database' column'')
      else case filter (\<lambda>l. idx l = None) (sp_Labels spec) of
        lbl # _ \<Rightarrow> Some (spec_prefix spec @ ''label column '' @ quoted lbl @ '' missing from SELECT'')
      | [] \<Rightarrow>
          (case filter (\<lambda>m. idx (ms_Column m) = None) (sp_Metrics spec) of
             m # _ \<Rightarrow> Some (spec_prefix spec @ ''metric column '' @ quoted (ms_Column m) @ '' missing from SELECT'')
           | [] \<Rightarrow> None))"

text \<open>A call on the \<open>i\<close>-th metric of the collector with a value and labels.\<close>

type_synonym spec_emission = "nat \<times> f64 \<times> string list"

fun apply_spec_emission :: "('cv, 'gv) prom \<Rightarrow> spec_emission \<Rightarrow> ('cv, 'gv) SpecCollector \<Rightarrow>
    ('cv, 'gv) SpecCollector option" where
  "apply_spec_emission P (i, v, lvs) c =
     (if length (sc_counter c) \<le> i then None
      else case sc_counter c ! i of
        Some cd \<Rightarrow> map_option (\<lambda>cd'. c\<lparr>sc_counter := (sc_counter c)[i := Some cd']\<rparr>) (Observe P v lvs cd)
      | None \<Rightarrow>
          (if length (sc_gauge c) \<le> i then None
           else case sc_gauge c ! i of
             Some gv \<Rightarrow> map_option (\<lambda>gv'. c\<lparr>sc_gauge := (sc_gauge c)[i := Some gv']\<rparr>) (GaugeSet P gv lvs v)
           | None \<Rightarrow> None))"

text \<open>The value of a column of a row; an index outside the row panics.\<close>

definition column :: "(string \<Rightarrow> nat option) \<Rightarrow> any list \<Rightarrow> string \<Rightarrow> any option" where
  "column idx values name =
     (let i = (case idx name of Some i \<Rightarrow> i | None \<Rightarrow> 0)
      in if i < length values then Some (values ! i) else None)"

definition metric_emission :: "MetricSpec \<Rightarrow> nat \<Rightarrow> string list \<Rightarrow> any \<Rightarrow> spec_emission list" where
  "metric_emission m i labels raw =
     (if raw = VNil then []
      else case coerceFloat raw (ms_TimestampAsUnix m) of
        (val, ok) \<Rightarrow>
          if \<not> ok then []
          else let val = (if f64_is_zero (ms_Scale m) then val else f64_mul val (ms_Scale m))
               in [(i, val, labels)])"

fun collect_some :: "'a option list \<Rightarrow> 'a list option" where
  "collect_some [] = Some []"
| "collect_some (x # xs) = (case (x, collect_some xs) of (Some y, Some ys) \<Rightarrow> Some (y # ys) | _ \<Rightarrow> None)"

definition row_emissions :: "CollectorSpec \<Rightarrow> (string \<Rightarrow> nat option) \<Rightarrow> any list \<Rightarrow> spec_emission list option" where
  "row_emissions spec idx values =
     (case collect_some (map (column idx values) (''database'' # sp_Labels spec)) of
        None \<Rightarrow> None
      | Some ls \<Rightarrow>
          let labels = map coerceString ls
          in map_option concat (collect_some (map (\<lambda>(i, m).
               map_option (metric_emission m i labels) (column idx values (ms_Column m)))
               (enumerate 0 (sp_Metrics spec)))))"

fun read_rows :: "CollectorSpec \<Rightarrow> (string \<Rightarrow> nat option) \<Rightarrow> (error + any list) list \<Rightarrow> error option \<Rightarrow>
    (spec_emission list \<times> error option) option" where
  "read_rows spec idx [] err = Some ([], err)"
| "read_rows spec idx (Inl e # rest) err = Some ([], Some (''row values: '' @ e))"
| "read_rows spec idx (Inr values # rest) err =
     (case row_emissions spec idx values of
        None \<Rightarrow> None
      | Some es \<Rightarrow> map_option (\<lambda>(es', err'). (es @ es', err')) (read_rows spec idx rest err))"

definition spec_gate :: "CollectorSpec \<Rightarrow> cstate \<Rightarrow> bool \<times> cstate" where
  "spec_gate spec s =
     (if 0 < fst (sp_MinPGVersion spec)
      then AtLeast (fst (sp_MinPGVersion spec)) (snd (sp_MinPGVersion spec)) s else (True, s))"

definition SpecCollector_scrape :: "CollectorSpec \<Rightarrow> (string \<Rightarrow> error + rows) \<Rightarrow> cstate \<Rightarrow>
    (spec_emission list \<times> error option) option \<times> cstate" where
  "SpecCollector_scrape spec query s =
     (case spec_gate spec s of (open_gate, s) \<Rightarrow>
      if \<not> open_gate then (Some ([], None), s)
      else case Client_Query query (sp_SQL spec) of
          Inl e \<Rightarrow> (Some ([], Some (''query: '' @ e)), s)
        | Inr rs \<Rightarrow>
            let idx = colIdx (rows_columns rs)
            in (case column_error spec idx of
                  Some e \<Rightarrow> (Some ([], Some e), s)
                | None \<Rightarrow> (read_rows spec idx (rows_values rs) (rows_err rs), s)))"

record ('cv, 'gv) spec_outcome =
  so_metrics :: "metric list"
  so_err :: "error option"
  so_collector :: "('cv, 'gv) SpecCollector"
  so_clients :: "nat \<Rightarrow> cstate"

definition SpecCollector_Scrape :: "('cv, 'gv) prom \<Rightarrow> (error option list \<Rightarrow> error option) \<Rightarrow> nat list \<Rightarrow>
    (nat \<Rightarrow> string \<Rightarrow> error + rows) \<Rightarrow> (nat \<Rightarrow> cstate) \<Rightarrow> ('cv, 'gv) SpecCollector \<Rightarrow>
    ('cv, 'gv) spec_outcome option" where
  "SpecCollector_Scrape P wait sched query cl c =
     (let spec = sc_spec c;
          cl' = (\<lambda>i. if i \<in> set (sc_dbClients c) then snd (SpecCollector_scrape spec (query i) (cl i)) else cl i)
      in case collect_some (map (\<lambda>i. fst (SpecCollector_scrape spec (query i) (cl i))) (sc_dbClients c)) of
           None \<Rightarrow> None
         | Some results \<Rightarrow>
             (case fold_opt (apply_spec_emission P) (interleave sched (map fst results)) c of
                None \<Rightarrow> None
              | Some c' \<Rightarrow>
                  (case wait (map snd results) of
                     Some e \<Rightarrow> Some \<lparr>so_metrics = [], so_err = Some (spec_prefix spec @ e),
                                      so_collector = c', so_clients = cl'\<rparr>
                   | None \<Rightarrow> Some \<lparr>so_metrics = SpecCollector_collectInto P c', so_err = None,
                                    so_collector = c', so_clients = cl'\<rparr>)))"

subsection \<open>Lemmas\<close>

lemma collect_some_None: "None \<in> set xs \<Longrightarrow> collect_some xs = None"
  by (induction xs) (auto split: option.split)

lemma collect_some_map: "(\<And>x. x \<in> set xs \<Longrightarrow> f x = Some (h x)) \<Longrightarrow> collect_some (map f xs) = Some (map h xs)"
  by (induction xs) auto

lemma collect_some_length: "collect_some xs = Some ys \<Longrightarrow> length ys = length xs"
  by (induction xs arbitrary: ys) (auto split: option.splits)

lemma collect_some_nth: "collect_some xs = Some ys \<Longrightarrow> i < length xs \<Longrightarrow> xs ! i = Some (ys ! i)"
  by (induction xs arbitrary: ys i) (auto simp: nth_Cons split: option.splits nat.splits)

lemma collect_some_set: "collect_some xs = Some ys \<Longrightarrow> set xs = Some ` set ys"
  by (induction xs arbitrary: ys) (auto split: option.splits)

lemma colIdx_None: "colIdx cols n = None \<longleftrightarrow> n \<notin> set cols"
proof -
  have "fst ` set (zip cols [0..<length cols]) = set cols"
    by (metis length_upt map_fst_zip minus_nat.diff_0 set_map)
  then show ?thesis by (simp add: colIdx_def map_of_eq_None_iff)
qed

lemma colIdx_Some: "colIdx cols n = Some i \<Longrightarrow> i < length cols \<and> cols ! i = n"
  by (auto simp: colIdx_def set_zip dest!: map_of_SomeD)

lemma column_error_None_iff:
  "column_error spec (colIdx cols) = None \<longleftrightarrow>
     ''database'' \<in> set cols \<and> set (sp_Labels spec) \<subseteq> set cols \<and> ms_Column ` set (sp_Metrics spec) \<subseteq> set cols"
  by (auto simp: column_error_def colIdx_None filter_empty_conv split: list.splits
      dest!: filter_eq_ConsD)

text \<open>The state of a collector that its constructor establishes and its calls keep: for each
  metric one vector, a counter exactly when the metric is one, with the labels of the spec.\<close>

definition spec_built :: "('cv, 'gv) prom \<Rightarrow> ('cv, 'gv) SpecCollector \<Rightarrow> bool" where
  "spec_built P c \<longleftrightarrow>
     length (sc_counter c) = length (sp_Metrics (sc_spec c)) \<and>
     length (sc_gauge c) = length (sp_Metrics (sc_spec c)) \<and>
     (\<forall>i < length (sp_Metrics (sc_spec c)).
        if vtype_of (sp_Metrics (sc_spec c) ! i) = CounterValue
        then \<exists>cd. sc_counter c ! i = Some cd \<and> snd (CounterDesc P (cd_vec cd)) = ''database'' # sp_Labels (sc_spec c)
        else sc_counter c ! i = None \<and>
          (\<exists>gv. sc_gauge c ! i = Some gv \<and> snd (GaugeDesc P gv) = ''database'' # sp_Labels (sc_spec c)))"

lemma NewSpecCollector_Some:
  "NewSpecCollector P g spec cs = Some c \<Longrightarrow> sc_spec c = spec \<and> sc_dbClients c = cs"
  by (auto simp: NewSpecCollector_def Let_def split: if_splits)

lemma NewSpecCollector_built:
  "prom_vecs P \<Longrightarrow> NewSpecCollector P g spec cs = Some c \<Longrightarrow> spec_built P c"
  by (auto simp: NewSpecCollector_def Let_def spec_built_def newCounterDelta_def
      prom_counters.counter_new_desc [OF prom_vecs.axioms(1)] prom_gauges.gauge_new_desc [OF prom_vecs.axioms(2)]
      split: if_splits)

definition spec_benign :: "('cv, 'gv) prom \<Rightarrow> CollectorSpec \<Rightarrow> spec_emission \<Rightarrow> bool" where
  "spec_benign P spec e \<longleftrightarrow> (case e of (i, v, lvs) \<Rightarrow>
     (vtype_of (sp_Metrics spec ! i) = CounterValue \<longrightarrow> \<not> f64_less v f64_zero) \<and>
     (\<forall>l \<in> set lvs. LabelValueOK P l))"

definition spec_shape :: "CollectorSpec \<Rightarrow> spec_emission \<Rightarrow> bool" where
  "spec_shape spec e \<longleftrightarrow> (case e of (i, v, lvs) \<Rightarrow>
     i < length (sp_Metrics spec) \<and> length lvs = Suc (length (sp_Labels spec)))"

lemma apply_spec_total:
  assumes "prom_vecs P" and "spec_built P c" and "spec_shape (sc_spec c) e" and "spec_benign P (sc_spec c) e"
  shows "\<exists>c'. apply_spec_emission P e c = Some c' \<and> spec_built P c' \<and> sc_spec c' = sc_spec c"
proof -
  obtain i v lvs where e: "e = (i, v, lvs)" by (cases e)
  let ?m = "sp_Metrics (sc_spec c)"
  have i: "i < length ?m" and len: "length lvs = Suc (length (sp_Labels (sc_spec c)))"
    using assms(3) e by (auto simp: spec_shape_def)
  have lens: "length (sc_counter c) = length ?m" "length (sc_gauge c) = length ?m"
    using assms(2) by (simp_all add: spec_built_def)
  have slot: "if vtype_of (?m ! i) = CounterValue
      then \<exists>cd. sc_counter c ! i = Some cd \<and> snd (CounterDesc P (cd_vec cd)) = ''database'' # sp_Labels (sc_spec c)
      else sc_counter c ! i = None \<and>
        (\<exists>gv. sc_gauge c ! i = Some gv \<and> snd (GaugeDesc P gv) = ''database'' # sp_Labels (sc_spec c))"
    using assms(2) i unfolding spec_built_def by blast
  show ?thesis
  proof (cases "vtype_of (?m ! i) = CounterValue")
    case True
    then obtain cd where cd: "sc_counter c ! i = Some cd"
      "snd (CounterDesc P (cd_vec cd)) = ''database'' # sp_Labels (sc_spec c)"
      using slot by auto
    have "fits P (CounterDesc P (cd_vec cd)) lvs" "\<not> f64_less v f64_zero"
      using assms(4) cd(2) len True e by (auto simp: fits_def spec_benign_def)
    then obtain cd' where cd': "Observe P v lvs cd = Some cd'"
      using prom_counters.Observe_None_iff [OF prom_vecs.axioms(1) [OF assms(1)]] by blast
    note d = prom_counters.Observe_desc [OF prom_vecs.axioms(1) [OF assms(1)] cd']
    have "apply_spec_emission P e c = Some (c\<lparr>sc_counter := (sc_counter c)[i := Some cd']\<rparr>)"
      using cd cd' i lens e by simp
    moreover have "spec_built P (c\<lparr>sc_counter := (sc_counter c)[i := Some cd']\<rparr>)"
      using assms(2) i lens True d cd(2) by (auto simp: spec_built_def nth_list_update)
    ultimately show ?thesis by simp
  next
    case False
    then obtain gv where gv: "sc_counter c ! i = None" "sc_gauge c ! i = Some gv"
      "snd (GaugeDesc P gv) = ''database'' # sp_Labels (sc_spec c)"
      using slot by auto
    have "fits P (GaugeDesc P gv) lvs"
      using assms(4) gv(3) len e by (auto simp: fits_def spec_benign_def)
    then obtain gv' where gv': "GaugeSet P gv lvs v = Some gv'"
      using prom_gauges.gauge_set_ok [OF prom_vecs.axioms(2) [OF assms(1)]] by blast
    note d = prom_gauges.gauge_set_desc [OF prom_vecs.axioms(2) [OF assms(1)] gv']
    have "apply_spec_emission P e c = Some (c\<lparr>sc_gauge := (sc_gauge c)[i := Some gv']\<rparr>)"
      using gv gv' i lens e by simp
    moreover have "spec_built P (c\<lparr>sc_gauge := (sc_gauge c)[i := Some gv']\<rparr>)"
      using assms(2) i lens False d gv(3) by (auto simp: spec_built_def nth_list_update)
    ultimately show ?thesis by simp
  qed
qed

lemma run_spec_total:
  assumes "prom_vecs P" and "spec_built P c"
    and "\<forall>e \<in> set es. spec_shape (sc_spec c) e \<and> spec_benign P (sc_spec c) e"
  shows "\<exists>c'. fold_opt (apply_spec_emission P) es c = Some c' \<and> spec_built P c' \<and> sc_spec c' = sc_spec c"
proof -
  let ?I = "\<lambda>c'. spec_built P c' \<and> sc_spec c' = sc_spec c"
  have "\<exists>c'. fold_opt (apply_spec_emission P) es c = Some c' \<and> ?I c'"
  proof (rule fold_opt_total [where I = ?I])
    fix e c'
    assume "e \<in> set es" "?I c'"
    then show "\<exists>c''. apply_spec_emission P e c' = Some c'' \<and> ?I c''"
      using apply_spec_total [OF assms(1), of c' e] assms(3) by auto
  qed (use assms(2) in simp)
  then show ?thesis .
qed

lemma metric_emission_shape:
  assumes "(i, m) \<in> set (enumerate 0 (sp_Metrics spec))"
    and "e \<in> set (metric_emission m i labels raw)"
    and "length labels = Suc (length (sp_Labels spec))"
  shows "spec_shape spec e"
  using assms by (auto simp: metric_emission_def spec_shape_def in_set_enumerate_eq Let_def
      split: prod.splits if_splits)

text \<open>Rows as wide as the result are read without a panic, and give emissions of the right shape.\<close>

lemma row_emissions_wide:
  assumes "column_error spec (colIdx cols) = None" and "length vals = length cols"
  shows "\<exists>es. row_emissions spec (colIdx cols) vals = Some es \<and> (\<forall>e \<in> set es. spec_shape spec e)"
proof -
  let ?get = "\<lambda>n. vals ! the (colIdx cols n)"
  have col: "column (colIdx cols) vals n = Some (?get n)" if "n \<in> set cols" for n
  proof -
    from that obtain i where i: "colIdx cols n = Some i" using colIdx_None by fastforce
    with colIdx_Some [OF i] assms(2) show ?thesis by (simp add: column_def)
  qed
  note present = assms(1) [unfolded column_error_None_iff]
  let ?labels = "map (coerceString \<circ> ?get) (''database'' # sp_Labels spec)"
  have "collect_some (map (column (colIdx cols) vals) (''database'' # sp_Labels spec))
      = Some (map ?get (''database'' # sp_Labels spec))"
    by (rule collect_some_map) (use present col in auto)
  moreover have "collect_some (map (\<lambda>(i, m). map_option (metric_emission m i ?labels) (column (colIdx cols) vals (ms_Column m)))
        (enumerate 0 (sp_Metrics spec)))
      = Some (map (\<lambda>(i, m). metric_emission m i ?labels (?get (ms_Column m))) (enumerate 0 (sp_Metrics spec)))"
  proof (rule collect_some_map)
    fix x
    assume x: "x \<in> set (enumerate 0 (sp_Metrics spec))"
    obtain i m where im: "x = (i, m)" by (cases x)
    with x have "m \<in> set (sp_Metrics spec)"
      by (auto simp: in_set_enumerate_eq)
    with present col [of "ms_Column m"] im
    show "(case x of (i, m) \<Rightarrow> map_option (metric_emission m i ?labels) (column (colIdx cols) vals (ms_Column m)))
      = Some (case x of (i, m) \<Rightarrow> metric_emission m i ?labels (?get (ms_Column m)))"
      by auto
  qed
  ultimately have es: "row_emissions spec (colIdx cols) vals
      = Some (concat (map (\<lambda>(i, m). metric_emission m i ?labels (?get (ms_Column m))) (enumerate 0 (sp_Metrics spec))))"
    unfolding row_emissions_def by (simp add: o_def)
  have "spec_shape spec e"
    if "e \<in> set (concat (map (\<lambda>(i, m). metric_emission m i ?labels (?get (ms_Column m))) (enumerate 0 (sp_Metrics spec))))" for e
  proof -
    from that obtain i m where "(i, m) \<in> set (enumerate 0 (sp_Metrics spec))"
      "e \<in> set (metric_emission m i ?labels (?get (ms_Column m)))"
      unfolding set_concat set_map by fast
    then show ?thesis by (rule metric_emission_shape) simp
  qed
  with es show ?thesis by blast
qed

lemma read_rows_wide:
  assumes "column_error spec (colIdx cols) = None"
    and "\<forall>vals. Inr vals \<in> set rws \<longrightarrow> length vals = length cols"
  shows "\<exists>es err'. read_rows spec (colIdx cols) rws err = Some (es, err') \<and> (\<forall>e \<in> set es. spec_shape spec e)"
  using assms(2)
proof (induction rws)
  case Nil
  then show ?case by simp
next
  case (Cons r rws)
  show ?case
  proof (cases r)
    case (Inl e)
    then show ?thesis by simp
  next
    case (Inr vals)
    with Cons.prems row_emissions_wide [OF assms(1), of vals] Cons.IH show ?thesis by fastforce
  qed
qed

lemma scrape_wide:
  assumes "\<forall>rs. query (sp_SQL spec) = Inr rs \<longrightarrow>
      (\<forall>vals. Inr vals \<in> set (rows_values rs) \<longrightarrow> length vals = length (rows_columns rs))"
  shows "\<exists>es err. fst (SpecCollector_scrape spec query s) = Some (es, err) \<and> (\<forall>e \<in> set es. spec_shape spec e)"
proof (cases "fst (spec_gate spec s)")
  case False
  then show ?thesis by (simp add: SpecCollector_scrape_def case_prod_beta)
next
  case True
  show ?thesis
  proof (cases "query (sp_SQL spec)")
    case (Inl e)
    with True show ?thesis by (simp add: SpecCollector_scrape_def case_prod_beta Client_Query_def)
  next
    case (Inr rs)
    show ?thesis
    proof (cases "column_error spec (colIdx (rows_columns rs))")
      case None
      from read_rows_wide [OF this, of "rows_values rs" "rows_err rs"] assms Inr True None
      show ?thesis by (auto simp: SpecCollector_scrape_def case_prod_beta Client_Query_def Let_def)
    next
      case (Some e)
      with Inr True show ?thesis
        by (simp add: SpecCollector_scrape_def case_prod_beta Client_Query_def Let_def)
    qed
  qed
qed

lemma SpecCollector_Scrape_benign:
  assumes "prom_vecs P" and "spec_built P c"
    and "\<forall>i rs vals. query i (sp_SQL (sc_spec c)) = Inr rs \<and> Inr vals \<in> set (rows_values rs) \<longrightarrow>
      length vals = length (rows_columns rs)"
    and "\<forall>i es err e. fst (SpecCollector_scrape (sc_spec c) (query i) (cl i)) = Some (es, err) \<and> e \<in> set es \<longrightarrow>
      spec_benign P (sc_spec c) e"
  shows "\<exists>out. SpecCollector_Scrape P wait sched query cl c = Some out \<and> spec_built P (so_collector out)"
proof -
  let ?run = "\<lambda>i. fst (SpecCollector_scrape (sc_spec c) (query i) (cl i))"
  have some: "\<exists>es err. ?run i = Some (es, err) \<and> (\<forall>e \<in> set es. spec_shape (sc_spec c) e)" for i
    by (rule scrape_wide) (use assms(3) in blast)
  have "collect_some (map ?run (sc_dbClients c)) = Some (map (\<lambda>i. the (?run i)) (sc_dbClients c))"
  proof (rule collect_some_map)
    fix i
    show "?run i = Some (the (?run i))" using some [of i] by auto
  qed
  moreover have "\<forall>e \<in> set (interleave sched (map fst (map (\<lambda>i. the (?run i)) (sc_dbClients c)))).
      spec_shape (sc_spec c) e \<and> spec_benign P (sc_spec c) e"
  proof
    fix e
    assume "e \<in> set (interleave sched (map fst (map (\<lambda>i. the (?run i)) (sc_dbClients c))))"
    then obtain i where "e \<in> set (fst (the (?run i)))" by auto
    with some [of i] assms(4) show "spec_shape (sc_spec c) e \<and> spec_benign P (sc_spec c) e" by fastforce
  qed
  from run_spec_total [OF assms(1,2) this] obtain c' where
    "fold_opt (apply_spec_emission P) (interleave sched (map fst (map (\<lambda>i. the (?run i)) (sc_dbClients c)))) c = Some c'"
    "spec_built P c'" by blast
  ultimately show ?thesis
    by (auto simp: SpecCollector_Scrape_def Let_def split: option.split)
qed

subsection \<open>Properties\<close>

text \<open>
  \<open>NewSpecCollector\<close> panics exactly on a spec without subsystem, SQL or metrics, or with a
  metric that lacks its name or its column. Otherwise every metric gets one vector, a counter
  exactly when it is declared one and is not a timestamp, labelled by \<open>database\<close> and the labels
  of the spec, and \<open>Describe\<close> announces one descriptor per metric.
\<close>

theorem NewSpecCollector_valid:
  assumes "prom_vecs P"
  shows "(NewSpecCollector P g spec cs = None \<longleftrightarrow>
      sp_Subsystem spec = [] \<or> sp_SQL spec = [] \<or> sp_Metrics spec = [] \<or>
      (\<exists>m \<in> set (sp_Metrics spec). ms_Name m = [] \<or> ms_Column m = [])) \<and>
    (\<forall>c. NewSpecCollector P g spec cs = Some c \<longrightarrow>
      spec_built P c \<and> length (SpecCollector_Describe P c) = length (sp_Metrics spec))"
proof (intro conjI allI impI)
  show "NewSpecCollector P g spec cs = None \<longleftrightarrow>
      sp_Subsystem spec = [] \<or> sp_SQL spec = [] \<or> sp_Metrics spec = [] \<or>
      (\<exists>m \<in> set (sp_Metrics spec). ms_Name m = [] \<or> ms_Column m = [])"
    by (auto simp: NewSpecCollector_def Let_def)
next
  fix c
  assume c: "NewSpecCollector P g spec cs = Some c"
  then show "spec_built P c" by (rule NewSpecCollector_built [OF assms])
  have one: "length (concat (map (\<lambda>cd. case cd of None \<Rightarrow> [] | Some cd \<Rightarrow> cd_Describe P cd) (map f ms))) +
      length (concat (map (\<lambda>gv. case gv of None \<Rightarrow> [] | Some gv \<Rightarrow> [GaugeDesc P gv]) (map h ms))) = length ms"
    if "\<And>m. (f m = None) = (h m \<noteq> None)" for f h and ms :: "MetricSpec list"
  proof (induction ms)
    case (Cons m ms)
    then show ?case using that [of m] by (auto simp: cd_Describe_def split: option.splits)
  qed simp
  let ?ns = "if sp_Namespace spec = [] then namespace g else sp_Namespace spec"
  let ?opts = "\<lambda>m. vec_opts ?ns (sp_Subsystem spec) (ms_Name m) (ms_Help m)"
  let ?f = "\<lambda>m. if vtype_of m = CounterValue
    then Some (newCounterDelta (NewCounterVec P (?opts m) (''database'' # sp_Labels spec))) else None"
  let ?h = "\<lambda>m. if vtype_of m = CounterValue then None else Some (NewGaugeVec P (?opts m) (''database'' # sp_Labels spec))"
  have vecs: "sc_counter c = map ?f (sp_Metrics spec)" "sc_gauge c = map ?h (sp_Metrics spec)"
    using c by (auto simp: NewSpecCollector_def Let_def split: if_splits)
  show "length (SpecCollector_Describe P c) = length (sp_Metrics spec)"
    unfolding SpecCollector_Describe_def length_append vecs by (rule one) simp
qed

definition demo_spec :: CollectorSpec where
  "demo_spec = \<lparr>sp_Subsystem = ''rates'', sp_Namespace = [], sp_SQL = ''SELECT 1'', sp_MinPGVersion = (14, 0),
     sp_Labels = [''key''], sp_Metrics = [\<lparr>ms_Name = ''events_total'', ms_Help = [], ms_Type = CounterValue,
       ms_Column = ''c'', ms_Scale = f64_zero, ms_TimestampAsUnix = False\<rparr>]\<rparr>"

theorem NewSpecCollector_valid_witness:
  "NewSpecCollector ref_prom initial_namespaces demo_spec [0] \<noteq> None \<and>
   spec_built ref_prom (the (NewSpecCollector ref_prom initial_namespaces demo_spec [0])) \<and>
   length (SpecCollector_Describe ref_prom (the (NewSpecCollector ref_prom initial_namespaces demo_spec [0]))) = 1"
proof -
  note valid = NewSpecCollector_valid [OF ref.prom_vecs_axioms, of initial_namespaces demo_spec "[0]"]
  then have some: "NewSpecCollector ref_prom initial_namespaces demo_spec [0] \<noteq> None" by (simp add: demo_spec_def)
  then obtain c where c: "NewSpecCollector ref_prom initial_namespaces demo_spec [0] = Some c" by blast
  with valid have "spec_built ref_prom c \<and> length (SpecCollector_Describe ref_prom c) = length (sp_Metrics demo_spec)"
    by blast
  with c show ?thesis by (simp add: demo_spec_def)
qed

text \<open>
  C27. A client of a declarative collector is only read when its version passes the gate and the
  result has the \<open>database\<close> column, every label and every metric column: if a column is missing
  nothing at all is observed and the scrape of the client fails; if the gate is closed nothing
  is observed and no query is sent.
\<close>

theorem spec_columns_checked:
  assumes "fst (SpecCollector_scrape spec query s) = Some (es, err)"
  shows "(es \<noteq> [] \<longrightarrow> fst (spec_gate spec s) \<and> (\<exists>rs. query (sp_SQL spec) = Inr rs \<and>
        insert ''database'' (set (sp_Labels spec) \<union> ms_Column ` set (sp_Metrics spec)) \<subseteq> set (rows_columns rs))) \<and>
    (\<forall>rs. fst (spec_gate spec s) \<and> query (sp_SQL spec) = Inr rs \<and>
        \<not> insert ''database'' (set (sp_Labels spec) \<union> ms_Column ` set (sp_Metrics spec)) \<subseteq> set (rows_columns rs) \<longrightarrow>
        es = [] \<and> err \<noteq> None) \<and>
    (\<not> fst (spec_gate spec s) \<longrightarrow> es = [] \<and> err = None)"
proof (cases "fst (spec_gate spec s)")
  case False
  with assms show ?thesis by (simp add: SpecCollector_scrape_def case_prod_beta)
next
  case True
  show ?thesis
  proof (cases "query (sp_SQL spec)")
    case (Inl e)
    with True assms show ?thesis by (simp add: SpecCollector_scrape_def case_prod_beta Client_Query_def)
  next
    case (Inr rs)
    have iff: "column_error spec (colIdx (rows_columns rs)) = None \<longleftrightarrow>
        insert ''database'' (set (sp_Labels spec) \<union> ms_Column ` set (sp_Metrics spec)) \<subseteq> set (rows_columns rs)"
      by (simp add: column_error_None_iff)
    show ?thesis
    proof (cases "column_error spec (colIdx (rows_columns rs))")
      case None
      with iff Inr True show ?thesis by simp
    next
      case (Some e)
      with assms Inr True have "es = [] \<and> err = Some e"
        by (simp add: SpecCollector_scrape_def case_prod_beta Client_Query_def Let_def)
      with iff Some Inr True show ?thesis by simp
    qed
  qed
qed

theorem spec_columns_checked_witness:
  "fst (SpecCollector_scrape demo_spec (\<lambda>_. Inr \<lparr>rows_columns = [''database'', ''c''], rows_values = [], rows_err = None\<rparr>) (demo_state 160004))
     \<noteq> Some ([], None)"
proof
  let ?q = "\<lambda>_. Inr \<lparr>rows_columns = [''database'', ''c''], rows_values = [], rows_err = None\<rparr>"
  assume "fst (SpecCollector_scrape demo_spec ?q (demo_state 160004)) = Some ([], None)"
  from spec_columns_checked [OF this] show False
    by (auto simp: spec_gate_def demo_spec_def demo_state_def AtLeast_known)
qed

text \<open>
  C28. A declarative collector never panics during a scrape, whatever its SQL returns and however
  the clients interleave, as long as the rows are as wide as the result, no counter value is
  negative and the label values are acceptable to the library.
\<close>

theorem spec_scrape_never_panics:
  assumes "prom_vecs P" and "spec_built P c"
    and "\<forall>i rs vals. query i (sp_SQL (sc_spec c)) = Inr rs \<and> Inr vals \<in> set (rows_values rs) \<longrightarrow>
      length vals = length (rows_columns rs)"
    and "\<forall>i es err e. fst (SpecCollector_scrape (sc_spec c) (query i) (cl i)) = Some (es, err) \<and> e \<in> set es \<longrightarrow>
      spec_benign P (sc_spec c) e"
  shows "\<exists>out. SpecCollector_Scrape P wait sched query cl c = Some out \<and> spec_built P (so_collector out)"
  by (rule SpecCollector_Scrape_benign [OF assms])

definition demo_rows :: rows where
  "demo_rows = \<lparr>rows_columns = [''database'', ''key'', ''c''],
     rows_values = [Inr [VString ''d'', VString ''k'', VInt64 5]], rows_err = None\<rparr>"

lemma demo_spec_scrape:
  "fst (SpecCollector_scrape demo_spec (\<lambda>_. Inr demo_rows) (demo_state 160004)) =
     Some ([(0, f64_of_int 5, [''d'', ''k''])], None)"
  by (simp add: SpecCollector_scrape_def spec_gate_def demo_spec_def demo_state_def AtLeast_known
      Client_Query_def demo_rows_def Let_def colIdx_def column_error_def row_emissions_def column_def
      metric_emission_def f64_is_zero_def f64_zero_def f64_of_int64_def enumerate_eq_zip)

theorem spec_scrape_never_panics_witness:
  "\<exists>out. SpecCollector_Scrape ref_prom first_error [] (\<lambda>_ _. Inr demo_rows) (\<lambda>_. demo_state 160004)
     (the (NewSpecCollector ref_prom initial_namespaces demo_spec [0])) = Some out \<and>
     spec_built ref_prom (so_collector out)"
proof -
  obtain c where c: "NewSpecCollector ref_prom initial_namespaces demo_spec [0] = Some c"
    by (simp add: NewSpecCollector_def demo_spec_def Let_def)
  note s = NewSpecCollector_Some [OF c]
  have "\<exists>out. SpecCollector_Scrape ref_prom first_error [] (\<lambda>_ _. Inr demo_rows) (\<lambda>_. demo_state 160004) c = Some out \<and>
      spec_built ref_prom (so_collector out)"
  proof (rule spec_scrape_never_panics [OF ref.prom_vecs_axioms NewSpecCollector_built [OF ref.prom_vecs_axioms c]])
    show "\<forall>i rs vals. Inr demo_rows = (Inr rs :: error + rows) \<and> Inr vals \<in> set (rows_values rs) \<longrightarrow>
        length vals = length (rows_columns rs)"
      by (auto simp: demo_rows_def)
    show "\<forall>i es err e. fst (SpecCollector_scrape (sc_spec c) (\<lambda>_. Inr demo_rows) (demo_state 160004)) = Some (es, err) \<and>
        e \<in> set es \<longrightarrow> spec_benign ref_prom (sc_spec c) e"
      using s by (auto simp: demo_spec_scrape spec_benign_def ref_prom_def exact_nat_not_less_zero exact_nat_of_int)
  qed
  with c show ?thesis by simp
qed

subsection \<open>A reference for the reading of rows\<close>












end
