(* ===== verification/SpecYaml.thy ===== *)
theory SpecYaml
  imports Spec
begin

text \<open>
  \<open>exporter/collectors/spec_yaml.go\<close>: specs read from a YAML file. Decoding YAML is \<open>yaml.v3\<close>,
  outside the repository: \<open>ParseSpecs\<close> takes what \<open>yaml.Unmarshal\<close> answers as an argument. The
  library calls \<open>UnmarshalYAML\<close> on the node of a version; the node answers the two \<open>Decode\<close>
  calls that the code makes. \<open>fmt.Sscanf\<close> is modelled for the two formats the file uses, on ASCII
  input.
\<close>

subsection \<open>\<open>fmt.Sscanf\<close> with \<open>%d\<close>\<close>

definition is_digit :: "char \<Rightarrow> bool" where
  "is_digit c \<longleftrightarrow> 48 \<le> (of_char c :: nat) \<and> (of_char c :: nat) < 58"

text \<open>Blanks are skipped before a number; a line feed is an error.\<close>

fun skip_space :: "string \<Rightarrow> string option" where
  "skip_space [] = Some []"
| "skip_space (c # cs) =
     (if c = CHR 0x0A then None
      else if c = CHR '' '' \<or> c \<in> {CHR 0x09, CHR 0x0B, CHR 0x0C, CHR 0x0D} then skip_space cs
      else Some (c # cs))"

text \<open>\<open>%d\<close>: an optional sign and at least one digit, in the range of an \<open>int\<close>.\<close>

definition scan_int :: "string \<Rightarrow> (int \<times> string) option" where
  "scan_int s =
     (case skip_space s of
        None \<Rightarrow> None
      | Some s' \<Rightarrow>
          let neg = (s' \<noteq> [] \<and> hd s' = CHR ''-'');
              s'' = (if s' \<noteq> [] \<and> (hd s' = CHR ''-'' \<or> hd s' = CHR ''+'') then tl s' else s');
              ds = takeWhile is_digit s'';
              v = (if neg then - int (dec_value ds 0) else int (dec_value ds 0))
          in if ds = [] \<or> v < - (2 ^ 63) \<or> 2 ^ 63 \<le> v then None
             else Some (v, dropWhile is_digit s''))"

subsection \<open>Versions\<close>

text \<open>The message of a malformed version is modelled without the text of the error of
  \<open>Sscanf\<close> that it wraps.\<close>

datatype yaml_version =
    SequenceNode "error + int \<times> int"
      \<comment> \<open>what decoding into a pair of ints answers\<close>
  | OtherNode "error + string"
      \<comment> \<open>what decoding into a string answers\<close>

definition version_error :: "string \<Rightarrow> error" where
  "version_error s = ''min_pg_version '' @ quoted s @ '': expected major.minor, [major, minor], or bare major''"

definition parse_version :: "string \<Rightarrow> error + int \<times> int" where
  "parse_version s =
     (case scan_int s of
        Some (major, CHR ''.'' # rest) \<Rightarrow>
          (case scan_int rest of
             Some (minor, _) \<Rightarrow> Inr (major, minor)
           | None \<Rightarrow> Inr (major, 0))
      | Some (major, _) \<Rightarrow> Inr (major, 0)
      | None \<Rightarrow> Inl (version_error s))"

fun UnmarshalYAML :: "yaml_version \<Rightarrow> error + int \<times> int" where
  "UnmarshalYAML (SequenceNode r) = r"
| "UnmarshalYAML (OtherNode (Inl e)) = Inl e"
| "UnmarshalYAML (OtherNode (Inr s)) = parse_version s"

subsection \<open>Specs\<close>

record yamlMetricSpec =
  ym_Name :: string
  ym_Help :: string
  ym_Type :: string
  ym_Column :: string
  ym_Scale :: f64
  ym_TimestampAsUnix :: bool

record yamlCollectorSpec =
  y_Subsystem :: string
  y_Namespace :: string
  y_SQL :: string
  y_MinPGVersion :: "int \<times> int"
  y_Labels :: "string list"
  y_Metrics :: "yamlMetricSpec list"

definition metric_toInternal :: "nat \<Rightarrow> yamlMetricSpec \<Rightarrow> error + MetricSpec" where
  "metric_toInternal i m =
     (if ym_Name m = [] \<or> ym_Column m = []
      then Inl (''metrics['' @ Itoa (int i) @ '']: name and column are required'')
      else
        let internal = (\<lambda>vtype. \<lparr>ms_Name = ym_Name m, ms_Help = ym_Help m, ms_Type = vtype,
              ms_Column = ym_Column m, ms_Scale = ym_Scale m, ms_TimestampAsUnix = ym_TimestampAsUnix m\<rparr>)
        in if ym_Type m = [] \<or> ym_Type m = ''gauge'' then Inr (internal GaugeValue)
           else if ym_Type m = ''counter'' then Inr (internal CounterValue)
           else Inl (''metrics['' @ Itoa (int i) @ ''].type: must be counter or gauge, got '' @ quoted (ym_Type m)))"

text \<open>A loop over a list whose body may return an error: the first one is returned.\<close>

fun first_failure :: "(nat \<Rightarrow> 'a \<Rightarrow> error + 'b) \<Rightarrow> nat \<Rightarrow> 'a list \<Rightarrow> error + 'b list" where
  "first_failure f i [] = Inr []"
| "first_failure f i (x # xs) =
     (case f i x of
        Inl e \<Rightarrow> Inl e
      | Inr y \<Rightarrow> (case first_failure f (Suc i) xs of Inl e \<Rightarrow> Inl e | Inr ys \<Rightarrow> Inr (y # ys)))"

definition toInternal :: "yamlCollectorSpec \<Rightarrow> error + CollectorSpec" where
  "toInternal y =
     (if y_Subsystem y = [] then Inl ''subsystem is required''
      else if y_SQL y = [] then Inl ''sql is required''
      else if y_Metrics y = [] then Inl ''metrics must contain at least one entry''
      else case first_failure metric_toInternal 0 (y_Metrics y) of
          Inl e \<Rightarrow> Inl e
        | Inr metrics \<Rightarrow>
            Inr \<lparr>sp_Subsystem = y_Subsystem y, sp_Namespace = y_Namespace y, sp_SQL = y_SQL y,
                 sp_MinPGVersion = y_MinPGVersion y, sp_Labels = y_Labels y, sp_Metrics = metrics\<rparr>)"

definition spec_toInternal :: "nat \<Rightarrow> yamlCollectorSpec \<Rightarrow> error + CollectorSpec" where
  "spec_toInternal i y =
     (case toInternal y of
        Inl e \<Rightarrow> Inl (''spec['' @ Itoa (int i) @ ''] ('' @ y_Subsystem y @ ''): '' @ e)
      | Inr s \<Rightarrow> Inr s)"

definition ParseSpecs :: "(string \<Rightarrow> error + yamlCollectorSpec list) \<Rightarrow> string \<Rightarrow> error + CollectorSpec list" where
  "ParseSpecs unmarshal data =
     (case unmarshal data of
        Inl e \<Rightarrow> Inl (''parsing YAML: '' @ e)
      | Inr raw \<Rightarrow> first_failure spec_toInternal 0 raw)"

definition LoadSpecsFromFile :: "(string \<Rightarrow> error + string) \<Rightarrow> (string \<Rightarrow> error + yamlCollectorSpec list) \<Rightarrow>
    string \<Rightarrow> error + CollectorSpec list" where
  "LoadSpecsFromFile read_file unmarshal path =
     (case read_file path of
        Inl e \<Rightarrow> Inl (''reading '' @ path @ '': '' @ e)
      | Inr data \<Rightarrow> ParseSpecs unmarshal data)"

subsection \<open>Lemmas\<close>

lemma first_failure_Inr:
  "first_failure f i xs = Inr ys \<Longrightarrow>
   length ys = length xs \<and> (\<forall>j < length xs. f (i + j) (xs ! j) = Inr (ys ! j))"
proof (induction xs arbitrary: i ys)
  case (Cons x xs)
  then obtain y ys' where y: "f i x = Inr y" "first_failure f (Suc i) xs = Inr ys'" "ys = y # ys'"
    by (auto split: sum.splits)
  from Cons.IH [OF y(2)] y(1,3) show ?case by (auto simp: nth_Cons split: nat.splits)
qed simp

lemma first_failure_Inl:
  "first_failure f i xs = Inl e \<Longrightarrow>
   \<exists>j < length xs. f (i + j) (xs ! j) = Inl e \<and> (\<forall>l < j. \<exists>y. f (i + l) (xs ! l) = Inr y)"
proof (induction xs arbitrary: i)
  case (Cons x xs)
  show ?case
  proof (cases "f i x")
    case (Inl e')
    with Cons.prems show ?thesis by (intro exI [of _ 0]) simp
  next
    case (Inr y)
    with Cons.prems have "first_failure f (Suc i) xs = Inl e" by (simp split: sum.splits)
    from Cons.IH [OF this] obtain j where j: "j < length xs" "f (Suc i + j) (xs ! j) = Inl e"
      "\<forall>l < j. \<exists>y. f (Suc i + l) (xs ! l) = Inr y" by blast
    with Inr show ?thesis
      by (intro exI [of _ "Suc j"]) (auto simp: nth_Cons split: nat.splits)
  qed
qed simp

lemma first_failure_set:
  assumes "first_failure f i xs = Inr ys" and "y \<in> set ys"
  shows "\<exists>j x. x \<in> set xs \<and> f j x = Inr y"
proof -
  from assms(2) obtain j where "j < length ys" "ys ! j = y" by (auto simp: in_set_conv_nth)
  with first_failure_Inr [OF assms(1)] show ?thesis by (metis nth_mem)
qed

lemma metric_toInternal_valid:
  "metric_toInternal i m = Inr m' \<Longrightarrow> ms_Name m' \<noteq> [] \<and> ms_Column m' \<noteq> [] \<and> ms_Type m' \<in> {CounterValue, GaugeValue}"
  by (auto simp: metric_toInternal_def Let_def split: if_splits)

lemma toInternal_valid:
  assumes "toInternal y = Inr s"
  shows "sp_Subsystem s \<noteq> [] \<and> sp_SQL s \<noteq> [] \<and> sp_Metrics s \<noteq> [] \<and>
    (\<forall>m \<in> set (sp_Metrics s). ms_Name m \<noteq> [] \<and> ms_Column m \<noteq> [])"
proof -
  from assms obtain ms where ms: "first_failure metric_toInternal 0 (y_Metrics y) = Inr ms"
    "y_Subsystem y \<noteq> []" "y_SQL y \<noteq> []" "y_Metrics y \<noteq> []"
    "s = \<lparr>sp_Subsystem = y_Subsystem y, sp_Namespace = y_Namespace y, sp_SQL = y_SQL y,
          sp_MinPGVersion = y_MinPGVersion y, sp_Labels = y_Labels y, sp_Metrics = ms\<rparr>"
    by (auto simp: toInternal_def split: if_splits sum.splits)
  have "ms \<noteq> []" using first_failure_Inr [OF ms(1)] ms(4) by auto
  moreover have "\<forall>m \<in> set ms. ms_Name m \<noteq> [] \<and> ms_Column m \<noteq> []"
    using first_failure_set [OF ms(1)] metric_toInternal_valid by blast
  ultimately show ?thesis using ms by simp
qed

lemma dec_digits_is_digit: "c \<in> set (dec_digits n) \<Longrightarrow> is_digit c"
  using dec_digits_char by (auto simp: is_digit_def)

lemma scan_int_digits:
  assumes "n < 2 ^ 63" and "rest = [] \<or> \<not> is_digit (hd rest)"
  shows "scan_int (dec_digits n @ rest) = Some (int n, rest)"
proof -
  obtain c cs where c: "dec_digits n = c # cs" using dec_digits_nonempty by (cases "dec_digits n") auto
  have d: "is_digit c" using dec_digits_is_digit [of c n] c by simp
  have "skip_space (dec_digits n @ rest) = Some (dec_digits n @ rest)"
    using d by (auto simp: c is_digit_def)
  moreover have "hd (dec_digits n @ rest) \<noteq> CHR ''-''" "hd (dec_digits n @ rest) \<noteq> CHR ''+''"
    using d by (auto simp: c is_digit_def)
  moreover have "takeWhile is_digit (dec_digits n @ rest) = dec_digits n"
    "dropWhile is_digit (dec_digits n @ rest) = rest"
  proof -
    have all: "\<forall>x \<in> set (dec_digits n). is_digit x" using dec_digits_is_digit by blast
    show "takeWhile is_digit (dec_digits n @ rest) = dec_digits n"
      using assms(2) all by (cases rest) (auto simp: takeWhile_append2)
    show "dropWhile is_digit (dec_digits n @ rest) = rest"
      using assms(2) all by (cases rest) (auto simp: dropWhile_append2)
  qed
  moreover have "int n < 2 ^ 63" using assms(1) by (metis of_nat_less_iff of_nat_numeral of_nat_power)
  ultimately show ?thesis
    by (simp add: scan_int_def Let_def dec_value_digits dec_digits_nonempty)
qed

lemma loaded_spec_constructs:
  assumes "LoadSpecsFromFile read_file unmarshal path = Inr specs" and "spec \<in> set specs"
  shows "NewSpecCollector P g spec cs \<noteq> None"
proof -
  from assms(1) obtain data raw where "first_failure spec_toInternal 0 raw = Inr specs"
    by (auto simp: LoadSpecsFromFile_def ParseSpecs_def split: sum.splits)
  from first_failure_set [OF this assms(2)] obtain y where "toInternal y = Inr spec"
    by (fastforce simp: spec_toInternal_def split: sum.splits)
  from toInternal_valid [OF this] show ?thesis
    by (auto simp: NewSpecCollector_def Let_def)
qed

subsection \<open>Properties\<close>

text \<open>
  C30. \<open>ParseSpecs\<close> is all or nothing: it returns one spec per entry of the document, each the
  translation of its entry, or the error of the first entry that is not valid, with its index and
  subsystem, and then no spec at all.
\<close>

theorem ParseSpecs_all_or_nothing:
  assumes "unmarshal data = Inr raw"
  shows "(case ParseSpecs unmarshal data of
      Inr specs \<Rightarrow> length specs = length raw \<and> (\<forall>i < length raw. toInternal (raw ! i) = Inr (specs ! i))
    | Inl e \<Rightarrow> \<exists>i < length raw. \<exists>e'. toInternal (raw ! i) = Inl e' \<and>
        e = ''spec['' @ Itoa (int i) @ ''] ('' @ y_Subsystem (raw ! i) @ ''): '' @ e' \<and>
        (\<forall>j < i. \<exists>s. toInternal (raw ! j) = Inr s))"
proof -
  have inr: "spec_toInternal i y = Inr s \<longleftrightarrow> toInternal y = Inr s" for i y s
    by (auto simp: spec_toInternal_def split: sum.splits)
  have parse: "ParseSpecs unmarshal data = first_failure spec_toInternal 0 raw"
    by (simp add: ParseSpecs_def assms)
  show ?thesis
  proof (cases "first_failure spec_toInternal 0 raw")
    case (Inl e)
    from first_failure_Inl [OF this] obtain i where i: "i < length raw" "spec_toInternal i (raw ! i) = Inl e"
      "\<forall>j < i. \<exists>s. toInternal (raw ! j) = Inr s" using inr by auto
    then obtain e' where "toInternal (raw ! i) = Inl e'"
      "e = ''spec['' @ Itoa (int i) @ ''] ('' @ y_Subsystem (raw ! i) @ ''): '' @ e'"
      by (auto simp: spec_toInternal_def split: sum.splits)
    with i parse Inl show ?thesis by auto
  next
    case (Inr specs)
    from first_failure_Inr [OF this] parse Inr inr show ?thesis by simp
  qed
qed

definition demo_yaml :: yamlCollectorSpec where
  "demo_yaml = \<lparr>y_Subsystem = ''rates'', y_Namespace = [], y_SQL = ''SELECT 1'', y_MinPGVersion = (14, 0),
     y_Labels = [''key''], y_Metrics = [\<lparr>ym_Name = ''events_total'', ym_Help = [], ym_Type = ''counter'',
       ym_Column = ''c'', ym_Scale = f64_zero, ym_TimestampAsUnix = False\<rparr>]\<rparr>"

theorem ParseSpecs_all_or_nothing_witness:
  "\<exists>e. ParseSpecs (\<lambda>_. Inr [demo_yaml, demo_yaml\<lparr>y_SQL := []\<rparr>]) [] = Inl e"
proof (cases "ParseSpecs (\<lambda>_. Inr [demo_yaml, demo_yaml\<lparr>y_SQL := []\<rparr>]) []")
  case (Inr specs)
  have "toInternal (demo_yaml\<lparr>y_SQL := []\<rparr>) = Inl ''sql is required''"
    by (simp add: toInternal_def demo_yaml_def)
  with ParseSpecs_all_or_nothing [of "\<lambda>_. Inr [demo_yaml, demo_yaml\<lparr>y_SQL := []\<rparr>]" "[]"] Inr show ?thesis
    by (fastforce simp: All_less_Suc2 numeral_2_eq_2)
qed simp

text \<open>
  Specs that come from YAML never make \<open>NewSpecCollector\<close> panic: the checks of the parser
  include those of the constructor.
\<close>

theorem parsed_specs_construct:
  assumes "LoadSpecsFromFile read_file unmarshal path = Inr specs" and "spec \<in> set specs"
  shows "NewSpecCollector P g spec cs \<noteq> None"
  by (rule loaded_spec_constructs [OF assms])

theorem parsed_specs_construct_witness:
  "NewSpecCollector ref_prom initial_namespaces demo_spec [0] \<noteq> None"
proof (rule parsed_specs_construct)
  show "LoadSpecsFromFile (\<lambda>_. Inr []) (\<lambda>_. Inr [demo_yaml]) [] = Inr [demo_spec]"
    by (simp add: LoadSpecsFromFile_def ParseSpecs_def spec_toInternal_def toInternal_def demo_yaml_def
        metric_toInternal_def demo_spec_def)
qed simp

text \<open>
  The textual form of a version is read back: \<open>major.minor\<close> gives both numbers, a bare major
  gives minor zero, for all numbers that fit an \<open>int\<close>.
\<close>

theorem parse_version_round_trip:
  assumes "m < 2 ^ 63" and "n < 2 ^ 63"
  shows "parse_version (Itoa (int m) @ ''.'' @ Itoa (int n)) = Inr (int m, int n) \<and>
    parse_version (Itoa (int m)) = Inr (int m, 0)"
proof -
  have dot: "\<not> is_digit CHR ''.''" by (simp add: is_digit_def)
  have "scan_int (Itoa (int m) @ CHR ''.'' # Itoa (int n)) = Some (int m, CHR ''.'' # Itoa (int n))"
    using scan_int_digits [OF assms(1), of "CHR ''.'' # Itoa (int n)"] dot by (simp add: Itoa_def)
  moreover have "scan_int (Itoa (int n)) = Some (int n, [])" "scan_int (Itoa (int m)) = Some (int m, [])"
    using scan_int_digits [OF assms(2), of "[]"] scan_int_digits [OF assms(1), of "[]"] by (simp_all add: Itoa_def)
  ultimately show ?thesis by (simp add: parse_version_def)
qed

theorem parse_version_round_trip_witness:
  "parse_version (Itoa (int 17) @ ''.'' @ Itoa (int 6)) = Inr (int 17, int 6) \<and>
   parse_version (Itoa (int 17)) = Inr (int 17, 0)"
  by (rule parse_version_round_trip) simp_all

end
