(* ===== verification/Dsn.thy ===== *)
theory Dsn
  imports DbClient Float64
begin

text \<open>
  \<open>exporter/db/dsn.go\<close>: the connection URI. Strings are byte strings. Of Go's standard library
  the file uses \<open>url.QueryEscape\<close>, \<open>strings.Fields\<close> (here on ASCII text only: its arguments are
  constants and numbers), \<open>time.Duration.Seconds\<close> and \<open>Milliseconds\<close>, and the verb \<open>%.0f\<close>;
  they are modelled here. The other direction, percent-decoding as the reader of the URI does it,
  is the specification: a \<open>+\<close> is a space in the query part and stands for itself in the user
  information and in the path.
\<close>

subsection \<open>\<open>url.QueryEscape\<close>\<close>

definition unreserved :: "char \<Rightarrow> bool" where
  "unreserved c \<longleftrightarrow> (let n = of_char c :: nat in
     (97 \<le> n \<and> n \<le> 122) \<or> (65 \<le> n \<and> n \<le> 90) \<or> (48 \<le> n \<and> n \<le> 57) \<or>
     c = CHR ''-'' \<or> c = CHR ''_'' \<or> c = CHR ''.'' \<or> c = CHR ''~'')"

definition hex_digit :: "nat \<Rightarrow> char" where
  "hex_digit n = (if n < 10 then char_of (48 + n) else char_of (55 + n))"

definition escape_char :: "char \<Rightarrow> string" where
  "escape_char c =
     (if c = CHR '' '' then ''+''
      else if unreserved c then [c]
      else [CHR ''%'', hex_digit (of_char c div 16), hex_digit (of_char c mod 16)])"

definition QueryEscape :: "string \<Rightarrow> string" where
  "QueryEscape s = concat (map escape_char s)"

subsection \<open>Decoding\<close>

definition hex_value :: "char \<Rightarrow> nat option" where
  "hex_value c = (let n = of_char c :: nat in
     if 48 \<le> n \<and> n \<le> 57 then Some (n - 48)
     else if 65 \<le> n \<and> n \<le> 70 then Some (n - 55)
     else if 97 \<le> n \<and> n \<le> 102 then Some (n - 87)
     else None)"

fun percent_decode :: "bool \<Rightarrow> string \<Rightarrow> string option" where
  "percent_decode sp [] = Some []"
| "percent_decode sp (c # cs) =
     (if c = CHR ''%'' then
        (case cs of
           a # b # cs' \<Rightarrow>
             (case (hex_value a, hex_value b) of
                (Some x, Some y) \<Rightarrow> map_option (\<lambda>r. char_of (16 * x + y) # r) (percent_decode sp cs')
              | _ \<Rightarrow> None)
         | _ \<Rightarrow> None)
      else map_option (\<lambda>r. (if sp \<and> c = CHR ''+'' then CHR '' '' else c) # r) (percent_decode sp cs))"

definition query_decode :: "string \<Rightarrow> string option" where
  "query_decode = percent_decode True"

definition userinfo_decode :: "string \<Rightarrow> string option" where
  "userinfo_decode = percent_decode False"

text \<open>The reader of the parameters: what follows the first \<open>?\<close>, split at every \<open>&\<close> and then at the
  first \<open>=\<close>, with names and values decoded.\<close>

fun split_at :: "char \<Rightarrow> string \<Rightarrow> string list" where
  "split_at c [] = [[]]"
| "split_at c (x # xs) = (if x = c then [] # split_at c xs else (x # hd (split_at c xs)) # tl (split_at c xs))"

definition rest_after :: "char \<Rightarrow> string \<Rightarrow> string" where
  "rest_after c s = drop (Suc (length (takeWhile (\<lambda>x. x \<noteq> c) s))) s"

definition read_param :: "string \<Rightarrow> (string \<times> string) option" where
  "read_param p = (case (query_decode (takeWhile (\<lambda>x. x \<noteq> CHR ''='') p), query_decode (rest_after (CHR ''='') p)) of
       (Some k, Some v) \<Rightarrow> Some (k, v)
     | _ \<Rightarrow> None)"

definition read_query :: "string \<Rightarrow> (string \<times> string) option list" where
  "read_query uri = map read_param (split_at (CHR ''&'') (rest_after (CHR ''?'') uri))"

subsection \<open>Durations and fields\<close>

definition quot :: "int \<Rightarrow> int \<Rightarrow> int" where
  "quot a b = sgn a * sgn b * (abs a div abs b)"

definition Milliseconds :: "int \<Rightarrow> int" where
  "Milliseconds d = quot d 1000000"

definition Seconds :: "int \<Rightarrow> f64" where
  "Seconds d =
     (let sec = quot d 1000000000; nsec = d - sec * 1000000000
      in f64_add (f64_of_int sec) (f64_div_const (f64_of_int nsec) 1000000000))"

text \<open>The verb \<open>%.0f\<close>.\<close>

fun fmt_f0 :: "f64 \<Rightarrow> string" where
  "fmt_f0 (Fin r) = (if r < 0 then CHR ''-'' # dec_digits (nat (round_half_even (- r)))
     else dec_digits (nat (round_half_even r)))"
| "fmt_f0 PosInf = ''+Inf''"
| "fmt_f0 NegInf = ''-Inf''"
| "fmt_f0 NaN = ''NaN''"

definition is_space :: "char \<Rightarrow> bool" where
  "is_space c \<longleftrightarrow> c = CHR '' '' \<or> (9 \<le> (of_char c :: nat) \<and> (of_char c :: nat) \<le> 13)"

text \<open>\<open>strings.Fields\<close>: \<open>w\<close> is the field being read, in reverse.\<close>

fun fields_acc :: "string \<Rightarrow> string \<Rightarrow> string list" where
  "fields_acc w [] = (if w = [] then [] else [rev w])"
| "fields_acc w (c # cs) =
     (if is_space c then (if w = [] then fields_acc [] cs else rev w # fields_acc [] cs)
      else fields_acc (c # w) cs)"

definition Fields :: "string \<Rightarrow> string list" where
  "Fields s = fields_acc [] s"

subsection \<open>The URI\<close>

type_synonym parameters = "string list"
type_synonym optionParameters = "string list"

definition parameters_String :: "parameters \<Rightarrow> string" where
  "parameters_String p = join ''&'' p"

definition optionParameters_String :: "optionParameters \<Rightarrow> string" where
  "optionParameters_String op = join ''%20'' op"

definition appendParam :: "parameters \<Rightarrow> string \<Rightarrow> string \<Rightarrow> parameters" where
  "appendParam p key v =
     (if length key > 0 \<and> length v > 0 then p @ [QueryEscape key @ ''='' @ QueryEscape v] else p)"

definition formatOptionsParam :: "string \<Rightarrow> string" where
  "formatOptionsParam str = join ([CHR 0x5C] @ ''%20'') (map QueryEscape (Fields str))"

definition appendOptionsParam :: "optionParameters \<Rightarrow> string \<Rightarrow> string \<Rightarrow> optionParameters" where
  "appendOptionsParam op key v =
     (if length key > 0 \<and> length v > 0
      then op @ [''-c'' @ formatOptionsParam key @ QueryEscape ''='' @ formatOptionsParam v] else op)"

definition appendOptionsParams :: "parameters \<Rightarrow> optionParameters \<Rightarrow> parameters" where
  "appendOptionsParams p op =
     (if length op > 0 then p @ [''options='' @ optionParameters_String op] else p)"

definition server_options :: "Opts \<Rightarrow> optionParameters" where
  "server_options o1 =
     (let op = [];
          op = appendOptionsParam op ''default_transaction_isolation''
                 (iso_string (defaultIsolationLevel (DefaultIsolationLevel o1)));
          op = appendOptionsParam op ''timezone'' ''UTC'';
          op = appendOptionsParam op ''statement_timeout'' (Itoa (Milliseconds (StatementTimeout o1)));
          op = appendOptionsParam op ''lock_timeout'' (Itoa (Milliseconds (LockTimeout o1)));
          op = appendOptionsParam op ''idle_in_transaction_session_timeout''
                 (Itoa (Milliseconds (IdleInTransactionSessionTimeout o1)))
      in op)"

definition addParametersToDSN :: "string \<Rightarrow> Opts \<Rightarrow> bool \<Rightarrow> string" where
  "addParametersToDSN dsn o1 postgresCompatible =
     (let params = [];
          params = appendParam params ''application_name'' (ApplicationName o1);
          params = (if \<not> postgresCompatible then
            (let params = appendParam params ''pool_max_conns'' (Itoa (PoolMaxConns o1));
                 params = appendParam params ''pool_min_conns'' (Itoa (PoolMinConns o1));
                 params = appendParam params ''pool_max_conn_lifetime'' (fmt_f0 (Seconds (PoolMaxConnLifetime o1)) @ ''s'');
                 params = appendParam params ''pool_max_conn_idle_time'' (fmt_f0 (Seconds (PoolMaxConnIdleTime o1)) @ ''s'');
                 params = appendParam params ''pool_health_check_period'' (fmt_f0 (Seconds (PoolHealthCheckPeriod o1)) @ ''s'')
             in params) else params);
          params = appendOptionsParams params (server_options o1)
      in if length params > 0 then join ''?'' [dsn, parameters_String params] else dsn)"

definition userinfo :: "Opts \<Rightarrow> string" where
  "userinfo o1 = QueryEscape (User o1) @ (if Password o1 \<noteq> [] then '':'' @ QueryEscape (Password o1) else [])"

definition DSN :: "Opts \<Rightarrow> string" where
  "DSN o1 =
     (let dsn = ''postgresql://'' @ userinfo o1;
          dsn = dsn @ ''@'' @ Host o1 @ '':'' @ Itoa (Port o1) @ ''/'' @ QueryEscape (Database o1)
      in addParametersToDSN dsn o1 False)"

subsection \<open>Escaping and its inverse\<close>

lemma hex_value_digit: "n < 16 \<Longrightarrow> hex_value (hex_digit n) = Some n"
  by (simp add: hex_value_def hex_digit_def of_char_of)

lemma unreserved_char: "unreserved c \<Longrightarrow> c \<noteq> CHR ''%'' \<and> c \<noteq> CHR ''+''"
  by (auto simp: unreserved_def Let_def)

lemma hex_digit_unreserved: "n < 16 \<Longrightarrow> unreserved (hex_digit n)"
  by (simp add: unreserved_def hex_digit_def Let_def of_char_of)

definition decoded :: "bool \<Rightarrow> char \<Rightarrow> char" where
  "decoded sp c = (if \<not> sp \<and> c = CHR '' '' then CHR ''+'' else c)"

lemma decode_escape_char:
  "percent_decode sp (escape_char c @ t) = map_option ((#) (decoded sp c)) (percent_decode sp t)"
proof -
  consider "c = CHR '' ''" | "c \<noteq> CHR '' ''" "unreserved c" | "c \<noteq> CHR '' ''" "\<not> unreserved c" by blast
  then show ?thesis
  proof cases
    case 1
    then show ?thesis by (simp add: escape_char_def decoded_def)
  next
    case 2
    then show ?thesis using unreserved_char [of c] by (simp add: escape_char_def decoded_def)
  next
    case 3
    have n: "(of_char c :: nat) < 256" by simp
    then have "(of_char c :: nat) div 16 < 16" by (simp only: div_less_iff_less_mult)
    moreover have "char_of (16 * (of_char c div 16) + of_char c mod 16 :: nat) = c"
      by (simp only: mult_div_mod_eq char_of_char)
    ultimately show ?thesis using 3
      by (simp add: escape_char_def decoded_def hex_value_digit)
  qed
qed

lemma decode_QueryEscape:
  "percent_decode sp (QueryEscape s @ t) = map_option ((@) (map (decoded sp) s)) (percent_decode sp t)"
proof (induction s)
  case Nil
  then show ?case by (cases "percent_decode sp t") (simp_all add: QueryEscape_def)
next
  case (Cons c s)
  have "percent_decode sp (QueryEscape (c # s) @ t)
      = map_option ((#) (decoded sp c)) (percent_decode sp (QueryEscape s @ t))"
    using decode_escape_char [of sp c "QueryEscape s @ t"] by (simp add: QueryEscape_def)
  with Cons show ?case by (cases "percent_decode sp t") simp_all
qed

lemma QueryEscape_Nil [simp]: "QueryEscape [] = []" "QueryEscape s = [] \<longleftrightarrow> s = []"
  by (simp add: QueryEscape_def) (cases s; simp add: QueryEscape_def escape_char_def)

lemma QueryEscape_chars: "c \<in> set (QueryEscape s) \<Longrightarrow> unreserved c \<or> c = CHR ''%'' \<or> c = CHR ''+''"
proof -
  have "(of_char d :: nat) div 16 < 16" for d :: char
    by (simp only: div_less_iff_less_mult) simp
  then show "c \<in> set (QueryEscape s) \<Longrightarrow> unreserved c \<or> c = CHR ''%'' \<or> c = CHR ''+''"
    by (auto simp: QueryEscape_def escape_char_def hex_digit_unreserved split: if_splits)
qed

lemma QueryEscape_unreserved: "\<forall>c \<in> set s. unreserved c \<Longrightarrow> QueryEscape s = s"
proof (induction s)
  case (Cons c s)
  then have "c \<noteq> CHR '' ''" by (auto simp: unreserved_def Let_def)
  with Cons show ?case by (simp add: QueryEscape_def escape_char_def)
qed simp

lemma separators_not_escaped:
  "c \<in> set (QueryEscape s) \<Longrightarrow> c \<notin> {CHR ''@'', CHR '':'', CHR ''/'', CHR ''?'', CHR ''#'', CHR ''&'', CHR ''=''}"
  using QueryEscape_chars [of c s] by (auto simp: unreserved_def Let_def)

lemma decoded_True [simp]: "map (decoded True) s = s"
  by (simp add: decoded_def map_idI)

lemma percent_decode_append_plain:
  "\<forall>c \<in> set s. c \<noteq> CHR ''%'' \<and> c \<noteq> CHR ''+'' \<Longrightarrow>
   percent_decode sp (s @ t) = map_option ((@) s) (percent_decode sp t)"
proof (induction s)
  case Nil
  then show ?case by (cases "percent_decode sp t") simp_all
next
  case (Cons c s)
  then show ?case by (cases "percent_decode sp t") simp_all
qed

subsection \<open>Numbers and fields\<close>

lemma dec_digit_unreserved: "48 \<le> (of_char c :: nat) \<and> (of_char c :: nat) < 58 \<Longrightarrow> unreserved c \<and> \<not> is_space c"
  by (auto simp: unreserved_def is_space_def Let_def)

lemma Itoa_chars: "c \<in> set (Itoa i) \<Longrightarrow> unreserved c \<and> \<not> is_space c"
proof -
  have minus: "unreserved (CHR ''-'')" "\<not> is_space (CHR ''-'')"
    by (simp_all add: unreserved_def is_space_def)
  assume "c \<in> set (Itoa i)"
  then have "c = CHR ''-'' \<or> (\<exists>n. c \<in> set (dec_digits n))"
    by (auto simp: Itoa_def split: if_splits)
  then show ?thesis using minus dec_digits_char dec_digit_unreserved by blast
qed

lemma fields_acc_plain: "\<forall>c \<in> set cs. \<not> is_space c \<Longrightarrow>
  fields_acc w cs = (if w = [] \<and> cs = [] then [] else [rev w @ cs])"
  by (induction cs arbitrary: w) auto

lemma formatOptionsParam_Itoa: "formatOptionsParam (Itoa i) = Itoa i"
proof -
  have "Fields (Itoa i) = [Itoa i]"
    using fields_acc_plain [of "Itoa i" "[]"] Itoa_chars Itoa_nonempty by (simp add: Fields_def)
  moreover have "QueryEscape (Itoa i) = Itoa i" using QueryEscape_unreserved Itoa_chars by blast
  ultimately show ?thesis by (simp add: formatOptionsParam_def)
qed

lemma formatOptionsParam_const:
  "formatOptionsParam ''default_transaction_isolation'' = ''default_transaction_isolation''"
  "formatOptionsParam ''timezone'' = ''timezone''"
  "formatOptionsParam ''UTC'' = ''UTC''"
  "formatOptionsParam ''statement_timeout'' = ''statement_timeout''"
  "formatOptionsParam ''lock_timeout'' = ''lock_timeout''"
  "formatOptionsParam ''idle_in_transaction_session_timeout'' = ''idle_in_transaction_session_timeout''"
  "formatOptionsParam ''read committed'' = ''read'' @ [CHR 0x5C] @ ''%20committed''"
  "formatOptionsParam ''repeatable read'' = ''repeatable'' @ [CHR 0x5C] @ ''%20read''"
  "formatOptionsParam ''serializable'' = ''serializable''"
  "QueryEscape ''='' = ''%3D''"
  by code_simp+

lemma char_of_const: "char_of (61 :: nat) = CHR ''=''" "char_of (32 :: nat) = CHR '' ''"
  by code_simp+

lemma iso_string_nonempty: "iso_string l \<noteq> []"
  by (cases l) simp_all

lemma server_options_eq:
  "server_options o1 =
    [''-cdefault_transaction_isolation%3D'' @ formatOptionsParam (iso_string (defaultIsolationLevel (DefaultIsolationLevel o1))),
     ''-ctimezone%3DUTC'',
     ''-cstatement_timeout%3D'' @ Itoa (Milliseconds (StatementTimeout o1)),
     ''-clock_timeout%3D'' @ Itoa (Milliseconds (LockTimeout o1)),
     ''-cidle_in_transaction_session_timeout%3D'' @ Itoa (Milliseconds (IdleInTransactionSessionTimeout o1))]"
  by (simp add: server_options_def Let_def appendOptionsParam_def formatOptionsParam_const
      formatOptionsParam_Itoa iso_string_nonempty Itoa_nonempty)

lemma DSN_prefix:
  "\<exists>params. DSN o1 = ''postgresql://'' @ userinfo o1 @ ''@'' @ Host o1 @ '':'' @ Itoa (Port o1) @ ''/'' @
     QueryEscape (Database o1) @ ''?'' @ params"
  by (auto simp: DSN_def addParametersToDSN_def Let_def appendOptionsParams_def server_options_eq)

lemma userinfo_chars: "c \<in> set (userinfo o1) \<Longrightarrow> c \<notin> {CHR ''@'', CHR ''/'', CHR ''?'', CHR ''#''}"
  using separators_not_escaped [of c "User o1"] separators_not_escaped [of c "Password o1"]
  by (auto simp: userinfo_def split: if_splits)

lemma takeWhile_until: "c \<notin> set xs \<Longrightarrow> takeWhile (\<lambda>x. x \<noteq> c) (xs @ c # ys) = xs"
  by (induction xs) auto

text \<open>A parameter whose key needs no escaping and whose value is not empty.\<close>

lemma appendParam_const:
  "appendParam ps ''pool_max_conns'' (Itoa i) = ps @ [''pool_max_conns='' @ Itoa i]"
  "appendParam ps ''pool_min_conns'' (Itoa i) = ps @ [''pool_min_conns='' @ Itoa i]"
  "appendParam ps ''application_name'' v = (if v = [] then ps else ps @ [''application_name='' @ QueryEscape v])"
proof -
  have "QueryEscape (Itoa i) = Itoa i" using QueryEscape_unreserved Itoa_chars by blast
  moreover have "QueryEscape ''pool_max_conns'' = ''pool_max_conns''" "QueryEscape ''pool_min_conns'' = ''pool_min_conns''"
    "QueryEscape ''application_name'' = ''application_name''" by code_simp+
  ultimately show "appendParam ps ''pool_max_conns'' (Itoa i) = ps @ [''pool_max_conns='' @ Itoa i]"
    "appendParam ps ''pool_min_conns'' (Itoa i) = ps @ [''pool_min_conns='' @ Itoa i]"
    "appendParam ps ''application_name'' v = (if v = [] then ps else ps @ [''application_name='' @ QueryEscape v])"
    by (simp_all add: appendParam_def Itoa_nonempty)
qed

lemma appendParam_seconds:
  "appendParam ps ''pool_max_conn_lifetime'' (fmt_f0 v @ ''s'') = ps @ [''pool_max_conn_lifetime='' @ QueryEscape (fmt_f0 v @ ''s'')]"
  "appendParam ps ''pool_max_conn_idle_time'' (fmt_f0 v @ ''s'') = ps @ [''pool_max_conn_idle_time='' @ QueryEscape (fmt_f0 v @ ''s'')]"
  "appendParam ps ''pool_health_check_period'' (fmt_f0 v @ ''s'') = ps @ [''pool_health_check_period='' @ QueryEscape (fmt_f0 v @ ''s'')]"
proof -
  have "QueryEscape ''pool_max_conn_lifetime'' = ''pool_max_conn_lifetime''"
    "QueryEscape ''pool_max_conn_idle_time'' = ''pool_max_conn_idle_time''"
    "QueryEscape ''pool_health_check_period'' = ''pool_health_check_period''" by code_simp+
  then show "appendParam ps ''pool_max_conn_lifetime'' (fmt_f0 v @ ''s'') = ps @ [''pool_max_conn_lifetime='' @ QueryEscape (fmt_f0 v @ ''s'')]"
    "appendParam ps ''pool_max_conn_idle_time'' (fmt_f0 v @ ''s'') = ps @ [''pool_max_conn_idle_time='' @ QueryEscape (fmt_f0 v @ ''s'')]"
    "appendParam ps ''pool_health_check_period'' (fmt_f0 v @ ''s'') = ps @ [''pool_health_check_period='' @ QueryEscape (fmt_f0 v @ ''s'')]"
    by (simp_all add: appendParam_def)
qed

text \<open>Whole seconds are printed exactly.\<close>

lemma fmt_seconds:
  assumes "0 \<le> n" and "n \<le> 2 ^ 53"
  shows "fmt_f0 (Seconds (n * 1000000000)) = Itoa n"
proof -
  have "quot (n * 1000000000) 1000000000 = n" using assms(1) by (cases "n = 0") (simp_all add: quot_def sgn_if)
  moreover have "mk_f64 0 = Fin 0" using mk_f64_of_int [of 0] by simp
  ultimately have "Seconds (n * 1000000000) = Fin (of_int n)"
    using assms by (simp add: Seconds_def Let_def f64_of_int_exact mk_f64_of_int)
  then show ?thesis using assms(1) round_half_even_of_int [of n] by (simp add: Itoa_def)
qed

lemma DSN_eq:
  "DSN o1 = ''postgresql://'' @ userinfo o1 @ ''@'' @ Host o1 @ '':'' @ Itoa (Port o1) @ ''/'' @ QueryEscape (Database o1) @ ''?'' @
     join ''&'' ((if ApplicationName o1 = [] then [] else [''application_name='' @ QueryEscape (ApplicationName o1)]) @
       [''pool_max_conns='' @ Itoa (PoolMaxConns o1),
        ''pool_min_conns='' @ Itoa (PoolMinConns o1),
        ''pool_max_conn_lifetime='' @ QueryEscape (fmt_f0 (Seconds (PoolMaxConnLifetime o1)) @ ''s''),
        ''pool_max_conn_idle_time='' @ QueryEscape (fmt_f0 (Seconds (PoolMaxConnIdleTime o1)) @ ''s''),
        ''pool_health_check_period='' @ QueryEscape (fmt_f0 (Seconds (PoolHealthCheckPeriod o1)) @ ''s''),
        ''options='' @ join ''%20'' (server_options o1)])"
  by (simp add: DSN_def addParametersToDSN_def Let_def appendParam_const appendParam_seconds appendOptionsParams_def
      server_options_eq parameters_String_def optionParameters_String_def)

text \<open>Reading the parameters back.\<close>

lemma split_at_nonempty [simp]: "split_at c s \<noteq> []"
  by (induction s) auto

lemma split_at_append: "c \<notin> set w \<Longrightarrow> split_at c (w @ c # s) = w # split_at c s"
  by (induction w) auto

lemma split_at_none: "c \<notin> set w \<Longrightarrow> split_at c w = [w]"
  by (induction w) auto

lemma split_at_join: "\<forall>p \<in> set ps. c \<notin> set p \<Longrightarrow> ps \<noteq> [] \<Longrightarrow> split_at c (join [c] ps) = ps"
proof (induction ps)
  case Nil
  then show ?case by simp
next
  case (Cons p ps)
  then show ?case by (cases "ps = []") (simp_all add: split_at_none split_at_append join_Cons)
qed

lemma after_first: "c \<notin> set xs \<Longrightarrow> rest_after c (xs @ c # ys) = ys"
  by (simp add: rest_after_def takeWhile_until)

lemma Itoa_separators:
  "c \<in> {CHR ''@'', CHR '':'', CHR ''/'', CHR ''?'', CHR ''#'', CHR ''&'', CHR ''=''} \<Longrightarrow> c \<notin> set (Itoa i)"
  using Itoa_chars [of c i] by (auto simp: unreserved_def Let_def)

definition query_pieces :: "Opts \<Rightarrow> string list" where
  "query_pieces o1 = (if ApplicationName o1 = [] then [] else [''application_name='' @ QueryEscape (ApplicationName o1)]) @
       [''pool_max_conns='' @ Itoa (PoolMaxConns o1),
        ''pool_min_conns='' @ Itoa (PoolMinConns o1),
        ''pool_max_conn_lifetime='' @ QueryEscape (fmt_f0 (Seconds (PoolMaxConnLifetime o1)) @ ''s''),
        ''pool_max_conn_idle_time='' @ QueryEscape (fmt_f0 (Seconds (PoolMaxConnIdleTime o1)) @ ''s''),
        ''pool_health_check_period='' @ QueryEscape (fmt_f0 (Seconds (PoolHealthCheckPeriod o1)) @ ''s''),
        ''options='' @ optionParameters_String (server_options o1)]"

lemma options_no_sep: "CHR ''&'' \<notin> set (optionParameters_String (server_options o1))"
  using Itoa_separators [of "CHR ''&''"]
  by (cases "defaultIsolationLevel (DefaultIsolationLevel o1)")
    (simp_all add: optionParameters_String_def server_options_eq formatOptionsParam_const)

lemma query_pieces_no_sep: "\<forall>p \<in> set (query_pieces o1). CHR ''&'' \<notin> set p" "query_pieces o1 \<noteq> []"
proof -
  have "CHR ''&'' \<notin> set (QueryEscape s)" for s using separators_not_escaped [of "CHR ''&''" s] by blast
  then show "\<forall>p \<in> set (query_pieces o1). CHR ''&'' \<notin> set p"
    using options_no_sep Itoa_separators [of "CHR ''&''"] by (simp add: query_pieces_def)
  show "query_pieces o1 \<noteq> []" by (simp add: query_pieces_def)
qed

lemma read_param_eq:
  assumes "CHR ''='' \<notin> set k" and "query_decode k = Some k'" and "query_decode v = Some v'"
  shows "read_param (k @ CHR ''='' # v) = Some (k', v')"
  using assms by (simp add: read_param_def takeWhile_until after_first)

text \<open>The options of the server as it reads them.\<close>

definition options_text :: "Opts \<Rightarrow> string list" where
  "options_text o1 =
    [''-cdefault_transaction_isolation='' @
       (case defaultIsolationLevel (DefaultIsolationLevel o1) of
          ReadCommitted \<Rightarrow> ''read'' @ [CHR 0x5C] @ '' committed''
        | RepeatableRead \<Rightarrow> ''repeatable'' @ [CHR 0x5C] @ '' read''
        | Serializable \<Rightarrow> ''serializable''),
     ''-ctimezone=UTC'',
     ''-cstatement_timeout='' @ Itoa (Milliseconds (StatementTimeout o1)),
     ''-clock_timeout='' @ Itoa (Milliseconds (LockTimeout o1)),
     ''-cidle_in_transaction_session_timeout='' @ Itoa (Milliseconds (IdleInTransactionSessionTimeout o1))]"

text \<open>
  The \<open>options\<close> parameter decodes to the five server settings, separated by spaces, with the
  space inside an isolation level protected by a backslash and the timeouts in whole milliseconds.
\<close>

lemma DSN_options:
  "query_decode (optionParameters_String (server_options o1)) = Some (join '' '' (options_text o1))"
proof -
  have num: "percent_decode True (Itoa i @ t) = map_option ((@) (Itoa i)) (percent_decode True t)" for i t
    using Itoa_chars unreserved_char by (intro percent_decode_append_plain) blast
  have end_num: "percent_decode True (Itoa i) = Some (Itoa i)" for i
    using num [of i "[]"] by simp
  show ?thesis
    unfolding optionParameters_String_def server_options_eq query_decode_def options_text_def
    by (cases "defaultIsolationLevel (DefaultIsolationLevel o1)")
      (simp_all add: formatOptionsParam_const num end_num hex_value_def char_of_const o_def)
qed

text \<open>The pieces of the query.\<close>

lemma read_param_piece:
  "read_param (''application_name='' @ QueryEscape v) = Some (''application_name'', v)"
  "read_param (''pool_max_conn_lifetime='' @ QueryEscape v) = Some (''pool_max_conn_lifetime'', v)"
  "read_param (''pool_max_conn_idle_time='' @ QueryEscape v) = Some (''pool_max_conn_idle_time'', v)"
  "read_param (''pool_health_check_period='' @ QueryEscape v) = Some (''pool_health_check_period'', v)"
proof -
  have v: "query_decode (QueryEscape v) = Some v"
    using decode_QueryEscape [of True v "[]"] by (simp add: query_decode_def)
  have k: "query_decode ''application_name'' = Some ''application_name''"
    "query_decode ''pool_max_conn_lifetime'' = Some ''pool_max_conn_lifetime''"
    "query_decode ''pool_max_conn_idle_time'' = Some ''pool_max_conn_idle_time''"
    "query_decode ''pool_health_check_period'' = Some ''pool_health_check_period''"
    by (simp_all add: query_decode_def)
  show "read_param (''application_name='' @ QueryEscape v) = Some (''application_name'', v)"
    "read_param (''pool_max_conn_lifetime='' @ QueryEscape v) = Some (''pool_max_conn_lifetime'', v)"
    "read_param (''pool_max_conn_idle_time='' @ QueryEscape v) = Some (''pool_max_conn_idle_time'', v)"
    "read_param (''pool_health_check_period='' @ QueryEscape v) = Some (''pool_health_check_period'', v)"
    using read_param_eq [OF _ k(1) v] read_param_eq [OF _ k(2) v] read_param_eq [OF _ k(3) v] read_param_eq [OF _ k(4) v]
    by simp_all
qed

lemma read_param_Itoa:
  "read_param (''pool_max_conns='' @ Itoa i) = Some (''pool_max_conns'', Itoa i)"
  "read_param (''pool_min_conns='' @ Itoa i) = Some (''pool_min_conns'', Itoa i)"
proof -
  have v: "query_decode (Itoa i) = Some (Itoa i)"
    using percent_decode_append_plain [of "Itoa i" True "[]"] Itoa_chars unreserved_char by (force simp: query_decode_def)
  have k: "query_decode ''pool_max_conns'' = Some ''pool_max_conns''" "query_decode ''pool_min_conns'' = Some ''pool_min_conns''"
    by (simp_all add: query_decode_def)
  show "read_param (''pool_max_conns='' @ Itoa i) = Some (''pool_max_conns'', Itoa i)"
    "read_param (''pool_min_conns='' @ Itoa i) = Some (''pool_min_conns'', Itoa i)"
    using read_param_eq [OF _ k(1) v] read_param_eq [OF _ k(2) v] by simp_all
qed

lemma read_param_options:
  "read_param (''options='' @ optionParameters_String (server_options o1)) = Some (''options'', join '' '' (options_text o1))"
  using read_param_eq [of "''options''" "''options''", OF _ _ DSN_options] by (simp add: query_decode_def)

subsection \<open>Properties\<close>

text \<open>
  Escaping is invertible where the reader decodes the query: every byte string comes back,
  and the escaped text contains none of the characters that separate the parts of the URI.
\<close>

theorem QueryEscape_round_trip:
  "query_decode (QueryEscape s) = Some s \<and>
   set (QueryEscape s) \<inter> {CHR ''@'', CHR '':'', CHR ''/'', CHR ''?'', CHR ''#'', CHR ''&'', CHR ''=''} = {}"
  using decode_QueryEscape [of True s "[]"] separators_not_escaped [of _ s]
  by (auto simp: query_decode_def)

text \<open>
  C31. The credentials are read back wrongly exactly when they contain a space: the part between
  the scheme and the first \<open>@\<close> of the URI is the user and, unless empty, the password after the
  first \<open>:\<close>, whatever bytes they are made of; but user information is decoded without turning
  \<open>+\<close> back into a space, so every space of the password arrives as a \<open>+\<close>.
\<close>

theorem DSN_userinfo:
  "takeWhile (\<lambda>c. c \<noteq> CHR ''@'') (drop 13 (DSN o1)) = userinfo o1 \<and>
   takeWhile (\<lambda>c. c \<noteq> CHR '':'') (userinfo o1) = QueryEscape (User o1) \<and>
   userinfo_decode (QueryEscape pwd) = Some (map (\<lambda>c. if c = CHR '' '' then CHR ''+'' else c) pwd) \<and>
   (userinfo_decode (QueryEscape pwd) = Some pwd \<longleftrightarrow> CHR '' '' \<notin> set pwd)"
proof -
  obtain rest where "DSN o1 = ''postgresql://'' @ userinfo o1 @ CHR ''@'' # rest"
    using DSN_prefix [of o1] by auto
  then have "drop 13 (DSN o1) = userinfo o1 @ CHR ''@'' # rest" by simp
  then have a: "takeWhile (\<lambda>c. c \<noteq> CHR ''@'') (drop 13 (DSN o1)) = userinfo o1"
    using takeWhile_until [of "CHR ''@''" "userinfo o1"] userinfo_chars [of _ o1] by auto
  have "CHR '':'' \<notin> set (QueryEscape (User o1))" using separators_not_escaped [of "CHR '':''" "User o1"] by blast
  then have b: "takeWhile (\<lambda>c. c \<noteq> CHR '':'') (userinfo o1) = QueryEscape (User o1)"
    using takeWhile_until [of "CHR '':''" "QueryEscape (User o1)"]
    by (auto simp: userinfo_def takeWhile_eq_all_conv)
  have c: "userinfo_decode (QueryEscape pwd) = Some (map (\<lambda>c. if c = CHR '' '' then CHR ''+'' else c) pwd)"
    using decode_QueryEscape [of False pwd "[]"] by (simp add: userinfo_decode_def decoded_def)
  have "map (\<lambda>c. if c = CHR '' '' then CHR ''+'' else c) pwd = pwd \<longleftrightarrow> CHR '' '' \<notin> set pwd"
    by (induction pwd) auto
  with a b c show ?thesis by simp
qed

text \<open>
  C36. What the reader of the URI gets: with a host that has no \<open>?\<close>, exactly the name of the
  application (unless it is empty), the five pool settings in whole units and the options of the
  server, each under its name. The pool settings are part of it also when an option is left unset:
  an unset \<open>PoolMaxConns\<close> arrives as 0 instead of leaving the choice to the pool.
\<close>

theorem DSN_query_round_trip:
  assumes "CHR ''?'' \<notin> set (Host o1)"
  shows "read_query (DSN o1) =
    (if ApplicationName o1 = [] then [] else [Some (''application_name'', ApplicationName o1)]) @
    [Some (''pool_max_conns'', Itoa (PoolMaxConns o1)),
     Some (''pool_min_conns'', Itoa (PoolMinConns o1)),
     Some (''pool_max_conn_lifetime'', fmt_f0 (Seconds (PoolMaxConnLifetime o1)) @ ''s''),
     Some (''pool_max_conn_idle_time'', fmt_f0 (Seconds (PoolMaxConnIdleTime o1)) @ ''s''),
     Some (''pool_health_check_period'', fmt_f0 (Seconds (PoolHealthCheckPeriod o1)) @ ''s''),
     Some (''options'', join '' '' (options_text o1))]"
proof -
  let ?base = "''postgresql://'' @ userinfo o1 @ ''@'' @ Host o1 @ '':'' @ Itoa (Port o1) @ ''/'' @ QueryEscape (Database o1)"
  have base: "CHR ''?'' \<notin> set ?base"
    using assms userinfo_chars [of "CHR ''?''" o1] Itoa_separators [of "CHR ''?''"] separators_not_escaped [of "CHR ''?''" "Database o1"]
    by auto
  have "DSN o1 = ?base @ CHR ''?'' # join ''&'' (query_pieces o1)"
    by (simp add: DSN_eq query_pieces_def optionParameters_String_def)
  then have "read_query (DSN o1) = map read_param (query_pieces o1)"
    using split_at_join [OF query_pieces_no_sep] by (simp only: read_query_def after_first [OF base])
  then show ?thesis
    by (simp only: query_pieces_def if_distrib [of "map read_param"] list.map map_append
        read_param_piece read_param_Itoa read_param_options)
qed

theorem DSN_query_round_trip_witness:
  "hd (read_query (DSN (demo_Opts 0\<lparr>ApplicationName := ''a&b'', Host := ''h''\<rparr>))) = Some (''application_name'', ''a&b'')"
  using DSN_query_round_trip [of "demo_Opts 0\<lparr>ApplicationName := ''a&b'', Host := ''h''\<rparr>"] by simp

end
