(* ===== verification/SelfMetrics.thy ===== *)
theory SelfMetrics
  imports Prom
begin

text \<open>
  The part of \<open>prometheus/client_golang\<close> that the exporter uses for its own metrics and the
  collectors do not: a \<open>Counter\<close> and a \<open>HistogramVec\<close>. As in theory \<open>Prom\<close> the operations are a
  parameter, the documented behaviour is the assumptions of a locale, and a reference
  implementation satisfies them. A histogram metric is opaque but for its descriptor.
\<close>

record ('c, 'hv, 'hm) self_prom =
  NewCounter :: "opts \<Rightarrow> 'c"
  CounterInc :: "'c \<Rightarrow> 'c"
  CounterMetric :: "'c \<Rightarrow> metric"
    \<comment> \<open>the counter as it is sent on the channel\<close>
  NewHistogramVec :: "opts \<Rightarrow> f64 list \<Rightarrow> string list \<Rightarrow> 'hv"
  HistogramObserve :: "'hv \<Rightarrow> string list \<Rightarrow> f64 \<Rightarrow> 'hv option"
    \<comment> \<open>\<open>WithLabelValues(lvs...).Observe(v)\<close>\<close>
  HistogramDesc :: "'hv \<Rightarrow> desc"
  HistogramCollect :: "'hv \<Rightarrow> 'hm list"
  HistogramMetricDesc :: "'hm \<Rightarrow> desc"
    \<comment> \<open>the descriptor of a histogram metric\<close>
  HistogramCount :: "'hv \<Rightarrow> string list \<Rightarrow> nat"
    \<comment> \<open>the number of observations of a child\<close>

locale self_metrics =
  fixes P :: "('cv, 'gv) prom" and S :: "('c, 'hv, 'hm) self_prom"
  assumes counter_new: "CounterMetric S (NewCounter S o1) = \<lparr>m_desc = (o1, []), m_labels = [], m_value = f64_zero\<rparr>"
    and counter_inc: "CounterMetric S (CounterInc S c) =
      (CounterMetric S c)\<lparr>m_value := f64_add (m_value (CounterMetric S c)) (f64_of_int 1)\<rparr>"
    and histogram_new_desc: "HistogramDesc S (NewHistogramVec S o1 bs ls) = (o1, ls)"
    and histogram_new_count: "HistogramCount S (NewHistogramVec S o1 bs ls) lvs = 0"
    and histogram_observe_ok: "fits P (HistogramDesc S hv) lvs \<Longrightarrow> HistogramObserve S hv lvs v \<noteq> None"
    and histogram_observe_desc:
      "HistogramObserve S hv lvs v = Some hv' \<Longrightarrow> HistogramDesc S hv' = HistogramDesc S hv"
    and histogram_observe_count:
      "HistogramObserve S hv lvs v = Some hv' \<Longrightarrow>
       HistogramCount S hv' = (HistogramCount S hv)(lvs := Suc (HistogramCount S hv lvs))"
    and histogram_collect_desc: "hm \<in> set (HistogramCollect S hv) \<Longrightarrow> HistogramMetricDesc S hm = HistogramDesc S hv"

subsection \<open>A reference implementation\<close>

text \<open>A histogram is its descriptor, its buckets and the list of its observations.\<close>

record refhist =
  rh_desc :: desc
  rh_buckets :: "f64 list"
  rh_obs :: "(string list \<times> f64) list"

type_synonym refhistmetric = "desc \<times> string list \<times> f64 list"

definition ref_self :: "(metric, refhist, refhistmetric) self_prom" where
  "ref_self = \<lparr>NewCounter = (\<lambda>o1. \<lparr>m_desc = (o1, []), m_labels = [], m_value = f64_zero\<rparr>),
     CounterInc = (\<lambda>c. c\<lparr>m_value := f64_add (m_value c) (f64_of_int 1)\<rparr>), CounterMetric = (\<lambda>c. c),
     NewHistogramVec = (\<lambda>o1 bs ls. \<lparr>rh_desc = (o1, ls), rh_buckets = bs, rh_obs = []\<rparr>),
     HistogramObserve = (\<lambda>h lvs v. if length lvs = length (snd (rh_desc h))
       then Some (h\<lparr>rh_obs := (lvs, v) # rh_obs h\<rparr>) else None),
     HistogramDesc = rh_desc,
     HistogramCollect = (\<lambda>h. map (\<lambda>lvs. (rh_desc h, lvs, map snd (filter (\<lambda>ob. fst ob = lvs) (rh_obs h))))
       (remdups (map fst (rh_obs h)))),
     HistogramMetricDesc = fst,
     HistogramCount = (\<lambda>h lvs. length (filter (\<lambda>ob. fst ob = lvs) (rh_obs h)))\<rparr>"

interpretation ref_self: self_metrics ref_prom ref_self
  by unfold_locales (auto simp: ref_self_def fits_def ref_prom_def fun_eq_iff split: if_splits)

end
