(* ===== verification/Exporter.thy ===== *)
theory Exporter
  imports Scrape SpecYaml Dsn SelfMetrics
begin

text \<open>
  \<open>exporter/exporter.go\<close>: the exporter, which owns the clients, the resolved, custom and
  declarative collectors and its own metrics. The clients of a collector are indices into the
  exporter's list; a nil client is \<open>None\<close>. A panic in any goroutine is the result \<open>None\<close>. The
  channel that counts the metrics of a collector is theory \<open>CountingChan\<close>, the mutex theory
  \<open>Shutdown\<close>; here \<open>Collect\<close> is one step, and what the goroutines of a scrape do in parallel is an
  argument (\<open>scrape_env\<close>): per collector what the servers answer and what the version probes
  find, the order in which metrics reach the channel, the order in which collectors finish.
\<close>

subsection \<open>State\<close>

text \<open>The package variables that a metric prefix changes.\<close>

record globals =
  g_collectors :: namespaces
  g_namespace :: string

definition initial_globals :: globals where
  "initial_globals = \<lparr>g_collectors = initial_namespaces, g_namespace = ''pg_stat''\<rparr>"

record exporter_Opts =
  DBOpts :: "Opts list"
  opts_Name :: string
  CollectionTimeout :: int
  MetricPrefix :: string
  EnabledCollectors :: "string list"
  DisabledCollectors :: "string list"

text \<open>Nanoseconds.\<close>

definition DefaultCollectionTimeout :: int where
  "DefaultCollectionTimeout = 60 * 1000000000"

text \<open>The implementations of the interface \<open>collectors.Collector\<close>; custom ones are of a type
  parameter.\<close>

datatype ('cv, 'gv, 'k) Collector =
    Builtin kind "('cv, 'gv) collector"
  | Declarative "('cv, 'gv) SpecCollector"
  | Custom 'k

record ('cv, 'gv, 'c, 'hv, 'k) exporter =
  ex_dbClients :: "Client option list"
  ex_collectors :: "(string \<times> ('cv, 'gv, 'k) Collector) list"
  ex_collectionTimeout :: int
  ex_up :: desc
  ex_totalScrapes :: 'c
  ex_scrapeDuration :: 'hv
  ex_scrapeErrors :: 'cv
  ex_metricCardinality :: 'gv

subsection \<open>New\<close>

text \<open>The outside of \<open>New\<close>: parsing a DSN, and for the \<open>i\<close>-th client its attempts to connect
  and its version probes.\<close>

record boot =
  bt_parse_config :: "string \<Rightarrow> error + poolConfig"
  bt_dial :: "nat \<Rightarrow> poolConfig \<Rightarrow> dial_env"
  bt_probes :: "nat \<Rightarrow> probes"

fun new_clients :: "boot \<Rightarrow> nat \<Rightarrow> Opts list \<Rightarrow> (error + Client option list) option" where
  "new_clients B i [] = Some (Inr [])"
| "new_clients B i (dbOpt # rest) =
     (case db_New (bt_parse_config B) DSN (bt_dial B i) (bt_probes B i) dbOpt of
        None \<Rightarrow> None
      | Some r \<Rightarrow>
          (case nr_err r of
             Some e \<Rightarrow> Some (Inl (''creating exporter: '' @ e))
           | None \<Rightarrow>
               (case new_clients B (Suc i) rest of
                  None \<Rightarrow> None
                | Some (Inl e) \<Rightarrow> Some (Inl e)
                | Some (Inr cs) \<Rightarrow> Some (Inr (nr_client r # cs)))))"

definition self_opts :: "string \<Rightarrow> string \<Rightarrow> string \<Rightarrow> (string \<times> string) list \<Rightarrow> opts" where
  "self_opts ns name help constLabels = \<lparr>opt_Namespace = ns, opt_Subsystem = [], opt_Name = name,
     opt_Help = help, opt_ConstLabels = constLabels\<rparr>"

definition duration_buckets :: "f64 list" where
  "duration_buckets = map (\<lambda>q. mk_f64 q)
     [5 / 1000, 1 / 100, 25 / 1000, 5 / 100, 1 / 10, 25 / 100, 5 / 10, 1, 25 / 10, 5, 10]"

definition applyMetricPrefix :: "string \<Rightarrow> globals \<Rightarrow> globals" where
  "applyMetricPrefix prefix g =
     (if prefix \<noteq> [] then \<lparr>g_collectors = SetMetricPrefix prefix (g_collectors g), g_namespace = prefix\<rparr>
      else g)"

text \<open>The error counter of each resolved collector is created at zero.\<close>

definition preinit :: "('cv, 'gv) prom \<Rightarrow> string list \<Rightarrow> 'cv \<Rightarrow> 'cv option" where
  "preinit P names cv = fold_opt (\<lambda>n cv. CounterAdd P cv [n] f64_zero) names cv"

definition exporter_New :: "('cv, 'gv) prom \<Rightarrow> ('c, 'hv, 'hm) self_prom \<Rightarrow> boot \<Rightarrow> globals \<Rightarrow> exporter_Opts \<Rightarrow>
    ((error + ('cv, 'gv, 'c, 'hv, 'k) exporter) \<times> globals) option" where
  "exporter_New P S B g opts =
     (if DBOpts opts = [] then Some (Inl ''missing db opts'', g)
      else
        let g = applyMetricPrefix (MetricPrefix opts) g
        in (case new_clients B 0 (DBOpts opts) of
              None \<Rightarrow> None
            | Some (Inl e) \<Rightarrow> Some (Inl e, g)
            | Some (Inr clients) \<Rightarrow>
                let constLabels = (if opts_Name opts \<noteq> [] then [(''database'', opts_Name opts)] else []);
                    timeout = (if CollectionTimeout opts = 0 then DefaultCollectionTimeout else CollectionTimeout opts);
                    ns = g_namespace g;
                    resolved = fst (ResolveCollectors P (g_collectors g) [0..<length clients]
                      (EnabledCollectors opts) (DisabledCollectors opts));
                    errs = NewCounterVec P (self_opts ns ''scrape_errors_total''
                      ''Scrape errors by collector.'' constLabels) [''collector'']
                in (case preinit P (map nc_Name resolved) errs of
                      None \<Rightarrow> None
                    | Some errs \<Rightarrow> Some (Inr
                        \<lparr>ex_dbClients = clients,
                         ex_collectors = map (\<lambda>nc. (nc_Name nc, Builtin (nc_kind nc) (nc_collector nc))) resolved,
                         ex_collectionTimeout = timeout,
                         ex_up = (self_opts ns ''up'' ''Was the last scrape of PostgreSQL successful.'' constLabels, []),
                         ex_totalScrapes = NewCounter S (self_opts ns ''exporter_scrapes_total''
                           ''Current total PostgreSQL scrapes'' constLabels),
                         ex_scrapeDuration = NewHistogramVec S (self_opts ns ''scrape_duration_seconds''
                           ''Time spent scraping a collector, seconds.'' constLabels) duration_buckets [''collector''],
                         ex_scrapeErrors = errs,
                         ex_metricCardinality = NewGaugeVec P (self_opts ns ''metric_cardinality''
                           ''Metric count emitted by a collector on its last scrape.'' constLabels) [''collector'']\<rparr>, g))))"

definition MustNew :: "('cv, 'gv) prom \<Rightarrow> ('c, 'hv, 'hm) self_prom \<Rightarrow> boot \<Rightarrow> globals \<Rightarrow> exporter_Opts \<Rightarrow>
    (('cv, 'gv, 'c, 'hv, 'k) exporter \<times> globals) option" where
  "MustNew P S B g opts = (case exporter_New P S B g opts of
     Some (Inr e, g') \<Rightarrow> Some (e, g')
   | _ \<Rightarrow> None)"

subsection \<open>Registration of further collectors\<close>

text \<open>The loop of \<open>WithCustomCollectors\<close>: \<open>len(e.collectors)\<close> grows with each step.\<close>

fun append_custom :: "nat \<Rightarrow> 'k list \<Rightarrow> (string \<times> ('cv, 'gv, 'k) Collector) list \<Rightarrow>
    (string \<times> ('cv, 'gv, 'k) Collector) list" where
  "append_custom i [] cs = cs"
| "append_custom i (c # rest) cs =
     append_custom (Suc i) rest (cs @ [(''custom_'' @ Itoa (int (length cs + i)), Custom c)])"

definition WithCustomCollectors :: "'k list \<Rightarrow> ('cv, 'gv, 'c, 'hv, 'k) exporter \<Rightarrow>
    ('cv, 'gv, 'c, 'hv, 'k) exporter" where
  "WithCustomCollectors cs e = e\<lparr>ex_collectors := append_custom 0 cs (ex_collectors e)\<rparr>"

fun append_specs :: "('cv, 'gv) prom \<Rightarrow> namespaces \<Rightarrow> nat list \<Rightarrow> CollectorSpec list \<Rightarrow>
    (string \<times> ('cv, 'gv, 'k) Collector) list \<Rightarrow> (string \<times> ('cv, 'gv, 'k) Collector) list option" where
  "append_specs P g clients [] cs = Some cs"
| "append_specs P g clients (s # rest) cs =
     (case NewSpecCollector P g s clients of
        None \<Rightarrow> None
      | Some c \<Rightarrow> append_specs P g clients rest (cs @ [(''spec_'' @ sp_Subsystem s, Declarative c)]))"

definition ExtendFromYAMLFile :: "('cv, 'gv) prom \<Rightarrow> globals \<Rightarrow> (string \<Rightarrow> error + string) \<Rightarrow>
    (string \<Rightarrow> error + yamlCollectorSpec list) \<Rightarrow> string \<Rightarrow> ('cv, 'gv, 'c, 'hv, 'k) exporter \<Rightarrow>
    (error option \<times> ('cv, 'gv, 'c, 'hv, 'k) exporter) option" where
  "ExtendFromYAMLFile P g read_file unmarshal path e =
     (case LoadSpecsFromFile read_file unmarshal path of
        Inl err \<Rightarrow> Some (Some err, e)
      | Inr specs \<Rightarrow>
          (case append_specs P (g_collectors g) [0..<length (ex_dbClients e)] specs (ex_collectors e) of
             None \<Rightarrow> None
           | Some cs \<Rightarrow> Some (None, e\<lparr>ex_collectors := cs\<rparr>)))"

subsection \<open>Describe, HealthCheck and the deadline\<close>

fun Collector_Describe :: "('cv, 'gv) prom \<Rightarrow> ('k \<Rightarrow> desc list) \<Rightarrow> ('cv, 'gv, 'k) Collector \<Rightarrow> desc list" where
  "Collector_Describe P custom_Describe (Builtin k c) = Describe_kind k P c"
| "Collector_Describe P custom_Describe (Declarative c) = SpecCollector_Describe P c"
| "Collector_Describe P custom_Describe (Custom c) = custom_Describe c"

definition exporter_Describe :: "('cv, 'gv) prom \<Rightarrow> ('c, 'hv, 'hm) self_prom \<Rightarrow> ('k \<Rightarrow> desc list) \<Rightarrow>
    ('cv, 'gv, 'c, 'hv, 'k) exporter \<Rightarrow> desc list" where
  "exporter_Describe P S custom_Describe e =
     [ex_up e, m_desc (CounterMetric S (ex_totalScrapes e)), HistogramDesc S (ex_scrapeDuration e),
      CounterDesc P (ex_scrapeErrors e), GaugeDesc P (ex_metricCardinality e)] @
     concat (map (\<lambda>(_, c). Collector_Describe P custom_Describe c) (ex_collectors e))"

definition HealthCheck :: "(error option list \<Rightarrow> error option) \<Rightarrow> (nat \<Rightarrow> error option) \<Rightarrow>
    ('cv, 'gv, 'c, 'hv, 'k) exporter \<Rightarrow> error option option" where
  "HealthCheck wait ping e = map_option wait (collect_some (map (CheckConnection ping) (ex_dbClients e)))"

text \<open>The deadline of a scrape that starts at \<open>now\<close>, if there is one.\<close>

definition scrapeContext :: "('cv, 'gv, 'c, 'hv, 'k) exporter \<Rightarrow> int \<Rightarrow> int option" where
  "scrapeContext e now = (if ex_collectionTimeout e < 0 then None else Some (now + ex_collectionTimeout e))"

subsection \<open>Collect\<close>

text \<open>
  The outside of one \<open>Collect\<close>, per position of a collector in the exporter's list: the server
  and the result of a query for each client, the version another goroutine may have learned in the
  meantime (zero for none) and the answers to this collector's own probes, the schedules, the
  duration. \<open>se_order\<close> is the order in which the calls of \<open>instrument\<close> record their results.
\<close>

record 'k scrape_env =
  se_wait :: "error option list \<Rightarrow> error option"
  se_collector_wait :: "nat \<Rightarrow> error option list \<Rightarrow> error option"
  se_sched :: "nat \<Rightarrow> nat list"
  se_server :: "nat \<Rightarrow> nat \<Rightarrow> server"
  se_query :: "nat \<Rightarrow> nat \<Rightarrow> string \<Rightarrow> error + rows"
  se_learned :: "nat \<Rightarrow> nat \<Rightarrow> int"
  se_probes :: "nat \<Rightarrow> nat \<Rightarrow> probes"
  se_custom :: "nat \<Rightarrow> 'k \<Rightarrow> (metric list \<times> error option \<times> 'k) option"
  se_seconds :: "nat \<Rightarrow> f64"
  se_merge :: "nat list"
  se_order :: "nat list"

text \<open>A client as the \<open>i\<close>-th collector finds it.\<close>

definition client_view :: "'k scrape_env \<Rightarrow> Client option list \<Rightarrow> nat \<Rightarrow> nat \<Rightarrow> cstate" where
  "client_view env clients i j =
     (let c = the (clients ! j)
      in (if ServerVersionNum c = 0 then c\<lparr>ServerVersionNum := se_learned env i j\<rparr> else c, se_probes env i j))"

record ('cv, 'gv, 'k) run =
  run_metrics :: "metric list"
  run_err :: "error option"
  run_collector :: "('cv, 'gv, 'k) Collector"
  run_clients :: "nat \<Rightarrow> cstate"

text \<open>\<open>nc.Collector.Scrape\<close>; a method call on a nil client panics.\<close>

fun Collector_Scrape :: "('cv, 'gv) prom \<Rightarrow> 'k scrape_env \<Rightarrow> Client option list \<Rightarrow> nat \<Rightarrow>
    ('cv, 'gv, 'k) Collector \<Rightarrow> ('cv, 'gv, 'k) run option" where
  "Collector_Scrape P env clients i (Builtin k c) =
     (if None \<in> set clients then None
      else map_option (\<lambda>out. \<lparr>run_metrics = oc_metrics out, run_err = oc_err out,
             run_collector = Builtin k (oc_collector out), run_clients = oc_clients out\<rparr>)
           (Scrape_kind k P (se_collector_wait env i) (se_sched env i) (se_server env i)
             (client_view env clients i) c))"
| "Collector_Scrape P env clients i (Declarative c) =
     (if None \<in> set clients then None
      else map_option (\<lambda>out. \<lparr>run_metrics = so_metrics out, run_err = so_err out,
             run_collector = Declarative (so_collector out), run_clients = so_clients out\<rparr>)
           (SpecCollector_Scrape P (se_collector_wait env i) (se_sched env i) (se_query env i)
             (client_view env clients i) c))"
| "Collector_Scrape P env clients i (Custom k) =
     map_option (\<lambda>(ms, err, k'). \<lparr>run_metrics = ms, run_err = err, run_collector = Custom k',
             run_clients = client_view env clients i\<rparr>) (se_custom env i k)"

text \<open>What \<open>instrument\<close> records after the \<open>Scrape\<close> of one collector: its three own metrics.\<close>

type_synonym ('cv, 'gv, 'hv) selfs = "'hv \<times> 'cv \<times> 'gv"

definition instrument :: "('cv, 'gv) prom \<Rightarrow> ('c, 'hv, 'hm) self_prom \<Rightarrow> string \<Rightarrow> ('cv, 'gv, 'k) run \<Rightarrow> f64 \<Rightarrow>
    ('cv, 'gv, 'hv) selfs \<Rightarrow> ('cv, 'gv, 'hv) selfs option" where
  "instrument P S name r secs selfs = (case selfs of (durations, errs, cardinality) \<Rightarrow>
     let n = length (run_metrics r)
     in (case HistogramObserve S durations [name] secs of
           None \<Rightarrow> None
         | Some durations \<Rightarrow>
             (case GaugeSet P cardinality [name] (f64_of_int (int n)) of
                None \<Rightarrow> None
              | Some cardinality \<Rightarrow>
                  if run_err r \<noteq> None
                  then (case CounterAdd P errs [name] (f64_of_int 1) of
                          None \<Rightarrow> None
                        | Some errs \<Rightarrow> Some (durations, errs, cardinality))
                  else Some (durations, errs, cardinality))))"

text \<open>The clients after a scrape: the version that the first collector to finish has cached.\<close>

definition clients_after :: "nat list \<Rightarrow> ('cv, 'gv, 'k) run list \<Rightarrow> Client option list \<Rightarrow> Client option list" where
  "clients_after order runs clients =
     map (\<lambda>(j, c). map_option (\<lambda>c. if ServerVersionNum c \<noteq> 0 then c
         else (case filter (\<lambda>v. v \<noteq> 0) (map (\<lambda>i. ServerVersionNum (fst (run_clients (runs ! i) j))) order) of
                 [] \<Rightarrow> c
               | v # _ \<Rightarrow> c\<lparr>ServerVersionNum := v\<rparr>)) c)
       (enumerate 0 clients)"

datatype 'hm sent = Sent metric | SentHistogram 'hm

definition collector_runs :: "('cv, 'gv) prom \<Rightarrow> 'k scrape_env \<Rightarrow> ('cv, 'gv, 'c, 'hv, 'k) exporter \<Rightarrow>
    ('cv, 'gv, 'k) run list option" where
  "collector_runs P env e =
     collect_some (map (\<lambda>i. Collector_Scrape P env (ex_dbClients e) i (snd (ex_collectors e ! i)))
       [0..<length (ex_collectors e)])"

definition record_runs :: "('cv, 'gv) prom \<Rightarrow> ('c, 'hv, 'hm) self_prom \<Rightarrow> 'k scrape_env \<Rightarrow>
    ('cv, 'gv, 'c, 'hv, 'k) exporter \<Rightarrow> ('cv, 'gv, 'k) run list \<Rightarrow> nat list \<Rightarrow>
    ('cv, 'gv, 'hv) selfs \<Rightarrow> ('cv, 'gv, 'hv) selfs option" where
  "record_runs P S env e runs =
     fold_opt (\<lambda>i. instrument P S (fst (ex_collectors e ! i)) (runs ! i) (se_seconds env i))"

text \<open>What is sent on the channel, and the exporter afterwards.\<close>

definition exporter_Collect :: "('cv, 'gv) prom \<Rightarrow> ('c, 'hv, 'hm) self_prom \<Rightarrow> 'k scrape_env \<Rightarrow>
    ('cv, 'gv, 'c, 'hv, 'k) exporter \<Rightarrow> ('hm sent list \<times> ('cv, 'gv, 'c, 'hv, 'k) exporter) option" where
  "exporter_Collect P S env e =
     (let total = CounterInc S (ex_totalScrapes e)
      in (case collector_runs P env e of
            None \<Rightarrow> None
          | Some runs \<Rightarrow>
              (case record_runs P S env e runs (se_order env)
                      (ex_scrapeDuration e, ex_scrapeErrors e, ex_metricCardinality e) of
                 None \<Rightarrow> None
               | Some (durations, errs, cardinality) \<Rightarrow>
                   let up = (if se_wait env (map run_err runs) = None then f64_of_int 1 else f64_of_int 0);
                       e = e\<lparr>ex_dbClients := clients_after (se_order env) runs (ex_dbClients e),
                             ex_collectors := zip (map fst (ex_collectors e)) (map run_collector runs),
                             ex_totalScrapes := total, ex_scrapeDuration := durations,
                             ex_scrapeErrors := errs, ex_metricCardinality := cardinality\<rparr>
                   in Some (map Sent (interleave (se_merge env) (map run_metrics runs)) @
                        [Sent \<lparr>m_desc = ex_up e, m_labels = [], m_value = up\<rparr>, Sent (CounterMetric S total)] @
                        map SentHistogram (HistogramCollect S durations) @
                        map Sent (CounterCollect P errs) @ map Sent (GaugeCollect P cardinality), e))))"

end
