(* ===== verification/ExporterProps.thy ===== *)
theory ExporterProps
  imports Exporter
begin

text \<open>
  What the exporter does: its own metrics, the totality of \<open>Collect\<close> and of \<open>New\<close>, what a scrape
  reports, the registration of custom and declarative collectors, and that \<open>Describe\<close> announces
  whatever \<open>Collect\<close> sends. \<open>exporter_ok\<close> is the invariant of an exporter.
\<close>

subsection \<open>Lemmas: own metrics\<close>

definition selfs_ok :: "('cv, 'gv) prom \<Rightarrow> ('c, 'hv, 'hm) self_prom \<Rightarrow> ('cv, 'gv, 'hv) selfs \<Rightarrow> bool" where
  "selfs_ok P S selfs \<longleftrightarrow> (case selfs of (durations, errs, cardinality) \<Rightarrow>
     snd (HistogramDesc S durations) = [''collector''] \<and> snd (CounterDesc P errs) = [''collector''] \<and>
     snd (GaugeDesc P cardinality) = [''collector''])"

text \<open>The error counter of a collector stands at \<open>k\<close>; at zero the series may not exist yet.\<close>

definition counted :: "('cv, 'gv) prom \<Rightarrow> 'cv \<Rightarrow> string \<Rightarrow> nat \<Rightarrow> bool" where
  "counted P errs name k \<longleftrightarrow> prom.CounterValue P errs [name] = Some (f64_of_int (int k)) \<or>
     k = 0 \<and> prom.CounterValue P errs [name] = None"

text \<open>One run recorded under a name.\<close>

definition recorded :: "('cv, 'gv) prom \<Rightarrow> ('c, 'hv, 'hm) self_prom \<Rightarrow> string \<Rightarrow> ('cv, 'gv, 'k) run \<Rightarrow>
    ('cv, 'gv, 'hv) selfs \<Rightarrow> ('cv, 'gv, 'hv) selfs \<Rightarrow> bool" where
  "recorded P S name r before after \<longleftrightarrow> (case (before, after) of ((ds, es, cs), (ds', es', cs')) \<Rightarrow>
     HistogramCount S ds' [name] = Suc (HistogramCount S ds [name]) \<and>
     prom.GaugeValue P cs' [name] = Some (f64_of_int (int (length (run_metrics r)))) \<and>
     (\<forall>k < 2 ^ 53. counted P es name k \<longrightarrow> counted P es' name (k + (if run_err r = None then 0 else 1))))"

definition same_at :: "('cv, 'gv) prom \<Rightarrow> ('c, 'hv, 'hm) self_prom \<Rightarrow> string \<Rightarrow> ('cv, 'gv, 'hv) selfs \<Rightarrow>
    ('cv, 'gv, 'hv) selfs \<Rightarrow> bool" where
  "same_at P S name before after \<longleftrightarrow> (case (before, after) of ((ds, es, cs), (ds', es', cs')) \<Rightarrow>
     HistogramCount S ds' [name] = HistogramCount S ds [name] \<and>
     prom.GaugeValue P cs' [name] = prom.GaugeValue P cs [name] \<and>
     prom.CounterValue P es' [name] = prom.CounterValue P es [name])"

lemma same_at_refl: "same_at P S name s s"
  by (cases s) (simp add: same_at_def)

lemma same_at_trans: "same_at P S name s t \<Longrightarrow> same_at P S name t u \<Longrightarrow> same_at P S name s u"
  by (cases s; cases t; cases u) (simp add: same_at_def)

lemma recorded_same: "recorded P S name r s t \<Longrightarrow> same_at P S name t u \<Longrightarrow> recorded P S name r s u"
  by (cases s; cases t; cases u) (simp add: recorded_def same_at_def counted_def)

lemma same_recorded: "same_at P S name s t \<Longrightarrow> recorded P S name r t u \<Longrightarrow> recorded P S name r s u"
  by (cases s; cases t; cases u) (simp add: recorded_def same_at_def counted_def)

lemma one_more:
  assumes "k < 2 ^ 53"
  shows "f64_add (f64_of_int (int k)) (f64_of_int 1) = f64_of_int (int (Suc k))"
    and "exact_nat (f64_of_int (int k))" and "exact_nat (f64_of_int (int (Suc k)))"
proof -
  have k: "int k < 2 ^ 53" using assms by (metis of_nat_less_iff of_nat_numeral of_nat_power)
  then show "exact_nat (f64_of_int (int k))" "exact_nat (f64_of_int (int (Suc k)))"
    by (auto intro!: exact_nat_of_int)
  have "f64_add (f64_of_int (int k)) (f64_of_int 1) = mk_f64 (of_int (int (Suc k)))"
    using k by (simp add: f64_of_int_exact add.commute)
  then show "f64_add (f64_of_int (int k)) (f64_of_int 1) = f64_of_int (int (Suc k))"
    by (simp add: f64_of_int_def)
qed

lemma exact_one: "exact_nat (f64_of_int 1)" "\<not> f64_less (f64_of_int 1) f64_zero"
  using exact_nat_of_int [of 1] exact_nat_not_less_zero [of "f64_of_int 1"] by simp_all

lemma count_one:
  assumes "prom_counters P" and "snd (CounterDesc P es) = [''collector'']" and "LabelValueOK P name"
  shows "\<exists>es'. CounterAdd P es [name] (f64_of_int 1) = Some es' \<and> CounterDesc P es' = CounterDesc P es \<and>
    (\<forall>l. l \<noteq> [name] \<longrightarrow> prom.CounterValue P es' l = prom.CounterValue P es l) \<and>
    (\<forall>k < 2 ^ 53. counted P es name k \<longrightarrow> counted P es' name (Suc k))"
proof -
  obtain es' where es': "CounterAdd P es [name] (f64_of_int 1) = Some es'"
    using prom_counters.counter_add_ok [OF assms(1), of es "[name]" "f64_of_int 1"] assms(2,3) exact_one(2)
    by (auto simp: fits_def)
  have "counted P es' name (Suc k)" if "k < 2 ^ 53" "counted P es name k" for k
  proof (cases "prom.CounterValue P es [name]")
    case None
    with that have "k = 0" by (simp add: counted_def)
    with prom_counters.counter_add_fresh [OF assms(1) es' None] show ?thesis by (simp add: counted_def)
  next
    case (Some x)
    with that have "x = f64_of_int (int k)" by (simp add: counted_def)
    with prom_counters.counter_add_exact [OF assms(1) es' Some] one_more [OF that(1)] exact_one(1)
    show ?thesis by (simp add: counted_def)
  qed
  with es' prom_counters.counter_add_desc [OF assms(1) es'] prom_counters.counter_add_other [OF assms(1) es']
  show ?thesis by blast
qed

lemma instrument_records:
  assumes "prom_vecs P" and "self_metrics P S" and "selfs_ok P S selfs" and "LabelValueOK P name"
  shows "\<exists>selfs'. instrument P S name r secs selfs = Some selfs' \<and> selfs_ok P S selfs' \<and>
    recorded P S name r selfs selfs' \<and> (\<forall>n. n \<noteq> name \<longrightarrow> same_at P S n selfs selfs')"
proof -
  obtain ds es cs where s: "selfs = (ds, es, cs)" by (cases selfs)
  have descs: "snd (HistogramDesc S ds) = [''collector'']" "snd (CounterDesc P es) = [''collector'']"
    "snd (GaugeDesc P cs) = [''collector'']" using assms(3) by (simp_all add: selfs_ok_def s)
  note C = prom_vecs.axioms(1) [OF assms(1)] and G = prom_vecs.axioms(2) [OF assms(1)]
  obtain ds' where ds': "HistogramObserve S ds [name] secs = Some ds'"
    using self_metrics.histogram_observe_ok [OF assms(2), of ds "[name]" secs] descs assms(4)
    by (auto simp: fits_def)
  let ?v = "f64_of_int (int (length (run_metrics r)))"
  obtain cs' where cs': "GaugeSet P cs [name] ?v = Some cs'"
    using prom_gauges.gauge_set_ok [OF G, of cs "[name]" ?v] descs assms(4) by (auto simp: fits_def)
  obtain es' where es': "CounterAdd P es [name] (f64_of_int 1) = Some es'" "CounterDesc P es' = CounterDesc P es"
    "\<forall>l. l \<noteq> [name] \<longrightarrow> prom.CounterValue P es' l = prom.CounterValue P es l"
    "\<forall>k < 2 ^ 53. counted P es name k \<longrightarrow> counted P es' name (Suc k)"
    using count_one [OF C descs(2) assms(4)] by blast
  let ?es' = "if run_err r = None then es else es'"
  have "instrument P S name r secs selfs = Some (ds', ?es', cs')"
    using ds' cs' es'(1) by (simp add: instrument_def s Let_def)
  moreover have "selfs_ok P S (ds', ?es', cs')"
    using descs self_metrics.histogram_observe_desc [OF assms(2) ds'] prom_gauges.gauge_set_desc [OF G cs'] es'(2)
    by (simp add: selfs_ok_def)
  moreover have "recorded P S name r selfs (ds', ?es', cs') \<and> (\<forall>n. n \<noteq> name \<longrightarrow> same_at P S n selfs (ds', ?es', cs'))"
    using self_metrics.histogram_observe_count [OF assms(2) ds'] prom_gauges.gauge_set_value [OF G cs'] es'(3,4)
    by (simp add: recorded_def same_at_def s)
  ultimately show ?thesis by blast
qed

text \<open>All runs, in the order in which they finish.\<close>

lemma record_runs_records:
  assumes "prom_vecs P" and "self_metrics P S" and "distinct (map fst (ex_collectors e))"
    and "\<forall>i \<in> set is. i < length (ex_collectors e) \<and> LabelValueOK P (fst (ex_collectors e ! i))"
    and "distinct is" and "selfs_ok P S selfs"
  shows "\<exists>selfs'. record_runs P S env e runs is selfs = Some selfs' \<and> selfs_ok P S selfs' \<and>
    (\<forall>i \<in> set is. recorded P S (fst (ex_collectors e ! i)) (runs ! i) selfs selfs') \<and>
    (\<forall>n. n \<notin> (\<lambda>i. fst (ex_collectors e ! i)) ` set is \<longrightarrow> same_at P S n selfs selfs')"
  using assms(4-6)
proof (induction "is" arbitrary: selfs)
  case Nil
  then show ?case by (simp add: record_runs_def same_at_refl)
next
  case (Cons i "is")
  let ?name = "\<lambda>i. fst (ex_collectors e ! i)"
  have name_ok: "LabelValueOK P (?name i)" using Cons.prems(1) by simp
  obtain s1 where s1: "instrument P S (?name i) (runs ! i) (se_seconds env i) selfs = Some s1" "selfs_ok P S s1"
    "recorded P S (?name i) (runs ! i) selfs s1" "\<forall>n. n \<noteq> ?name i \<longrightarrow> same_at P S n selfs s1"
    using instrument_records [OF assms(1,2) Cons.prems(3) name_ok, of "runs ! i" "se_seconds env i"] by blast
  obtain s2 where s2: "record_runs P S env e runs is s1 = Some s2" "selfs_ok P S s2"
    "\<forall>j \<in> set is. recorded P S (?name j) (runs ! j) s1 s2"
    "\<forall>n. n \<notin> ?name ` set is \<longrightarrow> same_at P S n s1 s2"
    using Cons.IH [OF _ _ s1(2)] Cons.prems by auto
  have other: "?name j \<noteq> ?name i" if "j \<in> set is" for j
    using that Cons.prems(1,2) assms(3) nth_eq_iff_index_eq [of "map fst (ex_collectors e)" i j] by force
  have "record_runs P S env e runs (i # is) selfs = Some s2"
    using s1(1) s2(1) by (simp add: record_runs_def)
  moreover have "recorded P S (?name i) (runs ! i) selfs s2"
  proof -
    have "?name i \<notin> ?name ` set is"
    proof
      assume "?name i \<in> ?name ` set is"
      then obtain j where "j \<in> set is" "?name i = ?name j" by (rule imageE)
      with other [of j] show False by simp
    qed
    with s2(4) have "same_at P S (?name i) s1 s2" by blast
    with s1(3) show ?thesis by (rule recorded_same)
  qed
  moreover have "\<forall>j \<in> set is. recorded P S (?name j) (runs ! j) selfs s2"
  proof
    fix j
    assume j: "j \<in> set is"
    from s1(4) other [OF j] have "same_at P S (?name j) selfs s1" by blast
    moreover from s2(3) j have "recorded P S (?name j) (runs ! j) s1 s2" by blast
    ultimately show "recorded P S (?name j) (runs ! j) selfs s2" by (rule same_recorded)
  qed
  moreover have "\<forall>n. n \<notin> ?name ` set (i # is) \<longrightarrow> same_at P S n selfs s2"
  proof (intro allI impI)
    fix n
    assume n: "n \<notin> ?name ` set (i # is)"
    with s1(4) have "same_at P S n selfs s1" by simp
    moreover from n s2(4) have "same_at P S n s1 s2" by simp
    ultimately show "same_at P S n selfs s2" by (rule same_at_trans)
  qed
  ultimately show ?case using s2(2) by (intro exI [of _ s2]) simp
qed

lemma record_runs_total:
  assumes "prom_vecs P" and "self_metrics P S"
    and "\<forall>i \<in> set is. LabelValueOK P (fst (ex_collectors e ! i))" and "selfs_ok P S selfs"
  shows "\<exists>selfs'. record_runs P S env e runs is selfs = Some selfs' \<and> selfs_ok P S selfs'"
  using assms(3,4)
proof (induction "is" arbitrary: selfs)
  case Nil
  then show ?case by (simp add: record_runs_def)
next
  case (Cons i "is")
  have name_ok: "LabelValueOK P (fst (ex_collectors e ! i))" using Cons.prems(1) by simp
  obtain s1 where s1: "instrument P S (fst (ex_collectors e ! i)) (runs ! i) (se_seconds env i) selfs = Some s1"
    "selfs_ok P S s1"
    using instrument_records [OF assms(1,2) Cons.prems(2) name_ok, of "runs ! i" "se_seconds env i"] by blast
  with Cons.IH [OF _ s1(2)] Cons.prems(1) show ?case by (simp add: record_runs_def)
qed

subsection \<open>Lemmas: the collectors of an exporter\<close>

text \<open>The state of a collector that its constructor gives it and its scrapes keep.\<close>

fun collector_ok :: "('cv, 'gv) prom \<Rightarrow> nat list \<Rightarrow> ('cv, 'gv, 'k) Collector \<Rightarrow> bool" where
  "collector_ok P cs (Builtin k c) \<longleftrightarrow> dbClients c = cs \<and> (\<exists>g. built P g k c)"
| "collector_ok P cs (Declarative c) \<longleftrightarrow> sc_dbClients c = cs \<and> spec_built P c"
| "collector_ok P cs (Custom k) \<longleftrightarrow> True"

definition exporter_ok :: "('cv, 'gv) prom \<Rightarrow> ('c, 'hv, 'hm) self_prom \<Rightarrow>
    ('cv, 'gv, 'c, 'hv, 'k) exporter \<Rightarrow> bool" where
  "exporter_ok P S e \<longleftrightarrow>
     selfs_ok P S (ex_scrapeDuration e, ex_scrapeErrors e, ex_metricCardinality e) \<and>
     None \<notin> set (ex_dbClients e) \<and>
     (\<forall>(n, c) \<in> set (ex_collectors e). LabelValueOK P n \<and> collector_ok P [0..<length (ex_dbClients e)] c)"

text \<open>What the outside must do for a scrape of a collector not to panic.\<close>

fun scrape_benign :: "('cv, 'gv) prom \<Rightarrow> 'k scrape_env \<Rightarrow> Client option list \<Rightarrow> nat \<Rightarrow>
    ('cv, 'gv, 'k) Collector \<Rightarrow> bool" where
  "scrape_benign P env clients i (Builtin k c) \<longleftrightarrow>
     (\<forall>j \<in> set (dbClients c). \<forall>em \<in> set (client_emissions k (se_server env i) (client_view env clients i) j).
        benign P em)"
| "scrape_benign P env clients i (Declarative c) \<longleftrightarrow>
     (\<forall>j rs vals. se_query env i j (sp_SQL (sc_spec c)) = Inr rs \<and> Inr vals \<in> set (rows_values rs) \<longrightarrow>
        length vals = length (rows_columns rs)) \<and>
     (\<forall>j es err em. fst (SpecCollector_scrape (sc_spec c) (se_query env i j) (client_view env clients i j)) = Some (es, err) \<and>
        em \<in> set es \<longrightarrow> spec_benign P (sc_spec c) em)"
| "scrape_benign P env clients i (Custom k) \<longleftrightarrow> se_custom env i k \<noteq> None"

lemma apply_spec_clients: "apply_spec_emission P em c = Some c' \<Longrightarrow> sc_dbClients c' = sc_dbClients c"
  by (cases em) (auto split: if_splits option.splits)

lemma SpecCollector_Scrape_clients:
  assumes "SpecCollector_Scrape P wait sched query cl c = Some out"
  shows "sc_dbClients (so_collector out) = sc_dbClients c"
proof -
  obtain es where es: "fold_opt (apply_spec_emission P) es c = Some (so_collector out)"
    using assms by (auto simp: SpecCollector_Scrape_def Let_def split: option.splits)
  show ?thesis
    by (rule fold_opt_invariant [OF _ _ es, where I = "\<lambda>c'. sc_dbClients c' = sc_dbClients c"])
      (simp_all add: apply_spec_clients)
qed

lemma Collector_Scrape_ok:
  assumes "prom_vecs P" and "None \<notin> set clients" and "collector_ok P cs c" and "scrape_benign P env clients i c"
  shows "\<exists>r. Collector_Scrape P env clients i c = Some r \<and> collector_ok P cs (run_collector r)"
proof (cases c)
  case (Builtin k b)
  then obtain g where g: "built P g k b" "dbClients b = cs" using assms(3) by auto
  obtain out where out: "Scrape_kind k P (se_collector_wait env i) (se_sched env i) (se_server env i)
      (client_view env clients i) b = Some out" "built P g k (oc_collector out)"
    using Scrape_kind_benign [OF assms(1) g(1)] assms(4) Builtin by fastforce
  then have "dbClients (oc_collector out) = cs"
    using run_built [OF assms(1) g(1) Scrape_kind_run(1)] g(2) by blast
  with out Builtin assms(2) show ?thesis by auto
next
  case (Declarative b)
  have b: "spec_built P b" "sc_dbClients b = cs" using assms(3) Declarative by simp_all
  note benign = assms(4) [unfolded Declarative scrape_benign.simps]
  from SpecCollector_Scrape_benign [OF assms(1) b(1) conjunct1 [OF benign] conjunct2 [OF benign]]
  obtain out where out: "SpecCollector_Scrape P (se_collector_wait env i) (se_sched env i) (se_query env i)
      (client_view env clients i) b = Some out" "spec_built P (so_collector out)" by blast
  with SpecCollector_Scrape_clients [OF out(1)] Declarative assms(2,3) show ?thesis by auto
next
  case (Custom k)
  with assms(4) show ?thesis by auto
qed

lemma collector_runs_nth:
  assumes "collector_runs P env e = Some runs"
  shows "length runs = length (ex_collectors e)"
    and "i < length (ex_collectors e) \<Longrightarrow>
      Collector_Scrape P env (ex_dbClients e) i (snd (ex_collectors e ! i)) = Some (runs ! i)"
  using collect_some_length [OF assms [unfolded collector_runs_def]]
    collect_some_nth [OF assms [unfolded collector_runs_def], of i] by simp_all

lemma collector_runs_total:
  assumes "prom_vecs P" and "exporter_ok P S e"
    and "\<forall>i < length (ex_collectors e). scrape_benign P env (ex_dbClients e) i (snd (ex_collectors e ! i))"
  shows "\<exists>runs. collector_runs P env e = Some runs \<and>
    (\<forall>i < length (ex_collectors e). collector_ok P [0..<length (ex_dbClients e)] (run_collector (runs ! i)))"
proof -
  let ?run = "\<lambda>i. Collector_Scrape P env (ex_dbClients e) i (snd (ex_collectors e ! i))"
  let ?n = "length (ex_collectors e)"
  have run: "\<exists>r. ?run i = Some r \<and> collector_ok P [0..<length (ex_dbClients e)] (run_collector r)" if "i < ?n" for i
  proof (rule Collector_Scrape_ok [OF assms(1)])
    show "None \<notin> set (ex_dbClients e)" using assms(2) by (simp add: exporter_ok_def)
    show "collector_ok P [0..<length (ex_dbClients e)] (snd (ex_collectors e ! i))"
      using assms(2) nth_mem [OF that] unfolding exporter_ok_def by (auto simp: case_prod_beta)
    show "scrape_benign P env (ex_dbClients e) i (snd (ex_collectors e ! i))" using assms(3) that by blast
  qed
  have "collector_runs P env e = Some (map (\<lambda>i. the (?run i)) [0..<?n])"
    unfolding collector_runs_def by (rule collect_some_map) (use run in force)
  moreover have "collector_ok P [0..<length (ex_dbClients e)] (run_collector (map (\<lambda>i. the (?run i)) [0..<?n] ! i))"
    if "i < ?n" for i using run [OF that] that by auto
  ultimately show ?thesis by blast
qed

lemma clients_after_length [simp]: "length (clients_after order runs cs) = length cs"
  by (simp add: clients_after_def enumerate_eq_zip)

lemma clients_after_nil: "None \<in> set (clients_after order runs cs) \<longleftrightarrow> None \<in> set cs"
  by (force simp: clients_after_def enumerate_eq_zip in_set_zip in_set_conv_nth image_iff)

lemma errgroup_up:
  "errgroup wait \<Longrightarrow> wait (map run_err runs) = None \<longleftrightarrow> (\<forall>r \<in> set runs. run_err r = None)"
  by (simp add: errgroup.wait_None)

lemma Collect_total:
  assumes "prom_vecs P" and "self_metrics P S" and "exporter_ok P S e"
    and "\<forall>i < length (ex_collectors e). scrape_benign P env (ex_dbClients e) i (snd (ex_collectors e ! i))"
    and "set (se_order env) = {..<length (ex_collectors e)}"
  shows "\<exists>sent e'. exporter_Collect P S env e = Some (sent, e') \<and> exporter_ok P S e' \<and>
    map fst (ex_collectors e') = map fst (ex_collectors e)"
proof -
  let ?n = "length (ex_collectors e)"
  obtain runs where runs: "collector_runs P env e = Some runs"
    "\<forall>i < ?n. collector_ok P [0..<length (ex_dbClients e)] (run_collector (runs ! i))"
    using collector_runs_total [OF assms(1,3,4)] by blast
  note len = collector_runs_nth(1) [OF runs(1)]
  have names: "LabelValueOK P (fst (ex_collectors e ! i))" if "i < ?n" for i
    using assms(3) nth_mem [OF that] unfolding exporter_ok_def by (auto simp: case_prod_beta)
  obtain selfs where selfs: "record_runs P S env e runs (se_order env)
      (ex_scrapeDuration e, ex_scrapeErrors e, ex_metricCardinality e) = Some selfs" "selfs_ok P S selfs"
    using record_runs_total [OF assms(1,2)] assms(3,5) names unfolding exporter_ok_def
    by (metis lessThan_iff)
  obtain ds es cs where s: "selfs = (ds, es, cs)" by (cases selfs)
  have "\<forall>(n, c) \<in> set (zip (map fst (ex_collectors e)) (map run_collector runs)).
      LabelValueOK P n \<and> collector_ok P [0..<length (ex_dbClients e)] c"
    using runs(2) names len by (auto simp: set_zip)
  moreover have "None \<notin> set (ex_dbClients e)" using assms(3) by (simp add: exporter_ok_def)
  ultimately show ?thesis
    using selfs len
    by (auto simp: exporter_Collect_def Let_def runs(1) s exporter_ok_def clients_after_nil)
qed

subsection \<open>Lemmas: New\<close>

text \<open>With a non-negative number of retries the loop runs at least once, so there is a client or
  an error; with \<open>-2\<close> or less it does not run at all.\<close>

lemma dial_client_or_error:
  assumes "0 \<le> MaxConnectionRetries o1" and "int i \<le> MaxConnectionRetries o1 \<or> err \<noteq> None"
    and "dial env o1 ps i err sl = Some r"
  shows "nr_client r \<noteq> None \<or> nr_err r \<noteq> None"
  using assms(2,3)
proof (induction "nat (MaxConnectionRetries o1 + 1 - int i)" arbitrary: i err sl rule: less_induct)
  case less
  note step = less.prems(2) [unfolded dial.simps [of env o1 ps i err sl]]
  show ?case
  proof (cases "int i \<le> MaxConnectionRetries o1")
    case False
    then have "\<not> (int i \<le> MaxConnectionRetries o1 \<or> MaxConnectionRetries o1 = -1)" using assms(1) by simp
    with step have "r = \<lparr>nr_client = None, nr_err = err, nr_attempts = i, nr_sleeps = sl\<rparr>" by simp
    with less.prems(1) False show ?thesis by simp
  next
    case True
    show ?thesis
    proof (cases "new_pool env i")
      case (Inr p)
      with step True show ?thesis by auto
    next
      case (Inl e)
      show ?thesis
      proof (cases "ctx_err env i = Some e")
        case True
        with step Inl \<open>int i \<le> _\<close> show ?thesis by auto
      next
        case False
        have smaller: "nat (MaxConnectionRetries o1 + 1 - int (Suc i)) < nat (MaxConnectionRetries o1 + 1 - int i)"
          using True by simp
        from step True Inl False obtain sl' where "dial env o1 ps (Suc i) (Some e) sl' = Some r" by auto
        then show ?thesis using less.hyps [OF smaller, of "Some e" sl'] by blast
      qed
    qed
  qed
qed

lemma db_New_client_or_error:
  assumes "0 \<le> MaxConnectionRetries o1" and "db_New pc dsn dial_to ps o1 = Some r"
  shows "nr_client r \<noteq> None \<or> nr_err r \<noteq> None"
proof (cases "pc (dsn o1)")
  case (Inl e)
  with assms(2) show ?thesis by (auto simp: db_New_def)
next
  case (Inr cfg)
  with assms dial_client_or_error [OF assms(1), of 0 None] show ?thesis by (auto simp: db_New_def)
qed

lemma db_New_empty:
  assumes "MaxConnectionRetries o1 \<le> -2" and "db_New pc dsn dial_to ps o1 = Some r" and "nr_err r = None"
  shows "nr_client r = None"
  using assms by (auto simp: db_New_def dial.simps split: sum.splits)

lemma db_New_total:
  assumes "MaxConnectionRetries o1 \<noteq> -1"
  shows "\<exists>r. db_New pc dsn dial_to ps o1 = Some r"
proof (cases "pc (dsn o1)")
  case (Inr cfg)
  with dial_returns [OF assms, of "dial_to (configure o1 cfg)" ps 0 None 0] show ?thesis by (auto simp: db_New_def)
qed (simp add: db_New_def)

text \<open>The clients: all there, or the error of the first that fails.\<close>

definition client_failed :: "boot \<Rightarrow> nat \<Rightarrow> Opts \<Rightarrow> error \<Rightarrow> bool" where
  "client_failed B i o1 e \<longleftrightarrow>
     (\<exists>r. db_New (bt_parse_config B) DSN (bt_dial B i) (bt_probes B i) o1 = Some r \<and> nr_err r = Some e)"

lemma new_clients_cases:
  assumes "\<forall>o1 \<in> set os. 0 \<le> MaxConnectionRetries o1"
  shows "(\<exists>cs. new_clients B i os = Some (Inr cs) \<and> length cs = length os \<and> None \<notin> set cs) \<or>
    (\<exists>j e. j < length os \<and> client_failed B (i + j) (os ! j) e \<and>
       new_clients B i os = Some (Inl (''creating exporter: '' @ e)))"
  using assms
proof (induction os arbitrary: i)
  case Nil
  then show ?case by simp
next
  case (Cons o1 os)
  obtain r where r: "db_New (bt_parse_config B) DSN (bt_dial B i) (bt_probes B i) o1 = Some r"
    using db_New_total [of o1] Cons.prems by force
  show ?case
  proof (cases "nr_err r")
    case (Some e)
    with r have "client_failed B (i + 0) ((o1 # os) ! 0) e" by (simp add: client_failed_def)
    moreover have "new_clients B i (o1 # os) = Some (Inl (''creating exporter: '' @ e))" using r Some by simp
    ultimately show ?thesis by blast
  next
    case None
    then have c: "nr_client r \<noteq> None" using db_New_client_or_error [OF _ r] Cons.prems by simp
    from Cons.IH [of "Suc i"] Cons.prems consider
      (ok) cs where "new_clients B (Suc i) os = Some (Inr cs)" "length cs = length os" "None \<notin> set cs"
    | (failed) j e where "j < length os" "client_failed B (Suc i + j) (os ! j) e"
        "new_clients B (Suc i) os = Some (Inl (''creating exporter: '' @ e))" by auto
    then show ?thesis
    proof cases
      case ok
      with r None c show ?thesis by auto
    next
      case failed
      then have "Suc j < length (o1 # os) \<and> client_failed B (i + Suc j) ((o1 # os) ! Suc j) e" by simp
      moreover have "new_clients B i (o1 # os) = Some (Inl (''creating exporter: '' @ e))"
        using r None failed by simp
      ultimately show ?thesis by blast
    qed
  qed
qed

lemma new_clients_nil:
  assumes "new_clients B i os = Some (Inr cs)" and "o1 \<in> set os" and "MaxConnectionRetries o1 \<le> -2"
  shows "None \<in> set cs"
  using assms(1,2)
proof (induction os arbitrary: i cs)
  case (Cons o2 os)
  from Cons.prems(1) obtain r cs' where r: "db_New (bt_parse_config B) DSN (bt_dial B i) (bt_probes B i) o2 = Some r"
    "nr_err r = None" "new_clients B (Suc i) os = Some (Inr cs')" "cs = nr_client r # cs'"
    by (auto split: option.splits sum.splits)
  show ?case
  proof (cases "o1 = o2")
    case True
    with db_New_empty [OF _ r(1,2)] assms(3) r(4) show ?thesis by simp
  next
    case False
    with Cons.IH [OF r(3)] Cons.prems(2) r(4) show ?thesis by simp
  qed
qed simp

lemma preinit_zero:
  assumes "prom_counters P" and "snd (CounterDesc P cv) = [''collector'']" and "\<forall>n \<in> set ns. LabelValueOK P n"
    and "distinct ns" and "\<forall>n \<in> set ns. prom.CounterValue P cv [n] = None"
  shows "\<exists>cv'. preinit P ns cv = Some cv' \<and> CounterDesc P cv' = CounterDesc P cv \<and>
    (\<forall>n \<in> set ns. prom.CounterValue P cv' [n] = Some f64_zero) \<and>
    (\<forall>l. (\<forall>n \<in> set ns. l \<noteq> [n]) \<longrightarrow> prom.CounterValue P cv' l = prom.CounterValue P cv l)"
  using assms(2-5)
proof (induction ns arbitrary: cv)
  case Nil
  then show ?case by (simp add: preinit_def)
next
  case (Cons n ns)
  have "\<not> f64_less f64_zero f64_zero" by (simp add: f64_zero_def)
  then obtain c1 where c1: "CounterAdd P cv [n] f64_zero = Some c1"
    using prom_counters.counter_add_ok [OF assms(1), of cv "[n]" f64_zero] Cons.prems by (auto simp: fits_def)
  note d = prom_counters.counter_add_desc [OF assms(1) c1]
  note o1 = prom_counters.counter_add_other [OF assms(1) c1]
  have v: "prom.CounterValue P c1 [n] = Some f64_zero"
    using prom_counters.counter_add_fresh [OF assms(1) c1] Cons.prems(4) by simp
  have fresh: "\<forall>m \<in> set ns. prom.CounterValue P c1 [m] = None"
  proof
    fix m
    assume "m \<in> set ns"
    with Cons.prems(3,4) o1 [of "[m]"] show "prom.CounterValue P c1 [m] = None" by auto
  qed
  obtain c2 where c2: "preinit P ns c1 = Some c2" "CounterDesc P c2 = CounterDesc P c1"
    "\<forall>m \<in> set ns. prom.CounterValue P c2 [m] = Some f64_zero"
    "\<forall>l. (\<forall>n \<in> set ns. l \<noteq> [n]) \<longrightarrow> prom.CounterValue P c2 l = prom.CounterValue P c1 l"
    using Cons.IH [of c1] d Cons.prems fresh by auto
  have n: "prom.CounterValue P c2 [n] = Some f64_zero" using spec [OF c2(4), of "[n]"] v Cons.prems(3) by auto
  have "preinit P (n # ns) cv = Some c2" using c1 c2(1) by (simp add: preinit_def)
  with c2 d n o1 show ?case by (intro exI [of _ c2]) auto
qed

text \<open>The result of \<open>New\<close> once the clients are there.\<close>

lemma exporter_New_connected:
  assumes "prom_vecs P" and "self_metrics P S" and "\<forall>n \<in> set AvailableCollectors. LabelValueOK P n"
    and "DBOpts opts \<noteq> []" and "new_clients B 0 (DBOpts opts) = Some (Inr clients)"
  shows "\<exists>e. exporter_New P S B g opts = Some (Inr e, applyMetricPrefix (MetricPrefix opts) g) \<and>
    ex_dbClients e = clients \<and>
    selfs_ok P S (ex_scrapeDuration e, ex_scrapeErrors e, ex_metricCardinality e) \<and>
    map fst (ex_collectors e) = map nc_Name (fst (ResolveCollectors P (g_collectors (applyMetricPrefix (MetricPrefix opts) g))
      [0..<length clients] (EnabledCollectors opts) (DisabledCollectors opts))) \<and>
    distinct (map fst (ex_collectors e)) \<and>
    (\<forall>(n, c) \<in> set (ex_collectors e). LabelValueOK P n \<and> collector_ok P [0..<length clients] c \<and>
       prom.CounterValue P (ex_scrapeErrors e) [n] = Some f64_zero)"
proof -
  let ?g = "applyMetricPrefix (MetricPrefix opts) g"
  let ?cs = "[0..<length clients]"
  define resolved where "resolved = fst (ResolveCollectors P (g_collectors ?g) ?cs (EnabledCollectors opts) (DisabledCollectors opts))"
  have members: "\<exists>e \<in> set collectorRegistry. nc = \<lparr>nc_Name = ce_Name e, nc_kind = ce_New e,
      nc_collector = New_kind (ce_New e) P (g_collectors ?g) ?cs\<rparr>" if "nc \<in> set resolved" for nc
    using that unfolding resolved_def ResolveCollectors_fst by auto
  have dist: "distinct (map nc_Name resolved)"
    unfolding resolved_def ResolveCollectors_fst using registry_names_distinct
    by (simp add: o_def distinct_map_filter)
  have names: "LabelValueOK P n" if "n \<in> set (map nc_Name resolved)" for n
    using that members assms(3) unfolding AvailableCollectors_eq by fastforce
  let ?ns = "g_namespace ?g" and ?labels = "if opts_Name opts \<noteq> [] then [(''database'', opts_Name opts)] else []"
  let ?errs = "NewCounterVec P (self_opts ?ns ''scrape_errors_total'' ''Scrape errors by collector.'' ?labels) [''collector'']"
  note C = prom_vecs.axioms(1) [OF assms(1)]
  obtain errs where errs: "preinit P (map nc_Name resolved) ?errs = Some errs" "CounterDesc P errs = CounterDesc P ?errs"
    "\<forall>n \<in> set (map nc_Name resolved). prom.CounterValue P errs [n] = Some f64_zero"
    using preinit_zero [OF C, of ?errs "map nc_Name resolved"] dist names
    by (auto simp: prom_counters.counter_new_desc [OF C] prom_counters.counter_new_value [OF C])
  have shape: "\<forall>nc \<in> set resolved. LabelValueOK P (nc_Name nc) \<and>
      collector_ok P ?cs (Builtin (nc_kind nc) (nc_collector nc) :: ('a, 'b, 'k) Collector) \<and>
      prom.CounterValue P errs [nc_Name nc] = Some f64_zero"
    using members names errs(3) built_new by fastforce
  show ?thesis
    using assms(4,5) errs(1,2) dist shape
    by (auto simp: exporter_New_def Let_def resolved_def [symmetric] selfs_ok_def o_def
        prom_counters.counter_new_desc [OF C] self_metrics.histogram_new_desc [OF assms(2)]
        prom_gauges.gauge_new_desc [OF prom_vecs.axioms(2) [OF assms(1)]])
qed

lemma exporter_New_cases:
  fixes P :: "('cv, 'gv) prom" and S :: "('c, 'hv, 'hm) self_prom"
  assumes "prom_vecs P" and "self_metrics P S" and "\<forall>n \<in> set AvailableCollectors. LabelValueOK P n"
    and "\<forall>o1 \<in> set (DBOpts opts). 0 \<le> MaxConnectionRetries o1"
  shows "\<exists>(res :: error + ('cv, 'gv, 'c, 'hv, 'k) exporter) g'. exporter_New P S B g opts = Some (res, g') \<and>
    (case res of
       Inl e \<Rightarrow> (DBOpts opts = [] \<and> e = ''missing db opts'') \<or>
         (\<exists>i e'. i < length (DBOpts opts) \<and> client_failed B i (DBOpts opts ! i) e' \<and> e = ''creating exporter: '' @ e')
     | Inr e \<Rightarrow> DBOpts opts \<noteq> [] \<and> length (ex_dbClients e) = length (DBOpts opts) \<and> exporter_ok P S e \<and>
         distinct (map fst (ex_collectors e)) \<and>
         (\<forall>n \<in> fst ` set (ex_collectors e). prom.CounterValue P (ex_scrapeErrors e) [n] = Some f64_zero))"
proof (cases "DBOpts opts = []")
  case True
  then show ?thesis by (simp add: exporter_New_def)
next
  case False
  from new_clients_cases [OF assms(4), of B 0] consider
    (ok) cs where "new_clients B 0 (DBOpts opts) = Some (Inr cs)" "length cs = length (DBOpts opts)" "None \<notin> set cs"
  | (failed) j e where "j < length (DBOpts opts)" "client_failed B j (DBOpts opts ! j) e"
      "new_clients B 0 (DBOpts opts) = Some (Inl (''creating exporter: '' @ e))" by auto
  then show ?thesis
  proof cases
    case ok
    from exporter_New_connected [OF assms(1-3) False ok(1), of g] obtain e :: "('cv, 'gv, 'c, 'hv, 'k) exporter" where e:
      "exporter_New P S B g opts = Some (Inr e, applyMetricPrefix (MetricPrefix opts) g)" "ex_dbClients e = cs"
      "selfs_ok P S (ex_scrapeDuration e, ex_scrapeErrors e, ex_metricCardinality e)"
      "distinct (map fst (ex_collectors e))"
      "\<forall>(n, c) \<in> set (ex_collectors e). LabelValueOK P n \<and> collector_ok P [0..<length cs] c \<and>
         prom.CounterValue P (ex_scrapeErrors e) [n] = Some f64_zero" by blast
    have "exporter_ok P S e" using e(2,3,5) ok(3) by (auto simp: exporter_ok_def)
    moreover have "\<forall>n \<in> fst ` set (ex_collectors e). prom.CounterValue P (ex_scrapeErrors e) [n] = Some f64_zero"
      using e(5) by auto
    ultimately show ?thesis using e(1,2,4) ok(2) False
      by (intro exI [of _ "Inr e"] exI [of _ "applyMetricPrefix (MetricPrefix opts) g"]) simp
  next
    case failed
    then show ?thesis using False by (auto simp: exporter_New_def Let_def)
  qed
qed

subsection \<open>Lemmas: descriptors\<close>

lemma instrument_descs:
  assumes "prom_vecs P" and "self_metrics P S" and "instrument P S name r secs (ds, es, cs) = Some (ds', es', cs')"
  shows "HistogramDesc S ds' = HistogramDesc S ds \<and> CounterDesc P es' = CounterDesc P es \<and>
    GaugeDesc P cs' = GaugeDesc P cs"
  using assms(3) self_metrics.histogram_observe_desc [OF assms(2)]
    prom_gauges.gauge_set_desc [OF prom_vecs.axioms(2) [OF assms(1)]]
    prom_counters.counter_add_desc [OF prom_vecs.axioms(1) [OF assms(1)]]
  by (auto simp: instrument_def Let_def split: option.splits if_splits)

lemma record_runs_descs:
  assumes "prom_vecs P" and "self_metrics P S" and "record_runs P S env e runs is (ds, es, cs) = Some (ds', es', cs')"
  shows "HistogramDesc S ds' = HistogramDesc S ds \<and> CounterDesc P es' = CounterDesc P es \<and>
    GaugeDesc P cs' = GaugeDesc P cs"
proof -
  let ?I = "\<lambda>s. HistogramDesc S (fst s) = HistogramDesc S ds \<and> CounterDesc P (fst (snd s)) = CounterDesc P es \<and>
    GaugeDesc P (snd (snd s)) = GaugeDesc P cs"
  have "?I (ds', es', cs')"
  proof (rule fold_opt_invariant [OF _ _ assms(3) [unfolded record_runs_def], where I = ?I])
    fix i s s'
    assume I: "?I s" and step: "instrument P S (fst (ex_collectors e ! i)) (runs ! i) (se_seconds env i) s = Some s'"
    obtain a b c a' b' c' where "s = (a, b, c)" "s' = (a', b', c')" by (cases s; cases s')
    with I instrument_descs [OF assms(1,2) step [unfolded this]] show "?I s'" by simp
  qed simp
  then show ?thesis by simp
qed

text \<open>What a collector sends it has described.\<close>

lemma Builtin_described:
  assumes "prom_vecs P" and "built P g k c" and "Scrape_kind k P wait sched srv cl c = Some out"
    and "m \<in> set (oc_metrics out)"
  shows "m_desc m \<in> set (Describe_kind k P c)"
proof -
  note run = Scrape_kind_run [OF assms(3)]
  have kept: "built P g k (oc_collector out)" "schema_of P (oc_collector out) = schema_of P c"
    using run_built [OF assms(1,2) run(1)] by blast+
  have "m \<in> set (collectInto_kind k P (oc_collector out))"
    using run(3) assms(4) by (auto split: if_splits)
  with exported_iff [OF assms(1) kept(1)] kept(2) obtain f b d where
    "(f, b, d) \<in> set (schema_of P c)" "m_desc m = d" by auto
  then have "m_desc m \<in> set (map (vec_desc P \<circ> snd) (vecs c))" by (force simp: schema_of_def)
  moreover have "map fst (vecs c) = map fst (vecs (New_kind k P g (dbClients c)))"
    using assms(2) prom_vecs.schema_names [OF assms(1)] unfolding built_def by metis
  from Describe_kind_all [OF this] have "set (Describe_kind k P c) = set (map (vec_desc P \<circ> snd) (vecs c))"
    by (metis set_mset_mset)
  ultimately show ?thesis by simp
qed

definition spec_descs :: "('cv, 'gv) prom \<Rightarrow> ('cv, 'gv) SpecCollector \<Rightarrow> desc option list \<times> desc option list" where
  "spec_descs P c = (map (map_option (\<lambda>cd. CounterDesc P (cd_vec cd))) (sc_counter c),
     map (map_option (GaugeDesc P)) (sc_gauge c))"

lemma list_update_same_map: "i < length xs \<Longrightarrow> f y = f (xs ! i) \<Longrightarrow> map f (xs[i := y]) = map f xs"
  by (metis list_update_id map_update)

lemma apply_spec_descs:
  assumes "prom_vecs P" and "apply_spec_emission P em c = Some c'"
  shows "spec_descs P c' = spec_descs P c"
proof -
  obtain i v lvs where em: "em = (i, v, lvs)" by (cases em)
  from assms(2) em consider
    (counter) cd cd' where "i < length (sc_counter c)" "sc_counter c ! i = Some cd" "Observe P v lvs cd = Some cd'"
      "c' = c\<lparr>sc_counter := (sc_counter c)[i := Some cd']\<rparr>"
  | (gauge) gv gv' where "i < length (sc_gauge c)" "sc_gauge c ! i = Some gv" "GaugeSet P gv lvs v = Some gv'"
      "c' = c\<lparr>sc_gauge := (sc_gauge c)[i := Some gv']\<rparr>"
    by (auto split: if_splits option.splits)
  then show ?thesis
  proof cases
    case counter
    with prom_counters.Observe_desc [OF prom_vecs.axioms(1) [OF assms(1)] counter(3)] show ?thesis
      by (simp add: spec_descs_def list_update_same_map)
  next
    case gauge
    with prom_gauges.gauge_set_desc [OF prom_vecs.axioms(2) [OF assms(1)] gauge(3)] show ?thesis
      by (simp add: spec_descs_def list_update_same_map)
  qed
qed

lemma set_present:
  "set (concat (map (\<lambda>x. case x of None \<Rightarrow> [] | Some y \<Rightarrow> [f y]) xs)) = {d. Some d \<in> set (map (map_option f) xs)}"
proof (induction xs)
  case (Cons x xs)
  then show ?case by (cases x) auto
qed simp

lemma SpecCollector_Describe_descs:
  "set (SpecCollector_Describe P c) = {d. Some d \<in> set (fst (spec_descs P c)) \<or> Some d \<in> set (snd (spec_descs P c))}"
proof -
  have one: "cd_Describe P = (\<lambda>cd. [CounterDesc P (cd_vec cd)])" by (rule ext) (simp add: cd_Describe_def)
  show ?thesis
    unfolding SpecCollector_Describe_def one set_append set_present spec_descs_def fst_conv snd_conv by blast
qed

lemma Declarative_described:
  assumes "prom_vecs P" and "SpecCollector_Scrape P wait sched query cl c = Some out" and "m \<in> set (so_metrics out)"
  shows "m_desc m \<in> set (SpecCollector_Describe P c)"
proof -
  note C = prom_vecs.axioms(1) [OF assms(1)] and G = prom_vecs.axioms(2) [OF assms(1)]
  obtain es where es: "fold_opt (apply_spec_emission P) es c = Some (so_collector out)"
    and m: "m \<in> set (SpecCollector_collectInto P (so_collector out))"
    using assms(2,3) by (auto simp: SpecCollector_Scrape_def Let_def split: option.splits)
  have descs: "spec_descs P (so_collector out) = spec_descs P c"
    by (rule fold_opt_invariant [OF _ _ es, where I = "\<lambda>c'. spec_descs P c' = spec_descs P c"])
      (simp_all add: apply_spec_descs [OF assms(1)])
  from m consider
    (counter) cd where "Some cd \<in> set (sc_counter (so_collector out))" "m \<in> set (CounterCollect P (cd_vec cd))"
  | (gauge) gv where "Some gv \<in> set (sc_gauge (so_collector out))" "m \<in> set (GaugeCollect P gv)"
    by (auto simp: SpecCollector_collectInto_def cd_Collect_def split: option.splits)
  then have "m_desc m \<in> set (SpecCollector_Describe P (so_collector out))"
  proof cases
    case counter
    then have "m_desc m = CounterDesc P (cd_vec cd)" by (auto simp: prom_counters.counter_collect_set [OF C])
    with counter(1) show ?thesis by (force simp: SpecCollector_Describe_descs spec_descs_def)
  next
    case gauge
    then have "m_desc m = GaugeDesc P gv" by (auto simp: prom_gauges.gauge_collect_set [OF G])
    with gauge(1) show ?thesis by (force simp: SpecCollector_Describe_descs spec_descs_def)
  qed
  then show ?thesis by (simp add: SpecCollector_Describe_descs descs)
qed

lemma Collector_described:
  assumes "prom_vecs P" and "collector_ok P cs c" and "Collector_Scrape P env clients i c = Some r"
    and "m \<in> set (run_metrics r)"
    and "\<forall>i k ms err k'. se_custom env i k = Some (ms, err, k') \<longrightarrow> (\<forall>m \<in> set ms. m_desc m \<in> set (custom_Describe k))"
  shows "m_desc m \<in> set (Collector_Describe P custom_Describe c)"
proof (cases c)
  case (Builtin k b)
  then obtain g where g: "built P g k b" using assms(2) by auto
  from assms(3,4) Builtin obtain out where "Scrape_kind k P (se_collector_wait env i) (se_sched env i) (se_server env i)
      (client_view env clients i) b = Some out" "m \<in> set (oc_metrics out)" by (auto split: if_splits)
  from Builtin_described [OF assms(1) g this] Builtin show ?thesis by simp
next
  case (Declarative b)
  from assms(3,4) Declarative obtain out where "SpecCollector_Scrape P (se_collector_wait env i) (se_sched env i)
      (se_query env i) (client_view env clients i) b = Some out" "m \<in> set (so_metrics out)" by (auto split: if_splits)
  from Declarative_described [OF assms(1) this] Declarative show ?thesis by simp
next
  case (Custom k)
  with assms(3) obtain ms err k' where c: "se_custom env i k = Some (ms, err, k')" "run_metrics r = ms" by auto
  from assms(5) c(1) have "\<forall>m \<in> set ms. m_desc m \<in> set (custom_Describe k)" by blast
  with assms(4) c(2) Custom show ?thesis by simp
qed

subsection \<open>A concrete exporter\<close>

text \<open>One client, the collector of database sizes and a custom collector that fails.\<close>

definition demo_exporter :: "(refvec, refvec, metric, refhist, nat) exporter" where
  "demo_exporter = \<lparr>ex_dbClients = [Some demo_client],
     ex_collectors = [(''database_size'', Builtin PgDatabaseSize demo_collector), (''custom_1'', Custom 7)],
     ex_collectionTimeout = DefaultCollectionTimeout, ex_up = (self_opts ''pg_stat'' ''up'' [] [], []),
     ex_totalScrapes = NewCounter ref_self (self_opts ''pg_stat'' ''exporter_scrapes_total'' [] []),
     ex_scrapeDuration = NewHistogramVec ref_self (self_opts ''pg_stat'' ''scrape_duration_seconds'' [] []) [] [''collector''],
     ex_scrapeErrors = NewCounterVec ref_prom (self_opts ''pg_stat'' ''scrape_errors_total'' [] []) [''collector''],
     ex_metricCardinality = NewGaugeVec ref_prom (self_opts ''pg_stat'' ''metric_cardinality'' [] []) [''collector'']\<rparr>"

definition demo_env :: "nat scrape_env" where
  "demo_env = \<lparr>se_wait = first_error, se_collector_wait = (\<lambda>_. first_error), se_sched = (\<lambda>_. []),
     se_server = (\<lambda>_. demo_server), se_query = (\<lambda>_ _ _. Inl ''down''), se_learned = (\<lambda>_ _. 160004),
     se_probes = (\<lambda>_ _. []), se_custom = (\<lambda>_ k. Some ([], Some ''custom failed'', k)),
     se_seconds = (\<lambda>_. f64_of_int 1), se_merge = [], se_order = [1, 0]\<rparr>"

lemma demo_scrape_any:
  "fst (scrape_kind PgDatabaseSize (demo_server 0) s) = ([[SetG ''sizeBytes'' (f64_of_int 42) [''a'', ''b'']]], None)"
  by (simp add: scrape_kind.simps PgDatabaseSizeCollector_scrape_def SelectPgDatabaseSize_def demo_server_def
      PgDatabaseSizeCollector_emit_def demo_row_def emitGauge_def singles_def f64_of_int64_def)

lemma demo_exporter_ok: "exporter_ok ref_prom ref_self demo_exporter"
  using demo_scrape(2,3)
  by (auto simp: exporter_ok_def demo_exporter_def selfs_ok_def ref_prom_def ref_self_def)

lemma demo_env_benign:
  "\<forall>i < length (ex_collectors demo_exporter).
     scrape_benign ref_prom demo_env (ex_dbClients demo_exporter) i (snd (ex_collectors demo_exporter ! i))"
  by (auto simp: demo_exporter_def demo_env_def demo_scrape(2) client_emissions_def demo_scrape_any benign_def
      ref_prom_def less_Suc_eq)

lemma demo_names: "distinct (map fst (ex_collectors demo_exporter))"
  by (simp add: demo_exporter_def)

lemma demo_order:
  "distinct (se_order demo_env)" "set (se_order demo_env) = {..<length (ex_collectors demo_exporter)}"
  by (auto simp: demo_exporter_def demo_env_def)

lemma demo_Collect: "\<exists>sent e'. exporter_Collect ref_prom ref_self demo_env demo_exporter = Some (sent, e')"
  using Collect_total [OF ref.prom_vecs_axioms ref_self.self_metrics_axioms demo_exporter_ok demo_env_benign demo_order(2)]
  by blast

definition demo_exporter_Opts :: "int \<Rightarrow> exporter_Opts" where
  "demo_exporter_Opts retries = \<lparr>DBOpts = [demo_Opts 3, demo_Opts retries], opts_Name = [], CollectionTimeout = 0,
     MetricPrefix = ''pg'', EnabledCollectors = [''locks''], DisabledCollectors = []\<rparr>"

text \<open>Every server accepts the first attempt, but no version query ever answers.\<close>

definition demo_boot :: boot where
  "demo_boot = \<lparr>bt_parse_config = (\<lambda>_. Inr demo_config),
     bt_dial = (\<lambda>i _. \<lparr>new_pool = (\<lambda>_. Inr i), ctx_err = (\<lambda>_. None)\<rparr>), bt_probes = (\<lambda>_. [])\<rparr>"

lemma demo_names_ok: "\<forall>n \<in> set AvailableCollectors. LabelValueOK ref_prom n"
  by (simp add: ref_prom_def)

subsection \<open>Properties: Collect\<close>

text \<open>
  A scrape of the whole exporter never panics, whatever the errors of its collectors and
  however they interleave, as long as the outside is benign for each of them, and it leaves the
  exporter well formed, with the same collectors.
\<close>

theorem collect_never_panics:
  assumes "prom_vecs P" and "self_metrics P S" and "exporter_ok P S e"
    and "\<forall>i < length (ex_collectors e). scrape_benign P env (ex_dbClients e) i (snd (ex_collectors e ! i))"
    and "set (se_order env) = {..<length (ex_collectors e)}"
  shows "\<exists>sent e'. exporter_Collect P S env e = Some (sent, e') \<and> exporter_ok P S e' \<and>
    map fst (ex_collectors e') = map fst (ex_collectors e)"
  by (rule Collect_total [OF assms])

theorem collect_never_panics_witness:
  "\<exists>sent e'. exporter_Collect ref_prom ref_self demo_env demo_exporter = Some (sent, e') \<and>
     exporter_ok ref_prom ref_self e' \<and> map fst (ex_collectors e') = [''database_size'', ''custom_1'']"
  using collect_never_panics [OF ref.prom_vecs_axioms ref_self.self_metrics_axioms demo_exporter_ok demo_env_benign demo_order(2)]
  by (simp add: demo_exporter_def)

text \<open>What one successful \<open>Collect\<close> does, per collector.\<close>

lemma Collect_records:
  assumes "prom_vecs P" and "self_metrics P S" and "errgroup (se_wait env)" and "exporter_ok P S e"
    and "distinct (map fst (ex_collectors e))"
    and "distinct (se_order env)" and "set (se_order env) = {..<length (ex_collectors e)}"
    and "exporter_Collect P S env e = Some (sent, e')"
  shows "\<exists>runs ms. length runs = length (ex_collectors e) \<and>
    (\<forall>i < length (ex_collectors e).
       Collector_Scrape P env (ex_dbClients e) i (snd (ex_collectors e ! i)) = Some (runs ! i) \<and>
       ex_collectors e' ! i = (fst (ex_collectors e ! i), run_collector (runs ! i)) \<and>
       recorded P S (fst (ex_collectors e ! i)) (runs ! i)
         (ex_scrapeDuration e, ex_scrapeErrors e, ex_metricCardinality e)
         (ex_scrapeDuration e', ex_scrapeErrors e', ex_metricCardinality e')) \<and>
    mset ms = mset (concat (map run_metrics runs)) \<and>
    sent = map Sent ms @
      [Sent \<lparr>m_desc = ex_up e, m_labels = [],
             m_value = (if \<forall>r \<in> set runs. run_err r = None then f64_of_int 1 else f64_of_int 0)\<rparr>,
       Sent ((CounterMetric S (ex_totalScrapes e))\<lparr>m_value :=
         f64_add (m_value (CounterMetric S (ex_totalScrapes e))) (f64_of_int 1)\<rparr>)] @
      map SentHistogram (HistogramCollect S (ex_scrapeDuration e')) @
      map Sent (CounterCollect P (ex_scrapeErrors e')) @ map Sent (GaugeCollect P (ex_metricCardinality e'))"
proof -
  let ?n = "length (ex_collectors e)"
  let ?before = "(ex_scrapeDuration e, ex_scrapeErrors e, ex_metricCardinality e)"
  obtain runs where runs: "collector_runs P env e = Some runs"
    using assms(8) by (auto simp: exporter_Collect_def Let_def split: option.splits)
  note nth = collector_runs_nth [OF runs]
  have names: "\<forall>i \<in> set (se_order env). i < ?n \<and> LabelValueOK P (fst (ex_collectors e ! i))"
    using assms(4,7) nth_mem unfolding exporter_ok_def by (fastforce simp: case_prod_beta)
  obtain ds es cs where after: "record_runs P S env e runs (se_order env) ?before = Some (ds, es, cs)"
    "\<forall>i \<in> set (se_order env). recorded P S (fst (ex_collectors e ! i)) (runs ! i) ?before (ds, es, cs)"
    using record_runs_records [OF assms(1,2,5) names assms(6)] assms(4) unfolding exporter_ok_def
    by (metis prod_cases3)
  define ms where "ms = interleave (se_merge env) (map run_metrics runs)"
  have mset: "mset ms = mset (concat (map run_metrics runs))" unfolding ms_def by (rule mset_interleave)
  have out: "sent = map Sent ms @
      [Sent \<lparr>m_desc = ex_up e, m_labels = [],
             m_value = (if \<forall>r \<in> set runs. run_err r = None then f64_of_int 1 else f64_of_int 0)\<rparr>,
       Sent ((CounterMetric S (ex_totalScrapes e))\<lparr>m_value :=
         f64_add (m_value (CounterMetric S (ex_totalScrapes e))) (f64_of_int 1)\<rparr>)] @
      map SentHistogram (HistogramCollect S ds) @ map Sent (CounterCollect P es) @ map Sent (GaugeCollect P cs)"
    and e': "ex_scrapeDuration e' = ds" "ex_scrapeErrors e' = es" "ex_metricCardinality e' = cs"
      "ex_collectors e' = zip (map fst (ex_collectors e)) (map run_collector runs)"
    using assms(8) by (auto simp: exporter_Collect_def Let_def runs after(1) ms_def
        errgroup_up [OF assms(3)] self_metrics.counter_inc [OF assms(2)])
  show ?thesis
    using nth after(2) assms(7) mset out e' by (intro exI [of _ runs] exI [of _ ms]) simp
qed

text \<open>
  C5. What a scrape reports. Every collector's \<open>Scrape\<close> runs, each with its own result, and every
  metric any of them sends reaches the channel, whichever others fail. \<open>up\<close> is 1 exactly when no
  collector failed; the scrape counter advances by one; for each collector one duration is
  observed, the cardinality is the number of metrics it sent, and its error counter advances
  exactly when it failed. The exporter's own metrics follow those of the collectors.
\<close>

theorem collect_reports:
  assumes "prom_vecs P" and "self_metrics P S" and "errgroup (se_wait env)" and "exporter_ok P S e"
    and "distinct (map fst (ex_collectors e))"
    and "distinct (se_order env)" and "set (se_order env) = {..<length (ex_collectors e)}"
    and "exporter_Collect P S env e = Some (sent, e')"
  shows "\<exists>runs ms. length runs = length (ex_collectors e) \<and>
    (\<forall>i < length (ex_collectors e).
       Collector_Scrape P env (ex_dbClients e) i (snd (ex_collectors e ! i)) = Some (runs ! i) \<and>
       ex_collectors e' ! i = (fst (ex_collectors e ! i), run_collector (runs ! i)) \<and>
       recorded P S (fst (ex_collectors e ! i)) (runs ! i)
         (ex_scrapeDuration e, ex_scrapeErrors e, ex_metricCardinality e)
         (ex_scrapeDuration e', ex_scrapeErrors e', ex_metricCardinality e')) \<and>
    mset ms = mset (concat (map run_metrics runs)) \<and>
    sent = map Sent ms @
      [Sent \<lparr>m_desc = ex_up e, m_labels = [],
             m_value = (if \<forall>r \<in> set runs. run_err r = None then f64_of_int 1 else f64_of_int 0)\<rparr>,
       Sent ((CounterMetric S (ex_totalScrapes e))\<lparr>m_value :=
         f64_add (m_value (CounterMetric S (ex_totalScrapes e))) (f64_of_int 1)\<rparr>)] @
      map SentHistogram (HistogramCollect S (ex_scrapeDuration e')) @
      map Sent (CounterCollect P (ex_scrapeErrors e')) @ map Sent (GaugeCollect P (ex_metricCardinality e'))"
  by (rule Collect_records [OF assms])

theorem collect_reports_witness:
  "\<exists>sent e'. exporter_Collect ref_prom ref_self demo_env demo_exporter = Some (sent, e') \<and>
     Sent \<lparr>m_desc = ex_up demo_exporter, m_labels = [], m_value = f64_of_int 0\<rparr> \<in> set sent \<and>
     counted ref_prom (ex_scrapeErrors e') ''custom_1'' 1"
proof -
  obtain sent e' where out: "exporter_Collect ref_prom ref_self demo_env demo_exporter = Some (sent, e')"
    using demo_Collect by blast
  have wait: "errgroup (se_wait demo_env)" using first_error.errgroup_axioms by (simp add: demo_env_def)
  from collect_reports [OF ref.prom_vecs_axioms ref_self.self_metrics_axioms wait demo_exporter_ok demo_names demo_order out]
  obtain runs where runs: "length runs = 2"
    "Collector_Scrape ref_prom demo_env (ex_dbClients demo_exporter) 1 (Custom 7) = Some (runs ! 1)"
    "recorded ref_prom ref_self ''custom_1'' (runs ! 1)
       (ex_scrapeDuration demo_exporter, ex_scrapeErrors demo_exporter, ex_metricCardinality demo_exporter)
       (ex_scrapeDuration e', ex_scrapeErrors e', ex_metricCardinality e')"
    "Sent \<lparr>m_desc = ex_up demo_exporter, m_labels = [],
       m_value = (if \<forall>r \<in> set runs. run_err r = None then f64_of_int 1 else f64_of_int 0)\<rparr> \<in> set sent"
    by (auto simp: demo_exporter_def All_less_Suc2 numeral_2_eq_2)
  have failed: "run_err (runs ! 1) = Some ''custom failed''" using arg_cong [OF runs(2), of "map_option run_err"] by (simp add: demo_env_def)
  moreover have "runs ! 1 \<in> set runs" using runs(1) by simp
  ultimately have "(\<forall>r \<in> set runs. run_err r = None) = False" by force
  note up = runs(4) [unfolded this if_False]
  have "counted ref_prom (ex_scrapeErrors demo_exporter) ''custom_1'' 0"
    by (simp add: counted_def demo_exporter_def ref_prom_def ref_value_def)
  with runs(3) failed have "counted ref_prom (ex_scrapeErrors e') ''custom_1'' (0 + 1)"
    unfolding recorded_def by simp
  with out up show ?thesis by auto
qed

subsection \<open>Properties: New and registration\<close>

text \<open>
  C21. \<open>New\<close> with non-negative retries always returns: an error when there are no options for a
  client or when some client fails (and then that client's error), and otherwise an exporter with
  one client per option, well formed, with distinct collector names, whatever collector names it
  was given; the error counter of every collector exists and stands at zero before the first scrape.
\<close>

theorem exporter_New_total:
  fixes P :: "('cv, 'gv) prom" and S :: "('c, 'hv, 'hm) self_prom"
  assumes "prom_vecs P" and "self_metrics P S" and "\<forall>n \<in> set AvailableCollectors. LabelValueOK P n"
    and "\<forall>o1 \<in> set (DBOpts opts). 0 \<le> MaxConnectionRetries o1"
  shows "\<exists>(res :: error + ('cv, 'gv, 'c, 'hv, 'k) exporter) g'. exporter_New P S B g opts = Some (res, g') \<and>
    (case res of
       Inl e \<Rightarrow> (DBOpts opts = [] \<and> e = ''missing db opts'') \<or>
         (\<exists>i e'. i < length (DBOpts opts) \<and> client_failed B i (DBOpts opts ! i) e' \<and> e = ''creating exporter: '' @ e')
     | Inr e \<Rightarrow> DBOpts opts \<noteq> [] \<and> length (ex_dbClients e) = length (DBOpts opts) \<and> exporter_ok P S e \<and>
         distinct (map fst (ex_collectors e)) \<and>
         (\<forall>n \<in> fst ` set (ex_collectors e). prom.CounterValue P (ex_scrapeErrors e) [n] = Some f64_zero))"
  by (rule exporter_New_cases [OF assms])

theorem exporter_New_total_witness:
  "\<exists>(res :: error + (refvec, refvec, metric, refhist, nat) exporter) g'.
     exporter_New ref_prom ref_self demo_boot initial_globals (demo_exporter_Opts 0) = Some (res, g') \<and>
     (case res of
        Inl e \<Rightarrow> (DBOpts (demo_exporter_Opts 0) = [] \<and> e = ''missing db opts'') \<or>
          (\<exists>i e'. i < length (DBOpts (demo_exporter_Opts 0)) \<and>
             client_failed demo_boot i (DBOpts (demo_exporter_Opts 0) ! i) e' \<and> e = ''creating exporter: '' @ e')
      | Inr e \<Rightarrow> DBOpts (demo_exporter_Opts 0) \<noteq> [] \<and>
          length (ex_dbClients e) = length (DBOpts (demo_exporter_Opts 0)) \<and> exporter_ok ref_prom ref_self e \<and>
          distinct (map fst (ex_collectors e)) \<and>
          (\<forall>n \<in> fst ` set (ex_collectors e). prom.CounterValue ref_prom (ex_scrapeErrors e) [n] = Some f64_zero))"
  by (rule exporter_New_total [OF ref.prom_vecs_axioms ref_self.self_metrics_axioms demo_names_ok])
    (simp add: demo_exporter_Opts_def demo_Opts_def)

text \<open>
  C26. \<open>MaxConnectionRetries\<close> of \<open>-2\<close> or less makes \<open>New\<close> return an exporter that holds a nil
  client: its first scrape panics as soon as it has a collector that is not a custom one, and
  so does every health check.
\<close>

theorem nil_client_panics:
  assumes "exporter_New P S B g opts = Some (Inr e, g')"
    and "o1 \<in> set (DBOpts opts)" and "MaxConnectionRetries o1 \<le> -2"
  shows "HealthCheck wait ping e = None \<and> (ex_collectors e \<noteq> [] \<longrightarrow> exporter_Collect P S env e = None)"
proof -
  from assms(1,2) obtain cs where cs: "new_clients B 0 (DBOpts opts) = Some (Inr cs)" "ex_dbClients e = cs"
    "\<forall>(n, c) \<in> set (ex_collectors e). \<exists>k b. c = Builtin k b"
    by (auto simp: exporter_New_def Let_def split: if_splits option.splits sum.splits)
  from new_clients_nil [OF cs(1) assms(2,3)] have nil: "None \<in> set (ex_dbClients e)" by (simp add: cs(2))
  have "collector_runs P env e = None" if "ex_collectors e \<noteq> []"
  proof (rule ccontr)
    assume "collector_runs P env e \<noteq> None"
    then obtain runs where "collector_runs P env e = Some runs" by blast
    from collector_runs_nth(2) [OF this, of 0] that cs(3) nil show False
      by (cases "ex_collectors e") auto
  qed
  moreover have "HealthCheck wait ping e = None"
    using collect_some_None [of "map (CheckConnection ping) (ex_dbClients e)"] imageI [OF nil, of "CheckConnection ping"]
    by (simp add: HealthCheck_def CheckConnection_def)
  ultimately show ?thesis by (simp add: exporter_Collect_def Let_def)
qed

theorem nil_client_panics_witness:
  "\<exists>(e :: (refvec, refvec, metric, refhist, nat) exporter) g'.
     exporter_New ref_prom ref_self demo_boot initial_globals (demo_exporter_Opts (-2)) = Some (Inr e, g') \<and>
     HealthCheck first_error (\<lambda>_. None) e = None"
proof -
  have "\<exists>cs. new_clients demo_boot 0 (DBOpts (demo_exporter_Opts (-2))) = Some (Inr cs)"
    by (simp add: demo_boot_def demo_exporter_Opts_def demo_Opts_def db_New_def dial.simps)
  then obtain cs where cs: "new_clients demo_boot 0 (DBOpts (demo_exporter_Opts (-2))) = Some (Inr cs)" ..
  have some: "DBOpts (demo_exporter_Opts (-2)) \<noteq> []" by (simp add: demo_exporter_Opts_def)
  from exporter_New_connected [OF ref.prom_vecs_axioms ref_self.self_metrics_axioms demo_names_ok some cs, of initial_globals]
  obtain e :: "(refvec, refvec, metric, refhist, nat) exporter" where
    e: "exporter_New ref_prom ref_self demo_boot initial_globals (demo_exporter_Opts (-2)) =
      Some (Inr e, applyMetricPrefix (MetricPrefix (demo_exporter_Opts (-2))) initial_globals)" by blast
  from nil_client_panics [OF e, of "demo_Opts (-2)" first_error "\<lambda>_. None"] e show ?thesis
    by (auto simp: demo_exporter_Opts_def demo_Opts_def)
qed

lemma append_custom_eq:
  "append_custom i cs xs = xs @ map (\<lambda>j. (''custom_'' @ Itoa (int (length xs + i + 2 * j)), Custom (cs ! j))) [0..<length cs]"
proof (induction cs arbitrary: i xs)
  case (Cons c cs)
  have "map (\<lambda>j. (''custom_'' @ Itoa (int (length xs + i + 2 * j)), Custom ((c # cs) ! j))) [0..<Suc (length cs)] =
      (''custom_'' @ Itoa (int (length xs + i)), Custom c) #
      map (\<lambda>j. (''custom_'' @ Itoa (int (length xs + 1 + Suc i + 2 * j)), Custom (cs ! j))) [0..<length cs]"
    by (simp add: upt_conv_Cons map_Suc_upt [symmetric] ac_simps del: upt_Suc)
  from this [symmetric] show ?case using Cons.IH [of "Suc i"] by (simp del: upt_Suc)
qed simp

text \<open>
  The names of custom collectors: with \<open>L\<close> collectors present the \<open>i\<close>-th one becomes
  \<open>custom_<L + 2i>\<close>, so names are distinct within one call of \<open>WithCustomCollectors\<close>, but a call
  with two collectors followed by a call with one gives two collectors the same name.
\<close>

theorem custom_collector_names:
  fixes e :: "('cv, 'gv, 'c, 'hv, 'k) exporter"
  shows "ex_collectors (WithCustomCollectors cs e) = ex_collectors e @
      map (\<lambda>i. (''custom_'' @ Itoa (int (length (ex_collectors e) + 2 * i)), Custom (cs ! i))) [0..<length cs] \<and>
    \<not> distinct (map fst (ex_collectors (WithCustomCollectors [c3] (WithCustomCollectors [c1, c2] e))))"
  by (simp add: WithCustomCollectors_def append_custom_eq numeral_2_eq_2 ac_simps)

lemma append_specs_eq:
  assumes "\<forall>s \<in> set specs. NewSpecCollector P g s clients \<noteq> None"
  shows "append_specs P g clients specs cs = Some (cs @
    map (\<lambda>s. (''spec_'' @ sp_Subsystem s, Declarative (the (NewSpecCollector P g s clients)))) specs)"
  using assms by (induction specs arbitrary: cs) auto

text \<open>
  \<open>ExtendFromYAMLFile\<close> is all or nothing and never panics: on an error of the file, the
  document or one of its specs the exporter is as before; otherwise it gains one declarative
  collector per spec, in order, named \<open>spec_<subsystem>\<close>, on the exporter's clients, and stays
  well formed.
\<close>

theorem ExtendFromYAMLFile_all_or_nothing:
  assumes "prom_vecs P" and "exporter_ok P S e" and "\<forall>s. LabelValueOK P (''spec_'' @ s)"
  shows "\<exists>err e'. ExtendFromYAMLFile P g read_file unmarshal path e = Some (err, e') \<and> exporter_ok P S e' \<and>
    (case LoadSpecsFromFile read_file unmarshal path of
       Inl er \<Rightarrow> err = Some er \<and> e' = e
     | Inr specs \<Rightarrow> err = None \<and> ex_dbClients e' = ex_dbClients e \<and>
         map fst (ex_collectors e') = map fst (ex_collectors e) @ map (\<lambda>s. ''spec_'' @ sp_Subsystem s) specs \<and>
         take (length (ex_collectors e)) (ex_collectors e') = ex_collectors e \<and>
         (\<forall>s \<in> set specs. \<exists>c. (''spec_'' @ sp_Subsystem s, Declarative c) \<in> set (ex_collectors e') \<and> sc_spec c = s))"
proof (cases "LoadSpecsFromFile read_file unmarshal path")
  case (Inl er)
  with assms(2) show ?thesis by (simp add: ExtendFromYAMLFile_def)
next
  case (Inr specs)
  let ?clients = "[0..<length (ex_dbClients e)]"
  let ?new = "\<lambda>s. NewSpecCollector P (g_collectors g) s ?clients"
  have some: "\<forall>s \<in> set specs. ?new s \<noteq> None" using loaded_spec_constructs [OF Inr] by blast
  let ?e = "e\<lparr>ex_collectors := ex_collectors e @
    map (\<lambda>s. (''spec_'' @ sp_Subsystem s, Declarative (the (?new s)))) specs\<rparr>"
  have "ExtendFromYAMLFile P g read_file unmarshal path e = Some (None, ?e)"
    by (simp add: ExtendFromYAMLFile_def Inr append_specs_eq [OF some])
  moreover have built: "spec_built P (the (?new s)) \<and> sc_spec (the (?new s)) = s \<and> sc_dbClients (the (?new s)) = ?clients"
    if "s \<in> set specs" for s
  proof -
    from some that obtain c where "?new s = Some c" by blast
    with NewSpecCollector_built [OF assms(1) this] NewSpecCollector_Some [OF this] show ?thesis by simp
  qed
  then have "exporter_ok P S ?e"
    using assms(2,3) unfolding exporter_ok_def by (auto simp: selfs_ok_def)
  moreover have "\<exists>c. (''spec_'' @ sp_Subsystem s, Declarative c) \<in> set (ex_collectors ?e) \<and> sc_spec c = s"
    if "s \<in> set specs" for s
    using that built [OF that] by (intro exI [of _ "the (?new s)"]) auto
  ultimately show ?thesis using Inr by (intro exI [of _ None] exI [of _ ?e]) (simp add: o_def)
qed

theorem ExtendFromYAMLFile_all_or_nothing_witness:
  "\<exists>err e'. ExtendFromYAMLFile ref_prom initial_globals (\<lambda>_. Inr []) (\<lambda>_. Inr [demo_yaml]) [] demo_exporter = Some (err, e') \<and>
     exporter_ok ref_prom ref_self e' \<and> map fst (ex_collectors e') = [''database_size'', ''custom_1'', ''spec_rates'']"
proof -
  have "LoadSpecsFromFile (\<lambda>_. Inr []) (\<lambda>_. Inr [demo_yaml]) [] = Inr [demo_spec]"
    by (simp add: LoadSpecsFromFile_def ParseSpecs_def spec_toInternal_def toInternal_def demo_yaml_def
        metric_toInternal_def demo_spec_def)
  with ExtendFromYAMLFile_all_or_nothing [OF ref.prom_vecs_axioms demo_exporter_ok, of initial_globals "\<lambda>_. Inr []"
      "\<lambda>_. Inr [demo_yaml]" "[]"]
  show ?thesis by (auto simp: ref_prom_def demo_exporter_def demo_spec_def)
qed

subsection \<open>Properties: Describe\<close>

text \<open>The descriptor of what is sent on the channel, a histogram or another metric.\<close>

fun sent_desc :: "('c, 'hv, 'hm) self_prom \<Rightarrow> 'hm sent \<Rightarrow> desc" where
  "sent_desc S (Sent m) = m_desc m"
| "sent_desc S (SentHistogram h) = HistogramMetricDesc S h"

text \<open>Everything that is sent has its place.\<close>

lemma exporter_Collect_sent:
  assumes "exporter_Collect P S env e = Some (sent, e')" and "x \<in> set sent"
  obtains (collector) runs i r m where "collector_runs P env e = Some runs" "i < length (ex_collectors e)" "runs ! i = r"
      "m \<in> set (run_metrics r)" "x = Sent m"
    | (up) "sent_desc S x = ex_up e"
    | (total) "x = Sent (CounterMetric S (CounterInc S (ex_totalScrapes e)))"
    | (self) runs ds es cs where
      "record_runs P S env e runs (se_order env) (ex_scrapeDuration e, ex_scrapeErrors e, ex_metricCardinality e) = Some (ds, es, cs)"
      "x \<in> SentHistogram ` set (HistogramCollect S ds) \<union> Sent ` set (CounterCollect P es) \<union> Sent ` set (GaugeCollect P cs)"
proof -
  obtain runs ds es cs where runs: "collector_runs P env e = Some runs"
    and after: "record_runs P S env e runs (se_order env)
      (ex_scrapeDuration e, ex_scrapeErrors e, ex_metricCardinality e) = Some (ds, es, cs)"
    using assms(1) by (auto simp: exporter_Collect_def Let_def split: option.splits)
  have "(\<exists>r \<in> set runs. x \<in> Sent ` set (run_metrics r)) \<or> sent_desc S x = ex_up e \<or>
      x = Sent (CounterMetric S (CounterInc S (ex_totalScrapes e))) \<or>
      x \<in> SentHistogram ` set (HistogramCollect S ds) \<union> Sent ` set (CounterCollect P es) \<union> Sent ` set (GaugeCollect P cs)"
    using assms by (auto simp: exporter_Collect_def Let_def runs after image_iff)
  then consider r m where "r \<in> set runs" "m \<in> set (run_metrics r)" "x = Sent m" | "sent_desc S x = ex_up e"
    | "x = Sent (CounterMetric S (CounterInc S (ex_totalScrapes e)))"
    | "x \<in> SentHistogram ` set (HistogramCollect S ds) \<union> Sent ` set (CounterCollect P es) \<union> Sent ` set (GaugeCollect P cs)"
    by blast
  then show ?thesis
  proof cases
    case 1
    then obtain i where i: "i < length runs" "runs ! i = r" by (auto simp: in_set_conv_nth)
    from i(1) have "i < length (ex_collectors e)" by (simp add: collector_runs_nth(1) [OF runs])
    from collector [OF runs this i(2) 1(2,3)] show ?thesis .
  qed (use up total self [OF after] in blast)+
qed

lemma self_descs:
  assumes "prom_vecs P" and "self_metrics P S"
    and "record_runs P S env e runs (se_order env) (ex_scrapeDuration e, ex_scrapeErrors e, ex_metricCardinality e) = Some (ds, es, cs)"
    and "x \<in> SentHistogram ` set (HistogramCollect S ds) \<union> Sent ` set (CounterCollect P es) \<union> Sent ` set (GaugeCollect P cs)"
  shows "sent_desc S x \<in> {HistogramDesc S (ex_scrapeDuration e), CounterDesc P (ex_scrapeErrors e), GaugeDesc P (ex_metricCardinality e)}"
proof -
  note descs = record_runs_descs [OF assms(1-3)]
  note C = prom_vecs.axioms(1) [OF assms(1)] and G = prom_vecs.axioms(2) [OF assms(1)]
  from assms(4) consider h where "h \<in> set (HistogramCollect S ds)" "x = SentHistogram h"
    | m where "m \<in> set (CounterCollect P es)" "x = Sent m" | m where "m \<in> set (GaugeCollect P cs)" "x = Sent m" by blast
  then show ?thesis
  proof cases
    case 1
    with descs self_metrics.histogram_collect_desc [OF assms(2) 1(1)] show ?thesis by simp
  next
    case 2
    then have "m_desc m = CounterDesc P es" by (auto simp: prom_counters.counter_collect_set [OF C])
    with descs 2(2) show ?thesis by simp
  next
    case 3
    then have "m_desc m = GaugeDesc P cs" by (auto simp: prom_gauges.gauge_collect_set [OF G])
    with descs 3(2) show ?thesis by simp
  qed
qed

text \<open>
  C16. \<open>Describe\<close> announces what \<open>Collect\<close> sends, as \<open>prometheus\<close> demands of a collector: the
  descriptor of everything that a scrape sends, the metrics of the collectors as well as all five of
  the exporter's own with the histograms of the scrape durations, is among the described ones,
  provided the custom collectors keep this contract.
\<close>

theorem describe_covers_collect:
  assumes "prom_vecs P" and "self_metrics P S" and "exporter_ok P S e"
    and "\<forall>i k ms err k'. se_custom env i k = Some (ms, err, k') \<longrightarrow> (\<forall>m \<in> set ms. m_desc m \<in> set (custom_Describe k))"
    and "exporter_Collect P S env e = Some (sent, e')" and "x \<in> set sent"
  shows "sent_desc S x \<in> set (exporter_Describe P S custom_Describe e)"
  using assms(5,6)
proof (cases rule: exporter_Collect_sent)
  case (collector runs i r m)
  have "collector_ok P [0..<length (ex_dbClients e)] (snd (ex_collectors e ! i))"
    using assms(3) nth_mem [OF collector(2)] unfolding exporter_ok_def by (auto simp: case_prod_beta)
  from Collector_described [OF assms(1) this collector_runs_nth(2) [OF collector(1,2)] collector(4) [folded collector(3)] assms(4)]
  show ?thesis using nth_mem [OF collector(2)] collector(5) by (force simp: exporter_Describe_def case_prod_beta)
next
  case up
  then show ?thesis by (simp add: exporter_Describe_def)
next
  case total
  then show ?thesis by (simp add: exporter_Describe_def self_metrics.counter_inc [OF assms(2)])
next
  case (self runs ds es cs)
  from self_descs [OF assms(1,2) self] show ?thesis by (auto simp: exporter_Describe_def)
qed

theorem describe_covers_collect_witness:
  "list_all (\<lambda>x. sent_desc ref_self x \<in> set (exporter_Describe ref_prom ref_self (\<lambda>_. []) demo_exporter))
     (fst (the (exporter_Collect ref_prom ref_self demo_env demo_exporter)))"
proof -
  obtain sent e' where out: "exporter_Collect ref_prom ref_self demo_env demo_exporter = Some (sent, e')"
    using demo_Collect by blast
  have custom: "\<forall>i k ms err k'. se_custom demo_env i k = Some (ms, err, k') \<longrightarrow> (\<forall>m \<in> set ms. m_desc m \<in> set [])"
    by (simp add: demo_env_def)
  have "sent_desc ref_self x \<in> set (exporter_Describe ref_prom ref_self (\<lambda>_. []) demo_exporter)" if "x \<in> set sent" for x
    by (rule describe_covers_collect [OF ref.prom_vecs_axioms ref_self.self_metrics_axioms demo_exporter_ok custom out that])
  then show ?thesis by (simp add: out list_all_iff)
qed

end
