(* ===== verification/HttpMux.thy ===== *)
theory HttpMux
  imports Prelude
begin

text \<open>
  The part of Go's \<open>http.ServeMux\<close> that \<open>cmd/main.go\<close> uses: two patterns are registered, the
  path of the metrics and \<open>/\<close>, and a request goes to the handler of the most specific pattern that
  matches its path. A plain pattern is a path without a method, a host or a wildcard; it matches
  itself and, when it ends in a slash, everything below. Whether a pattern that is not plain is
  accepted is an argument. Requests are those with a clean path, any other is redirected to it.
\<close>

datatype handler = Metrics int | Index string

type_synonym mux = "(string \<times> handler) list"

definition plain :: "string \<Rightarrow> bool" where
  "plain p \<longleftrightarrow> p \<noteq> [] \<and> hd p = CHR ''/'' \<and> set p \<inter> {CHR ''{'', CHR ''}'', CHR '' '', CHR 0x09} = {}"

text \<open>\<open>mux.Handle\<close>: \<open>None\<close> is the panic on an invalid pattern or one that is registered already.\<close>

definition mux_Handle :: "(string \<Rightarrow> bool) \<Rightarrow> string \<Rightarrow> handler \<Rightarrow> mux \<Rightarrow> mux option" where
  "mux_Handle accepts p h mux =
     (if p = [] then None
      else if plain p \<and> p \<in> fst ` set mux \<or> \<not> plain p \<and> \<not> accepts p then None
      else Some (mux @ [(p, h)]))"

definition subtree :: "string \<Rightarrow> bool" where
  "subtree p \<longleftrightarrow> p \<noteq> [] \<and> last p = CHR ''/''"

definition matches :: "string \<Rightarrow> string \<Rightarrow> bool" where
  "matches p url \<longleftrightarrow> p = url \<or> subtree p \<and> take (length p) url = p"

text \<open>The longest of the matching patterns.\<close>

definition best :: "mux \<Rightarrow> string \<Rightarrow> (string \<times> handler) option" where
  "best mux url = fold (\<lambda>(p, h) b. if plain p \<and> matches p url \<and>
       (case b of None \<Rightarrow> True | Some (q, _) \<Rightarrow> length q < length p) then Some (p, h) else b) mux None"

datatype route = Serves handler | RedirectTo string | NotFound

text \<open>A path without its final slash is redirected when only the pattern with the slash matches.\<close>

definition dispatch :: "mux \<Rightarrow> string \<Rightarrow> route" where
  "dispatch mux url = (case best mux url of
     Some (p, h) \<Rightarrow>
       if p \<noteq> url \<and> \<not> subtree url \<and> url @ ''/'' \<in> fst ` set mux then RedirectTo (url @ ''/'') else Serves h
   | None \<Rightarrow>
       if \<not> subtree url \<and> url @ ''/'' \<in> fst ` set mux then RedirectTo (url @ ''/'') else NotFound)"

text \<open>The registrations of \<open>main\<close>.\<close>

definition main_mux :: "(string \<Rightarrow> bool) \<Rightarrow> string \<Rightarrow> int \<Rightarrow> mux option" where
  "main_mux accepts metricsPath timeout =
     (case mux_Handle accepts metricsPath (Metrics timeout) [] of
        None \<Rightarrow> None
      | Some mux \<Rightarrow> mux_Handle accepts ''/'' (Index metricsPath) mux)"

subsection \<open>Lemmas\<close>

lemma plain_root: "plain ''/''"
  by (simp add: plain_def)

lemma main_mux_plain:
  "plain p \<Longrightarrow> main_mux accepts p t = (if p = ''/'' then None else Some [(p, Metrics t), (''/'', Index p)])"
  using plain_root by (auto simp: main_mux_def mux_Handle_def plain_def)

lemma main_mux_empty: "main_mux accepts [] t = None"
  by (simp add: main_mux_def mux_Handle_def)

lemma plain_cases:
  assumes "plain p" and "p \<noteq> ''/''"
  shows "1 < length p" and "take 1 p = ''/''"
  using assms by (cases p; cases "tl p"; auto simp: plain_def)+

lemma best_main:
  assumes "plain p" and "p \<noteq> ''/''" and "url \<noteq> []" and "hd url = CHR ''/''"
  shows "best [(p, Metrics t), (''/'', Index p)] url =
    Some (if matches p url then (p, Metrics t) else (''/'', Index p))"
proof -
  have "matches ''/'' url" using assms(3,4) by (cases url) (auto simp: matches_def subtree_def)
  with plain_cases [OF assms(1,2)] assms(1) plain_root assms(1) [unfolded plain_def] show ?thesis by (simp add: best_def)
qed

text \<open>
  What the binary serves: with a plain metrics path other than \<open>/\<close> the registrations succeed, the
  metrics are at that path (and below it, when it ends in a slash, to which the path without it is
  redirected), and every other path gets the page that links to it. With \<open>/\<close> or an empty path the
  registration panics.
\<close>

lemma main_mux_routes:
  assumes "plain p" and "p \<noteq> ''/''"
  shows "\<exists>mux. main_mux accepts p t = Some mux \<and> dispatch mux p = Serves (Metrics t) \<and>
    (\<forall>url. url \<noteq> [] \<and> hd url = CHR ''/'' \<longrightarrow> dispatch mux url =
       (if matches p url then Serves (Metrics t)
        else if p = url @ ''/'' \<and> \<not> subtree url then RedirectTo p
        else Serves (Index p)))"
proof -
  let ?mux = "[(p, Metrics t), (''/'', Index p)]"
  have d: "dispatch ?mux url = (if matches p url then Serves (Metrics t)
        else if p = url @ ''/'' \<and> \<not> subtree url then RedirectTo p else Serves (Index p))"
    if "url \<noteq> []" "hd url = CHR ''/''" for url
  proof -
    have ne: "url @ ''/'' \<noteq> ''/''" using that(1) by simp
    show ?thesis
    proof (cases "matches p url")
      case True
      then have "\<not> (p \<noteq> url \<and> \<not> subtree url \<and> url @ ''/'' = p)"
        by (auto simp: matches_def)
      with True ne best_main [OF assms that, of t] show ?thesis by (auto simp: dispatch_def)
    next
      case False
      then show ?thesis using ne best_main [OF assms that, of t] by (auto simp: dispatch_def matches_def subtree_def)
    qed
  qed
  have "p \<noteq> []" "hd p = CHR ''/''" using assms(1) by (simp_all add: plain_def)
  from d [OF this] have "dispatch ?mux p = Serves (Metrics t)" by (simp add: matches_def)
  with d assms show ?thesis by (intro exI [of _ ?mux]) (simp add: main_mux_plain)
qed

end
