(* ===== verification/Cmd.thy ===== *)
theory Cmd
  imports ExporterProps HttpMux
begin

text \<open>
  \<open>cmd/main.go\<close>, the reference binary, and \<open>exporter/logging/logging.go\<close>. The parser of connection
  strings (\<open>pgconn.ParseConfig\<close>), the registry, the signal or listener error that ends the wait, if
  any, and the results of the two shutdowns are arguments, as are the values of the flags, which the
  package \<open>flag\<close> parses. A run of \<open>main\<close> is the list of what it does, in order, and its exit code,
  unless it serves for ever; what it serves is the \<open>mux\<close> of theory \<open>HttpMux\<close>.
\<close>

subsection \<open>Logging\<close>

datatype Level = LevelDebug | LevelInfo | LevelWarn | LevelError

instantiation Level :: linorder
begin

fun slog_level :: "Level \<Rightarrow> int" where
  "slog_level LevelDebug = -4"
| "slog_level LevelInfo = 0"
| "slog_level LevelWarn = 4"
| "slog_level LevelError = 8"

definition less_eq_Level :: "Level \<Rightarrow> Level \<Rightarrow> bool" where
  "less_eq_Level a b \<longleftrightarrow> slog_level a \<le> slog_level b"

definition less_Level :: "Level \<Rightarrow> Level \<Rightarrow> bool" where
  "less_Level a b \<longleftrightarrow> slog_level a < slog_level b"

instance
proof
  fix a b :: Level
  assume "a \<le> b" and "b \<le> a"
  then show "a = b" by (cases a; cases b) (simp_all add: less_eq_Level_def)
qed (auto simp: less_eq_Level_def less_Level_def)

end

record logger =
  lg_Level :: Level
  lg_AddSource :: bool

text \<open>\<open>logging.NewLogger\<close>, the logger of the packages.\<close>

definition NewLogger :: logger where
  "NewLogger = \<lparr>lg_Level = LevelInfo, lg_AddSource = True\<rparr>"

text \<open>The logger of the binary.\<close>

definition newLogger :: "string \<Rightarrow> logger" where
  "newLogger level =
     \<lparr>lg_Level = (if level = ''debug'' then LevelDebug
        else if level = ''warn'' then LevelWarn
        else if level = ''error'' then LevelError
        else LevelInfo), lg_AddSource = False\<rparr>"

subsection \<open>The connection string\<close>

text \<open>\<open>pgconn.Config\<close>, with the settings that \<open>ParseConfig\<close> reads from a connection string. TLS
  settings and the hosts to try next are of type parameters.\<close>

record ('tls, 'fallback) pgconn_Config =
  pc_Host :: string
  pc_Port :: "16 word"
  pc_User :: string
  pc_Password :: string
  pc_Database :: string
  pc_RuntimeParams :: "string \<Rightarrow> string option"
  pc_TLSConfig :: "'tls option"
  pc_Fallbacks :: "'fallback list"

definition applicationNameOr :: "('tls, 'fallback) pgconn_Config \<Rightarrow> string \<Rightarrow> string" where
  "applicationNameOr cfg fallback =
     (case pc_RuntimeParams cfg ''application_name'' of
        Some v \<Rightarrow> if v \<noteq> [] then v else fallback
      | None \<Rightarrow> fallback)"

definition second :: int where "second = 1000000000"

definition parseDSN :: "(string \<Rightarrow> error + ('tls, 'fallback) pgconn_Config) \<Rightarrow> string \<Rightarrow> error + Opts" where
  "parseDSN ParseConfig dsn =
     (case ParseConfig dsn of
        Inl e \<Rightarrow> Inl e
      | Inr cfg \<Rightarrow> Inr \<lparr>Host = pc_Host cfg, Port = uint (pc_Port cfg), User = pc_User cfg, Password = pc_Password cfg,
          Database = pc_Database cfg, ApplicationName = applicationNameOr cfg ''pgxporter'',
          ConnectTimeout = 10 * second, MaxConnectionRetries = 0, DefaultIsolationLevel = [], StatementTimeout = 0,
          LockTimeout = 0, IdleInTransactionSessionTimeout = 0, TotalTransactionTimeout = 0,
          InitialTransactionRetryDelay = 0, BaseTransactionRetryDelay = 0, MaxTransactionAttempts = 0,
          ReadOnly = False, PoolMaxConns = 4, PoolMinConns = 1, PoolMaxConnLifetime = 3600 * second,
          PoolMaxConnIdleTime = 30 * 60 * second, PoolHealthCheckPeriod = 60 * second,
          StatementCacheCapacity = 0, StatementCacheMode = ''prepare'', AuthProvider = None\<rparr>)"

subsection \<open>main\<close>

text \<open>What ends the wait for a signal or an error of the listener; it may last for ever.\<close>

datatype wait_end = SignalReceived | ListenerFailed error | WaitsForEver

record ('tls, 'fallback, 'e) main_env =
  me_dsn :: string
    \<comment> \<open>\<open>DATA_SOURCE_NAME\<close>\<close>
  me_listen :: string
    \<comment> \<open>\<open>-web.listen-address\<close>\<close>
  me_metricsPath :: string
    \<comment> \<open>\<open>-web.telemetry-path\<close>\<close>
  me_timeout :: int
    \<comment> \<open>\<open>-collection-timeout\<close>\<close>
  me_level :: string
    \<comment> \<open>\<open>-log.level\<close>\<close>
  me_ParseConfig :: "string \<Rightarrow> error + ('tls, 'fallback) pgconn_Config"
  me_Register :: "'e \<Rightarrow> error option"
  me_accepts :: "string \<Rightarrow> bool"
    \<comment> \<open>the metrics paths with a host, a method or a wildcard that the mux accepts beside \<open>/\<close>\<close>
  me_wait :: wait_end
  me_http_shutdown :: "error option"
  me_exporter_shutdown :: "error option"

text \<open>\<open>Log\<close> is a line that the default logger writes.\<close>

datatype main_event =
    SetDefaultLogger logger
  | Stderr string
  | Serve string mux
  | HttpShutdown
  | ExporterShutdown
  | Log Level string

definition exporter_opts :: "Opts \<Rightarrow> int \<Rightarrow> exporter_Opts" where
  "exporter_opts dbOpts timeout = \<lparr>DBOpts = [dbOpts], opts_Name = [], CollectionTimeout = timeout,
     MetricPrefix = [], EnabledCollectors = [], DisabledCollectors = []\<rparr>"

definition log_at :: "logger \<Rightarrow> Level \<Rightarrow> string \<Rightarrow> main_event list" where
  "log_at lg level msg = (if lg_Level lg \<le> level then [Log level msg] else [])"

definition log_err :: "logger \<Rightarrow> string \<Rightarrow> error option \<Rightarrow> main_event list" where
  "log_err lg what err = (case err of None \<Rightarrow> [] | Some e \<Rightarrow> log_at lg LevelError (what @ '': '' @ e))"

text \<open>\<open>None\<close>: the creation of the exporter panics or does not return, or the mux panics. The exit code is
  \<open>None\<close> when the binary serves for ever.\<close>

definition main :: "('cv, 'gv) prom \<Rightarrow> ('c, 'hv, 'hm) self_prom \<Rightarrow> boot \<Rightarrow>
    ('tls, 'fallback, ('cv, 'gv, 'c, 'hv, 'k) exporter) main_env \<Rightarrow> (main_event list \<times> nat option) option" where
  "main P S B env = (let lg = newLogger (me_level env) in
   map_option (apfst (Cons (SetDefaultLogger lg)))
     (if me_dsn env = []
      then Some ([Stderr ''DATA_SOURCE_NAME env var is required (libpq DSN, URI or key=value form)''], Some 2)
      else case parseDSN (me_ParseConfig env) (me_dsn env) of
          Inl e \<Rightarrow> Some ([Stderr (''parsing DATA_SOURCE_NAME: '' @ e)], Some 2)
        | Inr dbOpts \<Rightarrow>
            (case exporter_New P S B initial_globals (exporter_opts dbOpts (me_timeout env)) of
               None \<Rightarrow> None
             | Some (Inl e, _) \<Rightarrow> Some ([Stderr (''starting exporter: '' @ e)], Some 1)
             | Some (Inr expo, _) \<Rightarrow>
                 (case me_Register env expo of
                    Some e \<Rightarrow> Some ([Stderr (''registering collectors: '' @ e)], Some 1)
                  | None \<Rightarrow>
                      (case main_mux (me_accepts env) (me_metricsPath env) (me_timeout env) of
                         None \<Rightarrow> None
                       | Some mux \<Rightarrow>
                           let listening = Serve (me_listen env) mux # log_at lg LevelInfo ''listening''
                           in (case me_wait env of
                                 ListenerFailed e \<Rightarrow> Some (listening @ [Stderr (''listener: '' @ e)], Some 1)
                               | SignalReceived \<Rightarrow>
                                   Some (listening @ log_at lg LevelInfo ''shutdown signal received'' @
                                     HttpShutdown # log_err lg ''http shutdown'' (me_http_shutdown env) @
                                     ExporterShutdown # log_err lg ''exporter shutdown'' (me_exporter_shutdown env), Some 0)
                               | WaitsForEver \<Rightarrow> Some (listening, None)))))))"

subsection \<open>Lemmas\<close>

lemma parseDSN_retries: "parseDSN pc dsn = Inr o1 \<Longrightarrow> MaxConnectionRetries o1 = 0"
  by (auto simp: parseDSN_def split: sum.splits)

lemma log_at_cases: "log_at lg level msg = [] \<or> log_at lg level msg = [Log level msg]"
  by (simp add: log_at_def)

lemma LevelError_top: "level \<le> LevelError"
  by (cases level) (simp_all add: less_eq_Level_def)

lemma log_err_eq: "log_err lg what err = (case err of None \<Rightarrow> [] | Some e \<Rightarrow> [Log LevelError (what @ '': '' @ e)])"
  by (simp add: log_err_def log_at_def LevelError_top split: option.split)

lemma main_New_returns:
  fixes P :: "('cv, 'gv) prom" and S :: "('c, 'hv, 'hm) self_prom"
  assumes "prom_vecs P" and "self_metrics P S" and "\<forall>n \<in> set AvailableCollectors. LabelValueOK P n"
    and "parseDSN pc dsn = Inr o1"
  shows "\<exists>(res :: error + ('cv, 'gv, 'c, 'hv, 'k) exporter) g'.
    exporter_New P S B initial_globals (exporter_opts o1 t) = Some (res, g')"
proof -
  have "\<forall>o2 \<in> set (DBOpts (exporter_opts o1 t)). 0 \<le> MaxConnectionRetries o2"
    using parseDSN_retries [OF assms(4)] by (simp add: exporter_opts_def)
  from exporter_New_cases [OF assms(1-3) this, of B initial_globals] show ?thesis by blast
qed

lemma main_serves:
  assumes "main P S B env = Some (evs, code)" and "Serve l mux \<in> set evs"
  shows "l = me_listen env" and "main_mux (me_accepts env) (me_metricsPath env) (me_timeout env) = Some mux"
  using assms
  by (auto simp: main_def Let_def log_at_def log_err_eq split: if_splits sum.splits option.splits wait_end.splits)

subsection \<open>Properties\<close>

text \<open>
  C35. What the binary makes of a connection string: the URI of the pool is a function of host, port,
  user, password, database and application name alone. TLS settings (\<open>sslmode\<close> and the
  certificates) and the hosts to fall back to are dropped, and no other parameter is passed on.
\<close>

theorem parseDSN_uri:
  assumes "ParseConfig dsn = Inr cfg"
  shows "\<exists>o1. parseDSN ParseConfig dsn = Inr o1 \<and>
    parseDSN (\<lambda>_. Inr (cfg\<lparr>pc_TLSConfig := tls, pc_Fallbacks := fs\<rparr>)) dsn = Inr o1 \<and>
    DSN o1 = ''postgresql://'' @ QueryEscape (pc_User cfg) @
      (if pc_Password cfg \<noteq> [] then '':'' @ QueryEscape (pc_Password cfg) else []) @ ''@'' @
      pc_Host cfg @ '':'' @ Itoa (uint (pc_Port cfg)) @ ''/'' @ QueryEscape (pc_Database cfg) @
      ''?application_name='' @ QueryEscape (applicationNameOr cfg ''pgxporter'') @
      ''&pool_max_conns=4&pool_min_conns=1&pool_max_conn_lifetime=3600s&pool_max_conn_idle_time=1800s'' @
      ''&pool_health_check_period=60s&options=-cdefault_transaction_isolation%3Drepeatable'' @ [CHR 0x5C] @
      ''%20read%20-ctimezone%3DUTC%20-cstatement_timeout%3D0%20-clock_timeout%3D0'' @
      ''%20-cidle_in_transaction_session_timeout%3D0''"
proof -
  have digits: "char_of (48 :: nat) = CHR ''0''" "char_of (49 :: nat) = CHR ''1''" "char_of (51 :: nat) = CHR ''3''"
    "char_of (52 :: nat) = CHR ''4''" "char_of (54 :: nat) = CHR ''6''" "char_of (56 :: nat) = CHR ''8''" by code_simp+
  have nums: "Itoa 4 = ''4''" "Itoa 1 = ''1''" "Itoa 0 = ''0''" "Itoa 60 = ''60''" "Itoa 1800 = ''1800''"
    "Itoa 3600 = ''3600''" "Milliseconds 0 = 0" "defaultIsolationLevel [] = RepeatableRead"
    by (simp_all add: Itoa_def dec_digits.simps Milliseconds_def quot_def defaultIsolationLevel_def digits)
  have escaped: "QueryEscape ''3600s'' = ''3600s''" "QueryEscape ''1800s'' = ''1800s''" "QueryEscape ''60s'' = ''60s''"
    by code_simp+
  have secs: "fmt_f0 (Seconds (3600 * second)) = Itoa 3600" "fmt_f0 (Seconds (1800 * second)) = Itoa 1800"
    "fmt_f0 (Seconds (60 * second)) = Itoa 60"
    using fmt_seconds [of 3600] fmt_seconds [of 1800] fmt_seconds [of 60] by (simp_all add: second_def)
  have name: "applicationNameOr cfg ''pgxporter'' \<noteq> []"
    by (simp add: applicationNameOr_def split: option.split)
  have other: "applicationNameOr (cfg\<lparr>pc_TLSConfig := tls, pc_Fallbacks := fs\<rparr>) f = applicationNameOr cfg f" for f
    by (simp add: applicationNameOr_def)
  show ?thesis
    using name by (simp add: parseDSN_def assms other DSN_eq secs escaped nums userinfo_def server_options_eq formatOptionsParam_const)
qed

definition demo_cfg :: "(unit, unit) pgconn_Config" where
  "demo_cfg = \<lparr>pc_Host = ''h'', pc_Port = 5432, pc_User = ''u'', pc_Password = [], pc_Database = ''d'',
     pc_RuntimeParams = Map.empty, pc_TLSConfig = Some (), pc_Fallbacks = []\<rparr>"

theorem parseDSN_uri_witness:
  "parseDSN (\<lambda>_. Inr (demo_cfg\<lparr>pc_TLSConfig := None, pc_Fallbacks := []\<rparr>)) ''d'' = parseDSN (\<lambda>_. Inr demo_cfg) ''d''"
  using parseDSN_uri [of "\<lambda>_. Inr demo_cfg" "''d''" demo_cfg "[]" None] by auto

text \<open>The exporter was created and registered.\<close>

definition main_started :: "('cv, 'gv) prom \<Rightarrow> ('c, 'hv, 'hm) self_prom \<Rightarrow> boot \<Rightarrow>
    ('tls, 'fallback, ('cv, 'gv, 'c, 'hv, 'k) exporter) main_env \<Rightarrow> bool" where
  "main_started P S B env \<longleftrightarrow> me_dsn env \<noteq> [] \<and>
     (\<exists>o1 expo g'. parseDSN (me_ParseConfig env) (me_dsn env) = Inr o1 \<and>
        exporter_New P S B initial_globals (exporter_opts o1 (me_timeout env)) = Some (Inr expo, g') \<and>
        me_Register env expo = None)"

text \<open>
  C37. How a run of the binary ends. With code 2 exactly when the connection string is missing or
  cannot be parsed, and with code 1 when the exporter cannot be created or registered, each with a
  message and without having served anything. Once the exporter is registered the binary serves: for
  ever, unless the listener fails, which ends it with code 1, a message and no shutdown, or a signal
  arrives, which ends it with code 0 exactly then, after the HTTP server and then the exporter have been
  shut down. Errors of the shutdowns are logged at every level that the binary can be given. This is
  for a metrics path that the mux accepts.
\<close>

theorem main_exits:
  fixes P :: "('cv, 'gv) prom" and S :: "('c, 'hv, 'hm) self_prom"
    and env :: "('tls, 'fallback, ('cv, 'gv, 'c, 'hv, 'k) exporter) main_env"
  assumes "prom_vecs P" and "self_metrics P S" and "\<forall>n \<in> set AvailableCollectors. LabelValueOK P n"
    and "main_mux (me_accepts env) (me_metricsPath env) (me_timeout env) = Some mux"
  shows "\<exists>evs code. main P S B env = Some (evs, code) \<and>
    (let acts = filter (\<lambda>ev. ev \<in> {Serve (me_listen env) mux, HttpShutdown, ExporterShutdown}) evs in
      if me_dsn env = [] \<or> isl (me_ParseConfig env (me_dsn env)) then
        code = Some 2 \<and> acts = [] \<and> (\<exists>msg. last evs = Stderr msg)
      else if \<not> main_started P S B env then
        code = Some 1 \<and> acts = [] \<and> (\<exists>msg. last evs = Stderr msg)
      else (case me_wait env of
          WaitsForEver \<Rightarrow> code = None \<and> acts = [Serve (me_listen env) mux]
        | ListenerFailed e \<Rightarrow> code = Some 1 \<and> acts = [Serve (me_listen env) mux] \<and> last evs = Stderr (''listener: '' @ e)
        | SignalReceived \<Rightarrow> code = Some 0 \<and> acts = [Serve (me_listen env) mux, HttpShutdown, ExporterShutdown] \<and>
            (\<forall>e. me_http_shutdown env = Some e \<longrightarrow> Log LevelError (''http shutdown: '' @ e) \<in> set evs) \<and>
            (\<forall>e. me_exporter_shutdown env = Some e \<longrightarrow> last evs = Log LevelError (''exporter shutdown: '' @ e))))"
proof -
  consider (no_dsn) "me_dsn env = []"
    | (bad_dsn) e where "me_dsn env \<noteq> []" "me_ParseConfig env (me_dsn env) = Inl e"
    | (dsn) cfg where "me_dsn env \<noteq> []" "me_ParseConfig env (me_dsn env) = Inr cfg"
    by (cases "me_ParseConfig env (me_dsn env)") auto
  then show ?thesis
  proof cases
    case no_dsn
    then show ?thesis by (simp add: main_def Let_def)
  next
    case bad_dsn
    then show ?thesis by (simp add: main_def Let_def parseDSN_def)
  next
    case dsn
    then obtain o1 where o1: "parseDSN (me_ParseConfig env) (me_dsn env) = Inr o1"
      by (auto simp: parseDSN_def)
    obtain res :: "error + ('cv, 'gv, 'c, 'hv, 'k) exporter" and g' where
      res: "exporter_New P S B initial_globals (exporter_opts o1 (me_timeout env)) = Some (res, g')"
      using main_New_returns [OF assms(1-3) o1] by blast
    have started: "main_started P S B env \<longleftrightarrow> (\<exists>expo. res = Inr expo \<and> me_Register env expo = None)"
      using dsn(1) by (simp add: main_started_def o1 res)
    show ?thesis
    proof (cases res)
      case (Inl e)
      with dsn o1 res show ?thesis by (simp add: main_def Let_def started)
    next
      case (Inr expo)
      show ?thesis
      proof (cases "me_Register env expo")
        case (Some e)
        with Inr dsn o1 res show ?thesis by (simp add: main_def Let_def started)
      next
        case None
        with Inr dsn o1 res assms(4) show ?thesis
          by (cases "me_wait env") (auto simp: main_def Let_def started log_at_def log_err_eq split: option.split)
      qed
    qed
  qed
qed

definition demo_main_env :: "(unit, unit, (refvec, refvec, metric, refhist, nat) exporter) main_env" where
  "demo_main_env = \<lparr>me_dsn = ''d'', me_listen = '':9187'', me_metricsPath = ''/metrics'', me_timeout = 0, me_level = ''warn'',
     me_ParseConfig = (\<lambda>_. Inr demo_cfg), me_Register = (\<lambda>_. None), me_accepts = (\<lambda>_. False),
     me_wait = ListenerFailed ''address in use'', me_http_shutdown = None, me_exporter_shutdown = None\<rparr>"

lemma demo_plain: "plain ''/metrics''"
  by (simp add: plain_def)

lemma demo_mux: "main_mux (me_accepts demo_main_env) (me_metricsPath demo_main_env) (me_timeout demo_main_env) =
    Some [(''/metrics'', Metrics 0), (''/'', Index ''/metrics'')]"
  by (simp add: demo_main_env_def main_mux_plain [OF demo_plain])

lemma demo_started: "main_started ref_prom ref_self demo_boot demo_main_env"
proof -
  obtain o1 where o1: "parseDSN (\<lambda>_. Inr demo_cfg) ''d'' = Inr o1" and o1': "MaxConnectionRetries o1 = 0" "AuthProvider o1 = None"
    by (simp add: parseDSN_def)
  have "\<exists>cs. new_clients demo_boot 0 (DBOpts (exporter_opts o1 0)) = Some (Inr cs)"
    using o1' by (simp add: demo_boot_def exporter_opts_def db_New_def dial.simps)
  then obtain cs where cs: "new_clients demo_boot 0 (DBOpts (exporter_opts o1 0)) = Some (Inr cs)" ..
  have some: "DBOpts (exporter_opts o1 0) \<noteq> []" by (simp add: exporter_opts_def)
  from exporter_New_connected [OF ref.prom_vecs_axioms ref_self.self_metrics_axioms demo_names_ok some cs, of initial_globals]
  obtain e :: "(refvec, refvec, metric, refhist, nat) exporter" and g' where
    "exporter_New ref_prom ref_self demo_boot initial_globals (exporter_opts o1 0) = Some (Inr e, g')" by blast
  with o1 show ?thesis unfolding main_started_def by (simp add: demo_main_env_def)
qed

text \<open>A signal instead of the error of the listener.\<close>

theorem main_exits_witness:
  "\<exists>evs. main ref_prom ref_self demo_boot (demo_main_env\<lparr>me_wait := SignalReceived\<rparr>) = Some (evs, Some 0) \<and>
     HttpShutdown \<in> set evs \<and> ExporterShutdown \<in> set evs"
proof -
  let ?env = "demo_main_env\<lparr>me_wait := SignalReceived\<rparr>"
  let ?mux = "[(''/metrics'', Metrics 0), (''/'', Index ''/metrics'')]"
  let ?acts = "\<lambda>evs. filter (\<lambda>ev. ev \<in> {Serve (me_listen ?env) ?mux, HttpShutdown, ExporterShutdown}) evs"
  have mux: "main_mux (me_accepts ?env) (me_metricsPath ?env) (me_timeout ?env) = Some ?mux" using demo_mux by simp
  have "main_started ref_prom ref_self demo_boot ?env" using demo_started by (simp add: main_started_def)
  moreover have "\<not> (me_dsn ?env = [] \<or> isl (me_ParseConfig ?env (me_dsn ?env)))" by (simp add: demo_main_env_def)
  ultimately obtain evs where "main ref_prom ref_self demo_boot ?env = Some (evs, Some 0)"
    and acts: "?acts evs = [Serve (me_listen ?env) ?mux, HttpShutdown, ExporterShutdown]"
    using main_exits [OF ref.prom_vecs_axioms ref_self.self_metrics_axioms demo_names_ok mux, of demo_boot]
    by (auto simp: Let_def)
  moreover have "set (?acts evs) \<subseteq> set evs" by (rule filter_is_subset)
  then have "HttpShutdown \<in> set evs" and "ExporterShutdown \<in> set evs" unfolding acts by simp_all
  ultimately show ?thesis by blast
qed

text \<open>
  C38. Where the binary serves what, for a plain metrics path: the metrics at that path (and below it,
  when it ends in a slash, to which the path without it is redirected), and at every other path the
  page that links to it. The binary never serves with the metrics path \<open>/\<close>: registering the index
  page for the same pattern panics.
\<close>

theorem metrics_path_served:
  assumes "plain (me_metricsPath env)" and "main P S B env = Some (evs, code)" and "Serve l mux \<in> set evs"
  shows "l = me_listen env \<and> me_metricsPath env \<noteq> ''/'' \<and>
    dispatch mux (me_metricsPath env) = Serves (Metrics (me_timeout env)) \<and>
    (\<forall>url. url \<noteq> [] \<and> hd url = CHR ''/'' \<longrightarrow> dispatch mux url =
       (if matches (me_metricsPath env) url then Serves (Metrics (me_timeout env))
        else if me_metricsPath env = url @ ''/'' \<and> \<not> subtree url then RedirectTo (me_metricsPath env)
        else Serves (Index (me_metricsPath env))))"
proof -
  note run = main_serves [OF assms(2,3)]
  have ne: "me_metricsPath env \<noteq> ''/''" using run(2) main_mux_plain [OF assms(1)] by (auto split: if_splits)
  from main_mux_routes [OF assms(1) ne] obtain mux' where
    mux': "main_mux (me_accepts env) (me_metricsPath env) (me_timeout env) = Some mux'" and
    routes: "dispatch mux' (me_metricsPath env) = Serves (Metrics (me_timeout env)) \<and>
     (\<forall>url. url \<noteq> [] \<and> hd url = CHR ''/'' \<longrightarrow> dispatch mux' url =
       (if matches (me_metricsPath env) url then Serves (Metrics (me_timeout env))
        else if me_metricsPath env = url @ ''/'' \<and> \<not> subtree url then RedirectTo (me_metricsPath env)
        else Serves (Index (me_metricsPath env))))"
    by blast
  have "mux' = mux" using run(2) mux' by simp
  with routes run(1) ne show ?thesis by blast
qed

theorem metrics_path_served_witness:
  "\<exists>evs mux. main ref_prom ref_self demo_boot demo_main_env = Some (evs, Some 1) \<and> Serve '':9187'' mux \<in> set evs \<and>
     dispatch mux ''/metrics'' = Serves (Metrics 0) \<and> dispatch mux ''/x'' = Serves (Index ''/metrics'')"
proof -
  let ?mux = "[(''/metrics'', Metrics 0), (''/'', Index ''/metrics'')]"
  obtain o1 where o1: "parseDSN (\<lambda>_. Inr demo_cfg) ''d'' = Inr o1" and o1': "MaxConnectionRetries o1 = 0" "AuthProvider o1 = None"
    by (simp add: parseDSN_def)
  have "\<exists>cs. new_clients demo_boot 0 (DBOpts (exporter_opts o1 0)) = Some (Inr cs)"
    using o1' by (simp add: demo_boot_def exporter_opts_def db_New_def dial.simps)
  then obtain cs where cs: "new_clients demo_boot 0 (DBOpts (exporter_opts o1 0)) = Some (Inr cs)" ..
  have some: "DBOpts (exporter_opts o1 0) \<noteq> []" by (simp add: exporter_opts_def)
  from exporter_New_connected [OF ref.prom_vecs_axioms ref_self.self_metrics_axioms demo_names_ok some cs, of initial_globals]
  obtain e :: "(refvec, refvec, metric, refhist, nat) exporter" and g' where
    e: "exporter_New ref_prom ref_self demo_boot initial_globals (exporter_opts o1 0) = Some (Inr e, g')"
    by blast
  have run: "main ref_prom ref_self demo_boot demo_main_env =
      Some ([SetDefaultLogger (newLogger ''warn''), Serve '':9187'' ?mux, Stderr ''listener: address in use''], Some 1)"
    using demo_mux by (simp add: main_def demo_main_env_def Let_def o1 e log_at_def newLogger_def less_eq_Level_def)
  have plain: "plain (me_metricsPath demo_main_env)" by (simp add: demo_main_env_def plain_def)
  have served: "Serve '':9187'' ?mux \<in> set [SetDefaultLogger (newLogger ''warn''), Serve '':9187'' ?mux, Stderr ''listener: address in use'']"
    by simp
  note rest = conjunct2 [OF conjunct2 [OF metrics_path_served [OF plain run served]]]
  have "dispatch ?mux ''/metrics'' = Serves (Metrics 0)"
    using conjunct1 [OF rest] by (simp add: demo_main_env_def)
  moreover have "dispatch ?mux ''/x'' = Serves (Index ''/metrics'')"
    using spec [OF conjunct2 [OF rest], of "''/x''"] by (simp add: demo_main_env_def matches_def subtree_def)
  ultimately show ?thesis
    using run served by (intro exI conjI)
qed

end
