(* ===== verification/HarnessFs.thy ===== *)
theory HarnessFs
  imports Prelude "HOL-Library.List_Lexorder" "HOL-Library.Char_ord" "HOL-Library.AList" "HOL-Library.Sublist"
begin

text \<open>
  What the test harness (\<open>testutil/\<close>) uses of Go's \<open>path/filepath\<close> and \<open>os\<close>: cleaned paths, and a
  file system of directories, regular files and symbolic links whose calls follow links the way the
  kernel does. A call can also fail for a reason outside the model (permissions, a full disk):
  \<open>os_deny\<close> says when.
\<close>

subsection \<open>path/filepath\<close>

text \<open>A path in the form that \<open>Clean\<close>, \<open>Join\<close> and \<open>Dir\<close> return.\<close>

record path =
  p_Rooted :: bool
  p_Elems :: "string list"

fun split_slash :: "string \<Rightarrow> string list" where
  "split_slash [] = [[]]"
| "split_slash (c # s) = (if c = CHR ''/'' then [] # split_slash s
     else (c # hd (split_slash s)) # tl (split_slash s))"

fun clean_elems :: "bool \<Rightarrow> string list \<Rightarrow> string list \<Rightarrow> string list" where
  "clean_elems rooted acc [] = acc"
| "clean_elems rooted acc (x # xs) =
     (if x = [] \<or> x = ''.'' then clean_elems rooted acc xs
      else if x = ''..'' then
        (if acc \<noteq> [] \<and> last acc \<noteq> ''..'' then clean_elems rooted (butlast acc) xs
         else if rooted then clean_elems rooted acc xs
         else clean_elems rooted (acc @ [x]) xs)
      else clean_elems rooted (acc @ [x]) xs)"

definition Clean :: "string \<Rightarrow> path" where
  "Clean s = (let rooted = (s \<noteq> [] \<and> hd s = CHR ''/'') in
     \<lparr>p_Rooted = rooted, p_Elems = clean_elems rooted [] (split_slash s)\<rparr>)"

text \<open>\<open>filepath.Join\<close> of a cleaned path and a further element.\<close>

definition Join :: "path \<Rightarrow> string \<Rightarrow> path" where
  "Join p s = p\<lparr>p_Elems := clean_elems (p_Rooted p) (p_Elems p) (split_slash s)\<rparr>"

definition DirOf :: "path \<Rightarrow> path" where
  "DirOf p = p\<lparr>p_Elems := butlast (p_Elems p)\<rparr>"

definition show_path :: "path \<Rightarrow> string" where
  "show_path p = (if p_Rooted p then ''/'' @ join ''/'' (p_Elems p)
     else if p_Elems p = [] then ''.'' else join ''/'' (p_Elems p))"

text \<open>\<open>strings.Contains\<close>.\<close>

fun Contains :: "string \<Rightarrow> string \<Rightarrow> bool" where
  "Contains [] sub = (sub = [])"
| "Contains (c # s) sub = (take (length sub) (c # s) = sub \<or> Contains s sub)"

subsection \<open>The file system\<close>

datatype node = DirNode | FileNode nat string | LinkNode string

type_synonym tree = "(string list \<times> node) list"

definition node_at :: "tree \<Rightarrow> string list \<Rightarrow> node option" where
  "node_at t q = (if q = [] then Some DirNode else map_of t q)"

definition set_node :: "string list \<Rightarrow> node \<Rightarrow> tree \<Rightarrow> tree" where
  "set_node q n t = AList.update q n t"

definition prune :: "string list \<Rightarrow> tree \<Rightarrow> tree" where
  "prune q t = filter (\<lambda>(r, _). \<not> prefix q r) t"

text \<open>The kernel's walk along a path, with at most \<open>n\<close> links. The last component may be missing; it
  is followed when it is a link only if \<open>follow\<close> holds.\<close>

function walk :: "bool \<Rightarrow> nat \<Rightarrow> tree \<Rightarrow> string list \<Rightarrow> string list \<Rightarrow> error + string list" where
  "walk follow n t cur [] = Inr cur"
| "walk follow n t cur (c # cs) =
     (if c = [] \<or> c = ''.'' then walk follow n t cur cs
      else if c = ''..'' then walk follow n t (butlast cur) cs
      else case node_at t (cur @ [c]) of
          None \<Rightarrow> if cs = [] then Inr (cur @ [c]) else Inl ''no such file or directory''
        | Some DirNode \<Rightarrow> walk follow n t (cur @ [c]) cs
        | Some (FileNode _ _) \<Rightarrow> if cs = [] then Inr (cur @ [c]) else Inl ''not a directory''
        | Some (LinkNode target) \<Rightarrow>
            if cs = [] \<and> \<not> follow then Inr (cur @ [c])
            else case n of
                0 \<Rightarrow> Inl ''too many levels of symbolic links''
              | Suc n' \<Rightarrow> walk follow n' t (if target \<noteq> [] \<and> hd target = CHR ''/'' then [] else cur)
                  (split_slash target @ cs))"
  by pat_completeness auto
termination by (relation "measures [\<lambda>(_, n, _). n, \<lambda>(_, _, _, _, cs). length cs]") auto

declare walk.simps(2) [simp del]

datatype syscall = SysStat | SysMkdir | SysOpen | SysWrite | SysClose | SysRemove | SysRemoveAll | SysSymlink

record os =
  os_tree :: tree
  os_cwd :: "string list"
  os_umask :: "nat \<Rightarrow> nat"
  os_deny :: "syscall \<Rightarrow> path \<Rightarrow> tree \<Rightarrow> error option"

definition resolve :: "bool \<Rightarrow> os \<Rightarrow> path \<Rightarrow> error + string list" where
  "resolve follow s p = walk follow 40 (os_tree s) (if p_Rooted p then [] else os_cwd s) (p_Elems p)"

text \<open>A call: refused by the environment, or by the walk, or decided by the node it finds.\<close>

definition call :: "syscall \<Rightarrow> bool \<Rightarrow> os \<Rightarrow> path \<Rightarrow> (string list \<Rightarrow> node option \<Rightarrow> error + 'a) \<Rightarrow> error + 'a" where
  "call c follow s p f =
     (case os_deny s c p (os_tree s) of
        Some e \<Rightarrow> Inl e
      | None \<Rightarrow> (case resolve follow s p of Inl e \<Rightarrow> Inl e | Inr q \<Rightarrow> f q (node_at (os_tree s) q)))"

definition found :: "string list \<Rightarrow> node option \<Rightarrow> error + node" where
  "found q n = (case n of None \<Rightarrow> Inl ''no such file or directory'' | Some n' \<Rightarrow> Inr n')"

definition Stat :: "os \<Rightarrow> path \<Rightarrow> error + node" where
  "Stat s p = call SysStat True s p found"

definition Lstat :: "os \<Rightarrow> path \<Rightarrow> error + node" where
  "Lstat s p = call SysStat False s p found"

definition Mkdir :: "os \<Rightarrow> path \<Rightarrow> error + os" where
  "Mkdir s p = call SysMkdir False s p (\<lambda>q n. if n = None
     then Inr (s\<lparr>os_tree := set_node q DirNode (os_tree s)\<rparr>) else Inl ''file exists'')"

definition mkdir_here :: "os \<Rightarrow> path \<Rightarrow> error option \<times> os" where
  "mkdir_here s p = (case Mkdir s p of
       Inr s' \<Rightarrow> (None, s')
     | Inl e \<Rightarrow> (if Lstat s p = Inr DirNode then None else Some (''mkdir '' @ show_path p @ '': '' @ e), s))"

function MkdirAll :: "os \<Rightarrow> path \<Rightarrow> error option \<times> os" where
  "MkdirAll s p =
     (case Stat s p of
        Inr n \<Rightarrow> (if n = DirNode then None else Some (''mkdir '' @ show_path p @ '': not a directory''), s)
      | Inl _ \<Rightarrow>
          (case (if p_Elems p \<noteq> [] \<and> (p_Rooted p \<or> 1 < length (p_Elems p)) then MkdirAll s (DirOf p) else (None, s)) of
             (Some e, s1) \<Rightarrow> (Some e, s1)
           | (None, s1) \<Rightarrow> mkdir_here s1 p))"
  by pat_completeness auto
termination by (relation "measure (\<lambda>(_, p). length (p_Elems p))") (auto simp: DirOf_def)

declare MkdirAll.simps [simp del]

text \<open>\<open>os.OpenFile\<close> with \<open>O_CREATE|O_WRONLY|O_TRUNC\<close>; the handle is the file that it opened.\<close>

definition OpenTrunc :: "os \<Rightarrow> path \<Rightarrow> nat \<Rightarrow> error + string list \<times> os" where
  "OpenTrunc s p mode = call SysOpen True s p (\<lambda>q n. case n of
       None \<Rightarrow> Inr (q, s\<lparr>os_tree := set_node q (FileNode (os_umask s mode) []) (os_tree s)\<rparr>)
     | Some (FileNode m _) \<Rightarrow> Inr (q, s\<lparr>os_tree := set_node q (FileNode m []) (os_tree s)\<rparr>)
     | Some _ \<Rightarrow> Inl ''is a directory'')"

definition WriteFile :: "os \<Rightarrow> string list \<Rightarrow> string \<Rightarrow> os" where
  "WriteFile s q bytes = (case node_at (os_tree s) q of
       Some (FileNode m old) \<Rightarrow> s\<lparr>os_tree := set_node q (FileNode m (old @ bytes)) (os_tree s)\<rparr>
     | _ \<Rightarrow> s)"

definition Remove :: "os \<Rightarrow> path \<Rightarrow> error + os" where
  "Remove s p = call SysRemove False s p (\<lambda>q n. case n of
       None \<Rightarrow> Inl ''no such file or directory''
     | Some m \<Rightarrow>
         if m = DirNode \<and> (q = [] \<or> (\<exists>e \<in> set (os_tree s). strict_prefix q (fst e))) then Inl ''directory not empty''
         else Inr (s\<lparr>os_tree := AList.delete q (os_tree s)\<rparr>))"

definition Symlink :: "os \<Rightarrow> string \<Rightarrow> path \<Rightarrow> error + os" where
  "Symlink s target p = call SysSymlink False s p (\<lambda>q n. if n = None
     then Inr (s\<lparr>os_tree := set_node q (LinkNode target) (os_tree s)\<rparr>) else Inl ''file exists'')"

definition RemoveAll :: "os \<Rightarrow> path \<Rightarrow> error + os" where
  "RemoveAll s p = call SysRemoveAll False s p (\<lambda>q n. Inr (s\<lparr>os_tree := prune q (os_tree s)\<rparr>))"

text \<open>\<open>filepath.WalkDir\<close> visits what lies below a directory in lexical order, without following
  links; the entries are given with their paths.\<close>

definition dir_entries :: "tree \<Rightarrow> string list \<Rightarrow> (string list \<times> node) list" where
  "dir_entries t q = map (\<lambda>r. (r, the (node_at t r))) (sort (filter (prefix q) (remdups (map fst t))))"

subsection \<open>Lemmas: paths\<close>

definition proper :: "string \<Rightarrow> bool" where
  "proper c \<longleftrightarrow> c \<noteq> [] \<and> c \<noteq> ''.'' \<and> c \<noteq> ''..''"

lemma split_slash_nonempty [simp]: "split_slash s \<noteq> []"
  by (induction s) auto

lemma hd_split_slash: "take (length (hd (split_slash s))) s = hd (split_slash s)"
  by (induction s) auto

lemma Contains_Nil [simp]: "Contains s []"
  by (cases s) auto

lemma Contains_component: "w \<in> set (split_slash s) \<Longrightarrow> Contains s w"
proof (induction s)
  case Nil
  then show ?case by simp
next
  case (Cons c s)
  show ?case
  proof (cases "c = CHR ''/''")
    case True
    with Cons show ?thesis by auto
  next
    case False
    with Cons.prems consider "w = c # hd (split_slash s)" | "w \<in> set (tl (split_slash s))" by auto
    then show ?thesis
    proof cases
      case 1
      then show ?thesis by (simp add: hd_split_slash)
    next
      case 2
      then have "w \<in> set (split_slash s)" by (rule list.set_sel(2) [rotated]) simp
      with Cons.IH show ?thesis by simp
    qed
  qed
qed

lemma clean_elems_no_dotdot:
  "''..'' \<notin> set xs \<Longrightarrow> clean_elems r acc xs = acc @ filter proper xs"
  by (induction xs arbitrary: acc) (auto simp: proper_def)

lemma Join_no_dotdot:
  "\<not> Contains s ''..'' \<Longrightarrow> Join p s = p\<lparr>p_Elems := p_Elems p @ filter proper (split_slash s)\<rparr>"
  using Contains_component by (auto simp: Join_def intro!: path.fold_congs clean_elems_no_dotdot)

lemma DirOf_simps [simp]: "p_Rooted (DirOf p) = p_Rooted p" "p_Elems (DirOf p) = butlast (p_Elems p)"
  by (simp_all add: DirOf_def)

lemma Join_DirOf: "proper c \<Longrightarrow> CHR ''/'' \<notin> set c \<Longrightarrow> DirOf (Join p c) = p"
proof -
  assume c: "proper c" "CHR ''/'' \<notin> set c"
  have "split_slash c = [c]" using c(2) by (induction c) auto
  with c(1) show "DirOf (Join p c) = p" by (simp add: Join_def DirOf_def proper_def)
qed

lemma MkdirAll_cases:
  assumes "MkdirAll s p = (err, s')"
  obtains "s' = s"
  | e e1 s1 where "Stat s p = Inl e" "s1 = s \<or> p_Elems p \<noteq> [] \<and> (p_Rooted p \<or> 1 < length (p_Elems p)) \<and> MkdirAll s (DirOf p) = (e1, s1)"
      "s' = s1 \<or> Mkdir s1 p = Inr s'"
proof (cases "Stat s p")
  case (Inr n)
  with assms that(1) show thesis by (subst (asm) MkdirAll.simps) auto
next
  case stat: (Inl e)
  define up where "up = (if p_Elems p \<noteq> [] \<and> (p_Rooted p \<or> 1 < length (p_Elems p)) then MkdirAll s (DirOf p) else (None, s))"
  obtain e1 s1 where s1: "up = (e1, s1)" by fastforce
  have eq: "MkdirAll s p = (case up of (Some e, s1) \<Rightarrow> (Some e, s1) | (None, s1) \<Rightarrow> mkdir_here s1 p)"
    unfolding MkdirAll.simps [of s p] up_def by (simp add: stat)
  have "s' = s1 \<or> Mkdir s1 p = Inr s'"
    using assms eq s1 by (auto simp: mkdir_here_def split: option.splits sum.splits)
  with s1 that(2) [OF stat, of s1 e1] show thesis by (auto simp: up_def split: if_splits)
qed

subsection \<open>Lemmas: trees\<close>

lemma node_at_Nil [simp]: "node_at t [] = Some DirNode"
  by (simp add: node_at_def)

lemma node_at_set: "q \<noteq> [] \<Longrightarrow> node_at (set_node q n t) r = (if r = q then Some n else node_at t r)"
  by (simp add: node_at_def set_node_def update_conv')

lemma node_at_prune: "r \<noteq> [] \<Longrightarrow> node_at (prune q t) r = (if prefix q r then None else node_at t r)"
  by (induction t) (auto simp: node_at_def prune_def)

text \<open>A walk that meets no link and no dots ends where its text says.\<close>

lemma walk_plain:
  assumes "\<forall>c \<in> set cs. proper c" and "\<forall>k l. node_at t (cur @ take k cs) \<noteq> Some (LinkNode l)"
    and "walk follow n t cur cs = Inr q"
  shows "q = cur @ cs"
  using assms
proof (induction cs arbitrary: cur)
  case Nil
  then show ?case by simp
next
  case (Cons c cs)
  have c: "c \<noteq> []" "c \<noteq> ''.''" "c \<noteq> ''..''" using Cons.prems(1) by (auto simp: proper_def)
  have links: "\<forall>k l. node_at t ((cur @ [c]) @ take k cs) \<noteq> Some (LinkNode l)"
    using Cons.prems(2) by (metis append.assoc append_Cons append_Nil take_Suc_Cons)
  have "node_at t (cur @ [c]) \<noteq> Some (LinkNode l)" for l
    using links by (metis append_Nil2 take0)
  with Cons.prems(3) c have "q = cur @ [c] \<and> cs = [] \<or> walk follow n t (cur @ [c]) cs = Inr q"
    by (auto simp: walk.simps(2) split: option.splits node.splits if_splits)
  then show ?case
  proof
    assume "walk follow n t (cur @ [c]) cs = Inr q"
    with Cons.IH [of "cur @ [c]"] Cons.prems(1) links show ?thesis by simp
  qed auto
qed

end
