(* ===== verification/Harness.thy ===== *)
theory Harness
  imports HarnessFs
begin

text \<open>
  \<open>testutil/pg.go\<close>: the cache of binaries, the extraction of a downloaded archive, and disposable
  PostgreSQL servers for tests. The environment (variables, the network, the processes that are
  run) is an argument. A wait that need not end is \<open>None\<close> when it does not.
\<close>

subsection \<open>The cache of binaries\<close>

definition BinaryReleaseTag :: string where "BinaryReleaseTag = ''v0.0.5''"

definition SupportedVersions :: "string list" where
  "SupportedVersions = [''13.22'', ''14.19'', ''15.14'', ''16.10'', ''17.6'', ''18.0'']"

definition isSupportedVersion :: "string \<Rightarrow> bool" where
  "isSupportedVersion v = (\<exists>s \<in> set SupportedVersions. s = v)"

datatype typeflag = TypeDir | TypeReg | TypeSymlink | TypeOther

text \<open>An entry of an archive. Reading its body gives \<open>h_Body\<close> and then perhaps an error.\<close>

record tar_hdr =
  h_Name :: string
  h_Typeflag :: typeflag
  h_Linkname :: string
  h_Mode :: nat
  h_Body :: string
  h_BodyErr :: "error option"

text \<open>A response: its status, and what \<open>gzip\<close> and \<open>tar\<close> read from its body, up to the end or an
  error.\<close>

record response =
  rs_Status :: int
  rs_Archive :: "error + tar_hdr list \<times> error option"

record host =
  hv_GOOS :: string
  hv_GOARCH :: string
  hv_getenv :: "string \<Rightarrow> string"
  hv_environ :: "string list"
  hv_UserHomeDir :: "error + string"
  hv_Do :: "string \<Rightarrow> error + response"

definition cacheRoot :: "('h) host_scheme \<Rightarrow> error + path" where
  "cacheRoot hv =
     (if hv_getenv hv ''XDG_CACHE_HOME'' \<noteq> []
      then Inr (Join (Join (Clean (hv_getenv hv ''XDG_CACHE_HOME'')) ''pgxporter'') ''postgres'')
      else case hv_UserHomeDir hv of
          Inl e \<Rightarrow> Inl (''cacheRoot: '' @ e)
        | Inr home \<Rightarrow> Inr (Join (Join (Join (Clean home) ''.cache'') ''pgxporter'') ''postgres''))"

definition arrow :: string where "arrow = [CHR 0xE2, CHR 0x86, CHR 0x92]"

definition extract_entry :: "os \<Rightarrow> path \<Rightarrow> tar_hdr \<Rightarrow> error option \<times> os" where
  "extract_entry s destRoot h =
     (if h_Name h = [] \<or> Contains (h_Name h) ''..'' then (None, s)
      else let target = Join destRoot (h_Name h) in
      case h_Typeflag h of
        TypeDir \<Rightarrow>
          (case MkdirAll s target of
             (Some e, s1) \<Rightarrow> (Some (''tar mkdir '' @ show_path target @ '': '' @ e), s1)
           | (None, s1) \<Rightarrow> (None, s1))
      | TypeReg \<Rightarrow>
          (case MkdirAll s (DirOf target) of
             (Some e, s1) \<Rightarrow> (Some (''tar mkdir parent '' @ show_path target @ '': '' @ e), s1)
           | (None, s1) \<Rightarrow>
               (case OpenTrunc s1 target (h_Mode h) of
                  Inl e \<Rightarrow> (Some (''tar create '' @ show_path target @ '': '' @ e), s1)
                | Inr (f, s2) \<Rightarrow>
                    (case os_deny s2 SysWrite target (os_tree s2) of
                       Some e \<Rightarrow> (Some (''tar write '' @ show_path target @ '': '' @ e), s2)
                     | None \<Rightarrow>
                         let s3 = WriteFile s2 f (h_Body h) in
                         (case h_BodyErr h of
                            Some e \<Rightarrow> (Some (''tar write '' @ show_path target @ '': '' @ e), s3)
                          | None \<Rightarrow>
                              (case os_deny s3 SysClose target (os_tree s3) of
                                 Some e \<Rightarrow> (Some (''tar close '' @ show_path target @ '': '' @ e), s3)
                               | None \<Rightarrow> (None, s3))))))
      | TypeSymlink \<Rightarrow>
          (case MkdirAll s (DirOf target) of
             (Some e, s1) \<Rightarrow> (Some (''tar mkdir parent (symlink) '' @ show_path target @ '': '' @ e), s1)
           | (None, s1) \<Rightarrow>
               (let s2 = (case Remove s1 target of Inl _ \<Rightarrow> s1 | Inr s' \<Rightarrow> s') in
                case Symlink s2 (h_Linkname h) target of
                  Inl e \<Rightarrow> (Some (''tar symlink '' @ show_path target @ '' '' @ arrow @ '' '' @ h_Linkname h @ '': '' @ e), s2)
                | Inr s3 \<Rightarrow> (None, s3)))
      | TypeOther \<Rightarrow> (None, s))"

fun extract_entries :: "os \<Rightarrow> path \<Rightarrow> tar_hdr list \<Rightarrow> error option \<Rightarrow> error option \<times> os" where
  "extract_entries s destRoot [] end_err = (map_option (\<lambda>e. ''tar: '' @ e) end_err, s)"
| "extract_entries s destRoot (h # hs) end_err =
     (case extract_entry s destRoot h of
        (Some e, s1) \<Rightarrow> (Some e, s1)
      | (None, s1) \<Rightarrow> extract_entries s1 destRoot hs end_err)"

definition downloadAndExtract :: "('h) host_scheme \<Rightarrow> os \<Rightarrow> string \<Rightarrow> path \<Rightarrow> error option \<times> os" where
  "downloadAndExtract hv s url destRoot =
     (case hv_Do hv url of
        Inl e \<Rightarrow> (Some (''download: '' @ e), s)
      | Inr resp \<Rightarrow>
          if rs_Status resp \<noteq> 200
          then (Some (''download: unexpected status '' @ Itoa (rs_Status resp) @ '' from '' @ url), s)
          else case rs_Archive resp of
              Inl e \<Rightarrow> (Some (''download: gunzip: '' @ e), s)
            | Inr (hs, end_err) \<Rightarrow> extract_entries s destRoot hs end_err)"

text \<open>\<open>ensureBinaries\<close> after the fast path.\<close>

definition ensure_fetch :: "('h) host_scheme \<Rightarrow> os \<Rightarrow> string \<Rightarrow> path \<Rightarrow> path \<Rightarrow> (error + path) \<times> os" where
  "ensure_fetch hv s version extractDir binDir =
     (case MkdirAll s extractDir of
        (Some e, s1) \<Rightarrow> (Inl (''ensureBinaries: mkdir: '' @ e), s1)
      | (None, s1) \<Rightarrow>
          (case downloadAndExtract hv s1 (''https://github.com/becomeliminal/postgres/releases/download/'' @
               BinaryReleaseTag @ ''/psql-'' @ version @ ''-linux_x86_64.tar.gz'') extractDir of
             (Some e, s2) \<Rightarrow>
               (Inl (''ensureBinaries: '' @ e), (case RemoveAll s2 extractDir of Inl _ \<Rightarrow> s2 | Inr s3 \<Rightarrow> s3))
           | (None, s2) \<Rightarrow>
               (case Stat s2 (Join binDir ''postgres'') of
                  Inl _ \<Rightarrow> (Inl (''ensureBinaries: postgres binary not found after extract at '' @ show_path binDir), s2)
                | Inr _ \<Rightarrow> (Inr binDir, s2))))"

definition ensureBinaries :: "('h) host_scheme \<Rightarrow> os \<Rightarrow> string \<Rightarrow> (error + path) \<times> os" where
  "ensureBinaries hv s version =
     (case cacheRoot hv of
        Inl e \<Rightarrow> (Inl e, s)
      | Inr cache \<Rightarrow>
          let extractDir = Join cache version;
              binDir = Join extractDir ''bin'' in
          (case Stat s (Join binDir ''postgres'') of
             Inr n \<Rightarrow> if n \<noteq> DirNode then (Inr binDir, s) else ensure_fetch hv s version extractDir binDir
           | Inl _ \<Rightarrow> ensure_fetch hv s version extractDir binDir))"

subsection \<open>Lemmas: extraction\<close>

definition safe_dir :: "string list \<Rightarrow> tree \<Rightarrow> bool" where
  "safe_dir d t \<longleftrightarrow> (\<forall>c \<in> set d. proper c) \<and> (\<forall>k. node_at t (take k d) = Some DirNode) \<and>
     (\<forall>q l. prefix d q \<longrightarrow> node_at t q \<noteq> Some (LinkNode l))"

text \<open>What calls below \<open>d\<close> may do: nothing elsewhere, and no directory or file is lost.\<close>

definition grows :: "string list \<Rightarrow> tree \<Rightarrow> tree \<Rightarrow> bool" where
  "grows d t t' \<longleftrightarrow> safe_dir d t' \<and> (\<forall>q. \<not> strict_prefix d q \<longrightarrow> node_at t' q = node_at t q) \<and>
     (\<forall>q. node_at t q = Some DirNode \<longrightarrow> node_at t' q = Some DirNode) \<and>
     (\<forall>q m b. node_at t q = Some (FileNode m b) \<longrightarrow> (\<exists>m' b'. node_at t' q = Some (FileNode m' b')))"

definition inside :: "string list \<Rightarrow> path \<Rightarrow> bool" where
  "inside d p \<longleftrightarrow> p_Rooted p \<and> (\<forall>c \<in> set (p_Elems p). proper c) \<and> (prefix d (p_Elems p) \<or> prefix (p_Elems p) d)"

lemma grows_refl: "safe_dir d t \<Longrightarrow> grows d t t"
  by (auto simp: grows_def)

lemma grows_safe: "grows d t t' \<Longrightarrow> safe_dir d t'"
  by (simp add: grows_def)

lemma grows_trans: "grows d t t' \<Longrightarrow> grows d t' t'' \<Longrightarrow> grows d t t''"
  unfolding grows_def by (metis (no_types, lifting))

lemma inside_DirOf: "inside d p \<Longrightarrow> inside d (DirOf p)"
proof -
  assume p: "inside d p"
  have "prefix (butlast (p_Elems p)) (p_Elems p)" by (rule prefixeq_butlast)
  with p have "prefix d (butlast (p_Elems p)) \<or> prefix (butlast (p_Elems p)) d"
    unfolding inside_def using prefix_order.trans prefix_same_cases by blast
  with p show "inside d (DirOf p)" by (auto simp: inside_def dest: in_set_butlastD)
qed

lemma resolve_inside:
  assumes safe: "safe_dir d (os_tree s)" and p: "inside d p" and "resolve follow s p = Inr q"
  shows "q = p_Elems p"
proof -
  have links: "node_at (os_tree s) (take k (p_Elems p)) \<noteq> Some (LinkNode l)" for k l
  proof -
    from p have "prefix d (take k (p_Elems p)) \<or> prefix (take k (p_Elems p)) d"
      unfolding inside_def using take_is_prefix prefix_order.trans prefix_same_cases by blast
    then show ?thesis
    proof
      assume "prefix (take k (p_Elems p)) d"
      then have "take (length (take k (p_Elems p))) d = take k (p_Elems p)"
        by (metis append_eq_conv_conj prefixE)
      then obtain j where "take k (p_Elems p) = take j d" by metis
      with safe show ?thesis by (auto simp: safe_dir_def)
    qed (use safe in \<open>auto simp: safe_dir_def\<close>)
  qed
  from assms(3) p have "walk follow 40 (os_tree s) [] (p_Elems p) = Inr q" by (simp add: resolve_def inside_def)
  with p links show ?thesis using walk_plain [of "p_Elems p" "os_tree s" "[]" follow 40 q] by (simp add: inside_def)
qed

lemma inside_new:
  assumes "safe_dir d t" and "inside d p" and "node_at t (p_Elems p) \<noteq> Some DirNode"
  shows "strict_prefix d (p_Elems p)" and "p_Elems p \<noteq> []"
proof -
  have "\<not> prefix (p_Elems p) d"
  proof
    assume "prefix (p_Elems p) d"
    then have "take (length (p_Elems p)) d = p_Elems p" by (auto simp: prefix_def)
    with assms(1,3) show False by (metis safe_dir_def)
  qed
  with assms(2) show "strict_prefix d (p_Elems p)" by (auto simp: inside_def prefix_order.less_le_not_le)
  then show "p_Elems p \<noteq> []" by auto
qed

lemma grows_set_node:
  assumes safe: "safe_dir d t" and q: "strict_prefix d q" "q \<noteq> []"
    and n: "n = DirNode \<and> node_at t q = None \<or>
      (\<exists>m b. n = FileNode m b) \<and> (node_at t q = None \<or> (\<exists>m b. node_at t q = Some (FileNode m b)))"
  shows "grows d t (set_node q n t)"
proof -
  have "take k d \<noteq> q" for k using q(1) by (metis prefix_order.less_le_not_le take_is_prefix)
  with safe n have "safe_dir d (set_node q n t)"
    by (auto simp: safe_dir_def node_at_set [OF q(2)])
  with q n show ?thesis by (auto simp: grows_def node_at_set [OF q(2)])
qed

lemma call_Inr:
  "call c follow s p f = Inr x \<longleftrightarrow>
     os_deny s c p (os_tree s) = None \<and> (\<exists>q. resolve follow s p = Inr q \<and> f q (node_at (os_tree s) q) = Inr x)"
  by (auto simp: call_def split: option.splits sum.splits)

lemma Mkdir_grows:
  assumes "safe_dir d (os_tree s)" and "inside d p" and "Mkdir s p = Inr s'"
  shows "grows d (os_tree s) (os_tree s')"
proof -
  from assms have "node_at (os_tree s) (p_Elems p) = None" "s' = s\<lparr>os_tree := set_node (p_Elems p) DirNode (os_tree s)\<rparr>"
    by (auto simp: Mkdir_def call_Inr dest: resolve_inside split: if_splits)
  with assms(1,2) inside_new [of d "os_tree s" p] show ?thesis by (auto intro!: grows_set_node)
qed

lemma MkdirAll_grows:
  "safe_dir d (os_tree s) \<Longrightarrow> inside d p \<Longrightarrow> MkdirAll s p = (err, s') \<Longrightarrow> grows d (os_tree s) (os_tree s')"
proof (induction s p arbitrary: err s' rule: MkdirAll.induct)
  case (1 s p)
  from "1.prems"(3) show ?case
  proof (cases rule: MkdirAll_cases)
    case 1
    with "1.prems"(1) show ?thesis by (simp add: grows_refl)
  next
    case (2 e e1 s1)
    have g1: "grows d (os_tree s) (os_tree s1)"
      using 2(2) "1.IH" [OF 2(1) _ "1.prems"(1) inside_DirOf [OF "1.prems"(2)], of e1 s1]
        grows_refl [OF "1.prems"(1)] by auto
    with 2(3) Mkdir_grows [OF grows_safe [OF g1] "1.prems"(2)] grows_trans show ?thesis by blast
  qed
qed

lemma OpenTrunc_grows:
  assumes "safe_dir d (os_tree s)" and "inside d p" and "OpenTrunc s p mode = Inr (f, s')"
  shows "grows d (os_tree s) (os_tree s') \<and> f = p_Elems p \<and> (\<exists>m b. node_at (os_tree s') f = Some (FileNode m b))"
proof -
  let ?q = "p_Elems p"
  from assms(3) obtain q where q: "resolve True s p = Inr q"
    and res: "(case node_at (os_tree s) q of
       None \<Rightarrow> Inr (q, s\<lparr>os_tree := set_node q (FileNode (os_umask s mode) []) (os_tree s)\<rparr>)
     | Some (FileNode m _) \<Rightarrow> Inr (q, s\<lparr>os_tree := set_node q (FileNode m []) (os_tree s)\<rparr>)
     | Some _ \<Rightarrow> Inl ''is a directory'') = Inr (f, s')"
    by (auto simp: OpenTrunc_def call_Inr)
  have "q = ?q" using resolve_inside [OF assms(1,2) q] .
  with res have old: "node_at (os_tree s) ?q = None \<or> (\<exists>m b. node_at (os_tree s) ?q = Some (FileNode m b))"
    and new: "\<exists>m. s' = s\<lparr>os_tree := set_node ?q (FileNode m []) (os_tree s)\<rparr>" and f: "f = ?q"
    by (auto split: option.splits node.splits)
  from old have "node_at (os_tree s) ?q \<noteq> Some DirNode" by auto
  note below = inside_new [OF assms(1,2) this]
  from new obtain m where m: "os_tree s' = set_node ?q (FileNode m []) (os_tree s)" by auto
  have "grows d (os_tree s) (os_tree s')"
    unfolding m using old by (intro grows_set_node [OF assms(1) below]) simp
  with f m show ?thesis by (simp add: node_at_set [OF below(2)])
qed

lemma WriteFile_grows:
  assumes "safe_dir d (os_tree s)" and "inside d p" and "node_at (os_tree s) (p_Elems p) = Some (FileNode m b)"
  shows "grows d (os_tree s) (os_tree (WriteFile s (p_Elems p) bytes))"
  using assms inside_new [of d "os_tree s" p] by (auto simp: WriteFile_def intro!: grows_set_node)

lemma inside_Join:
  assumes "safe_dir d t" and "p_Rooted destRoot" and "p_Elems destRoot = d" and "\<not> Contains name ''..''"
  shows "inside d (Join destRoot name)"
  using assms by (auto simp: Join_no_dotdot inside_def safe_dir_def)

definition is_regular :: "tree \<Rightarrow> string list \<Rightarrow> bool" where
  "is_regular t q \<longleftrightarrow> (\<exists>m b. node_at t q = Some (FileNode m b))"

lemma grows_regular: "grows d t t' \<Longrightarrow> is_regular t q \<Longrightarrow> is_regular t' q"
  by (simp add: grows_def is_regular_def)

lemma extract_entry_grows:
  assumes safe: "safe_dir d (os_tree s)" and dest: "p_Rooted destRoot" "p_Elems destRoot = d"
    and h: "h_Typeflag h \<noteq> TypeSymlink" and run: "extract_entry s destRoot h = (err, s')"
  shows "grows d (os_tree s) (os_tree s') \<and>
    (err = None \<and> h_Typeflag h = TypeReg \<and> h_Name h \<noteq> [] \<and> \<not> Contains (h_Name h) ''..'' \<longrightarrow>
      is_regular (os_tree s') (p_Elems (Join destRoot (h_Name h))))"
proof (cases "h_Name h = [] \<or> Contains (h_Name h) ''..''")
  case True
  with run safe show ?thesis by (auto simp: extract_entry_def grows_refl)
next
  case False
  let ?p = "Join destRoot (h_Name h)"
  from False inside_Join [OF safe dest] have p: "inside d ?p" by simp
  note dir = inside_DirOf [OF p]
  show ?thesis
  proof (cases "h_Typeflag h")
    case TypeDir
    with run False p safe MkdirAll_grows show ?thesis
      by (auto simp: extract_entry_def Let_def split: prod.splits option.splits)
  next
    case TypeOther
    with run False safe show ?thesis by (auto simp: extract_entry_def Let_def grows_refl)
  next
    case TypeSymlink
    with h show ?thesis by simp
  next
    case reg: TypeReg
    obtain e1 s1 where s1: "MkdirAll s (DirOf ?p) = (e1, s1)" by fastforce
    from MkdirAll_grows [OF safe dir s1] have g1: "grows d (os_tree s) (os_tree s1)" .
    show ?thesis
    proof (cases "\<exists>f s2. e1 = None \<and> OpenTrunc s1 ?p (h_Mode h) = Inr (f, s2)")
      case no_file: False
      with run False reg s1 have "s' = s1 \<and> err \<noteq> None"
        by (auto simp: extract_entry_def Let_def split: option.splits sum.splits)
      with g1 show ?thesis by blast
    next
      case True
      then obtain f s2 where s2: "e1 = None" "OpenTrunc s1 ?p (h_Mode h) = Inr (f, s2)" by blast
      from OpenTrunc_grows [OF grows_safe [OF g1] p s2(2)] obtain m b where
        g2: "grows d (os_tree s1) (os_tree s2)" and f: "f = p_Elems ?p" "node_at (os_tree s2) f = Some (FileNode m b)"
        by blast
      define s3 where "s3 = WriteFile s2 f (h_Body h)"
      have g3: "grows d (os_tree s2) (os_tree s3)"
        using WriteFile_grows [OF grows_safe [OF g2] p] f by (simp add: s3_def)
      have "s' = s2 \<or> s' = s3"
        using run False reg s1 s2
        by (auto simp: extract_entry_def Let_def s3_def split: option.splits)
      moreover have "grows d (os_tree s) (os_tree s2)" "grows d (os_tree s) (os_tree s3)"
        using g1 g2 g3 grows_trans by blast+
      moreover have "is_regular (os_tree s2) (p_Elems ?p)" using f by (auto simp: is_regular_def)
      moreover from this have "is_regular (os_tree s3) (p_Elems ?p)" by (rule grows_regular [OF g3])
      ultimately show ?thesis by auto
    qed
  qed
qed

lemma extract_entries_grows:
  assumes "safe_dir d (os_tree s)" and "p_Rooted destRoot" "p_Elems destRoot = d"
    and "\<forall>h \<in> set hs. h_Typeflag h \<noteq> TypeSymlink" and "extract_entries s destRoot hs end_err = (err, s')"
  shows "grows d (os_tree s) (os_tree s') \<and> (err = None \<longrightarrow>
    (\<forall>h \<in> set hs. h_Typeflag h = TypeReg \<and> h_Name h \<noteq> [] \<and> \<not> Contains (h_Name h) ''..'' \<longrightarrow>
      is_regular (os_tree s') (p_Elems (Join destRoot (h_Name h)))))"
  using assms
proof (induction hs arbitrary: s)
  case Nil
  then show ?case by (auto simp: grows_refl)
next
  case (Cons h hs)
  obtain e1 s1 where s1: "extract_entry s destRoot h = (e1, s1)" by fastforce
  have h: "h_Typeflag h \<noteq> TypeSymlink" using Cons.prems(4) by simp
  note g1 = extract_entry_grows [OF Cons.prems(1-3) h s1]
  show ?case
  proof (cases e1)
    case (Some e)
    with Cons.prems(5) s1 g1 show ?thesis by auto
  next
    case None
    with Cons.prems(5) s1 have rest: "extract_entries s1 destRoot hs end_err = (err, s')" by simp
    have g2: "grows d (os_tree s1) (os_tree s') \<and> (err = None \<longrightarrow>
      (\<forall>h \<in> set hs. h_Typeflag h = TypeReg \<and> h_Name h \<noteq> [] \<and> \<not> Contains (h_Name h) ''..'' \<longrightarrow>
        is_regular (os_tree s') (p_Elems (Join destRoot (h_Name h)))))"
      using Cons.IH [OF grows_safe Cons.prems(2,3) _ rest] g1 Cons.prems(4) by auto
    with g1 None grows_trans grows_regular show ?thesis by (metis set_ConsD)
  qed
qed

lemma ensure_fetch_found:
  "ensure_fetch hv s version extractDir binDir = (Inr dir, s') \<Longrightarrow> dir = binDir \<and> (\<exists>n. Stat s' (Join binDir ''postgres'') = Inr n)"
  by (auto simp: ensure_fetch_def split: prod.splits option.splits sum.splits)

text \<open>A directory of binaries that is returned holds the server; one that holds it already is
  returned as it is, without a download.\<close>

lemma ensureBinaries_found:
  assumes "ensureBinaries hv s version = (Inr binDir, s')"
  shows "\<exists>n. Stat s' (Join binDir ''postgres'') = Inr n"
proof -
  from assms obtain cache where "cacheRoot hv = Inr cache" by (auto simp: ensureBinaries_def split: sum.splits)
  with assms ensure_fetch_found show ?thesis
    by (fastforce simp: ensureBinaries_def Let_def split: sum.splits if_splits)
qed

lemma ensureBinaries_cached:
  assumes "cacheRoot hv = Inr cache" and "Stat s (Join (Join (Join cache version) ''bin'') ''postgres'') = Inr (FileNode m b)"
  shows "ensureBinaries hv s version = (Inr (Join (Join cache version) ''bin''), s)"
  using assms by (simp add: ensureBinaries_def Let_def)

text \<open>A host, and an archive with a symbolic link and an entry below it.\<close>

definition demo_os :: "tree \<Rightarrow> os" where
  "demo_os t = \<lparr>os_tree = t, os_cwd = [], os_umask = id, os_deny = (\<lambda>_ _ _. None)\<rparr>"

definition entry :: "string \<Rightarrow> typeflag \<Rightarrow> string \<Rightarrow> string \<Rightarrow> tar_hdr" where
  "entry name flag link body = \<lparr>h_Name = name, h_Typeflag = flag, h_Linkname = link, h_Mode = 420, h_Body = body, h_BodyErr = None\<rparr>"

definition demo_host :: "tar_hdr list \<Rightarrow> host" where
  "demo_host hs = \<lparr>hv_GOOS = ''linux'', hv_GOARCH = ''amd64'', hv_getenv = (\<lambda>_. []), hv_environ = [],
     hv_UserHomeDir = Inr ''/h'', hv_Do = (\<lambda>_. Inr \<lparr>rs_Status = 200, rs_Archive = Inr (hs, None)\<rparr>)\<rparr>"

definition demo_tree :: tree where
  "demo_tree = [([''c''], DirNode), ([''etc''], DirNode), ([''etc'', ''p''], FileNode 420 ''old'')]"

definition link_archive :: "tar_hdr list" where
  "link_archive = [entry ''a'' TypeSymlink ''/etc'' [], entry ''a/p'' TypeReg [] ''evil'']"

lemma symlink_entry_escapes:
  "node_at (os_tree (snd (downloadAndExtract (demo_host link_archive) (demo_os demo_tree) ''u''
     \<lparr>p_Rooted = True, p_Elems = [''c'']\<rparr>))) [''etc'', ''p''] = Some (FileNode 420 ''evil'')"
  by code_simp

subsection \<open>Properties\<close>

text \<open>
  C39. The extraction of an archive without symbolic links stays in its directory: whatever the names
  of the entries, and whether it succeeds or fails at any call, nothing outside the directory is
  created, changed or removed. When it succeeds, every regular entry whose name has no \<open>..\<close> is a
  regular file afterwards. Links break this: the target of one is not checked, and an entry below
  it replaces a file elsewhere.
\<close>

theorem extraction_contained:
  assumes "safe_dir d (os_tree s)" and "\<forall>h \<in> set hs. h_Typeflag h \<noteq> TypeSymlink"
    and "hv_Do hv url = Inr \<lparr>rs_Status = 200, rs_Archive = Inr (hs, end_err)\<rparr>"
    and "downloadAndExtract hv s url \<lparr>p_Rooted = True, p_Elems = d\<rparr> = (err, s')"
  shows "(\<forall>q. \<not> strict_prefix d q \<longrightarrow> node_at (os_tree s') q = node_at (os_tree s) q) \<and>
    (err = None \<longrightarrow> (\<forall>h \<in> set hs. h_Typeflag h = TypeReg \<and> h_Name h \<noteq> [] \<and> \<not> Contains (h_Name h) ''..'' \<longrightarrow>
      (\<exists>m b. node_at (os_tree s') (d @ filter proper (split_slash (h_Name h))) = Some (FileNode m b)))) \<and>
    node_at (os_tree (snd (downloadAndExtract (demo_host link_archive) (demo_os demo_tree) ''u''
      \<lparr>p_Rooted = True, p_Elems = [''c'']\<rparr>))) [''etc'', ''p''] = Some (FileNode 420 ''evil'')"
proof -
  let ?dest = "\<lparr>p_Rooted = True, p_Elems = d\<rparr>"
  from assms(3,4) have run: "extract_entries s ?dest hs end_err = (err, s')" by (simp add: downloadAndExtract_def)
  have dest: "p_Rooted ?dest" "p_Elems ?dest = d" by simp_all
  from extract_entries_grows [OF assms(1) dest assms(2) run] symlink_entry_escapes show ?thesis
    by (simp add: grows_def is_regular_def Join_no_dotdot)
qed

definition demo_entries :: "tar_hdr list" where
  "demo_entries = [entry ''../etc/p'' TypeReg [] ''evil'', entry ''b/p'' TypeReg [] ''bin'']"

lemma demo_tree_safe: "safe_dir [''c''] demo_tree"
proof -
  have "node_at demo_tree (take k [''c'']) = Some DirNode" for k
    by (cases k) (simp_all add: node_at_def demo_tree_def)
  moreover have "node_at demo_tree q \<noteq> Some (LinkNode l)" for q l
    by (auto simp: node_at_def demo_tree_def)
  ultimately show ?thesis by (simp add: safe_dir_def proper_def)
qed

theorem extraction_contained_witness:
  "\<exists>s' m b. downloadAndExtract (demo_host demo_entries) (demo_os demo_tree) ''u'' \<lparr>p_Rooted = True, p_Elems = [''c'']\<rparr> = (None, s') \<and>
     node_at (os_tree s') [''etc'', ''p''] = Some (FileNode 420 ''old'') \<and> node_at (os_tree s') [''c'', ''b'', ''p''] = Some (FileNode m b)"
proof -
  let ?run = "downloadAndExtract (demo_host demo_entries) (demo_os demo_tree) ''u'' \<lparr>p_Rooted = True, p_Elems = [''c'']\<rparr>"
  obtain err s' where run: "?run = (err, s')" by fastforce
  have ok: "fst ?run = None" by code_simp
  have safe: "safe_dir [''c''] (os_tree (demo_os demo_tree))" by (simp add: demo_os_def demo_tree_safe)
  have flags: "\<forall>h \<in> set demo_entries. h_Typeflag h \<noteq> TypeSymlink" by (simp add: demo_entries_def entry_def)
  have resp: "hv_Do (demo_host demo_entries) ''u'' = Inr \<lparr>rs_Status = 200, rs_Archive = Inr (demo_entries, None)\<rparr>"
    by (simp add: demo_host_def)
  have names: "filter proper (split_slash ''b/p'') = [''b'', ''p'']" "\<not> Contains ''b/p'' ''..''" by code_simp+
  note all = extraction_contained [OF safe flags resp run]
  have "\<not> strict_prefix [''c''] [''etc'', ''p'']" by simp
  with all have "node_at (os_tree s') [''etc'', ''p''] = node_at (os_tree (demo_os demo_tree)) [''etc'', ''p'']" by blast
  then have "node_at (os_tree s') [''etc'', ''p''] = Some (FileNode 420 ''old'')"
    by (simp add: demo_os_def demo_tree_def node_at_def)
  moreover from all run ok names have "\<exists>m b. node_at (os_tree s') [''c'', ''b'', ''p''] = Some (FileNode m b)"
    by (auto simp: demo_entries_def entry_def)
  ultimately show ?thesis using run ok by auto
qed

end
