(* ===== verification/HarnessProc.thy ===== *)
theory HarnessProc
  imports Harness
begin

text \<open>
  The processes of the test harness: a PostgreSQL server (\<open>testutil/pg.go\<close>), the reference binary
  (\<open>testutil/pgxporter.go\<close>) and \<open>postgres_exporter\<close> (\<open>testutil/postgresexporter.go\<close>). Time is an
  integer of nanoseconds since the start of a wait. \<open>t.Skipf\<close> and \<open>t.Fatalf\<close> end the test, so they
  are outcomes.
\<close>

subsection \<open>Processes and the host they run on\<close>

record PG =
  pg_DSN :: string
  pg_Host :: string
  pg_Port :: int
  pg_DataDir :: "path option"
    \<comment> \<open>\<open>None\<close> is the empty string\<close>
  pg_Version :: string
  pg_cmd :: "nat option"

record Pgxporter =
  px_URL :: string
  px_Port :: int
  px_cmd :: "nat option"

record PostgresExporter =
  pe_URL :: string
  pe_Port :: int
  pe_cmd :: "nat option"

datatype cleanup =
    RemoveTemp path
  | StopPG PG
  | StopPgxporter Pgxporter
  | StopPostgresExporter PostgresExporter

text \<open>The host: a program that runs to its end, one that is started, the time a process takes to
  exit after an interrupt (\<open>None\<close> if it ignores it), probes with their end, the times at which
  ticks are received, and the choice of \<open>select\<close> when a tick and the deadline are both ready.\<close>

record proc_host = host +
  hp_TempDir :: "tree \<Rightarrow> error + path \<times> tree"
  hp_CreateTemp :: "tree \<Rightarrow> error + path \<times> tree"
  hp_thisFile :: path
  hp_Run :: "string list \<Rightarrow> string list \<Rightarrow> path option \<Rightarrow> tree \<Rightarrow> (error \<times> string) option \<times> tree"
  hp_Start :: "string list \<Rightarrow> string list \<Rightarrow> error option"
  hp_Listen :: "error + int"
  hp_ExitTime :: "nat \<Rightarrow> int option"
  hp_Probe :: "string list \<Rightarrow> string list \<Rightarrow> nat \<Rightarrow> int \<Rightarrow> bool \<times> int"
  hp_Get :: "string \<Rightarrow> nat \<Rightarrow> int \<Rightarrow> (error + int \<times> int) \<times> int"
  hp_Tick :: "nat \<Rightarrow> int"
  hp_Choice :: "nat \<Rightarrow> bool"

record world =
  w_os :: os
  w_running :: "nat list"
  w_next :: nat
  w_cleanups :: "cleanup list"
  w_build :: "(string \<times> error option) option"
    \<comment> \<open>what \<open>pgxporterBuildOnce\<close> has left in \<open>pgxporterBinPath\<close> and \<open>pgxporterBuildErr\<close>\<close>

datatype 'a outcome = Started 'a | Skipped string | Fatal string

definition spawn :: "proc_host \<Rightarrow> world \<Rightarrow> string list \<Rightarrow> string list \<Rightarrow> error + nat \<times> world" where
  "spawn hv w argv env =
     (case hp_Start hv argv env of
        Some e \<Rightarrow> Inl e
      | None \<Rightarrow> Inr (w_next w, w\<lparr>w_running := w_next w # w_running w, w_next := Suc (w_next w)\<rparr>))"

definition reap :: "nat \<Rightarrow> world \<Rightarrow> world" where
  "reap pid w = w\<lparr>w_running := removeAll pid (w_running w)\<rparr>"

subsection \<open>Waiting\<close>

definition millisecond :: int where "millisecond = 1000000"

definition seconds :: "int \<Rightarrow> int" where "seconds n = n * 1000000000"

text \<open>The loop of both waits. The result is the error, the number of probes and the time.\<close>

partial_function (option) poll :: "int \<Rightarrow> (nat \<Rightarrow> int \<Rightarrow> bool \<times> int) \<Rightarrow> (nat \<Rightarrow> int) \<Rightarrow> (nat \<Rightarrow> bool) \<Rightarrow>
    nat \<Rightarrow> int \<Rightarrow> (error option \<times> nat \<times> int) option" where
  "poll deadline probe tick choice k now =
     (if deadline \<le> now then Some (Some ''context deadline exceeded'', k, now)
      else let r = probe k now in
      if fst r then Some (None, Suc k, snd r)
      else let done = max (snd r) deadline; next_tick = max (snd r) (tick k) in
      if done < next_tick \<or> done = next_tick \<and> choice k
      then Some (Some ''context deadline exceeded'', Suc k, done)
      else poll deadline probe tick choice (Suc k) next_tick)"

definition prefix_error :: "string \<Rightarrow> error option \<times> nat \<times> int \<Rightarrow> error option \<times> nat \<times> int" where
  "prefix_error what = apfst (map_option (\<lambda>e. what @ e))"

definition pgEnv :: "proc_host \<Rightarrow> path \<Rightarrow> string list" where
  "pgEnv hv binDir = hv_environ hv @
     [''LD_LIBRARY_PATH='' @ show_path (Join (DirOf binDir) ''lib'') @ '':'' @ hv_getenv hv ''LD_LIBRARY_PATH'']"

definition isready :: "proc_host \<Rightarrow> path \<Rightarrow> int \<Rightarrow> nat \<Rightarrow> int \<Rightarrow> bool \<times> int" where
  "isready hv binDir port =
     hp_Probe hv [show_path (Join binDir ''pg_isready''), ''-h'', ''127.0.0.1'', ''-p'', Itoa port, ''-U'', ''postgres'']
       (pgEnv hv binDir)"

definition waitReady :: "proc_host \<Rightarrow> path \<Rightarrow> int \<Rightarrow> (error option \<times> nat \<times> int) option" where
  "waitReady hv binDir port = map_option (prefix_error ''waitReady: '')
     (poll (seconds 30) (isready hv binDir port) (hp_Tick hv) (hp_Choice hv) 0 0)"

definition answers :: "proc_host \<Rightarrow> string \<Rightarrow> nat \<Rightarrow> int \<Rightarrow> bool \<times> int" where
  "answers hv url k now = (case hp_Get hv (url @ ''/metrics'') k now of
       (Inl _, t) \<Rightarrow> (False, t)
     | (Inr (status, body), t) \<Rightarrow> (status = 200 \<and> 0 < body, t))"

definition waitExporterReady :: "proc_host \<Rightarrow> string \<Rightarrow> (error option \<times> nat \<times> int) option" where
  "waitExporterReady hv url = map_option (prefix_error ''waitExporterReady: '')
     (poll (seconds 15) (answers hv url) (hp_Tick hv) (hp_Choice hv) 0 0)"

subsection \<open>A PostgreSQL server\<close>

text \<open>\<open>None\<close>: the process ignores the interrupt, and \<open>Wait\<close> does not return.\<close>

definition PG_Stop :: "proc_host \<Rightarrow> PG option \<Rightarrow> world \<Rightarrow> (PG option \<times> world) option" where
  "PG_Stop hv p w =
     (case p of
        None \<Rightarrow> Some (None, w)
      | Some pg \<Rightarrow>
          (case (case pg_cmd pg of
                   None \<Rightarrow> Some (pg, w)
                 | Some pid \<Rightarrow>
                     (case hp_ExitTime hv pid of
                        None \<Rightarrow> None
                      | Some _ \<Rightarrow> Some (pg\<lparr>pg_cmd := None\<rparr>, reap pid w))) of
             None \<Rightarrow> None
           | Some (pg1, w1) \<Rightarrow>
               (case pg_DataDir pg1 of
                  None \<Rightarrow> Some (Some pg1, w1)
                | Some dir \<Rightarrow> Some (Some (pg1\<lparr>pg_DataDir := None\<rparr>),
                    w1\<lparr>w_os := (case RemoveAll (w_os w1) dir of Inl _ \<Rightarrow> w_os w1 | Inr s \<Rightarrow> s)\<rparr>))))"

definition initDB :: "proc_host \<Rightarrow> path \<Rightarrow> path \<Rightarrow> tree \<Rightarrow> error option \<times> tree" where
  "initDB hv binDir dataDir t =
     apfst (map_option (\<lambda>(e, out). ''initdb: '' @ e @ [CHR 0x0A] @ out))
       (hp_Run hv [show_path (Join binDir ''initdb''), ''--pgdata='' @ show_path dataDir, ''--username=postgres'',
          ''--auth=trust'', ''--encoding=UTF8'', ''--no-sync''] (pgEnv hv binDir) None t)"

definition pickPort :: "proc_host \<Rightarrow> error + int" where
  "pickPort hv = hp_Listen hv"

definition startPostgres :: "proc_host \<Rightarrow> world \<Rightarrow> path \<Rightarrow> path \<Rightarrow> int \<Rightarrow> error + nat \<times> world" where
  "startPostgres hv w binDir dataDir port =
     map_sum (\<lambda>e. ''postgres start: '' @ e) id
       (spawn hv w [show_path (Join binDir ''postgres''), ''-D'', show_path dataDir, ''-p'', Itoa port,
          ''-h'', ''127.0.0.1'', ''-c'', ''log_min_messages=warning'', ''-c'', ''logging_collector=off'',
          ''-c'', ''fsync=off'', ''-c'', ''synchronous_commit=off'', ''-c'', ''full_page_writes=off'']
         (pgEnv hv binDir))"

definition em_dash :: string where "em_dash = [CHR 0xE2, CHR 0x80, CHR 0x94]"

definition wrong_platform :: "proc_host \<Rightarrow> bool" where
  "wrong_platform hv \<longleftrightarrow> hv_GOOS hv \<noteq> ''linux'' \<or> hv_GOARCH hv \<noteq> ''amd64''"

definition new_PG :: "path \<Rightarrow> int \<Rightarrow> string \<Rightarrow> nat \<Rightarrow> PG" where
  "new_PG dataDir port version pid =
     \<lparr>pg_DSN = ''postgres://postgres@127.0.0.1:'' @ Itoa port @ ''/postgres?sslmode=disable'', pg_Host = ''127.0.0.1'',
      pg_Port = port, pg_DataDir = Some dataDir, pg_Version = version, pg_cmd = Some pid\<rparr>"

text \<open>\<open>StartPG\<close> from the directory of the binaries on.\<close>

definition start_server :: "proc_host \<Rightarrow> world \<Rightarrow> string \<Rightarrow> path \<Rightarrow> (PG outcome \<times> world) option" where
  "start_server hv w version binDir =
     (case hp_TempDir hv (os_tree (w_os w)) of
        Inl e \<Rightarrow> Some (Fatal (''TempDir: '' @ e), w)
      | Inr (dataDir, t) \<Rightarrow>
          let (err, t') = initDB hv binDir dataDir t;
              w1 = w\<lparr>w_os := (w_os w)\<lparr>os_tree := t'\<rparr>, w_cleanups := RemoveTemp dataDir # w_cleanups w\<rparr> in
          case err of
            Some e \<Rightarrow> Some (Fatal (''testutil.StartPG: initdb: '' @ e), w1)
          | None \<Rightarrow>
              (case pickPort hv of
                 Inl e \<Rightarrow> Some (Fatal (''testutil.StartPG: picking port: '' @ e), w1)
               | Inr port \<Rightarrow>
                   (case startPostgres hv w1 binDir dataDir port of
                      Inl e \<Rightarrow> Some (Fatal (''testutil.StartPG: starting postgres: '' @ e), w1)
                    | Inr (pid, w2) \<Rightarrow>
                        let pg = new_PG dataDir port version pid in
                        (case waitReady hv binDir port of
                           None \<Rightarrow> None
                         | Some (Some e, _) \<Rightarrow>
                             map_option (\<lambda>(_, w3). (Fatal (''testutil.StartPG: waiting for ready: '' @ e), w3))
                               (PG_Stop hv (Some pg) w2)
                         | Some (None, _) \<Rightarrow>
                             Some (Started pg, w2\<lparr>w_cleanups := StopPG pg # w_cleanups w2\<rparr>)))))"

definition StartPG :: "proc_host \<Rightarrow> world \<Rightarrow> string \<Rightarrow> (PG outcome \<times> world) option" where
  "StartPG hv w version =
     (if wrong_platform hv
      then Some (Skipped (''testutil.StartPG: pre-built binaries are Linux/amd64 only (have '' @ hv_GOOS hv @ ''/'' @
        hv_GOARCH hv @ ''); use a local PG instead''), w)
      else if \<not> isSupportedVersion version
      then Some (Fatal (''testutil.StartPG: version '' @ [CHR 0x22] @ version @ [CHR 0x22] @ '' not in SupportedVersions ['' @
        join '' '' SupportedVersions @ ''] '' @ em_dash @ '' bump becomeliminal/postgres release or adjust list''), w)
      else case ensureBinaries hv (w_os w) version of
          (Inl e, s) \<Rightarrow> Some (Fatal (''testutil.StartPG: fetching PG '' @ version @ '' binaries: '' @ e), w\<lparr>w_os := s\<rparr>)
        | (Inr binDir, s) \<Rightarrow> start_server hv (w\<lparr>w_os := s\<rparr>) version binDir)"

subsection \<open>The reference binary\<close>

text \<open>An interrupt, and a kill if the process has not exited after \<open>limit\<close>; the time it took.\<close>

definition stop_within :: "proc_host \<Rightarrow> int \<Rightarrow> nat \<Rightarrow> int" where
  "stop_within hv limit pid = (case hp_ExitTime hv pid of None \<Rightarrow> limit | Some d \<Rightarrow> min d limit)"

definition Pgxporter_Stop :: "proc_host \<Rightarrow> Pgxporter option \<Rightarrow> world \<Rightarrow> Pgxporter option \<times> world \<times> int" where
  "Pgxporter_Stop hv p w =
     (case p of
        None \<Rightarrow> (None, w, 0)
      | Some px \<Rightarrow>
          (case px_cmd px of
             None \<Rightarrow> (Some px, w, 0)
           | Some pid \<Rightarrow> (Some (px\<lparr>px_cmd := None\<rparr>), reap pid w, stop_within hv (seconds 5) pid)))"

function find_module :: "os \<Rightarrow> path \<Rightarrow> path option" where
  "find_module s dir =
     (case Stat s (Join dir ''go.mod'') of
        Inr _ \<Rightarrow> Some dir
      | Inl _ \<Rightarrow> if DirOf dir = dir then None else find_module s (DirOf dir))"
  by pat_completeness auto
termination
proof (relation "measure (\<lambda>(_, p). length (p_Elems p))", simp)
  fix s and dir :: path and e
  assume "DirOf dir \<noteq> dir"
  then have "p_Elems dir \<noteq> []" by (auto simp: DirOf_def)
  then show "((s, DirOf dir), s, dir) \<in> measure (\<lambda>(_, p). length (p_Elems p))" by simp
qed

declare find_module.simps [simp del]

definition build_once :: "proc_host \<Rightarrow> os \<Rightarrow> (string \<times> error option) \<times> os" where
  "build_once hv s =
     (case find_module s (DirOf (hp_thisFile hv)) of
        None \<Rightarrow> (([], Some (''could not locate go.mod ancestor of '' @ show_path (hp_thisFile hv))), s)
      | Some source \<Rightarrow>
          (case hp_CreateTemp hv (os_tree s) of
             Inl e \<Rightarrow> (([], Some (''tempfile: '' @ e)), s)
           | Inr (tmp, t) \<Rightarrow>
               let (err, t') = hp_Run hv [''go'', ''build'', ''-o'', show_path tmp, ''./cmd''] (hv_environ hv) (Some source) t;
                   s1 = s\<lparr>os_tree := t'\<rparr> in
               case err of
                 Some (e, out) \<Rightarrow> (([], Some (''go build ./cmd failed: '' @ e @ [CHR 0x0A] @ out)),
                   (case Remove s1 tmp of Inl _ \<Rightarrow> s1 | Inr s2 \<Rightarrow> s2))
               | None \<Rightarrow> ((show_path tmp, None), s1)))"

definition buildPgxporterBinary :: "proc_host \<Rightarrow> world \<Rightarrow> (string \<times> error option) \<times> world" where
  "buildPgxporterBinary hv w =
     (case w_build w of
        Some res \<Rightarrow> (res, w)
      | None \<Rightarrow> (case build_once hv (w_os w) of (res, s) \<Rightarrow> (res, w\<lparr>w_os := s, w_build := Some res\<rparr>)))"

definition StartPgxporter :: "proc_host \<Rightarrow> world \<Rightarrow> string \<Rightarrow> string \<Rightarrow> (Pgxporter outcome \<times> world) option" where
  "StartPgxporter hv w dsn stderr =
     (case buildPgxporterBinary hv w of
        ((_, Some e), w1) \<Rightarrow> Some (Fatal (''testutil.StartPgxporter: building binary: '' @ e), w1)
      | ((binPath, None), w1) \<Rightarrow>
          (case pickPort hv of
             Inl e \<Rightarrow> Some (Fatal (''testutil.StartPgxporter: picking port: '' @ e), w1)
           | Inr port \<Rightarrow>
               (case spawn hv w1 [binPath, ''--web.listen-address=127.0.0.1:'' @ Itoa port, ''--log.level=error'']
                     (hv_environ hv @ [''DATA_SOURCE_NAME='' @ dsn]) of
                  Inl e \<Rightarrow> Some (Fatal (''testutil.StartPgxporter: starting: '' @ e), w1)
                | Inr (pid, w2) \<Rightarrow>
                    let px = \<lparr>px_URL = ''http://127.0.0.1:'' @ Itoa port, px_Port = port, px_cmd = Some pid\<rparr> in
                    (case waitExporterReady hv (px_URL px) of
                       None \<Rightarrow> None
                     | Some (Some e, _) \<Rightarrow>
                         (case Pgxporter_Stop hv (Some px) w2 of (_, w3, _) \<Rightarrow>
                            Some (Fatal (''testutil.StartPgxporter: waiting for /metrics: '' @ e @ [CHR 0x0A] @
                              ''subprocess stderr:'' @ [CHR 0x0A] @ stderr), w3))
                     | Some (None, _) \<Rightarrow>
                         Some (Started px, w2\<lparr>w_cleanups := StopPgxporter px # w_cleanups w2\<rparr>)))))"

subsection \<open>postgres_exporter\<close>

definition PostgresExporterReleaseTag :: string where "PostgresExporterReleaseTag = ''v0.19.1''"

definition PostgresExporter_Stop :: "proc_host \<Rightarrow> PostgresExporter option \<Rightarrow> world \<Rightarrow> PostgresExporter option \<times> world \<times> int" where
  "PostgresExporter_Stop hv p w =
     (case p of
        None \<Rightarrow> (None, w, 0)
      | Some x \<Rightarrow>
          (case pe_cmd x of
             None \<Rightarrow> (Some x, w, 0)
           | Some pid \<Rightarrow> (Some (x\<lparr>pe_cmd := None\<rparr>), reap pid w, stop_within hv (seconds 3) pid)))"

definition postgresExporterCacheRoot :: "proc_host \<Rightarrow> error + path" where
  "postgresExporterCacheRoot hv =
     (case cacheRoot hv of
        Inl e \<Rightarrow> Inl e
      | Inr cache \<Rightarrow> Inr (Join (DirOf cache) ''postgres-exporter''))"

text \<open>Directories that cannot be read are skipped by the code; here every directory can be.\<close>

definition findBinary :: "os \<Rightarrow> path \<Rightarrow> string \<Rightarrow> path option" where
  "findBinary s dir name =
     (case resolve False s dir of
        Inl _ \<Rightarrow> None
      | Inr q \<Rightarrow>
          (case List.find (\<lambda>(r, n). n \<noteq> DirNode \<and> r \<noteq> [] \<and> last r = name) (dir_entries (os_tree s) q) of
             None \<Rightarrow> None
           | Some (r, _) \<Rightarrow> Some (dir\<lparr>p_Elems := p_Elems dir @ drop (length q) r\<rparr>)))"

definition ensurePostgresExporterBinary :: "proc_host \<Rightarrow> os \<Rightarrow> (error + path) \<times> os" where
  "ensurePostgresExporterBinary hv s =
     (case postgresExporterCacheRoot hv of
        Inl e \<Rightarrow> (Inl e, s)
      | Inr cache \<Rightarrow>
          let version = PostgresExporterReleaseTag;
              extractDir = Join cache version in
          (case findBinary s extractDir ''postgres_exporter'' of
             Some binPath \<Rightarrow> (Inr binPath, s)
           | None \<Rightarrow>
               (case MkdirAll s extractDir of
                  (Some e, s1) \<Rightarrow> (Inl (''postgres_exporter cache: mkdir: '' @ e), s1)
                | (None, s1) \<Rightarrow>
                    let stripped = (if version \<noteq> [] \<and> hd version = CHR ''v'' then tl version else version) in
                    (case downloadAndExtract hv s1
                        (''https://github.com/prometheus-community/postgres_exporter/releases/download/'' @ version @
                         ''/postgres_exporter-'' @ stripped @ ''.linux-amd64.tar.gz'') extractDir of
                       (Some e, s2) \<Rightarrow>
                         (Inl (''postgres_exporter download: '' @ e),
                          (case RemoveAll s2 extractDir of Inl _ \<Rightarrow> s2 | Inr s3 \<Rightarrow> s3))
                     | (None, s2) \<Rightarrow>
                         (case findBinary s2 extractDir ''postgres_exporter'' of
                            None \<Rightarrow> (Inl (''postgres_exporter binary not found under '' @ show_path extractDir @ '' after extract''), s2)
                          | Some binPath \<Rightarrow> (Inr binPath, s2))))))"

definition StartPostgresExporter :: "proc_host \<Rightarrow> world \<Rightarrow> string \<Rightarrow> (PostgresExporter outcome \<times> world) option" where
  "StartPostgresExporter hv w dsn =
     (if wrong_platform hv
      then Some (Skipped (''testutil.StartPostgresExporter: pre-built binaries are Linux/amd64 only (have '' @
        hv_GOOS hv @ ''/'' @ hv_GOARCH hv @ '')''), w)
      else case ensurePostgresExporterBinary hv (w_os w) of
          (Inl e, s) \<Rightarrow> Some (Fatal (''testutil.StartPostgresExporter: fetching binary: '' @ e), w\<lparr>w_os := s\<rparr>)
        | (Inr binPath, s) \<Rightarrow>
            let w1 = w\<lparr>w_os := s\<rparr> in
            (case pickPort hv of
               Inl e \<Rightarrow> Some (Fatal (''testutil.StartPostgresExporter: picking port: '' @ e), w1)
             | Inr port \<Rightarrow>
                 (case spawn hv w1 [show_path binPath, ''--web.listen-address=127.0.0.1:'' @ Itoa port,
                       ''--no-auto-discover-databases'', ''--log.level=warn''] (hv_environ hv @ [''DATA_SOURCE_NAME='' @ dsn]) of
                    Inl e \<Rightarrow> Some (Fatal (''testutil.StartPostgresExporter: starting: '' @ e), w1)
                  | Inr (pid, w2) \<Rightarrow>
                      let pe = \<lparr>pe_URL = ''http://127.0.0.1:'' @ Itoa port, pe_Port = port, pe_cmd = Some pid\<rparr> in
                      (case waitExporterReady hv (pe_URL pe) of
                         None \<Rightarrow> None
                       | Some (Some e, _) \<Rightarrow>
                           (case PostgresExporter_Stop hv (Some pe) w2 of (_, w3, _) \<Rightarrow>
                              Some (Fatal (''testutil.StartPostgresExporter: waiting for /metrics: '' @ e), w3))
                       | Some (None, _) \<Rightarrow>
                           Some (Started pe, w2\<lparr>w_cleanups := StopPostgresExporter pe # w_cleanups w2\<rparr>)))))"

subsection \<open>Lemmas: waiting\<close>

text \<open>When the probes start.\<close>

fun starts :: "(nat \<Rightarrow> int \<Rightarrow> bool \<times> int) \<Rightarrow> (nat \<Rightarrow> int) \<Rightarrow> nat \<Rightarrow> int" where
  "starts probe tick 0 = 0"
| "starts probe tick (Suc k) = max (snd (probe k (starts probe tick k))) (tick k)"

lemma starts_le:
  assumes "\<forall>k. (int k + 1) * period \<le> tick k"
  shows "int k * period \<le> starts probe tick k"
  using assms by (cases k) (auto simp: algebra_simps le_max_iff_disj)

text \<open>The loop ends within one probe per period, with the first probe that succeeds, or when the
  deadline has passed and every probe has failed.\<close>

lemma poll_from:
  assumes ticks: "\<forall>k. (int k + 1) * period \<le> tick k" and period: "0 < period"
    and "\<forall>i < k. \<not> fst (probe i (starts probe tick i))" and "k \<le> n" and "deadline = int n * period"
  shows "\<exists>err m t. poll deadline probe tick choice k (starts probe tick k) = Some (err, m, t) \<and> m \<le> n \<and>
    (case err of
       None \<Rightarrow> \<exists>i < m. m = Suc i \<and> fst (probe i (starts probe tick i)) \<and> (\<forall>j < i. \<not> fst (probe j (starts probe tick j)))
     | Some e \<Rightarrow> e = ''context deadline exceeded'' \<and> deadline \<le> t \<and> (\<forall>j < m. \<not> fst (probe j (starts probe tick j))))"
  using assms(3,4)
proof (induction "n - k" arbitrary: k)
  case 0
  then have "deadline \<le> starts probe tick k"
    using starts_le [OF ticks, of k probe] assms(5) by simp
  with 0 show ?case by (subst poll.simps) (auto intro!: exI [of _ k])
next
  case (Suc r)
  let ?now = "starts probe tick k"
  show ?case
  proof (cases "deadline \<le> ?now")
    case True
    with Suc show ?thesis by (subst poll.simps) auto
  next
    case before: False
    have less: "k < n"
      using Suc.hyps(2) by simp
    show ?thesis
    proof (cases "fst (probe k ?now)")
      case True
      with before less Suc.prems show ?thesis by (subst poll.simps) (auto simp: Let_def)
    next
      case failed: False
      then have all: "\<forall>i < Suc k. \<not> fst (probe i (starts probe tick i))"
        using Suc.prems(1) by (simp add: less_Suc_eq_le) (metis le_neq_implies_less)
      show ?thesis
      proof (cases "max (snd (probe k ?now)) deadline < starts probe tick (Suc k) \<or>
          max (snd (probe k ?now)) deadline = starts probe tick (Suc k) \<and> choice k")
        case True
        with before failed less all show ?thesis
          by (subst poll.simps) (auto simp: Let_def)
      next
        case False
        with before failed have "poll deadline probe tick choice k ?now =
            poll deadline probe tick choice (Suc k) (starts probe tick (Suc k))"
          by (subst poll.simps) (simp only: Let_def starts.simps(2) if_False simp_thms)
        moreover have "r = n - Suc k" using Suc.hyps(2) by simp
        ultimately show ?thesis
          using Suc.hyps(1) [of "Suc k"] all less by simp
      qed
    qed
  qed
qed

text \<open>What a wait promises of its result.\<close>

fun waited :: "string \<Rightarrow> int \<Rightarrow> nat \<Rightarrow> (nat \<Rightarrow> int \<Rightarrow> bool \<times> int) \<Rightarrow> (nat \<Rightarrow> int) \<Rightarrow> error option \<times> nat \<times> int \<Rightarrow> bool" where
  "waited what deadline bound probe tick (None, m, t) \<longleftrightarrow> 0 < m \<and> m \<le> bound \<and>
     fst (probe (m - 1) (starts probe tick (m - 1))) \<and> (\<forall>j < m - 1. \<not> fst (probe j (starts probe tick j)))"
| "waited what deadline bound probe tick (Some e, m, t) \<longleftrightarrow> m \<le> bound \<and>
     e = what @ ''context deadline exceeded'' \<and> deadline \<le> t \<and> (\<forall>j < m. \<not> fst (probe j (starts probe tick j)))"

lemma poll_waited:
  assumes "\<forall>k. (int k + 1) * period \<le> tick k" and "0 < period" and "deadline = int n * period"
  shows "\<exists>res. map_option (prefix_error what) (poll deadline probe tick choice 0 0) = Some res \<and>
    waited what deadline n probe tick res"
proof -
  from poll_from [OF assms(1,2) _ _ assms(3), of 0 probe choice] obtain err m t where
    poll: "poll deadline probe tick choice 0 0 = Some (err, m, t)" and "m \<le> n" and
    res: "case err of
       None \<Rightarrow> \<exists>i < m. m = Suc i \<and> fst (probe i (starts probe tick i)) \<and> (\<forall>j < i. \<not> fst (probe j (starts probe tick j)))
     | Some e \<Rightarrow> e = ''context deadline exceeded'' \<and> deadline \<le> t \<and> (\<forall>j < m. \<not> fst (probe j (starts probe tick j)))"
    by auto
  show ?thesis
  proof (cases err)
    case None
    with res obtain i where "m = Suc i" "fst (probe i (starts probe tick i))"
      "\<forall>j < i. \<not> fst (probe j (starts probe tick j))" by auto
    with \<open>m \<le> n\<close> poll None show ?thesis by (simp add: prefix_error_def)
  next
    case (Some e)
    with \<open>m \<le> n\<close> poll res show ?thesis by (simp add: prefix_error_def)
  qed
qed

abbreviation steady :: "proc_host \<Rightarrow> bool" where
  "steady hv \<equiv> \<forall>k. (int k + 1) * (100 * millisecond) \<le> hp_Tick hv k"

lemma waitReady_waited:
  "steady hv \<Longrightarrow> \<exists>res. waitReady hv binDir port = Some res \<and>
     waited ''waitReady: '' (seconds 30) 300 (isready hv binDir port) (hp_Tick hv) res"
  unfolding waitReady_def by (rule poll_waited) (simp_all add: millisecond_def seconds_def)

lemma waitExporterReady_waited:
  "steady hv \<Longrightarrow> \<exists>res. waitExporterReady hv url = Some res \<and>
     waited ''waitExporterReady: '' (seconds 15) 150 (answers hv url) (hp_Tick hv) res"
  unfolding waitExporterReady_def by (rule poll_waited) (simp_all add: millisecond_def seconds_def)

subsection \<open>Lemmas: processes\<close>

text \<open>What a start promises: it ends; the process it adds is the one of the result, which can be
  stopped and is stopped at the end of the test; when the test fails no process is left.\<close>

definition owned :: "world \<Rightarrow> ('p outcome \<times> world) option \<Rightarrow> ('p \<Rightarrow> nat option) \<Rightarrow> ('p \<Rightarrow> cleanup) \<Rightarrow>
    ('p \<Rightarrow> world \<Rightarrow> ('p \<times> world) option) \<Rightarrow> bool" where
  "owned w res pid_of cleanup_of stop =
     (case res of
        None \<Rightarrow> False
      | Some (Started p, w') \<Rightarrow> (\<exists>pid. pid_of p = Some pid \<and> pid \<notin> set (w_running w) \<and>
          w_running w' = pid # w_running w \<and> hd (w_cleanups w') = cleanup_of p) \<and>
          map_option (w_running \<circ> snd) (stop p w') = Some (w_running w)
      | Some (_, w') \<Rightarrow> w_running w' = w_running w)"

definition fresh :: "world \<Rightarrow> bool" where
  "fresh w \<longleftrightarrow> (\<forall>pid \<in> set (w_running w). pid < w_next w)"

lemma fresh_next: "fresh w \<Longrightarrow> w_next w \<notin> set (w_running w)"
  by (auto simp: fresh_def)

lemma reap_spawned: "fresh w \<Longrightarrow> removeAll (w_next w) (w_running w) = w_running w"
  by (simp add: fresh_next)

text \<open>The contract of the three \<open>Stop\<close> methods: the process of the receiver is gone, others are not
  touched, and a further call changes nothing.\<close>

locale stoppable =
  fixes stop :: "'p \<Rightarrow> world \<Rightarrow> ('p \<times> world) option" and pid_of :: "'p \<Rightarrow> nat option"
  assumes stop_running: "stop p w = Some (p', w') \<Longrightarrow>
      w_running w' = (case pid_of p of None \<Rightarrow> w_running w | Some pid \<Rightarrow> removeAll pid (w_running w))"
    and stop_again: "stop p w = Some (p', w') \<Longrightarrow> pid_of p' = None \<and> stop p' w' = Some (p', w')"
begin

lemma stop_undoes_start:
  assumes "fresh w" and "pid_of p = Some (w_next w)" and "w_running w1 = w_next w # w_running w"
    and "stop p w1 = Some (p', w')"
  shows "w_running w' = w_running w"
  using stop_running [OF assms(4)] assms(2,3) reap_spawned [OF assms(1)] by simp

lemma owned_started:
  assumes "fresh w" and "pid_of p = Some (w_next w)" and "w_running w1 = w_next w # w_running w"
    and "hd (w_cleanups w1) = cl p" and "stop p w1 \<noteq> None"
  shows "owned w (Some (Started p, w1)) pid_of cl stop"
  using assms fresh_next [OF assms(1)] stop_undoes_start [OF assms(1-3)] by (auto simp: owned_def)

lemma owned_failed:
  assumes "fresh w" and "pid_of p = Some (w_next w)" and "w_running w1 = w_next w # w_running w"
    and "stop p w1 \<noteq> None"
  shows "owned w (map_option (\<lambda>(_, w'). (Fatal msg, w')) (stop p w1)) pid_of cl stop"
  using assms stop_undoes_start [OF assms(1-3)] by (auto simp: owned_def)

end

definition stop_PG :: "proc_host \<Rightarrow> PG \<Rightarrow> world \<Rightarrow> (PG \<times> world) option" where
  "stop_PG hv pg w = map_option (apfst the) (PG_Stop hv (Some pg) w)"

definition stop_Pgxporter :: "proc_host \<Rightarrow> Pgxporter \<Rightarrow> world \<Rightarrow> (Pgxporter \<times> world) option" where
  "stop_Pgxporter hv px w = (case Pgxporter_Stop hv (Some px) w of (px', w', _) \<Rightarrow> Some (the px', w'))"

definition stop_PostgresExporter :: "proc_host \<Rightarrow> PostgresExporter \<Rightarrow> world \<Rightarrow> (PostgresExporter \<times> world) option" where
  "stop_PostgresExporter hv pe w = (case PostgresExporter_Stop hv (Some pe) w of (pe', w', _) \<Rightarrow> Some (the pe', w'))"

interpretation pg: stoppable "stop_PG hv" pg_cmd for hv
  by unfold_locales (auto simp: stop_PG_def PG_Stop_def reap_def split: option.splits)

interpretation pgxporter: stoppable "stop_Pgxporter hv" px_cmd for hv
  by unfold_locales (auto simp: stop_Pgxporter_def Pgxporter_Stop_def reap_def split: option.splits)

interpretation postgres_exporter: stoppable "stop_PostgresExporter hv" pe_cmd for hv
  by unfold_locales (auto simp: stop_PostgresExporter_def PostgresExporter_Stop_def reap_def split: option.splits)

lemma PG_Stop_returns:
  assumes "\<forall>pid. hp_ExitTime hv pid \<noteq> None"
  shows "PG_Stop hv (Some pg) w \<noteq> None"
proof (cases "pg_cmd pg")
  case (Some pid)
  from assms obtain t where "hp_ExitTime hv pid = Some t" by auto
  with Some show ?thesis by (simp add: PG_Stop_def split: option.split)
qed (simp add: PG_Stop_def split: option.split)

lemma stop_PG_returns: "\<forall>pid. hp_ExitTime hv pid \<noteq> None \<Longrightarrow> stop_PG hv pg w \<noteq> None"
  by (metis PG_Stop_returns option.map_disc_iff stop_PG_def)

lemma PG_Stop_stop_PG: "map_option (\<lambda>(_, w'). f w') (PG_Stop hv (Some pg) w) = map_option (\<lambda>(_, w'). f w') (stop_PG hv pg w)"
  by (cases "PG_Stop hv (Some pg) w") (auto simp: stop_PG_def)

lemma stop_exporters_return: "stop_Pgxporter hv px w \<noteq> None" "stop_PostgresExporter hv pe w \<noteq> None"
  by (simp_all add: stop_Pgxporter_def stop_PostgresExporter_def split: prod.split)

lemma spawn_Inr:
  "spawn hv w argv env = Inr (pid, w') \<Longrightarrow> pid = w_next w \<and> w_running w' = w_next w # w_running w \<and>
     w_cleanups w' = w_cleanups w"
  by (auto simp: spawn_def split: option.splits)

lemma owned_os: "owned (w\<lparr>w_os := s\<rparr>) = owned w"
proof -
  have "w_running (w\<lparr>w_os := s\<rparr>) = w_running w" by simp
  then show ?thesis unfolding owned_def by presburger
qed

lemma owned_result:
  assumes "owned w res pid_of cl stop"
  shows "\<exists>out w'. res = Some (out, w') \<and>
    (case out of Started p \<Rightarrow> \<exists>pid. w_running w' = pid # w_running w | _ \<Rightarrow> w_running w' = w_running w)"
proof (cases res)
  case None
  with assms show ?thesis by (simp add: owned_def)
next
  case (Some r)
  obtain out w' where "r = (out, w')" by fastforce
  with assms Some show ?thesis by (cases out) (auto simp: owned_def)
qed

lemma owned_fatal: "w_running w' = w_running w \<Longrightarrow> owned w (Some (Fatal msg, w')) pid_of cl stop"
  by (simp add: owned_def)

lemma startPostgres_Inr:
  "startPostgres hv w binDir dataDir port = Inr (pid, w') \<Longrightarrow> pid = w_next w \<and> w_running w' = w_next w # w_running w \<and>
     w_cleanups w' = w_cleanups w"
  by (auto simp: startPostgres_def map_sum_def dest: spawn_Inr split: sum.splits)

abbreviation PG_owned :: "proc_host \<Rightarrow> world \<Rightarrow> (PG outcome \<times> world) option \<Rightarrow> bool" where
  "PG_owned hv w res \<equiv> owned w res pg_cmd StopPG (stop_PG hv)"

lemma start_server_owned:
  assumes steady: "steady hv" and exits: "\<forall>pid. hp_ExitTime hv pid \<noteq> None" and fresh: "fresh w"
  shows "PG_owned hv w (start_server hv w version binDir)"
proof (cases "hp_TempDir hv (os_tree (w_os w))")
  case (Inl e)
  then show ?thesis by (simp add: start_server_def owned_fatal)
next
  case temp: (Inr dt)
  obtain dataDir t err t' where dt: "dt = (dataDir, t)" "initDB hv binDir dataDir t = (err, t')" by (metis surj_pair)
  define w1 where "w1 = w\<lparr>w_os := (w_os w)\<lparr>os_tree := t'\<rparr>, w_cleanups := RemoveTemp dataDir # w_cleanups w\<rparr>"
  have w1: "w_running w1 = w_running w" "w_next w1 = w_next w" by (simp_all add: w1_def)
  show ?thesis
  proof (cases "\<exists>port pid w2. err = None \<and> pickPort hv = Inr port \<and> startPostgres hv w1 binDir dataDir port = Inr (pid, w2)")
    case False
    with temp dt w1 show ?thesis
      by (auto simp: start_server_def Let_def simp flip: w1_def intro!: owned_fatal split: option.splits sum.splits)
  next
    case True
    then obtain port pid w2 where run: "err = None" "pickPort hv = Inr port" "startPostgres hv w1 binDir dataDir port = Inr (pid, w2)"
      by blast
    from startPostgres_Inr [OF run(3)] w1 have w2: "pid = w_next w" "w_running w2 = w_next w # w_running w" by simp_all
    obtain e m now where wait: "waitReady hv binDir port = Some (e, m, now)"
      using waitReady_waited [OF steady, of binDir port] by auto
    define pg where "pg = new_PG dataDir port version pid"
    have pg: "pg_cmd pg = Some (w_next w)" by (simp add: pg_def new_PG_def w2)
    show ?thesis
    proof (cases e)
      case None
      with temp dt run wait have start: "start_server hv w version binDir = Some (Started pg, w2\<lparr>w_cleanups := StopPG pg # w_cleanups w2\<rparr>)"
        by (simp add: start_server_def Let_def pg_def flip: w1_def)
      show ?thesis unfolding start
        by (rule pg.owned_started [OF fresh pg]) (simp_all add: w2 stop_PG_returns [OF exits])
    next
      case (Some x)
      with temp dt run wait have start: "start_server hv w version binDir =
          map_option (\<lambda>(_, w3). (Fatal (''testutil.StartPG: waiting for ready: '' @ x), w3)) (PG_Stop hv (Some pg) w2)"
        by (simp add: start_server_def Let_def pg_def flip: w1_def)
      show ?thesis unfolding start PG_Stop_stop_PG
        by (rule pg.owned_failed [OF fresh pg w2(2) stop_PG_returns [OF exits]])
    qed
  qed
qed

lemma StartPG_owned:
  assumes "steady hv" and "\<forall>pid. hp_ExitTime hv pid \<noteq> None" and "fresh w"
  shows "PG_owned hv w (StartPG hv w version)"
proof -
  obtain res s where res: "ensureBinaries hv (w_os w) version = (res, s)" by fastforce
  have "fresh (w\<lparr>w_os := s\<rparr>)" using assms(3) by (simp add: fresh_def)
  from start_server_owned [OF assms(1,2) this] have "PG_owned hv w (start_server hv (w\<lparr>w_os := s\<rparr>) version binDir)" for binDir
    by (simp only: owned_os)
  with res show ?thesis by (cases res) (simp_all add: StartPG_def owned_def)
qed

abbreviation Pgxporter_owned :: "proc_host \<Rightarrow> world \<Rightarrow> (Pgxporter outcome \<times> world) option \<Rightarrow> bool" where
  "Pgxporter_owned hv w res \<equiv>
     owned w res px_cmd StopPgxporter (stop_Pgxporter hv)"

lemma buildPgxporterBinary_world:
  "buildPgxporterBinary hv w = (res, w') \<Longrightarrow>
     w_running w' = w_running w \<and> w_next w' = w_next w \<and> buildPgxporterBinary hv w' = (res, w')"
  by (auto simp: buildPgxporterBinary_def split: option.splits prod.splits)

lemma StartPgxporter_owned:
  assumes steady: "steady hv" and fresh: "fresh w"
  shows "Pgxporter_owned hv w (StartPgxporter hv w dsn stderr)"
proof -
  obtain binPath err w1 where w1: "buildPgxporterBinary hv w = ((binPath, err), w1)" by (metis surj_pair)
  note w1' = buildPgxporterBinary_world [OF w1]
  let ?argv = "\<lambda>port. [binPath, ''--web.listen-address=127.0.0.1:'' @ Itoa port, ''--log.level=error'']"
  let ?env = "hv_environ hv @ [''DATA_SOURCE_NAME='' @ dsn]"
  show ?thesis
  proof (cases "\<exists>port pid w2. err = None \<and> pickPort hv = Inr port \<and> spawn hv w1 (?argv port) ?env = Inr (pid, w2)")
    case False
    with w1 w1' show ?thesis
      by (auto simp: StartPgxporter_def Let_def intro!: owned_fatal split: option.splits sum.splits)
  next
    case True
    then obtain port pid w2 where run: "err = None" "pickPort hv = Inr port" "spawn hv w1 (?argv port) ?env = Inr (pid, w2)"
      by blast
    from spawn_Inr [OF run(3)] w1' have w2: "pid = w_next w" "w_running w2 = w_next w # w_running w" by simp_all
    obtain e m now where wait: "waitExporterReady hv (''http://127.0.0.1:'' @ Itoa port) = Some (e, m, now)"
      using waitExporterReady_waited [OF steady] by (metis prod_cases3)
    show ?thesis
      using w1 run wait w2 fresh_next [OF fresh]
      by (cases e) (simp_all add: StartPgxporter_def Let_def owned_def stop_Pgxporter_def Pgxporter_Stop_def reap_def)
  qed
qed

abbreviation PostgresExporter_owned :: "proc_host \<Rightarrow> world \<Rightarrow> (PostgresExporter outcome \<times> world) option \<Rightarrow> bool" where
  "PostgresExporter_owned hv w res \<equiv>
     owned w res pe_cmd StopPostgresExporter (stop_PostgresExporter hv)"

lemma StartPostgresExporter_owned:
  assumes steady: "steady hv" and fresh: "fresh w"
  shows "PostgresExporter_owned hv w (StartPostgresExporter hv w dsn)"
proof (cases "wrong_platform hv")
  case True
  then show ?thesis by (simp add: StartPostgresExporter_def owned_def)
next
  case platform: False
  obtain res s where bin: "ensurePostgresExporterBinary hv (w_os w) = (res, s)" by fastforce
  let ?argv = "\<lambda>binPath port. [show_path binPath, ''--web.listen-address=127.0.0.1:'' @ Itoa port,
    ''--no-auto-discover-databases'', ''--log.level=warn'']"
  let ?env = "hv_environ hv @ [''DATA_SOURCE_NAME='' @ dsn]"
  show ?thesis
  proof (cases "\<exists>binPath port pid w2. res = Inr binPath \<and> pickPort hv = Inr port \<and>
      spawn hv (w\<lparr>w_os := s\<rparr>) (?argv binPath port) ?env = Inr (pid, w2)")
    case False
    with platform bin show ?thesis
      by (auto simp: StartPostgresExporter_def Let_def intro!: owned_fatal split: sum.splits)
  next
    case True
    then obtain binPath port pid w2 where run: "res = Inr binPath" "pickPort hv = Inr port"
      "spawn hv (w\<lparr>w_os := s\<rparr>) (?argv binPath port) ?env = Inr (pid, w2)" by blast
    from spawn_Inr [OF run(3)] have w2: "pid = w_next w" "w_running w2 = w_next w # w_running w" by simp_all
    obtain e m now where wait: "waitExporterReady hv (''http://127.0.0.1:'' @ Itoa port) = Some (e, m, now)"
      using waitExporterReady_waited [OF steady] by (metis prod_cases3)
    show ?thesis
      using platform bin run wait w2 fresh_next [OF fresh]
      by (cases e) (simp_all add: StartPostgresExporter_def Let_def owned_def stop_PostgresExporter_def PostgresExporter_Stop_def reap_def)
  qed
qed

text \<open>The two exporters are stopped within their limit.\<close>

lemma Pgxporter_Stop_time: "Pgxporter_Stop hv p w = (p', w', t) \<Longrightarrow> t \<le> seconds 5"
  by (auto simp: Pgxporter_Stop_def stop_within_def seconds_def split: option.splits)

lemma PostgresExporter_Stop_time: "PostgresExporter_Stop hv p w = (p', w', t) \<Longrightarrow> t \<le> seconds 3"
  by (auto simp: PostgresExporter_Stop_def stop_within_def seconds_def split: option.splits)

text \<open>The module found is an ancestor that has a \<open>go.mod\<close>, and no directory between has one.\<close>

lemma find_module_nearest:
  "find_module s dir = Some src \<Longrightarrow> \<exists>k \<le> length (p_Elems dir). src = dir\<lparr>p_Elems := take k (p_Elems dir)\<rparr> \<and>
     (\<exists>n. Stat s (Join src ''go.mod'') = Inr n) \<and>
     (\<forall>j. k < j \<and> j \<le> length (p_Elems dir) \<longrightarrow> isl (Stat s (Join (dir\<lparr>p_Elems := take j (p_Elems dir)\<rparr>) ''go.mod'')))"
proof (induction s dir rule: find_module.induct)
  case (1 s dir)
  show ?case
  proof (cases "Stat s (Join dir ''go.mod'')")
    case (Inr n)
    with 1 show ?thesis by (subst (asm) find_module.simps) (auto intro!: exI [of _ "length (p_Elems dir)"])
  next
    case (Inl e)
    have up: "DirOf dir \<noteq> dir" "find_module s (DirOf dir) = Some src"
      using "1.prems" Inl find_module.simps [of s dir] by (simp_all split: if_splits)
    have len: "0 < length (p_Elems dir)" using up(1) by (auto simp: DirOf_def)
    from "1.IH" [OF Inl up] obtain k where k': "k \<le> length (p_Elems dir) - 1"
      "src = dir\<lparr>p_Elems := take k (butlast (p_Elems dir))\<rparr>" "\<exists>n. Stat s (Join src ''go.mod'') = Inr n"
      "\<forall>j. k < j \<and> j \<le> length (p_Elems dir) - 1 \<longrightarrow>
        isl (Stat s (Join (dir\<lparr>p_Elems := take j (butlast (p_Elems dir))\<rparr>) ''go.mod''))"
      by (auto simp: DirOf_def)
    have shorter: "take j (butlast (p_Elems dir)) = take j (p_Elems dir)" if "j \<le> length (p_Elems dir) - 1" for j
      by (rule take_butlast) (use that len in linarith)
    have k: "k \<le> length (p_Elems dir)" "src = dir\<lparr>p_Elems := take k (p_Elems dir)\<rparr>"
      using k'(1,2) shorter [OF k'(1)] by simp_all
    have "isl (Stat s (Join (dir\<lparr>p_Elems := take j (p_Elems dir)\<rparr>) ''go.mod''))"
      if "k < j" "j \<le> length (p_Elems dir)" for j
    proof (cases "j = length (p_Elems dir)")
      case True
      with Inl show ?thesis by simp
    next
      case False
      with that have "j \<le> length (p_Elems dir) - 1" by simp
      with k'(4) that(1) shorter [OF this] show ?thesis by metis
    qed
    with k k'(3) show ?thesis by (intro exI [of _ k]) blast
  qed
qed

subsection \<open>Properties\<close>

text \<open>
  The waits of the harness end: with ticks that never come early, the wait for a server ends
  after at most 300 probes and the wait for an exporter after at most 150, with success at the first
  probe that succeeds and otherwise, when no probe has succeeded, with an error once 30 and 15
  seconds have passed.
\<close>

theorem waits_bounded:
  assumes "\<forall>k. (int k + 1) * (100 * millisecond) \<le> hp_Tick hv k"
  shows "(\<exists>res. waitReady hv binDir port = Some res \<and>
      waited ''waitReady: '' (seconds 30) 300 (isready hv binDir port) (hp_Tick hv) res) \<and>
    (\<exists>res. waitExporterReady hv url = Some res \<and>
      waited ''waitExporterReady: '' (seconds 15) 150 (answers hv url) (hp_Tick hv) res)"
  using waitReady_waited [OF assms] waitExporterReady_waited [OF assms] by simp

definition demo_proc_host :: proc_host where
  "demo_proc_host = \<lparr>hv_GOOS = ''linux'', hv_GOARCH = ''amd64'', hv_getenv = (\<lambda>_. []), hv_environ = [],
     hv_UserHomeDir = Inr ''/h'', hv_Do = (\<lambda>_. Inl ''offline''),
     hp_TempDir = (\<lambda>t. Inr (\<lparr>p_Rooted = True, p_Elems = [''t'']\<rparr>, t)), hp_CreateTemp = (\<lambda>t. Inr (\<lparr>p_Rooted = True, p_Elems = [''b'']\<rparr>, t)),
     hp_thisFile = \<lparr>p_Rooted = True, p_Elems = [''s'', ''f.go'']\<rparr>, hp_Run = (\<lambda>_ _ _ t. (None, t)), hp_Start = (\<lambda>_ _. None),
     hp_Listen = Inr 4000, hp_ExitTime = (\<lambda>_. Some 0), hp_Probe = (\<lambda>_ _ k now. (2 \<le> k, now)),
     hp_Get = (\<lambda>_ _ now. (Inl ''refused'', now)), hp_Tick = (\<lambda>k. (int k + 1) * (100 * millisecond)), hp_Choice = (\<lambda>_. True)\<rparr>"

theorem waits_bounded_witness:
  "\<exists>e m t. waitExporterReady demo_proc_host ''u'' = Some (Some e, m, t) \<and> m \<le> 150 \<and> seconds 15 \<le> t"
proof -
  have "\<forall>k. (int k + 1) * (100 * millisecond) \<le> hp_Tick demo_proc_host k" by (simp add: demo_proc_host_def)
  from waits_bounded [OF this, of "Clean ''/b''" 4000 "''u''"] obtain err m t where
    run: "waitExporterReady demo_proc_host ''u'' = Some (err, m, t)"
      "waited ''waitExporterReady: '' (seconds 15) 150 (answers demo_proc_host ''u'') (hp_Tick demo_proc_host) (err, m, t)"
    by auto
  have "\<not> fst (answers demo_proc_host ''u'' k now)" for k now by (simp add: answers_def demo_proc_host_def)
  with run show ?thesis by (cases err) auto
qed

text \<open>
  C40. A start of the harness, whatever fails on its way, ends, and leaves either a process that its
  result owns, that the end of the test stops and whose \<open>Stop\<close> removes it, or no new process at all.
  For the server this needs a process that exits after an interrupt: \<open>Stop\<close> waits for it without a
  limit, while the exporters are killed.
\<close>

theorem starts_own_processes:
  assumes "\<forall>k. (int k + 1) * (100 * millisecond) \<le> hp_Tick hv k" and "fresh w"
  shows "((\<forall>pid. hp_ExitTime hv pid \<noteq> None) \<longrightarrow>
      owned w (StartPG hv w version) pg_cmd StopPG (stop_PG hv)) \<and>
    owned w (StartPgxporter hv w dsn stderr) px_cmd StopPgxporter
      (stop_Pgxporter hv) \<and>
    owned w (StartPostgresExporter hv w dsn) pe_cmd StopPostgresExporter
      (stop_PostgresExporter hv)"
  using StartPG_owned [OF assms(1) _ assms(2)] StartPgxporter_owned [OF assms] StartPostgresExporter_owned [OF assms] by simp

definition demo_world :: world where
  "demo_world = \<lparr>w_os = demo_os [([''h''], DirNode), ([''h'', ''.cache''], DirNode),
       ([''h'', ''.cache'', ''pgxporter''], DirNode), ([''h'', ''.cache'', ''pgxporter'', ''postgres''], DirNode),
       ([''h'', ''.cache'', ''pgxporter'', ''postgres'', ''17.6''], DirNode),
       ([''h'', ''.cache'', ''pgxporter'', ''postgres'', ''17.6'', ''bin''], DirNode),
       ([''h'', ''.cache'', ''pgxporter'', ''postgres'', ''17.6'', ''bin'', ''postgres''], FileNode 493 ''elf'')],
     w_running = [7], w_next = 8, w_cleanups = [], w_build = None\<rparr>"

theorem starts_own_processes_witness:
  "\<exists>out w'. StartPG demo_proc_host demo_world ''17.6'' = Some (out, w') \<and> 7 \<in> set (w_running w') \<and>
     length (w_running w') \<le> 2"
proof -
  have "\<forall>k. (int k + 1) * (100 * millisecond) \<le> hp_Tick demo_proc_host k" by (simp add: demo_proc_host_def)
  moreover have "fresh demo_world" by (simp add: fresh_def demo_world_def)
  moreover have exits: "\<forall>pid. hp_ExitTime demo_proc_host pid \<noteq> None" by (simp add: demo_proc_host_def)
  ultimately have "owned demo_world (StartPG demo_proc_host demo_world ''17.6'') pg_cmd StopPG
      (stop_PG demo_proc_host)"
    using starts_own_processes [of demo_proc_host demo_world "''17.6''" "[]" "[]"] by simp
  then obtain out w' where run: "StartPG demo_proc_host demo_world ''17.6'' = Some (out, w')"
    and out: "case out of Started p \<Rightarrow> \<exists>pid. w_running w' = pid # w_running demo_world | _ \<Rightarrow> w_running w' = w_running demo_world"
    by (blast dest: owned_result)
  have "w_running demo_world = [7]" by (simp add: demo_world_def)
  with out have "7 \<in> set (w_running w') \<and> length (w_running w') \<le> 2" by (cases out) auto
  with run show ?thesis by blast
qed

end
