(* ===== verification/CountingChan.thy ===== *)
theory CountingChan
  imports Prom
begin

text \<open>
  \<open>countingChan\<close> of \<open>exporter/exporter.go\<close>: the channel through which \<open>instrument\<close> runs one
  collector's \<open>Scrape\<close>. Its states and steps are those of the three parties: the collector, which
  sends on \<open>in\<close> (a channel of capacity 64), the forwarder goroutine, which moves each metric to the
  outer channel and counts it, and \<open>close\<close>, which closes \<open>in\<close> when \<open>Scrape\<close> has returned and
  waits for the count. The outer channel is always eventually read.
\<close>

definition capacity :: nat where "capacity = 64"

text \<open>
  \<open>cc_todo\<close> is what the collector has yet to send, \<open>cc_in\<close> the buffer of \<open>in\<close>, \<open>cc_hand\<close> the metric
  the forwarder has received and not yet passed on, \<open>cc_n\<close> its counter, \<open>cc_done\<close> what is on the
  channel \<open>done\<close>, \<open>cc_dst\<close> what has been sent to the outer channel and \<open>cc_result\<close> what \<open>close\<close>
  has returned.
\<close>

record 'm countingChan =
  cc_todo :: "'m list"
  cc_in :: "'m list"
  cc_closed :: bool
  cc_hand :: "'m option"
  cc_n :: nat
  cc_finished :: bool
  cc_done :: "nat option"
  cc_dst :: "'m list"
  cc_result :: "nat option"

definition newCountingChan :: "'m list \<Rightarrow> 'm countingChan" where
  "newCountingChan ms = \<lparr>cc_todo = ms, cc_in = [], cc_closed = False, cc_hand = None, cc_n = 0,
     cc_finished = False, cc_done = None, cc_dst = [], cc_result = None\<rparr>"

inductive cc_step :: "'m countingChan \<Rightarrow> 'm countingChan \<Rightarrow> bool" where
  send: "cc_todo s = m # ms \<Longrightarrow> \<not> cc_closed s \<Longrightarrow> length (cc_in s) < capacity \<Longrightarrow>
    cc_step s (s\<lparr>cc_todo := ms, cc_in := cc_in s @ [m]\<rparr>)"
| receive: "cc_in s = m # ms \<Longrightarrow> cc_hand s = None \<Longrightarrow> \<not> cc_finished s \<Longrightarrow>
    cc_step s (s\<lparr>cc_in := ms, cc_hand := Some m\<rparr>)"
| forward: "cc_hand s = Some m \<Longrightarrow>
    cc_step s (s\<lparr>cc_hand := None, cc_dst := cc_dst s @ [m], cc_n := Suc (cc_n s)\<rparr>)"
| close_in: "cc_todo s = [] \<Longrightarrow> \<not> cc_closed s \<Longrightarrow> cc_step s (s\<lparr>cc_closed := True\<rparr>)"
| finish: "cc_in s = [] \<Longrightarrow> cc_closed s \<Longrightarrow> cc_hand s = None \<Longrightarrow> \<not> cc_finished s \<Longrightarrow>
    cc_step s (s\<lparr>cc_finished := True, cc_done := Some (cc_n s)\<rparr>)"
| take_count: "cc_closed s \<Longrightarrow> cc_done s = Some n \<Longrightarrow>
    cc_step s (s\<lparr>cc_done := None, cc_result := Some n\<rparr>)"

inductive cc_reachable :: "'m list \<Rightarrow> 'm countingChan \<Rightarrow> bool" for ms where
  start: "cc_reachable ms (newCountingChan ms)"
| more: "cc_reachable ms s \<Longrightarrow> cc_step s s' \<Longrightarrow> cc_reachable ms s'"

text \<open>No metric is lost, duplicated or reordered, and the counter is what has been forwarded.\<close>

definition cc_inv :: "'m list \<Rightarrow> 'm countingChan \<Rightarrow> bool" where
  "cc_inv ms s \<longleftrightarrow>
     cc_dst s @ (case cc_hand s of None \<Rightarrow> [] | Some m \<Rightarrow> [m]) @ cc_in s @ cc_todo s = ms \<and>
     cc_n s = length (cc_dst s) \<and>
     length (cc_in s) \<le> capacity \<and>
     (cc_closed s \<longrightarrow> cc_todo s = []) \<and>
     (cc_finished s \<longleftrightarrow> cc_done s \<noteq> None \<or> cc_result s \<noteq> None) \<and>
     (cc_finished s \<longrightarrow> cc_closed s \<and> cc_in s = [] \<and> cc_hand s = None) \<and>
     (cc_done s = None \<or> cc_done s = Some (cc_n s)) \<and>
     (cc_result s = None \<or> cc_result s = Some (cc_n s) \<and> cc_done s = None)"

lemma cc_inv_new: "cc_inv ms (newCountingChan ms)"
  by (simp add: cc_inv_def newCountingChan_def)

lemma cc_inv_step: "cc_step s s' \<Longrightarrow> cc_inv ms s \<Longrightarrow> cc_inv ms s'"
  by (induction rule: cc_step.induct) (auto simp: cc_inv_def split: option.splits)

lemma cc_inv_reachable: "cc_reachable ms s \<Longrightarrow> cc_inv ms s"
  by (induction rule: cc_reachable.induct) (auto intro: cc_inv_new cc_inv_step)

text \<open>Each step uses up work: the forwarder cannot run forever.\<close>

definition cc_work :: "'m countingChan \<Rightarrow> nat" where
  "cc_work s = 3 * length (cc_todo s) + 2 * length (cc_in s) + (if cc_hand s = None then 0 else 1) +
     (if cc_closed s then 0 else 1) + (if cc_finished s then 0 else 2) + (if cc_done s = None then 0 else 1)"

lemma cc_work_decreases: "cc_step s s' \<Longrightarrow> cc_work s' < cc_work s"
  by (induction rule: cc_step.induct) (auto simp: cc_work_def)

lemma cc_progress:
  assumes "cc_inv ms s" and "cc_result s = None"
  shows "\<exists>s'. cc_step s s'"
proof (cases "cc_hand s")
  case (Some m)
  then show ?thesis by (blast intro: cc_step.forward)
next
  case None
  show ?thesis
  proof (cases "cc_finished s")
    case True
    with assms show ?thesis by (auto simp: cc_inv_def intro: cc_step.take_count)
  next
    case unfinished: False
    show ?thesis
    proof (cases "cc_in s")
      case (Cons m ms')
      with None unfinished show ?thesis by (blast intro: cc_step.receive)
    next
      case Nil
      show ?thesis
      proof (cases "cc_closed s")
        case True
        with Nil None unfinished show ?thesis by (blast intro: cc_step.finish)
      next
        case False
        have "length (cc_in s) < capacity" using Nil by (simp add: capacity_def)
        with False show ?thesis
          by (cases "cc_todo s") (blast intro: cc_step.close_in cc_step.send)+
      qed
    qed
  qed
qed

inductive_cases cc_stepE: "cc_step s s'"

lemma cc_final: "cc_inv ms s \<Longrightarrow> cc_result s = Some n \<Longrightarrow> \<not> cc_step s s'"
  by (auto simp: cc_inv_def elim!: cc_stepE)

lemma cc_wf: "wfP (\<lambda>s' s. cc_step s s')"
  by (rule wfp_if_convertible_to_nat [of _ cc_work]) (rule cc_work_decreases)

lemma cc_terminates:
  assumes "cc_reachable ms s"
  shows "\<exists>s'. cc_step\<^sup>*\<^sup>* s s' \<and> cc_reachable ms s' \<and> cc_result s' \<noteq> None"
  using assms
proof (induction "cc_work s" arbitrary: s rule: less_induct)
  case less
  show ?case
  proof (cases "cc_result s")
    case None
    from cc_progress [OF cc_inv_reachable [OF less.prems] None] obtain s1 where s1: "cc_step s s1" ..
    from less.hyps [OF cc_work_decreases [OF s1] cc_reachable.more [OF less.prems s1]] s1 show ?thesis
      by (meson converse_rtranclp_into_rtranclp)
  next
    case (Some n)
    with less.prems show ?thesis by blast
  qed
qed

subsection \<open>Properties\<close>

text \<open>
  C25. Counting does not disturb a scrape: in every reachable state at most 64 metrics are
  buffered, and when \<open>close\<close> returns, every metric that the collector sent has arrived on the outer
  channel, in order, and the returned count is their number. \<open>close\<close> does return, whatever the order
  of the steps: no run is infinite, and a run can only stop once \<open>close\<close> has returned.
\<close>

theorem countingChan_faithful:
  fixes s :: "'m countingChan"
  assumes "cc_reachable ms s"
  shows "length (cc_in s) \<le> 64 \<and>
    (\<forall>n. cc_result s = Some n \<longrightarrow> n = length ms \<and> cc_dst s = ms) \<and>
    wfP (\<lambda>t' t :: 'm countingChan. cc_step t t') \<and> ((\<exists>s'. cc_step s s') \<longleftrightarrow> cc_result s = None) \<and>
    (\<exists>s'. cc_step\<^sup>*\<^sup>* s s' \<and> cc_result s' = Some (length ms))"
proof -
  have res: "n = length ms \<and> cc_dst t = ms" if "cc_reachable ms t" "cc_result t = Some n" for t n
    using cc_inv_reachable [OF that(1)] that(2) by (auto simp: cc_inv_def)
  obtain s' where s': "cc_step\<^sup>*\<^sup>* s s'" "cc_reachable ms s'" "cc_result s' \<noteq> None"
    using cc_terminates [OF assms] by blast
  then obtain n where "cc_result s' = Some n" by blast
  with res [OF s'(2)] s'(1) have "\<exists>s'. cc_step\<^sup>*\<^sup>* s s' \<and> cc_result s' = Some (length ms)" by blast
  moreover have "length (cc_in s) \<le> 64"
    using cc_inv_reachable [OF assms] by (simp add: cc_inv_def capacity_def)
  moreover have "(\<exists>s'. cc_step s s') \<longleftrightarrow> cc_result s = None"
    using cc_progress [OF cc_inv_reachable [OF assms]] cc_final [OF cc_inv_reachable [OF assms]]
    by (cases "cc_result s") blast+
  ultimately show ?thesis using res [OF assms] cc_wf by blast
qed

theorem countingChan_faithful_witness:
  "\<exists>s'. cc_step\<^sup>*\<^sup>* (newCountingChan ''abc'') s' \<and> cc_result s' = Some (length ''abc'')"
  using countingChan_faithful [OF cc_reachable.start [of "''abc''"]] by blast

end
