(* ===== verification/Mutex.thy ===== *)
theory Mutex
  imports Prelude
begin

text \<open>
  What the users of a \<open>sync.Mutex\<close> rely on, as an interface: the mutexes of the exporter
  (theories \<open>Shutdown\<close> and \<open>Serial\<close>) and of the version probe (theory \<open>VersionProbe\<close>). Every step of
  the parties leaves the mutex alone, lets one of them in when it is free, or lets the one inside
  out; then the holder is always the one party inside.
\<close>

definition locks_once :: "'a option \<times> ('a \<Rightarrow> bool) \<Rightarrow> 'a option \<times> ('a \<Rightarrow> bool) \<Rightarrow> bool" where
  "locks_once m m' \<longleftrightarrow> (case (m, m') of ((h, ins), (h', ins')) \<Rightarrow>
     h' = h \<and> ins' = ins \<or>
     (\<exists>i. h = None \<and> h' = Some i \<and> ins' = ins(i := True)) \<or>
     (\<exists>i. ins i \<and> h' = None \<and> ins' = ins(i := False)))"

lemma locks_onceI:
  "h' = h \<Longrightarrow> ins' = ins \<Longrightarrow> locks_once (h, ins) (h', ins')"
  "h = None \<Longrightarrow> h' = Some i \<Longrightarrow> ins' = ins(i := True) \<Longrightarrow> locks_once (h, ins) (h', ins')"
  "ins i \<Longrightarrow> h' = None \<Longrightarrow> ins' = ins(i := False) \<Longrightarrow> locks_once (h, ins) (h', ins')"
  by (auto simp: locks_once_def)

text \<open>The holder is the one party inside.\<close>

definition owned :: "'a option \<Rightarrow> ('a \<Rightarrow> bool) \<Rightarrow> bool" where
  "owned h ins \<longleftrightarrow> (\<forall>i. ins i \<longleftrightarrow> h = Some i)"

lemma ownedD: "owned h ins \<Longrightarrow> ins i \<longleftrightarrow> h = Some i"
  by (simp add: owned_def)

lemma owned_alone: "owned h ins \<Longrightarrow> ins i \<Longrightarrow> ins k \<Longrightarrow> k = i"
  by (simp add: owned_def)

lemma owned_free: "owned None ins \<longleftrightarrow> (\<forall>i. \<not> ins i)"
  by (simp add: owned_def)

lemma owned_locks:
  assumes "locks_once (h, ins) (h', ins')" and "owned h ins"
  shows "owned h' ins'"
proof -
  from assms(1) consider "h' = h" "ins' = ins" | i where "h = None" "h' = Some i" "ins' = ins(i := True)"
    | i where "ins i" "h' = None" "ins' = ins(i := False)" unfolding locks_once_def by auto
  then show ?thesis
  proof cases
    case 1
    with assms(2) show ?thesis by simp
  next
    case (2 i)
    have "\<not> ins k" for k using assms(2) 2(1) by (simp add: owned_def)
    then show ?thesis by (simp add: owned_def 2(2,3) eq_commute)
  next
    case (3 i)
    have "\<not> ins' k" for k using owned_alone [OF assms(2) 3(1), of k] by (auto simp: 3(3))
    then show ?thesis by (simp add: 3(2) owned_free)
  qed
qed

locale critical_section =
  fixes step :: "'s \<Rightarrow> 's \<Rightarrow> bool"
    and ok :: "'s \<Rightarrow> bool"
    and holder :: "'s \<Rightarrow> 'a option"
    and inside :: "'s \<Rightarrow> 'a \<Rightarrow> bool"
  assumes step_locks: "step s s' \<Longrightarrow> ok s \<Longrightarrow> locks_once (holder s, inside s) (holder s', inside s')"
    and step_ok: "step s s' \<Longrightarrow> ok s \<Longrightarrow> ok s'"
begin

lemma owned_step: "step s s' \<Longrightarrow> ok s \<Longrightarrow> owned (holder s) (inside s) \<Longrightarrow> owned (holder s') (inside s')"
  by (rule owned_locks [OF step_locks])

lemma owned_run:
  assumes "step\<^sup>*\<^sup>* s s'" and "ok s" and "owned (holder s) (inside s)"
  shows "ok s' \<and> owned (holder s') (inside s')"
  using assms by (induction rule: rtranclp_induct) (auto intro: step_ok owned_step)

text \<open>Two parties are never inside at once, and one that is inside keeps all others out until it leaves.\<close>

lemma excluded:
  assumes "step\<^sup>*\<^sup>* s s'" and "ok s" and "owned (holder s) (inside s)" and "inside s' i" and "inside s' k"
  shows "k = i"
  using owned_run [OF assms(1-3)] owned_alone assms(4,5) by metis

end

end
