(* ===== verification/Shutdown.thy ===== *)
theory Shutdown
  imports Mutex
begin

text \<open>
  The lock of the exporter (\<open>exporter/exporter.go\<close>): \<open>Collect\<close> holds the mutex for its whole body,
  \<open>Shutdown\<close> starts a goroutine that takes the mutex and tells so by closing the channel \<open>locked\<close>,
  and waits for that or for the end of its context. Calls are numbered; a state maps each call of
  \<open>Collect\<close> and of \<open>Shutdown\<close> to its phase. The lemmas show mutual exclusion and what a shutdown
  that times out leaves behind.
\<close>

subsection \<open>States and steps\<close>

datatype collect_phase = CIdle | CWaiting | CScraping | CReturned

text \<open>The goroutine of a \<open>Shutdown\<close> call that runs \<open>e.mutex.Lock(); close(locked)\<close>.\<close>

datatype locker_phase = LNone | LWaiting | LLocked | LSignalled

text \<open>The call itself: blocked in the \<open>select\<close>, in the loop that closes the pools with so many of
  them closed, returned with nil, or returned with the error of the context.\<close>

datatype shutdown_phase = SIdle | SSelect | SClosing nat | SReturned | STimedOut

datatype holder = ByCollect nat | ByLocker nat

record exporter_lock =
  mutex :: "holder option"
  collects :: "nat \<Rightarrow> collect_phase"
  lockers :: "nat \<Rightarrow> locker_phase"
  shutdowns :: "nat \<Rightarrow> shutdown_phase"
  pools :: nat
    \<comment> \<open>the number of clients, each with a pool\<close>
  pool_open :: "nat \<Rightarrow> bool"

definition initial_lock :: "nat \<Rightarrow> exporter_lock" where
  "initial_lock n = \<lparr>mutex = None, collects = (\<lambda>_. CIdle), lockers = (\<lambda>_. LNone),
     shutdowns = (\<lambda>_. SIdle), pools = n, pool_open = (\<lambda>k. k < n)\<rparr>"

inductive lock_step :: "exporter_lock \<Rightarrow> exporter_lock \<Rightarrow> bool" where
  collect_call: "collects s i = CIdle \<Longrightarrow>
    lock_step s (s\<lparr>collects := (collects s)(i := CWaiting)\<rparr>)"
| collect_lock: "collects s i = CWaiting \<Longrightarrow> mutex s = None \<Longrightarrow>
    lock_step s (s\<lparr>mutex := Some (ByCollect i), collects := (collects s)(i := CScraping)\<rparr>)"
| collect_return: "collects s i = CScraping \<Longrightarrow>
    lock_step s (s\<lparr>mutex := None, collects := (collects s)(i := CReturned)\<rparr>)"
| shutdown_call: "shutdowns s j = SIdle \<Longrightarrow>
    lock_step s (s\<lparr>shutdowns := (shutdowns s)(j := SSelect), lockers := (lockers s)(j := LWaiting)\<rparr>)"
| locker_lock: "lockers s j = LWaiting \<Longrightarrow> mutex s = None \<Longrightarrow>
    lock_step s (s\<lparr>mutex := Some (ByLocker j), lockers := (lockers s)(j := LLocked)\<rparr>)"
| locker_signal: "lockers s j = LLocked \<Longrightarrow>
    lock_step s (s\<lparr>lockers := (lockers s)(j := LSignalled)\<rparr>)"
| shutdown_locked: "shutdowns s j = SSelect \<Longrightarrow> lockers s j = LSignalled \<Longrightarrow>
    lock_step s (s\<lparr>shutdowns := (shutdowns s)(j := SClosing 0)\<rparr>)"
| shutdown_timeout: "shutdowns s j = SSelect \<Longrightarrow>
    lock_step s (s\<lparr>shutdowns := (shutdowns s)(j := STimedOut)\<rparr>)"
| shutdown_close: "shutdowns s j = SClosing k \<Longrightarrow> k < pools s \<Longrightarrow>
    lock_step s (s\<lparr>pool_open := (pool_open s)(k := False), shutdowns := (shutdowns s)(j := SClosing (Suc k))\<rparr>)"
| shutdown_return: "shutdowns s j = SClosing k \<Longrightarrow> \<not> k < pools s \<Longrightarrow>
    lock_step s (s\<lparr>mutex := None, shutdowns := (shutdowns s)(j := SReturned)\<rparr>)"

inductive lock_reachable :: "nat \<Rightarrow> exporter_lock \<Rightarrow> bool" for n where
  start: "lock_reachable n (initial_lock n)"
| more: "lock_reachable n s \<Longrightarrow> lock_step s s' \<Longrightarrow> lock_reachable n s'"

subsection \<open>Invariant\<close>

text \<open>The holder of the mutex is the one party inside a critical section.\<close>

definition locker_inside :: "exporter_lock \<Rightarrow> nat \<Rightarrow> bool" where
  "locker_inside s j \<longleftrightarrow> lockers s j \<in> {LLocked, LSignalled} \<and> shutdowns s j \<noteq> SReturned"

definition closing :: "exporter_lock \<Rightarrow> nat \<Rightarrow> bool" where
  "closing s j \<longleftrightarrow> (\<exists>k. shutdowns s j = SClosing k)"

definition lock_inv :: "exporter_lock \<Rightarrow> bool" where
  "lock_inv s \<longleftrightarrow>
     (\<forall>i. collects s i = CScraping \<longleftrightarrow> mutex s = Some (ByCollect i)) \<and>
     (\<forall>j. locker_inside s j \<longleftrightarrow> mutex s = Some (ByLocker j)) \<and>
     (\<forall>j. closing s j \<or> shutdowns s j = SReturned \<longrightarrow> lockers s j = LSignalled) \<and>
     (\<forall>j. shutdowns s j = SIdle \<longleftrightarrow> lockers s j = LNone)"

lemma lock_inv_initial: "lock_inv (initial_lock n)"
  by (simp add: lock_inv_def initial_lock_def locker_inside_def closing_def)

fun in_section :: "exporter_lock \<Rightarrow> holder \<Rightarrow> bool" where
  "in_section s (ByCollect i) \<longleftrightarrow> collects s i = CScraping"
| "in_section s (ByLocker j) \<longleftrightarrow> locker_inside s j"

text \<open>A call closes the pools only when its goroutine has the lock, and starts that goroutine.\<close>

definition phases_ok :: "exporter_lock \<Rightarrow> bool" where
  "phases_ok s \<longleftrightarrow> (\<forall>j. closing s j \<or> shutdowns s j = SReturned \<longrightarrow> lockers s j = LSignalled) \<and>
     (\<forall>j. shutdowns s j = SIdle \<longleftrightarrow> lockers s j = LNone)"

lemma all_holder: "(\<forall>x. Q x) \<longleftrightarrow> (\<forall>i. Q (ByCollect i)) \<and> (\<forall>j. Q (ByLocker j))"
proof (intro iffI allI; (elim conjE)?)
  fix x
  assume "\<forall>i. Q (ByCollect i)" and "\<forall>j. Q (ByLocker j)"
  then show "Q x" by (cases x) simp_all
qed simp

lemma owned_parties:
  "owned (mutex s) (in_section s) \<longleftrightarrow> (\<forall>i. collects s i = CScraping \<longleftrightarrow> mutex s = Some (ByCollect i)) \<and>
     (\<forall>j. locker_inside s j \<longleftrightarrow> mutex s = Some (ByLocker j))"
  by (simp add: owned_def all_holder)

lemma lock_inv_eq: "lock_inv s \<longleftrightarrow> owned (mutex s) (in_section s) \<and> phases_ok s"
  by (simp add: lock_inv_def owned_parties phases_ok_def)

lemma in_sectionI:
  assumes "\<And>i. collects s' i = CScraping \<longleftrightarrow> ins (ByCollect i)" and "\<And>j. locker_inside s' j \<longleftrightarrow> ins (ByLocker j)"
  shows "in_section s' = ins"
proof
  fix x
  show "in_section s' x = ins x" by (cases x) (simp_all add: assms)
qed

interpretation exporter_mutex: critical_section lock_step phases_ok mutex in_section
proof unfold_locales
  fix s s'
  assume st: "lock_step s s'" and ok: "phases_ok s"
  from st show "locks_once (mutex s, in_section s) (mutex s', in_section s')"
  proof (cases rule: lock_step.cases)
    case (collect_lock i)
    then show ?thesis by (intro locks_onceI(2) [of _ _ "ByCollect i"] in_sectionI) (auto simp: locker_inside_def)
  next
    case (locker_lock j)
    then have "shutdowns s j \<noteq> SReturned" using ok by (auto simp: phases_ok_def)
    with locker_lock show ?thesis
      by (intro locks_onceI(2) [of _ _ "ByLocker j"] in_sectionI) (auto simp: locker_inside_def)
  next
    case (collect_return i)
    then show ?thesis by (intro locks_onceI(3) [of _ "ByCollect i"] in_sectionI) (auto simp: locker_inside_def)
  next
    case (shutdown_return j k)
    then have "lockers s j = LSignalled" using ok by (auto simp: phases_ok_def closing_def)
    with shutdown_return show ?thesis
      by (intro locks_onceI(3) [of _ "ByLocker j"] in_sectionI) (auto simp: locker_inside_def)
  next
    case (shutdown_call j)
    then have "lockers s j = LNone" using ok by (auto simp: phases_ok_def)
    with shutdown_call show ?thesis by (intro locks_onceI(1) in_sectionI) (auto simp: locker_inside_def)
  qed (intro locks_onceI(1) in_sectionI; auto simp: locker_inside_def)+
next
  fix s s'
  assume "lock_step s s'" and "phases_ok s"
  then show "phases_ok s'"
  proof (cases rule: lock_step.cases)
    case (shutdown_timeout j)
    then have "lockers s j \<noteq> LNone" using \<open>phases_ok s\<close> unfolding phases_ok_def by (metis shutdown_phase.distinct(1))
    with shutdown_timeout \<open>phases_ok s\<close> show ?thesis by (auto simp: phases_ok_def closing_def)
  qed (auto simp: phases_ok_def closing_def)
qed

lemma lock_inv_step: "lock_step s s' \<Longrightarrow> lock_inv s \<Longrightarrow> lock_inv s'"
  unfolding lock_inv_eq using exporter_mutex.owned_step exporter_mutex.step_ok by blast

lemma lock_inv_reachable: "lock_reachable n s \<Longrightarrow> lock_inv s"
  by (induction rule: lock_reachable.induct) (auto intro: lock_inv_initial lock_inv_step)

text \<open>How many pools a \<open>Shutdown\<close> has closed. A pool is closed when some call has passed it.\<close>

definition passed :: "exporter_lock \<Rightarrow> nat \<Rightarrow> nat" where
  "passed s j = (case shutdowns s j of SClosing k \<Rightarrow> k | SReturned \<Rightarrow> pools s | _ \<Rightarrow> 0)"

definition pools_inv :: "nat \<Rightarrow> exporter_lock \<Rightarrow> bool" where
  "pools_inv n s \<longleftrightarrow> pools s = n \<and> (\<forall>j. passed s j \<le> n) \<and>
     (\<forall>i < n. \<not> pool_open s i \<longleftrightarrow> (\<exists>j. i < passed s j))"

lemma passed_step:
  assumes "lock_step s s'" and "\<forall>j. passed s j \<le> pools s"
  shows "pools s' = pools s \<and> (passed s' = passed s \<and> pool_open s' = pool_open s \<or>
    (\<exists>j. passed s j < pools s \<and> passed s' = (passed s)(j := Suc (passed s j)) \<and>
      pool_open s' = (pool_open s)(passed s j := False)))"
  using assms
proof (induction rule: lock_step.induct)
  case (shutdown_close s j k)
  then have "passed s j = k" by (simp add: passed_def)
  with shutdown_close have "passed s j < pools s" "passed (s\<lparr>pool_open := (pool_open s)(k := False),
      shutdowns := (shutdowns s)(j := SClosing (Suc k))\<rparr>) = (passed s)(j := Suc (passed s j))"
    by (auto simp: passed_def fun_eq_iff split: shutdown_phase.split)
  with \<open>passed s j = k\<close> show ?case by auto
next
  case (shutdown_return s j k)
  then have "passed s j = k" by (simp add: passed_def)
  with shutdown_return have "k = pools s" by (metis le_neq_implies_less)
  with shutdown_return show ?case by (auto simp: passed_def fun_eq_iff split: shutdown_phase.split)
qed (auto simp: passed_def fun_eq_iff split: shutdown_phase.split)

lemma pools_inv_step:
  assumes "lock_step s s'" and inv: "pools_inv n s"
  shows "pools_inv n s'"
proof -
  from inv have "\<forall>j. passed s j \<le> pools s" by (simp add: pools_inv_def)
  from passed_step [OF assms(1) this] have pools: "pools s' = pools s" and
    "passed s' = passed s \<and> pool_open s' = pool_open s \<or>
     (\<exists>j. passed s j < pools s \<and> passed s' = (passed s)(j := Suc (passed s j)) \<and>
        pool_open s' = (pool_open s)(passed s j := False))" by auto
  then consider "passed s' = passed s" "pool_open s' = pool_open s"
    | j where "passed s j < pools s" "passed s' = (passed s)(j := Suc (passed s j))"
      "pool_open s' = (pool_open s)(passed s j := False)" by blast
  then show ?thesis
  proof cases
    case 1
    with inv pools show ?thesis by (simp add: pools_inv_def)
  next
    case (2 j)
    have "(\<exists>j'. i < passed s' j') \<longleftrightarrow> i = passed s j \<or> (\<exists>j'. i < passed s j')" for i
      unfolding 2(2) by (metis fun_upd_apply less_Suc_eq)
    with inv pools 2 show ?thesis by (auto simp: pools_inv_def)
  qed
qed

lemma pools_inv_reachable: "lock_reachable n s \<Longrightarrow> pools_inv n s"
proof (induction rule: lock_reachable.induct)
  case start
  then show ?case by (simp add: pools_inv_def passed_def initial_lock_def)
next
  case (more s s')
  then show ?case by (blast intro: pools_inv_step)
qed

lemma pools_closed_by:
  assumes "lock_reachable n s"
  shows "i < n \<Longrightarrow> \<not> pool_open s i \<Longrightarrow> \<exists>j. closing s j \<or> shutdowns s j = SReturned"
    and "shutdowns s j = SReturned \<Longrightarrow> i < n \<Longrightarrow> \<not> pool_open s i"
proof -
  have inv: "pools_inv n s" by (rule pools_inv_reachable [OF assms])
  show "\<exists>j. closing s j \<or> shutdowns s j = SReturned" if closed: "i < n" "\<not> pool_open s i"
  proof -
    from inv closed obtain j where "i < passed s j" by (auto simp: pools_inv_def)
    then have "closing s j \<or> shutdowns s j = SReturned"
      by (cases "shutdowns s j") (auto simp: passed_def closing_def)
    then show ?thesis by blast
  qed
  show "\<not> pool_open s i" if "shutdowns s j = SReturned" "i < n"
  proof -
    have "passed s j = n" using inv that(1) by (simp add: passed_def pools_inv_def)
    with inv that(2) show ?thesis unfolding pools_inv_def by metis
  qed
qed

text \<open>Once a shutdown has timed out, its goroutine, if it gets the mutex, keeps it.\<close>

definition leaked :: "exporter_lock \<Rightarrow> nat \<Rightarrow> bool" where
  "leaked s j \<longleftrightarrow> shutdowns s j = STimedOut \<and> lockers s j \<in> {LLocked, LSignalled}"

lemma leaked_step: "lock_step s s' \<Longrightarrow> leaked s j \<Longrightarrow> leaked s' j"
  by (induction rule: lock_step.induct) (auto simp: leaked_def)

lemma leaked_steps: "lock_step\<^sup>*\<^sup>* s s' \<Longrightarrow> leaked s j \<Longrightarrow> leaked s' j"
  by (induction rule: rtranclp_induct) (auto intro: leaked_step)

lemma reachable_steps: "lock_step\<^sup>*\<^sup>* s s' \<Longrightarrow> lock_reachable n s \<Longrightarrow> lock_reachable n s'"
  by (induction rule: rtranclp_induct) (auto intro: lock_reachable.more)

lemma leaked_mutex: "lock_reachable n s \<Longrightarrow> leaked s j \<Longrightarrow> mutex s = Some (ByLocker j)"
  using lock_inv_reachable [of n s] unfolding lock_inv_def leaked_def locker_inside_def by auto

subsection \<open>Progress\<close>

definition scrapes_later :: "exporter_lock \<Rightarrow> nat \<Rightarrow> bool" where
  "scrapes_later s i \<longleftrightarrow> (\<exists>s'. lock_step\<^sup>*\<^sup>* s s' \<and> collects s' i = CScraping)"

lemma scrapes_later_step: "lock_step s s' \<Longrightarrow> scrapes_later s' i \<Longrightarrow> scrapes_later s i"
  unfolding scrapes_later_def by (blast intro: converse_rtranclp_into_rtranclp)

lemma scrapes_later_free:
  assumes "collects s i = CWaiting" and "mutex s = None"
  shows "scrapes_later s i"
proof -
  let ?s = "s\<lparr>mutex := Some (ByCollect i), collects := (collects s)(i := CScraping)\<rparr>"
  have "scrapes_later ?s i" unfolding scrapes_later_def by (rule exI [of _ ?s]) simp
  then show ?thesis by (rule scrapes_later_step [OF lock_step.collect_lock [OF assms]])
qed

lemma scrapes_later_scraping:
  assumes "collects s i = CWaiting" and "collects s k = CScraping"
  shows "scrapes_later s i"
proof (rule scrapes_later_step [OF lock_step.collect_return [OF assms(2)]])
  from assms have "i \<noteq> k" by auto
  then show "scrapes_later (s\<lparr>mutex := None, collects := (collects s)(k := CReturned)\<rparr>) i"
    by (intro scrapes_later_free) (simp_all add: assms(1))
qed

lemma scrapes_later_closing:
  assumes "collects s i = CWaiting" and "shutdowns s j = SClosing k"
  shows "scrapes_later s i"
  using assms
proof (induction "pools s - k" arbitrary: s k)
  case 0
  then have "\<not> k < pools s" by simp
  from lock_step.shutdown_return [OF "0.prems"(2) this] show ?case
    by (rule scrapes_later_step) (simp add: scrapes_later_free "0.prems"(1))
next
  case (Suc d)
  then have less: "k < pools s" by simp
  show ?case
    by (rule scrapes_later_step [OF lock_step.shutdown_close [OF Suc.prems(2) less]], rule Suc.hyps(1))
      (use Suc in auto)
qed

lemma scrapes_later_signalled:
  assumes "collects s i = CWaiting" and "shutdowns s j = SSelect" and "lockers s j = LSignalled"
  shows "scrapes_later s i"
  by (rule scrapes_later_step [OF lock_step.shutdown_locked [OF assms(2,3)]],
      rule scrapes_later_closing [of _ _ j 0]) (simp_all add: assms)

lemma scrapes_later_locked:
  assumes "collects s i = CWaiting" and "shutdowns s j = SSelect" and "lockers s j = LLocked"
  shows "scrapes_later s i"
  by (rule scrapes_later_step [OF lock_step.locker_signal [OF assms(3)]],
      rule scrapes_later_signalled [of _ _ j]) (simp_all add: assms)

subsection \<open>Properties\<close>

text \<open>
  C22. The pools are never closed under a scrape: in every reachable state at most one call of
  \<open>Collect\<close> or \<open>Shutdown\<close> is past its lock, so while one \<open>Shutdown\<close> closes the pools no \<open>Collect\<close>
  is scraping and no other \<open>Shutdown\<close> is closing. A pool is closed only by a \<open>Shutdown\<close> that got the
  lock, and once one has returned without an error every pool is closed and stays closed.
\<close>

theorem shutdown_excludes_collect:
  assumes "lock_reachable n s"
  shows "(\<forall>j. closing s j \<longrightarrow> (\<forall>i. collects s i \<noteq> CScraping) \<and> (\<forall>j'. closing s j' \<longrightarrow> j' = j)) \<and>
    (\<forall>i < n. \<not> pool_open s i \<longrightarrow> (\<exists>j. closing s j \<or> shutdowns s j = SReturned)) \<and>
    (\<forall>j. shutdowns s j = SReturned \<longrightarrow> (\<forall>i < n. \<not> pool_open s i))"
proof -
  have inv: "lock_inv s" by (rule lock_inv_reachable [OF assms])
  have held: "mutex s = Some (ByLocker j)" if "closing s j" for j
    using inv that unfolding lock_inv_def locker_inside_def closing_def by force
  have "collects s i \<noteq> CScraping" if "closing s j" for i j
    using inv held [OF that] unfolding lock_inv_def by auto
  moreover have "j' = j" if "closing s j" "closing s j'" for j j'
    using held [OF that(1)] held [OF that(2)] by simp
  ultimately show ?thesis
    using pools_closed_by [OF assms] by blast
qed

text \<open>
  C23. A \<open>Shutdown\<close> that gives up leaks the lock: once its context has ended and its goroutine has
  taken the mutex, the mutex stays taken in every later state, so no \<open>Collect\<close> ever gets past its
  lock again and the pools can no longer be closed by another \<open>Shutdown\<close>.
\<close>

theorem timed_out_shutdown_leaks_lock:
  assumes "lock_reachable n s" and "shutdowns s j = STimedOut" and "mutex s = Some (ByLocker j)"
    and "lock_step\<^sup>*\<^sup>* s s'"
  shows "mutex s' = Some (ByLocker j) \<and> (\<forall>i. collects s' i \<noteq> CScraping) \<and> (\<forall>j'. \<not> closing s' j')"
proof -
  have "leaked s j"
    using lock_inv_reachable [OF assms(1)] assms(2,3) unfolding lock_inv_def leaked_def locker_inside_def by auto
  then have l: "leaked s' j" by (rule leaked_steps [OF assms(4)])
  have r: "lock_reachable n s'" by (rule reachable_steps [OF assms(4,1)])
  note m = leaked_mutex [OF r l] and inv = lock_inv_reachable [OF r]
  have "\<not> closing s' j'" for j'
    using inv m l unfolding lock_inv_def leaked_def locker_inside_def closing_def
    by (metis holder.inject(2) insertI1 insertI2 option.inject shutdown_phase.distinct)
  with m inv show ?thesis unfolding lock_inv_def by auto
qed

text \<open>The run: \<open>Shutdown\<close> is called during a scrape, times out, the scrape ends, its goroutine
  gets the lock, and the next \<open>Collect\<close> waits for ever.\<close>

definition leak_state :: exporter_lock where
  "leak_state = \<lparr>mutex = Some (ByLocker 0), collects = (\<lambda>_. CIdle)(0 := CReturned),
     lockers = (\<lambda>_. LNone)(0 := LLocked), shutdowns = (\<lambda>_. SIdle)(0 := STimedOut), pools = 1, pool_open = (\<lambda>k. k < 1)\<rparr>"

lemma leak_state_reachable: "lock_reachable 1 leak_state"
proof -
  have "lock_reachable 1 (initial_lock 1\<lparr>collects := (\<lambda>_. CIdle)(0 := CWaiting)\<rparr>)" (is "lock_reachable 1 ?s1")
    using lock_reachable.more [OF lock_reachable.start lock_step.collect_call [of "initial_lock 1" 0]]
    by (simp add: initial_lock_def)
  from lock_reachable.more [OF this lock_step.collect_lock [of ?s1 0]]
  have "lock_reachable 1 (initial_lock 1\<lparr>mutex := Some (ByCollect 0), collects := (\<lambda>_. CIdle)(0 := CScraping)\<rparr>)"
    (is "lock_reachable 1 ?s2") by (simp add: initial_lock_def)
  from lock_reachable.more [OF this lock_step.shutdown_call [of ?s2 0]]
  have "lock_reachable 1 (?s2\<lparr>shutdowns := (\<lambda>_. SIdle)(0 := SSelect), lockers := (\<lambda>_. LNone)(0 := LWaiting)\<rparr>)"
    (is "lock_reachable 1 ?s3") by (simp add: initial_lock_def)
  from lock_reachable.more [OF this lock_step.shutdown_timeout [of ?s3 0]]
  have "lock_reachable 1 (?s3\<lparr>shutdowns := (\<lambda>_. SIdle)(0 := STimedOut)\<rparr>)" (is "lock_reachable 1 ?s4")
    by (simp add: initial_lock_def)
  from lock_reachable.more [OF this lock_step.collect_return [of ?s4 0]]
  have "lock_reachable 1 (?s4\<lparr>mutex := None, collects := (\<lambda>_. CIdle)(0 := CReturned)\<rparr>)" (is "lock_reachable 1 ?s5")
    by (simp add: initial_lock_def)
  from lock_reachable.more [OF this lock_step.locker_lock [of ?s5 0]]
  show ?thesis by (simp add: initial_lock_def leak_state_def)
qed

theorem timed_out_shutdown_leaks_lock_witness:
  "mutex leak_state = Some (ByLocker 0) \<and> (\<forall>i. collects leak_state i \<noteq> CScraping)"
  using timed_out_shutdown_leaks_lock [OF leak_state_reachable, of 0 leak_state] by (simp add: leak_state_def)

text \<open>A shutdown that is given the lock reaches the closing of the pools.\<close>

definition closing_state :: exporter_lock where
  "closing_state = \<lparr>mutex = Some (ByLocker 0), collects = (\<lambda>_. CIdle),
     lockers = (\<lambda>_. LNone)(0 := LSignalled), shutdowns = (\<lambda>_. SIdle)(0 := SClosing 0), pools = 1, pool_open = (\<lambda>k. k < 1)\<rparr>"

lemma closing_state_reachable: "lock_reachable 1 closing_state"
proof -
  have "lock_reachable 1 (initial_lock 1\<lparr>shutdowns := (\<lambda>_. SIdle)(0 := SSelect), lockers := (\<lambda>_. LNone)(0 := LWaiting)\<rparr>)"
    (is "lock_reachable 1 ?s1")
    using lock_reachable.more [OF lock_reachable.start lock_step.shutdown_call [of "initial_lock 1" 0]]
    by (simp add: initial_lock_def)
  from lock_reachable.more [OF this lock_step.locker_lock [of ?s1 0]]
  have "lock_reachable 1 (?s1\<lparr>mutex := Some (ByLocker 0), lockers := (\<lambda>_. LNone)(0 := LLocked)\<rparr>)"
    (is "lock_reachable 1 ?s2") by (simp add: initial_lock_def)
  from lock_reachable.more [OF this lock_step.locker_signal [of ?s2 0]]
  have "lock_reachable 1 (?s2\<lparr>lockers := (\<lambda>_. LNone)(0 := LSignalled)\<rparr>)" (is "lock_reachable 1 ?s3")
    by (simp add: initial_lock_def)
  from lock_reachable.more [OF this lock_step.shutdown_locked [of ?s3 0]]
  show ?thesis by (simp add: initial_lock_def closing_state_def)
qed

theorem shutdown_excludes_collect_witness:
  "\<forall>i. collects closing_state i \<noteq> CScraping"
proof -
  have "closing closing_state 0" by (simp add: closing_state_def closing_def)
  with shutdown_excludes_collect [OF closing_state_reachable] show ?thesis by blast
qed

text \<open>
  C24. A scrape is blocked only by a leaked lock: in a reachable state in which no \<open>Shutdown\<close> has
  timed out, every \<open>Collect\<close> that waits for the mutex has a run that gets it.
\<close>

theorem waiting_collect_can_proceed:
  assumes "lock_reachable n s" and "\<forall>j. shutdowns s j \<noteq> STimedOut" and "collects s i = CWaiting"
  shows "\<exists>s'. lock_step\<^sup>*\<^sup>* s s' \<and> collects s' i = CScraping"
proof -
  have inv: "lock_inv s" by (rule lock_inv_reachable [OF assms(1)])
  have "scrapes_later s i"
  proof (cases "mutex s")
    case None
    with assms(3) show ?thesis by (rule scrapes_later_free)
  next
    case (Some h)
    show ?thesis
    proof (cases h)
      case (ByCollect k)
      with Some inv have "collects s k = CScraping" unfolding lock_inv_def by blast
      with assms(3) show ?thesis by (rule scrapes_later_scraping)
    next
      case (ByLocker j)
      with Some inv have l: "locker_inside s j" unfolding lock_inv_def by blast
      with inv have "shutdowns s j \<noteq> SIdle" unfolding lock_inv_def locker_inside_def closing_def by force
      with l assms(2) consider k where "shutdowns s j = SClosing k"
        | "shutdowns s j = SSelect" "lockers s j = LLocked"
        | "shutdowns s j = SSelect" "lockers s j = LSignalled"
        unfolding locker_inside_def by (cases "shutdowns s j") auto
      then show ?thesis
      proof cases
        case 1
        then show ?thesis by (rule scrapes_later_closing [OF assms(3)])
      next
        case 2
        then show ?thesis by (rule scrapes_later_locked [OF assms(3)])
      next
        case 3
        then show ?thesis by (rule scrapes_later_signalled [OF assms(3)])
      qed
    qed
  qed
  then show ?thesis by (simp add: scrapes_later_def)
qed

text \<open>A scrape that waits for another one.\<close>

definition waiting_state :: exporter_lock where
  "waiting_state = initial_lock 1\<lparr>collects := (\<lambda>_. CIdle)(0 := CWaiting)\<rparr>"

theorem waiting_collect_can_proceed_witness:
  "\<exists>s'. lock_step\<^sup>*\<^sup>* waiting_state s' \<and> collects s' 0 = CScraping"
proof (rule waiting_collect_can_proceed)
  show "lock_reachable 1 waiting_state"
    using lock_reachable.more [OF lock_reachable.start lock_step.collect_call [of "initial_lock 1" 0]]
    by (simp add: initial_lock_def waiting_state_def)
qed (simp_all add: waiting_state_def initial_lock_def)

end
