(* ===== verification/FloatError.thy ===== *)
theory FloatError
  imports Float64
begin

text \<open>
  How far Go's \<open>float64\<close> arithmetic is from exact arithmetic: the binary exponent that
  \<open>round64\<close> computes from the bit lengths of a fraction is the right one, so rounding moves a
  rational by at most half of the last of its 53 bits.
\<close>

lemma pow2_powi: "pow2 e = 2 powi e"
  by (simp add: pow2_def power_int_def power_one_over)

lemma pow2_add: "pow2 (a + b) = pow2 a * pow2 b"
  by (simp add: pow2_powi power_int_add)

lemma pow2_mono: "a \<le> b \<Longrightarrow> pow2 a \<le> pow2 b"
  by (simp add: pow2_powi power_int_increasing)

lemma pow2_of_bitlen:
  assumes "0 < n"
  shows "pow2 (bitlen n - 1) \<le> of_int n" and "(of_int n :: rat) < pow2 (bitlen n)"
proof -
  have pos: "0 \<le> bitlen n - 1"
    using bitlen_nonneg [of n] bitlen_eq_zero_iff [of n] assms by linarith
  note b = bitlen_bounds [OF assms]
  have "(of_int (2 ^ nat (bitlen n - 1)) :: rat) \<le> of_int n" using b by (simp only: of_int_le_iff)
  then show "pow2 (bitlen n - 1) \<le> of_int n" unfolding pow2_def using pos by simp
  have "(of_int n :: rat) < of_int (2 ^ nat (bitlen n))" using b by (simp only: of_int_less_iff)
  then show "(of_int n :: rat) < pow2 (bitlen n)" unfolding pow2_def using pos by simp
qed

text \<open>The exponent is the right one: \<open>2^k \<le> q < 2^(k+1)\<close>.\<close>

lemma floor_log2_bounds:
  assumes "0 < q"
  shows "pow2 (floor_log2 q) \<le> q" and "q < pow2 (floor_log2 q + 1)"
proof -
  obtain n d where nd: "quotient_of q = (n, d)" by (cases "quotient_of q")
  have d: "0 < d" using quotient_of_denom_pos [OF nd] .
  have q: "q = of_int n / of_int d" using quotient_of_div [OF nd] .
  have n: "0 < n" using assms d by (simp add: q zero_less_divide_iff)
  note bn = pow2_of_bitlen [OF n] and bd = pow2_of_bitlen [OF d]
  have d0: "(0 :: rat) < of_int d" using d by simp
  let ?k = "bitlen n - bitlen d"
  have "pow2 (?k - 1) * of_int d \<le> pow2 (?k - 1) * pow2 (bitlen d)"
    using bd(2) by (intro mult_left_mono) (simp_all add: less_imp_le)
  also have "\<dots> = pow2 (bitlen n - 1)" by (simp add: pow2_add [symmetric])
  also note bn(1)
  finally have low: "pow2 (?k - 1) \<le> q" using d0 by (simp add: q field_simps)
  have "of_int n < pow2 (bitlen n)" by (rule bn(2))
  also have "\<dots> = pow2 (?k + 1) * pow2 (bitlen d - 1)" by (simp add: pow2_add [symmetric])
  also have "\<dots> \<le> pow2 (?k + 1) * of_int d" using bd(1) by (intro mult_left_mono) (simp_all add: less_imp_le)
  finally have high: "q < pow2 (?k + 1)" using d0 by (simp add: q field_simps)
  show "pow2 (floor_log2 q) \<le> q" using low by (simp add: floor_log2_def nd Let_def)
  show "q < pow2 (floor_log2 q + 1)" using low high by (simp add: floor_log2_def nd Let_def)
qed

lemma round_half_even_error: "\<bar>of_int (round_half_even q) - q\<bar> \<le> 1 / 2"
proof -
  have "of_int \<lfloor>q\<rfloor> \<le> q" "q < of_int \<lfloor>q\<rfloor> + 1" by linarith+
  then show ?thesis by (auto simp: round_half_even_def Let_def abs_le_iff)
qed

text \<open>Half a unit in the last place; below one, an absolute bound serves.\<close>

lemma round64_error: "\<bar>round64 q - q\<bar> \<le> pow2 (- 53) * max 1 \<bar>q\<bar>"
proof (cases "q = 0")
  case True
  then show ?thesis by (simp add: round64_def less_imp_le)
next
  case False
  let ?u = "pow2 (ulp_exp q)"
  have "\<bar>round64 q - q\<bar> = \<bar>of_int (round_half_even (q / ?u)) - q / ?u\<bar> * ?u"
    using False pow2_pos [of "ulp_exp q"]
    by (simp add: round64_def abs_if field_simps)
  also have "\<dots> \<le> 1 / 2 * ?u"
    by (intro mult_right_mono round_half_even_error less_imp_le pow2_pos)
  also have "\<dots> = pow2 (ulp_exp q - 1)" using pow2_add [of "ulp_exp q" "-1"] by (simp add: pow2_def)
  also have "\<dots> \<le> pow2 (- 53) * max 1 \<bar>q\<bar>"
  proof (cases "- 1074 \<le> floor_log2 \<bar>q\<bar> - 52")
    case True
    then have "pow2 (ulp_exp q - 1) = pow2 (- 53) * pow2 (floor_log2 \<bar>q\<bar>)"
      by (simp add: ulp_exp_def pow2_add [symmetric])
    also have "\<dots> \<le> pow2 (- 53) * \<bar>q\<bar>"
      using floor_log2_bounds(1) [of "\<bar>q\<bar>"] False by (intro mult_left_mono) (simp_all add: less_imp_le)
    also have "\<dots> \<le> pow2 (- 53) * max 1 \<bar>q\<bar>" by (intro mult_left_mono) (simp_all add: less_imp_le)
    finally show ?thesis .
  next
    case False
    then have "pow2 (ulp_exp q - 1) \<le> pow2 (- 53) * 1"
      by (simp add: ulp_exp_def pow2_mono)
    also have "\<dots> \<le> pow2 (- 53) * max 1 \<bar>q\<bar>" by (intro mult_left_mono) (simp_all add: less_imp_le)
    finally show ?thesis .
  qed
  finally show ?thesis .
qed

lemma pow2_1024_large: "2 ^ 66 < pow2 1024"
proof -
  have "(2 :: rat) ^ 66 < 2 ^ nat 1024" by (rule power_strict_increasing) auto
  then show ?thesis by (simp only: pow2_def zero_le_numeral if_True)
qed

text \<open>Far below the largest \<open>float64\<close>, a rounded value is finite and close.\<close>

lemma mk_f64_error:
  assumes "\<bar>q\<bar> \<le> 2 ^ 65"
  obtains r where "mk_f64 q = Fin r" and "\<bar>r - q\<bar> \<le> pow2 (- 53) * max 1 \<bar>q\<bar>"
proof
  note e = round64_error [of q]
  have "pow2 (- 53) * max 1 \<bar>q\<bar> \<le> 1 * max 1 \<bar>q\<bar>"
    by (intro mult_right_mono) (simp_all add: pow2_def)
  then have "\<bar>round64 q - q\<bar> \<le> max 1 \<bar>q\<bar>" using e by (simp only: mult_1)
  moreover have "max 1 \<bar>q\<bar> \<le> 2 ^ 65" using assms by simp
  ultimately have "\<bar>round64 q\<bar> \<le> 2 ^ 66" using assms by (simp only: abs_le_iff) auto
  then have "\<bar>round64 q\<bar> < pow2 1024" using pow2_1024_large by (rule order_le_less_trans)
  then show "mk_f64 q = Fin (round64 q)" by (simp add: mk_f64_def Let_def abs_less_iff not_le)
  show "\<bar>round64 q - q\<bar> \<le> pow2 (- 53) * max 1 \<bar>q\<bar>" by (rule e)
qed

end
