(* ===== verification/CounterDrift.thy ===== *)
theory CounterDrift
  imports Vec FloatError
begin

text \<open>
  \<open>counterDelta.Observe\<close> (\<open>exporter/collectors/vec.go\<close>) for values that are not integers of at
  most 53 bits: the block times in seconds that the collectors push with \<open>emitCounterFloat\<close>,
  and counters beyond \<open>2^53\<close>. The child of the vector then is a sum of rounded differences, not
  the value observed last. The locale \<open>prom_float_counters\<close> adds to \<open>prom_counters\<close> how exact
  \<open>Counter.Add\<close> is (the library keeps an integer and a \<open>float64\<close> part and adds them when it
  reads the value, a few roundings in all); inside it the drift per observation is bounded.
\<close>

subsection \<open>How exact the library adds\<close>

locale prom_float_counters = prom_counters P for P :: "('cv, 'gv) prom" +
  assumes counter_add_close:
    "CounterAdd P cv lvs (Fin a) = Some cv' \<Longrightarrow> CounterValue P cv lvs = Some (Fin x) \<Longrightarrow>
     0 \<le> x \<Longrightarrow> x + a \<le> 2 ^ 63 \<Longrightarrow>
     \<exists>y. CounterValue P cv' lvs = Some (Fin y) \<and> 0 \<le> y \<and>
       \<bar>y - (x + a)\<bar> \<le> pow2 (- 50) * max 1 (x + a)"

lemma ref_add_close:
  assumes "ref_add rv lvs (Fin a) = Some rv'" and "ref_value rv lvs = Some (Fin x)"
    and "0 \<le> x" and "x + a \<le> 2 ^ 63"
  shows "\<exists>y. ref_value rv' lvs = Some (Fin y) \<and> 0 \<le> y \<and>
    \<bar>y - (x + a)\<bar> \<le> pow2 (- 50) * max 1 (x + a)"
proof -
  note s = ref_add_SomeD [OF assms(1)]
  then have "0 \<le> a" by simp
  then have nn: "0 \<le> x + a" "\<bar>x + a\<bar> \<le> 2 ^ 65" using assms(3,4) by simp_all
  obtain r where r: "mk_f64 (x + a) = Fin r" "\<bar>r - (x + a)\<bar> \<le> pow2 (- 53) * max 1 \<bar>x + a\<bar>"
    using mk_f64_error [OF nn(2)] by blast
  have "pow2 (- 53) * max 1 \<bar>x + a\<bar> \<le> pow2 (- 50) * max 1 (x + a)"
    using nn(1) by (intro mult_mono) (simp_all add: pow2_def)
  then have "\<bar>r - (x + a)\<bar> \<le> pow2 (- 50) * max 1 (x + a)" using r(2) by (rule order_trans [rotated])
  moreover have "0 \<le> r" using mk_f64_not_negative [OF nn(1)] by (simp add: r(1))
  ultimately show ?thesis using s assms(2) r(1) by simp
qed

interpretation ref_float: prom_float_counters ref_prom
  by unfold_locales (simp add: ref_prom_def ref_add_close)

subsection \<open>One observation\<close>

definition drifted :: "rat \<Rightarrow> rat \<Rightarrow> f64 option \<Rightarrow> f64 option \<Rightarrow> bool" where
  "drifted M e seen exported \<longleftrightarrow> (case seen of None \<Rightarrow> exported = None
     | Some l \<Rightarrow> \<exists>q x. l = Fin q \<and> 0 \<le> q \<and> q \<le> M \<and> exported = Some (Fin x) \<and> 0 \<le> x \<and> \<bar>x - q\<bar> \<le> e)"

lemma drifted_None [simp]: "drifted M e None x \<longleftrightarrow> x = None"
  by (simp add: drifted_def)

lemma drifted_mono: "drifted M e l x \<Longrightarrow> e \<le> e' \<Longrightarrow> drifted M e' l x"
  unfolding drifted_def by (cases l) (auto intro: order_trans)

lemma drifted_exact: "0 \<le> q \<Longrightarrow> q \<le> M \<Longrightarrow> 0 \<le> e \<Longrightarrow> drifted M e (Some (Fin q)) (Some (Fin q))"
  by (simp add: drifted_def)

text \<open>The rounding of one step, as arithmetic on rationals.\<close>

lemma drift_step:
  fixes x :: rat
  assumes M: "1 \<le> M" "M \<le> 2 ^ 62" and e: "e \<le> M / 4" and q: "0 \<le> q" "q \<le> M" and v: "v \<le> M" "q \<le> v"
    and x: "\<bar>x - q\<bar> \<le> e" and a: "\<bar>a - (v - q)\<bar> \<le> pow2 (- 53) * max 1 \<bar>v - q\<bar>"
  shows "x + a \<le> 2 ^ 63"
    and "\<bar>y - (x + a)\<bar> \<le> pow2 (- 50) * max 1 (x + a) \<Longrightarrow> \<bar>y - v\<bar> \<le> e + pow2 (- 49) * M"
proof -
  define u where "u = pow2 (- 53) * M"
  have p: "pow2 (- 50) = 8 * pow2 (- 53)" "pow2 (- 49) * M = 16 * u"
    by (simp_all add: pow2_def u_def)
  have u: "0 < u" "8 * u \<le> M" using M(1) by (simp_all add: u_def pow2_def)
  have "max 1 \<bar>v - q\<bar> \<le> M" using M(1) q(1) v by simp
  then have "pow2 (- 53) * max 1 \<bar>v - q\<bar> \<le> u"
    unfolding u_def by (intro mult_left_mono) (simp_all add: less_imp_le)
  with a have a': "\<bar>a - (v - q)\<bar> \<le> u" by (rule order_trans)
  have s: "\<bar>(x + a) - v\<bar> \<le> e + u" using x a' by linarith
  have big: "x + a \<le> 2 * M" using s e u v(1) M(1) by linarith
  then show "x + a \<le> 2 ^ 63" using M(2) by simp
  assume y: "\<bar>y - (x + a)\<bar> \<le> pow2 (- 50) * max 1 (x + a)"
  have "x + a \<le> 11 / 8 * M" using s e u v(1) by linarith
  then have "max 1 (x + a) \<le> 11 / 8 * M" using M(1) by (intro max.boundedI) linarith+
  then have "pow2 (- 50) * max 1 (x + a) \<le> 8 * pow2 (- 53) * (11 / 8 * M)"
    unfolding p(1) by (intro mult_left_mono) (simp_all add: less_imp_le)
  also have "\<dots> = 11 * u" by (simp add: u_def)
  finally have "\<bar>y - (x + a)\<bar> \<le> 11 * u" using y by (rule order_trans [rotated])
  then show "\<bar>y - v\<bar> \<le> e + pow2 (- 49) * M" unfolding p(2) using s u by linarith
qed

definition drift_inv :: "('cv, 'gv) prom \<Rightarrow> rat \<Rightarrow> rat \<Rightarrow> 'cv counterDelta \<Rightarrow> bool" where
  "drift_inv P M e c \<longleftrightarrow>
     (\<forall>lvs. label_ok P c lvs \<longrightarrow> drifted M e (cd_last c (label_key lvs)) (cd_value P c lvs)) \<and>
     (\<forall>lvs. \<not> label_ok P c lvs \<longrightarrow> cd_value P c lvs = None)"

context prom_float_counters
begin

lemma Observe_close:
  assumes M: "1 \<le> M" "M \<le> 2 ^ 62" and e: "0 \<le> e" "e \<le> M / 4" and v: "0 \<le> v" "v \<le> M"
    and o: "Observe P (Fin v) lvs c = Some c'"
    and d: "drifted M e (cd_last c (label_key lvs)) (cd_value P c lvs)"
  shows "drifted M (e + pow2 (- 49) * M) (Some (Fin v)) (cd_value P c' lvs)"
proof (cases "case cd_last c (label_key lvs) of None \<Rightarrow> True | Some l \<Rightarrow> f64_less (Fin v) l")
  case True
  then have "cd_value P c' lvs = Some (Fin v)"
    using d by (intro Observe_restarts [OF o]) (simp split: option.splits)
  moreover have "0 \<le> pow2 (- 49) * M" using M(1) by (simp add: less_imp_le)
  ultimately show ?thesis using v e(1) by (simp add: drifted_exact)
next
  case False
  then obtain l where l: "cd_last c (label_key lvs) = Some l" "\<not> f64_less (Fin v) l"
    by (auto split: option.splits)
  with d obtain q x where q: "l = Fin q" "0 \<le> q" "q \<le> M" and x: "cd_value P c lvs = Some (Fin x)"
    "0 \<le> x" "\<bar>x - q\<bar> \<le> e"
    by (auto simp: drifted_def)
  have qv: "q \<le> v" using l(2) q(1) by simp
  have "\<bar>v - q\<bar> \<le> 2 ^ 65" using M(2) q v qv by simp
  then obtain a where a: "mk_f64 (v - q) = Fin a" "\<bar>a - (v - q)\<bar> \<le> pow2 (- 53) * max 1 \<bar>v - q\<bar>"
    by (rule mk_f64_error)
  from o l obtain cv where cv: "CounterAdd P (cd_vec c) lvs (Fin a) = Some cv" and c': "cd_vec c' = cv"
    by (auto simp: Observe_def Let_def q(1) f64_sub_def a(1) split: option.splits)
  note step = drift_step [OF M e(2) q(2,3) v(2) qv x(3) a(2)]
  obtain y where "CounterValue P cv lvs = Some (Fin y)" "0 \<le> y"
    "\<bar>y - (x + a)\<bar> \<le> pow2 (- 50) * max 1 (x + a)"
    using counter_add_close [OF cv _ x(2) step(1)] x(1) by (auto simp: cd_value_def)
  then show ?thesis using v step(2) by (simp add: drifted_def cd_value_def c')
qed

lemma Observe_drift:
  assumes M: "1 \<le> M" "M \<le> 2 ^ 62" and e: "0 \<le> e" "e \<le> M / 4" and v: "0 \<le> v" "v \<le> M"
    and inv: "drift_inv P M e c" and ok: "label_ok P c lvs"
  shows "\<exists>c'. Observe P (Fin v) lvs c = Some c' \<and> drift_inv P M (e + pow2 (- 49) * M) c' \<and>
    CounterDesc P (cd_vec c') = CounterDesc P (cd_vec c) \<and>
    (\<forall>l. label_ok P c l \<longrightarrow>
      cd_last c' (label_key l) = (if l = lvs then Some (Fin v) else cd_last c (label_key l)))"
proof -
  have "Observe P (Fin v) lvs c \<noteq> None"
    using Observe_None_iff ok v(1) by (simp add: label_ok_def)
  then obtain c' where c': "Observe P (Fin v) lvs c = Some c'" by blast
  note d = Observe_desc [OF c']
  have lok: "label_ok P c' = label_ok P c" by (simp add: label_ok_def d fun_eq_iff)
  have key: "label_key l = label_key lvs \<longleftrightarrow> l = lvs" if "label_ok P c l" for l
    using that ok by (intro label_key_inj) (auto simp: label_ok_def fits_def)
  have here: "drifted M (e + pow2 (- 49) * M) (Some (Fin v)) (cd_value P c' lvs)"
    using inv ok by (intro Observe_close [OF M e v c']) (simp add: drift_inv_def)
  have le: "e \<le> e + pow2 (- 49) * M" using M(1) by (simp add: less_imp_le)
  have last: "cd_last c' (label_key l) = (if l = lvs then Some (Fin v) else cd_last c (label_key l))"
    if "label_ok P c l" for l
    using key [OF that] by (simp add: Observe_last [OF c'])
  have "drifted M (e + pow2 (- 49) * M) (cd_last c' (label_key l)) (cd_value P c' l)"
    if l: "label_ok P c l" for l
  proof (cases "l = lvs")
    case True
    with here last [OF l] show ?thesis by simp
  next
    case False
    have "drifted M e (cd_last c (label_key l)) (cd_value P c l)" using inv l by (simp add: drift_inv_def)
    with le False last [OF l] Observe_frame [OF c' False] show ?thesis
      by (auto intro: drifted_mono)
  qed
  moreover have "cd_value P c' l = None" if "\<not> label_ok P c l" for l
    using that ok inv Observe_frame [OF c', of l] by (auto simp: drift_inv_def)
  ultimately have "drift_inv P M (e + pow2 (- 49) * M) c'" by (simp add: drift_inv_def lok)
  with c' d last show ?thesis by blast
qed

lemma observe_all_drift:
  assumes M: "1 \<le> M" "M \<le> 2 ^ 62" and "length obs \<le> 2 ^ 47"
    and "\<forall>(v, lvs) \<in> set obs. (\<exists>q. v = Fin q \<and> 0 \<le> q \<and> q \<le> M) \<and> fits P (o1, ls) lvs \<and> nul_free lvs"
  shows "\<exists>c. observe_all P obs (newCounterDelta (NewCounterVec P o1 ls)) = Some c \<and>
    drift_inv P M (of_nat (length obs) * (pow2 (- 49) * M)) c \<and> CounterDesc P (cd_vec c) = (o1, ls) \<and>
    (\<forall>l. label_ok P c l \<longrightarrow> cd_last c (label_key l) = last_observed obs l)"
  using assms(3,4)
proof (induction obs rule: rev_induct)
  case Nil
  show ?case
    by (simp add: observe_all_def newCounterDelta_def counter_new_desc cd_value_def counter_new_value
        drift_inv_def)
next
  case (snoc ob obs)
  obtain v lvs where ob: "ob = (v, lvs)" by (cases ob)
  let ?e = "of_nat (length obs) * (pow2 (- 49) * M)"
  from snoc obtain c where c: "observe_all P obs (newCounterDelta (NewCounterVec P o1 ls)) = Some c"
    "drift_inv P M ?e c" "CounterDesc P (cd_vec c) = (o1, ls)"
    "\<forall>l. label_ok P c l \<longrightarrow> cd_last c (label_key l) = last_observed obs l" by auto
  from snoc.prems(2) obtain q where q: "v = Fin q" "0 \<le> q" "q \<le> M" and ok: "label_ok P c lvs"
    using c(3) by (auto simp: ob label_ok_def)
  have u: "0 \<le> pow2 (- 49) * M" using M(1) by (simp add: less_imp_le)
  have "length obs \<le> 2 ^ 47" using snoc.prems(1) by simp
  then have "(of_nat (length obs) :: rat) \<le> of_nat (2 ^ 47)" by (simp only: of_nat_le_iff)
  then have "?e \<le> of_nat (2 ^ 47) * (pow2 (- 49) * M)" by (intro mult_right_mono u)
  also have "\<dots> = M / 4" by (simp add: pow2_def)
  finally have "?e \<le> M / 4" .
  moreover have "0 \<le> ?e" by (intro mult_nonneg_nonneg u) simp
  ultimately obtain c' where c': "Observe P (Fin q) lvs c = Some c'"
    "drift_inv P M (?e + pow2 (- 49) * M) c'" "CounterDesc P (cd_vec c') = CounterDesc P (cd_vec c)"
    "\<forall>l. label_ok P c l \<longrightarrow>
      cd_last c' (label_key l) = (if l = lvs then Some (Fin q) else cd_last c (label_key l))"
    using Observe_drift [OF M _ _ q(2,3) c(2) ok] by blast
  have "label_ok P c' = label_ok P c" by (simp add: label_ok_def c'(3) fun_eq_iff)
  moreover have "?e + pow2 (- 49) * M = of_nat (length (obs @ [ob])) * (pow2 (- 49) * M)"
    by (simp add: algebra_simps)
  ultimately show ?case
    using c c' by (simp add: ob observe_all_snoc q(1))
qed

end

subsection \<open>Properties\<close>

text \<open>
  C13. After at most \<open>2^47\<close> observations of finite values between 0 and \<open>M\<close> on a fresh counter,
  no call has panicked, every observed label set has a child and no other, and the exported value
  differs from the value observed last by at most \<open>n * 2^-49 * M\<close>, where \<open>n\<close> is the number of
  observations: the error of the delta bookkeeping grows linearly with the number of scrapes and
  is negligible for any realistic number of them.
\<close>

theorem counter_drift_bounded:
  assumes "prom_float_counters P" and "1 \<le> M" and "M \<le> 2 ^ 62" and "length obs \<le> 2 ^ 47"
    and "\<forall>(v, lvs) \<in> set obs. (\<exists>q. v = Fin q \<and> 0 \<le> q \<and> q \<le> M) \<and> fits P (o1, ls) lvs \<and> nul_free lvs"
  shows "\<exists>c. observe_all P obs (newCounterDelta (NewCounterVec P o1 ls)) = Some c \<and>
    (\<forall>lvs. case last_observed obs lvs of
       None \<Rightarrow> cd_value P c lvs = None
     | Some l \<Rightarrow> (\<exists>q x. l = Fin q \<and> cd_value P c lvs = Some (Fin x) \<and>
         \<bar>x - q\<bar> \<le> of_nat (length obs) * (pow2 (- 49) * M)))"
proof -
  obtain c where c: "observe_all P obs (newCounterDelta (NewCounterVec P o1 ls)) = Some c"
    "drift_inv P M (of_nat (length obs) * (pow2 (- 49) * M)) c" "CounterDesc P (cd_vec c) = (o1, ls)"
    "\<forall>l. label_ok P c l \<longrightarrow> cd_last c (label_key l) = last_observed obs l"
    using prom_float_counters.observe_all_drift [OF assms] by blast
  have "case last_observed obs lvs of None \<Rightarrow> cd_value P c lvs = None
    | Some l \<Rightarrow> (\<exists>q x. l = Fin q \<and> cd_value P c lvs = Some (Fin x) \<and>
         \<bar>x - q\<bar> \<le> of_nat (length obs) * (pow2 (- 49) * M))" for lvs
  proof (cases "label_ok P c lvs")
    case True
    with c(2,4) have "drifted M (of_nat (length obs) * (pow2 (- 49) * M)) (last_observed obs lvs)
        (cd_value P c lvs)" by (simp add: drift_inv_def)
    then show ?thesis by (cases "last_observed obs lvs") (auto simp: drifted_def)
  next
    case False
    have "lvs \<notin> snd ` set obs"
      using False assms(5) by (auto simp: label_ok_def c(3))
    then have "last_observed obs lvs = None"
      by (auto simp: last_observed_def map_of_eq_None_iff image_iff split: prod.splits)
    with False c(2) show ?thesis by (simp add: drift_inv_def)
  qed
  with c(1) show ?thesis by blast
qed

definition drift_opts :: opts where
  "drift_opts = vec_opts ''pg_stat'' ''statements'' ''total_time_seconds'' ''''"

text \<open>1 ms and 9 ms in seconds, as the \<open>float64\<close>s that PostgreSQL sends.\<close>

definition ms1 :: rat where "ms1 = 1152921504606847 / 1152921504606846976"
definition ms9 :: rat where "ms9 = 5188146770730811 / 576460752303423488"

definition drift_obs :: "(f64 \<times> string list) list" where
  "drift_obs = [(Fin ms1, [''q'']), (Fin ms9, [''q''])]"

lemma ms_bounds [simp]: "0 \<le> ms1" "ms1 \<le> 1" "0 \<le> ms9" "ms9 \<le> 1"
  by (simp_all add: ms1_def ms9_def)

theorem counter_drift_bounded_witness:
  "\<exists>c. observe_all ref_prom drift_obs
      (newCounterDelta (NewCounterVec ref_prom drift_opts [''queryid''])) = Some c \<and>
    (\<forall>lvs. case last_observed drift_obs lvs of
       None \<Rightarrow> cd_value ref_prom c lvs = None
     | Some l \<Rightarrow> (\<exists>q x. l = Fin q \<and> cd_value ref_prom c lvs = Some (Fin x) \<and>
         \<bar>x - q\<bar> \<le> of_nat (length drift_obs) * (pow2 (- 49) * 1)))"
proof (rule counter_drift_bounded [OF ref_float.prom_float_counters_axioms])
  show "\<forall>(v, lvs) \<in> set drift_obs. (\<exists>q. v = Fin q \<and> 0 \<le> q \<and> q \<le> 1) \<and>
      fits ref_prom (drift_opts, [''queryid'']) lvs \<and> nul_free lvs"
    by (simp add: drift_obs_def fits_def ref_prom_def nul_free_def)
qed (simp_all add: drift_obs_def)

text \<open>The drift is real: after a query's total time went from 1 ms to 9 ms, the exporter shows
  the \<open>float64\<close> after the one PostgreSQL sent.\<close>

lemma floor_log2_eqI:
  assumes "pow2 k \<le> q" and "q < pow2 (k + 1)"
  shows "floor_log2 q = k"
proof -
  have "0 < q" using assms(1) pow2_pos [of k] by (rule order_less_le_trans [rotated])
  note b = floor_log2_bounds [OF this]
  have "\<not> k + 1 \<le> floor_log2 q" using pow2_mono [of "k + 1" "floor_log2 q"] b(1) assms(2) by linarith
  moreover have "\<not> floor_log2 q + 1 \<le> k" using pow2_mono [of "floor_log2 q + 1" k] b(2) assms(1) by linarith
  ultimately show ?thesis by linarith
qed

lemma float_counter_drifts:
  "map_option (\<lambda>c. cd_value ref_prom c [''q'']) (observe_all ref_prom drift_obs
      (newCounterDelta (NewCounterVec ref_prom drift_opts [''queryid''])))
    = Some (Some (Fin (ms9 + pow2 (- 59))))"
proof -
  have u1: "ulp_exp (ms9 - ms1) = - 59" "ulp_exp (ms1 + 1152921504606847 / 144115188075855872) = - 59"
    by (simp_all add: ulp_exp_def ms1_def ms9_def floor_log2_eqI [of "- 7"] pow2_def)
  have halves: "\<lfloor>9223372036854775 / 2 :: rat\<rfloor> = 4611686018427387"
    "\<lfloor>10376293541461623 / 2 :: rat\<rfloor> = 5188146770730811"
    by (simp_all add: floor_eq_iff)
  have "round64 (ms9 - ms1) = 1152921504606847 / 144115188075855872"
    unfolding round64_def u1 by (simp add: ms1_def ms9_def pow2_def round_half_even_def Let_def halves)
  then have "mk_f64 (ms9 - ms1) = Fin (1152921504606847 / 144115188075855872)"
    using pow2_1024_large by (simp add: mk_f64_def Let_def)
  moreover
  have "round64 (ms1 + 1152921504606847 / 144115188075855872) = ms9 + pow2 (- 59)"
    unfolding round64_def u1 by (simp add: ms1_def ms9_def pow2_def round_half_even_def Let_def halves)
  then have "mk_f64 (ms1 + 1152921504606847 / 144115188075855872) = Fin (ms9 + pow2 (- 59))"
    using pow2_1024_large by (simp add: mk_f64_def Let_def ms9_def pow2_def)
  ultimately have d: "f64_sub (Fin ms9) (Fin ms1) = Fin (1152921504606847 / 144115188075855872)"
    "f64_add (Fin ms1) (Fin (1152921504606847 / 144115188075855872)) = Fin (ms9 + pow2 (- 59))"
    by (simp_all add: f64_sub_def)
  have less: "\<not> ms9 < ms1" by (simp add: ms1_def ms9_def)
  let ?rv = "RefVec (drift_opts, [''queryid'']) [([''q''], Fin ms1)]"
  have o1: "Observe ref_prom (Fin ms1) [''q''] (newCounterDelta (NewCounterVec ref_prom drift_opts [''queryid'']))
      = Some \<lparr>cd_vec = ?rv, cd_last = [label_key [''q''] \<mapsto> Fin ms1]\<rparr>"
    by (simp add: Observe_def Let_def newCounterDelta_def ref_prom_simps not_less)
  have o2: "Observe ref_prom (Fin ms9) [''q''] \<lparr>cd_vec = ?rv, cd_last = [label_key [''q''] \<mapsto> Fin ms1]\<rparr>
      = Some \<lparr>cd_vec = RefVec (drift_opts, [''queryid'']) [([''q''], Fin (ms9 + pow2 (- 59))), ([''q''], Fin ms1)],
          cd_last = [label_key [''q''] \<mapsto> Fin ms9]\<rparr>"
    using less d by (simp add: Observe_def Let_def ref_prom_simps)
  have "observe_all ref_prom drift_obs (newCounterDelta (NewCounterVec ref_prom drift_opts [''queryid'']))
      = Some \<lparr>cd_vec = RefVec (drift_opts, [''queryid'']) [([''q''], Fin (ms9 + pow2 (- 59))), ([''q''], Fin ms1)],
          cd_last = [label_key [''q''] \<mapsto> Fin ms9]\<rparr>"
    unfolding observe_all_def drift_obs_def by (simp add: o1 o2)
  then show ?thesis by (simp add: cd_value_def ref_prom_simps)
qed

end
