(* ===== verification/MetricNames.thy ===== *)
theory MetricNames
  imports Registry
begin

text \<open>
  The full names \<open><namespace>_<subsystem>_<name>\<close> of the metrics of all collectors. The Prometheus
  registry refuses two metrics of one name with the same constant labels; the lemmas show that
  the collectors never announce such a pair, whatever metric prefix is configured. The names are
  evaluated once, under a marker for each of the three namespaces, into a table of groups (one
  per collector: namespace, subsystem, names), and the comparisons are made on that table.
\<close>

definition kind_opts :: "('cv, 'gv) prom \<Rightarrow> namespaces \<Rightarrow> kind \<Rightarrow> opts list" where
  "kind_opts P g k = map (\<lambda>(f, b, d). fst d) (schema_of P (New_kind k P g []))"

definition marked :: namespaces where
  "marked = \<lparr>namespace = ''A'', namespaceIO = ''B'', namespaceRawPg = ''C''\<rparr>"

definition relabel :: "namespaces \<Rightarrow> opts \<Rightarrow> opts" where
  "relabel g o1 = o1\<lparr>opt_Namespace := (if opt_Namespace o1 = ''A'' then namespace g
     else if opt_Namespace o1 = ''B'' then namespaceIO g else namespaceRawPg g)\<rparr>"

text \<open>The names do not depend on the implementation of the vectors.\<close>

lemma New_kind_opts:
  assumes "prom_vecs P"
  shows "map (\<lambda>(f, b, d). fst d) (schema_of P (New_kind k P g cs)) = map (relabel g) (kind_opts ref_prom marked k)"
  using assms ref.prom_vecs_axioms
  by (cases k) (simp_all add: New_kind.simps schema_of_def Let_def prom_vecs.factory_desc
      kind_opts_def relabel_def vec_opts_def marked_def
      new_collector_defs)

lemma kind_opts_relabel: "prom_vecs P \<Longrightarrow> kind_opts P g k = map (relabel g) (kind_opts ref_prom marked k)"
  unfolding kind_opts_def [of P] by (rule New_kind_opts)

subsection \<open>Groups of names\<close>

type_synonym name_group = "string \<times> string \<times> string list"

definition kind_group :: "kind \<Rightarrow> name_group" where
  "kind_group k = (case kind_opts ref_prom marked k of
     [] \<Rightarrow> ([], [], []) | o1 # os \<Rightarrow> (opt_Namespace o1, opt_Subsystem o1, map opt_Name (o1 # os)))"

definition regular :: "opts list \<Rightarrow> bool" where
  "regular os \<longleftrightarrow> (case os of [] \<Rightarrow> False | o1 # _ \<Rightarrow>
     list_all (\<lambda>o2. opt_Namespace o2 = opt_Namespace o1 \<and> opt_Subsystem o2 = opt_Subsystem o1 \<and>
       opt_Name o2 \<noteq> [] \<and> opt_ConstLabels o2 = []) os \<and> opt_Subsystem o1 \<noteq> [] \<and> opt_Namespace o1 \<in> {''A'', ''B'', ''C''})"

lemma kinds_regular: "list_all (\<lambda>k. regular (kind_opts ref_prom marked k)) all_kinds"
  by code_simp

primrec tails :: "string \<Rightarrow> string list" where
  "tails [] = []"
| "tails (c # s) = (if c = CHR ''_'' then s # tails s else tails s)"

primrec in_group :: "string \<Rightarrow> string \<times> string list \<Rightarrow> bool" where
  "in_group x (s, ns) = (let s' = s @ ''_'' in take (length s') x = s' \<and> drop (length s') x \<in> set ns)"

definition apart :: "string \<times> string list \<Rightarrow> string \<times> string list \<Rightarrow> bool" where
  "apart a b = (case a of (s, ns) \<Rightarrow> case b of (t, ms) \<Rightarrow>
     let s' = s @ ''_''; t' = t @ ''_'' in
     (take (length s') t' \<noteq> s' \<and> take (length t') s' \<noteq> t') \<or> list_all (\<lambda>n. \<not> in_group (s' @ n) b) ns)"

fun all_apart :: "(string \<times> string list) list \<Rightarrow> bool" where
  "all_apart [] = True"
| "all_apart (a # bs) = (distinct (snd a) \<and> list_all (apart a) bs \<and> all_apart bs)"

definition own_groups :: "(string \<times> string list) list" where
  "own_groups = map snd (filter (\<lambda>a. fst a = ''A'') (map kind_group all_kinds))"

definition other_names :: "string list" where
  "other_names = concat (map (\<lambda>(c, s, ns).
      if c = ''A'' then [] else map (\<lambda>n. (if c = ''B'' then ''pg_statio_'' else ''pg_'') @ s @ ''_'' @ n) ns)
     (map kind_group all_kinds))"

definition self_names :: "string list" where
  "self_names = [''up'', ''exporter_scrapes_total'', ''scrape_duration_seconds'',
     ''scrape_errors_total'', ''metric_cardinality'']"

lemma own_apart: "all_apart own_groups"
  by code_simp

lemma others_distinct: "distinct other_names"
  by code_simp

text \<open>None of \<open>xs\<close> is a name of the groups.\<close>

primrec none_in :: "(string \<times> string list) list \<Rightarrow> string list \<Rightarrow> bool" where
  "none_in gs [] = True"
| "none_in gs (x # xs) = (\<not> list_ex (in_group x) gs \<and> none_in gs xs)"

lemma none_in_iff: "none_in gs xs \<longleftrightarrow> (\<forall>x \<in> set xs. \<forall>a \<in> set gs. \<not> in_group x a)"
  by (induction xs) (auto simp: list_ex_iff)

text \<open>The tails of the other names that could be of a group at all: few.\<close>

primrec suspects :: "string list \<Rightarrow> string list \<Rightarrow> string list" where
  "suspects subs [] = []"
| "suspects subs (x # xs) = (if list_ex (\<lambda>s. take (length s) x = s) subs
     then x # suspects subs xs else suspects subs xs)"

definition own_starts :: "string list" where
  "own_starts = map (\<lambda>(s, ns). s @ ''_'') own_groups"

definition other_tails :: "string list" where
  "other_tails = concat (map tails other_names)"

lemma in_group_start: "in_group x (s, ns) \<Longrightarrow> take (length (s @ ''_'')) x = s @ ''_''"
  by (simp add: Let_def)

lemma none_in_suspects:
  assumes "none_in gs (suspects (map (\<lambda>(s, ns). s @ ''_'') gs) xs)"
  shows "none_in gs xs"
  using assms
proof (induction xs)
  case (Cons x xs)
  have "\<not> in_group x a" if "a \<in> set gs" "\<not> list_ex (\<lambda>s. take (length s) x = s) (map (\<lambda>(s, ns). s @ ''_'') gs)" for a
  proof
    assume x: "in_group x a"
    obtain s ns where a: "a = (s, ns)" by (cases a)
    from x have "take (length (s @ ''_'')) x = s @ ''_''" unfolding a by (rule in_group_start)
    moreover have "s @ ''_'' \<in> set (map (\<lambda>(s, ns). s @ ''_'') gs)" using that(1) a by force
    ultimately show False using that(2) unfolding list_ex_iff by blast
  qed
  with Cons show ?case by (auto simp: list_ex_iff split: if_splits)
qed simp

lemma others_apart:
  "none_in own_groups (suspects own_starts other_tails)"
  "list_all (\<lambda>t. t \<notin> set self_names) other_tails"
  by code_simp+

lemma selfs_apart: "distinct self_names" "none_in own_groups self_names"
  by code_simp+

subsection \<open>The names differ\<close>

definition members :: "string \<times> string list \<Rightarrow> string list" where
  "members a = map (\<lambda>n. fst a @ ''_'' @ n) (snd a)"

lemma in_group_members: "in_group x a \<longleftrightarrow> x \<in> set (members a)"
proof (cases a)
  case (Pair s ns)
  have "x \<in> set (members a)" if "take (length (s @ ''_'')) x = s @ ''_''" "drop (length (s @ ''_'')) x \<in> set ns"
  proof -
    have "x = (s @ ''_'') @ drop (length (s @ ''_'')) x"
      using append_take_drop_id [of "length (s @ ''_'')" x] that(1) by metis
    with that(2) show ?thesis by (auto simp: members_def Pair)
  qed
  then show ?thesis by (auto simp: Pair members_def Let_def)
qed

lemma apart_disjoint: "apart a b \<Longrightarrow> set (members a) \<inter> set (members b) = {}"
proof -
  assume "apart a b"
  obtain s ns t ms where ab: "a = (s, ns)" "b = (t, ms)" by (cases a; cases b)
  let ?s = "s @ ''_''" and ?t = "t @ ''_''"
  consider "take (length ?s) ?t \<noteq> ?s" "take (length ?t) ?s \<noteq> ?t"
    | "\<forall>n \<in> set ns. \<not> in_group (?s @ n) b"
    using \<open>apart a b\<close> unfolding apart_def ab Let_def list_all_iff prod.case by blast
  then show ?thesis
  proof cases
    case 1
    have "?s @ n \<noteq> ?t @ m" for n m
    proof
      assume "?s @ n = ?t @ m"
      then obtain us where "?s @ us = ?t \<or> ?t @ us = ?s" by (metis append_eq_append_conv2)
      with 1 show False by (metis append_eq_conv_conj)
    qed
    then show ?thesis unfolding ab members_def by (auto simp del: append_same_eq)
  next
    case 2
    have "x \<in> set (members a) \<Longrightarrow> \<exists>n \<in> set ns. x = ?s @ n" for x by (auto simp: ab members_def)
    with 2 show ?thesis unfolding in_group_members by blast
  qed
qed

lemma all_apart_distinct: "all_apart gs \<Longrightarrow> distinct (concat (map members gs))"
proof (induction gs rule: all_apart.induct)
  case (2 a bs)
  have "distinct (members a)" using 2 by (auto simp: members_def distinct_map inj_on_def)
  moreover have "set (members a) \<inter> set (members b) = {}" if "b \<in> set bs" for b
    using 2 that by (intro apart_disjoint) (simp add: list_all_iff)
  ultimately show ?case using 2 by auto
qed simp

lemma tails_append: "b \<in> set (tails (a @ CHR ''_'' # b))"
  by (induction a) auto

text \<open>The names of one kind under given namespaces.\<close>

definition kind_names :: "('cv, 'gv) prom \<Rightarrow> namespaces \<Rightarrow> kind \<Rightarrow> string list" where
  "kind_names P g k = map fqName (kind_opts P g k)"

definition namespace_of :: "namespaces \<Rightarrow> string \<Rightarrow> string" where
  "namespace_of g c = (if c = ''A'' then namespace g else if c = ''B'' then namespaceIO g else namespaceRawPg g)"

lemma all_kinds_UNIV: "k \<in> set all_kinds"
  by (cases k) (simp_all add: all_kinds_def)

lemma kind_names_eq:
  assumes "prom_vecs P" and "namespace g \<noteq> []" "namespaceIO g \<noteq> []" "namespaceRawPg g \<noteq> []"
  shows "kind_names P g k = (case kind_group k of (c, a) \<Rightarrow> map (\<lambda>x. namespace_of g c @ ''_'' @ x) (members a))"
proof -
  have "regular (kind_opts ref_prom marked k)"
    using kinds_regular all_kinds_UNIV [of k] by (simp add: list_all_iff)
  then obtain o1 os where os: "kind_opts ref_prom marked k = o1 # os" and reg: "regular (o1 # os)"
    by (cases "kind_opts ref_prom marked k") (auto simp: regular_def)
  have "fqName (relabel g o2) = namespace_of g (opt_Namespace o1) @ ''_'' @ opt_Subsystem o1 @ ''_'' @ opt_Name o2"
    if "o2 \<in> set (o1 # os)" for o2
  proof -
    have "opt_Namespace o2 = opt_Namespace o1" "opt_Subsystem o2 = opt_Subsystem o1" "opt_Name o2 \<noteq> []"
      "opt_Subsystem o1 \<noteq> []"
      using reg that by (auto simp: regular_def list_all_iff)
    then show ?thesis using assms(2-4) by (auto simp: fqName_def relabel_def namespace_of_def)
  qed
  then have "map (fqName \<circ> relabel g) (o1 # os) =
      map (\<lambda>o2. namespace_of g (opt_Namespace o1) @ ''_'' @ opt_Subsystem o1 @ ''_'' @ opt_Name o2) (o1 # os)"
    by (intro map_cong refl) simp
  then show ?thesis
    by (simp add: kind_names_def kind_opts_relabel [OF assms(1)] os kind_group_def members_def o_def)
qed

lemma mset_concat_split:
  "mset (concat (map f ks)) = mset (concat (map f (filter Q ks))) + mset (concat (map f (filter (\<lambda>k. \<not> Q k) ks)))"
  by (induction ks) auto

lemma own_names_eq:
  assumes "prom_vecs P" and "namespace g \<noteq> []" "namespaceIO g \<noteq> []" "namespaceRawPg g \<noteq> []"
  shows "concat (map (kind_names P g) (filter (\<lambda>k. fst (kind_group k) = ''A'') ks)) =
    map (\<lambda>x. namespace g @ ''_'' @ x)
      (concat (map members (map snd (filter (\<lambda>a. fst a = ''A'') (map kind_group ks)))))"
  by (induction ks) (auto simp: kind_names_eq [OF assms] namespace_of_def split: prod.splits)

lemma other_names_eq:
  assumes "prom_vecs P" and "namespace g \<noteq> []" "namespaceIO g = ''pg_statio''" "namespaceRawPg g = ''pg''"
  shows "concat (map (kind_names P g) (filter (\<lambda>k. fst (kind_group k) \<noteq> ''A'') ks)) =
    concat (map (\<lambda>(c, s, ns).
      if c = ''A'' then [] else map (\<lambda>n. (if c = ''B'' then ''pg_statio_'' else ''pg_'') @ s @ ''_'' @ n) ns)
     (map kind_group ks))"
proof -
  have n: "namespaceIO g \<noteq> []" "namespaceRawPg g \<noteq> []" using assms(3,4) by simp_all
  show ?thesis
    by (induction ks) (auto simp: kind_names_eq [OF assms(1,2) n] namespace_of_def members_def assms(3,4) split: prod.splits)
qed

text \<open>What a new collector describes has these names.\<close>

lemma Describe_names:
  assumes "prom_vecs P"
  shows "mset (map (fqName \<circ> fst) (Describe_kind k P (New_kind k P g cs))) = mset (kind_names P g k)"
proof -
  let ?c = "New_kind k P g cs"
  have "mset (map (fqName \<circ> fst) (Describe_kind k P ?c)) =
      image_mset (fqName \<circ> fst) (mset (map (vec_desc P \<circ> snd) (vecs ?c)))"
    by (simp add: Describe_kind_all [of ?c k P g cs])
  also have "\<dots> = mset (map fqName (map (\<lambda>(f, b, d). fst d) (schema_of P ?c)))"
    by (simp add: schema_of_def o_def case_prod_beta multiset.map_comp)
  also have "\<dots> = mset (kind_names P g k)"
    by (simp only: New_kind_opts [OF assms] kind_names_def kind_opts_relabel [OF assms])
  finally show ?thesis .
qed

text \<open>The names of all collectors and of the exporter itself, under any prefix.\<close>

definition self_fqNames :: "namespaces \<Rightarrow> string list" where
  "self_fqNames g = map (\<lambda>x. namespace g @ ''_'' @ x) self_names"

lemma all_names_distinct:
  assumes "prom_vecs P" and "namespace g \<noteq> []" "namespaceIO g = ''pg_statio''" "namespaceRawPg g = ''pg''"
  shows "distinct (self_fqNames g @ concat (map (kind_names P g) all_kinds))"
proof -
  let ?p = "\<lambda>x. namespace g @ ''_'' @ x"
  let ?own = "concat (map members own_groups)"
  have n: "namespaceIO g \<noteq> []" "namespaceRawPg g \<noteq> []" using assms(3,4) by simp_all
  have m: "mset (concat (map (kind_names P g) all_kinds)) = mset (map ?p ?own) + mset other_names"
    unfolding mset_concat_split [of "kind_names P g" all_kinds "\<lambda>k. fst (kind_group k) = ''A''"]
      own_names_eq [OF assms(1,2) n] other_names_eq [OF assms] own_groups_def other_names_def ..
  have inj: "inj ?p" by (simp add: inj_def)
  have own: "distinct ?own" by (rule all_apart_distinct [OF own_apart])
  have ni: "\<not> in_group x a" if "x \<in> set other_tails \<union> set self_names" "a \<in> set own_groups" for x a
    using that none_in_suspects [OF others_apart(1) [unfolded own_starts_def]] selfs_apart(2)
    by (auto simp: none_in_iff)
  then have not_own: "x \<notin> set ?own" if "x \<in> set other_tails \<union> set self_names" for x
    using that by (auto simp: in_group_members)
  have other: "?p x \<notin> set other_names" if "x \<in> set self_names \<union> set ?own" for x
  proof
    assume "?p x \<in> set other_names"
    then have "x \<in> set other_tails"
      using tails_append [of x "namespace g"] by (auto simp: other_tails_def)
    with that not_own others_apart(2) show False by (auto simp: list_all_iff)
  qed
  have "distinct (map ?p (self_names @ ?own) @ other_names)"
    using own not_own other others_distinct selfs_apart(1) inj
    by (auto simp: distinct_map inj_on_def)
  moreover have "mset (map ?p (self_names @ ?own) @ other_names) =
      mset (self_fqNames g @ concat (map (kind_names P g) all_kinds))"
    by (simp add: m self_fqNames_def)
  ultimately show ?thesis using mset_eq_imp_distinct_iff by metis
qed

lemma distinct_concat_filter:
  "distinct (xs @ concat (map f ks)) \<Longrightarrow> distinct (xs @ concat (map f (filter Q ks)))"
  by (induction ks arbitrary: xs) auto

end
