(* ===== verification/Announce.thy ===== *)
theory Announce
  imports ExporterProps MetricNames
begin

text \<open>
  What the exporter announces to a Prometheus registry (\<open>Describe\<close> in \<open>exporter/exporter.go\<close>).
  The registry identifies a metric by its full name and its constant labels: it refuses two
  of one name with different label names or help texts, and it refuses a collector that announces
  a metric which is registered already. One exporter never announces a name twice; two exporters
  of one process announce the same metrics, whatever their \<open>Name\<close>.
\<close>

text \<open>The package variables as \<open>applyMetricPrefix\<close> keeps them.\<close>

definition globals_ok :: "globals \<Rightarrow> bool" where
  "globals_ok g \<longleftrightarrow> namespace (g_collectors g) = g_namespace g \<and> g_namespace g \<noteq> [] \<and>
     namespaceIO (g_collectors g) = ''pg_statio'' \<and> namespaceRawPg (g_collectors g) = ''pg''"

lemma initial_globals_ok: "globals_ok initial_globals"
  by (simp add: globals_ok_def initial_globals_def initial_namespaces_def)

lemma applyMetricPrefix_ok: "globals_ok g \<Longrightarrow> globals_ok (applyMetricPrefix p g)"
  by (simp add: globals_ok_def applyMetricPrefix_def SetMetricPrefix_def)

lemma applyMetricPrefix_idem: "applyMetricPrefix p (applyMetricPrefix p g) = applyMetricPrefix p g"
  by (simp add: applyMetricPrefix_def SetMetricPrefix_def)

subsection \<open>The descriptors of a new exporter\<close>

lemma preinit_desc:
  assumes "prom_counters P" and "preinit P ns cv = Some cv'"
  shows "CounterDesc P cv' = CounterDesc P cv"
  by (rule fold_opt_invariant [OF _ _ assms(2) [unfolded preinit_def], where I = "\<lambda>c. CounterDesc P c = CounterDesc P cv"])
    (auto dest: prom_counters.counter_add_desc [OF assms(1)])

definition self_descs :: "string \<Rightarrow> string \<Rightarrow> desc list" where
  "self_descs ns nm = (let cl = (if nm \<noteq> [] then [(''database'', nm)] else []) in
     [(self_opts ns ''up'' ''Was the last scrape of PostgreSQL successful.'' cl, []),
      (self_opts ns ''exporter_scrapes_total'' ''Current total PostgreSQL scrapes'' cl, []),
      (self_opts ns ''scrape_duration_seconds'' ''Time spent scraping a collector, seconds.'' cl, [''collector'']),
      (self_opts ns ''scrape_errors_total'' ''Scrape errors by collector.'' cl, [''collector'']),
      (self_opts ns ''metric_cardinality'' ''Metric count emitted by a collector on its last scrape.'' cl, [''collector''])])"

lemma new_exporter_fields:
  assumes "exporter_New P S B g opts = Some (Inr e, g')"
  shows "g' = applyMetricPrefix (MetricPrefix opts) g \<and> (\<exists>cs R.
    R = fst (ResolveCollectors P (g_collectors g') cs (EnabledCollectors opts) (DisabledCollectors opts)) \<and>
    (let cl = (if opts_Name opts \<noteq> [] then [(''database'', opts_Name opts)] else []); ns = g_namespace g' in
     ex_collectors e = map (\<lambda>nc. (nc_Name nc, Builtin (nc_kind nc) (nc_collector nc))) R \<and>
     ex_up e = (self_opts ns ''up'' ''Was the last scrape of PostgreSQL successful.'' cl, []) \<and>
     ex_totalScrapes e = NewCounter S (self_opts ns ''exporter_scrapes_total'' ''Current total PostgreSQL scrapes'' cl) \<and>
     ex_scrapeDuration e = NewHistogramVec S (self_opts ns ''scrape_duration_seconds''
       ''Time spent scraping a collector, seconds.'' cl) duration_buckets [''collector''] \<and>
     preinit P (map nc_Name R) (NewCounterVec P (self_opts ns ''scrape_errors_total''
       ''Scrape errors by collector.'' cl) [''collector'']) = Some (ex_scrapeErrors e) \<and>
     ex_metricCardinality e = NewGaugeVec P (self_opts ns ''metric_cardinality''
       ''Metric count emitted by a collector on its last scrape.'' cl) [''collector'']))"
proof -
  from assms obtain clients where c: "DBOpts opts \<noteq> []" "new_clients B 0 (DBOpts opts) = Some (Inr clients)"
    by (auto simp: exporter_New_def Let_def split: option.splits sum.splits if_split_asm)
  let ?g = "applyMetricPrefix (MetricPrefix opts) g"
  let ?cl = "if opts_Name opts \<noteq> [] then [(''database'', opts_Name opts)] else []"
  define R where "R = fst (ResolveCollectors P (g_collectors ?g) [0..<length clients] (EnabledCollectors opts)
    (DisabledCollectors opts))"
  define E where "E = NewCounterVec P (self_opts (g_namespace ?g) ''scrape_errors_total'' ''Scrape errors by collector.'' ?cl)
    [''collector'']"
  note new = assms [unfolded exporter_New_def Let_def if_not_P [OF c(1)] c(2) option.case sum.case, folded R_def, folded E_def]
  then obtain errs where errs: "preinit P (map nc_Name R) E = Some errs" by (auto split: option.splits)
  note new = new [unfolded errs option.case option.inject prod.inject sum.inject]
  then have g': "g' = ?g" and e: "ex_collectors e = map (\<lambda>nc. (nc_Name nc, Builtin (nc_kind nc) (nc_collector nc))) R"
    "ex_scrapeErrors e = errs" by auto
  show ?thesis
    unfolding Let_def g'
  proof (intro conjI refl exI)
    show "R = fst (ResolveCollectors P (g_collectors ?g) [0..<length clients] (EnabledCollectors opts)
      (DisabledCollectors opts))" by (rule R_def)
    show "preinit P (map nc_Name R) (NewCounterVec P (self_opts (g_namespace ?g) ''scrape_errors_total''
      ''Scrape errors by collector.'' ?cl) [''collector'']) = Some (ex_scrapeErrors e)"
      using errs by (simp add: E_def e(2))
  qed (use new in auto)
qed

lemma new_exporter_describes:
  assumes "prom_vecs P" and "self_metrics P S"
    and "exporter_New P S B g opts = Some (Inr e, g')"
  shows "g' = applyMetricPrefix (MetricPrefix opts) g \<and> (\<exists>cs (Q :: collectorEntry \<Rightarrow> bool).
    map fst (ex_collectors e) = map ce_Name (filter Q collectorRegistry) \<and>
    exporter_Describe P S cd e = self_descs (g_namespace g') (opts_Name opts) @
      concat (map (\<lambda>k. Describe_kind k P (New_kind k P (g_collectors g') cs))
        (map ce_New (filter Q collectorRegistry))))"
proof -
  note C = prom_vecs.axioms(1) [OF assms(1)]
  note new = prom_counters.counter_new_desc [OF C] prom_gauges.gauge_new_desc [OF prom_vecs.axioms(2) [OF assms(1)]]
    self_metrics.counter_new [OF assms(2)] self_metrics.histogram_new_desc [OF assms(2)]
  from new_exporter_fields [OF assms(3)] obtain cs R where g': "g' = applyMetricPrefix (MetricPrefix opts) g"
    and R: "R = fst (ResolveCollectors P (g_collectors g') cs (EnabledCollectors opts) (DisabledCollectors opts))"
    and coll: "ex_collectors e = map (\<lambda>nc. (nc_Name nc, Builtin (nc_kind nc) (nc_collector nc))) R"
    and fields: "let cl = (if opts_Name opts \<noteq> [] then [(''database'', opts_Name opts)] else []); ns = g_namespace g' in
     ex_up e = (self_opts ns ''up'' ''Was the last scrape of PostgreSQL successful.'' cl, []) \<and>
     ex_totalScrapes e = NewCounter S (self_opts ns ''exporter_scrapes_total'' ''Current total PostgreSQL scrapes'' cl) \<and>
     ex_scrapeDuration e = NewHistogramVec S (self_opts ns ''scrape_duration_seconds''
       ''Time spent scraping a collector, seconds.'' cl) duration_buckets [''collector''] \<and>
     preinit P (map nc_Name R) (NewCounterVec P (self_opts ns ''scrape_errors_total''
       ''Scrape errors by collector.'' cl) [''collector'']) = Some (ex_scrapeErrors e) \<and>
     ex_metricCardinality e = NewGaugeVec P (self_opts ns ''metric_cardinality''
       ''Metric count emitted by a collector on its last scrape.'' cl) [''collector'']"
    unfolding Let_def by blast
  have selfs: "[ex_up e, m_desc (CounterMetric S (ex_totalScrapes e)), HistogramDesc S (ex_scrapeDuration e),
      CounterDesc P (ex_scrapeErrors e), GaugeDesc P (ex_metricCardinality e)] = self_descs (g_namespace g') (opts_Name opts)"
    using fields by (cases "opts_Name opts = []") (auto simp: Let_def new self_descs_def dest!: preinit_desc [OF C])
  define Q :: "collectorEntry \<Rightarrow> bool" where "Q = (\<lambda>e. (if EnabledCollectors opts \<noteq> [] then ce_Name e \<in> set (EnabledCollectors opts) else ce_Default e) \<and>
    ce_Name e \<notin> set (DisabledCollectors opts))"
  have R': "R = map (\<lambda>e. \<lparr>nc_Name = ce_Name e, nc_kind = ce_New e,
      nc_collector = New_kind (ce_New e) P (g_collectors g') cs\<rparr>) (filter Q collectorRegistry)"
    unfolding R ResolveCollectors_fst Q_def ..
  show ?thesis
    unfolding exporter_Describe_def selfs coll R'
    by (intro conjI g' exI [of _ cs] exI [of _ Q]) (simp_all add: o_def)
qed

text \<open>Every kind describes a metric without constant labels, whatever its clients.\<close>

lemma kind_described:
  assumes "prom_vecs P"
  shows "\<exists>d. (\<forall>cs. d \<in> set (Describe_kind k P (New_kind k P g cs))) \<and> opt_ConstLabels (fst d) = []"
proof -
  have "regular (kind_opts ref_prom marked k)"
    using kinds_regular all_kinds_UNIV [of k] by (simp add: list_all_iff)
  then obtain o1 os where o1: "kind_opts ref_prom marked k = o1 # os" "opt_ConstLabels o1 = []"
    by (cases "kind_opts ref_prom marked k") (auto simp: regular_def)
  have "map (\<lambda>(f, b, d). fst d) (schema_of P (New_kind k P g [])) = map (relabel g) (o1 # os)"
    unfolding New_kind_opts [OF assms] o1(1) ..
  then obtain f b d rest where d: "schema_of P (New_kind k P g []) = (f, b, d) # rest" "fst d = relabel g o1"
    by (auto simp: Cons_eq_map_conv)
  then have mem: "d \<in> set (map (vec_desc P \<circ> snd) (vecs (New_kind k P g [])))"
    by (force simp: schema_of_def Cons_eq_map_conv)
  have "d \<in> set (Describe_kind k P (New_kind k P g cs))" for cs
  proof -
    have "mset (Describe_kind k P (New_kind k P g cs)) = mset (map (vec_desc P \<circ> snd) (vecs (New_kind k P g cs)))"
      by (rule Describe_kind_all) simp
    then have "set (Describe_kind k P (New_kind k P g cs)) = set (map (vec_desc P \<circ> snd) (vecs (New_kind k P g cs)))"
      by (metis set_mset_mset)
    then show ?thesis using mem by (simp add: New_kind_vecs [of k P g cs])
  qed
  then show ?thesis using d(2) o1(2) by (intro exI [of _ d]) (simp add: relabel_def)
qed

subsection \<open>Properties\<close>

text \<open>
  C14. Whatever metric prefix is configured and whatever collectors are selected, a new exporter
  announces no metric name twice: the names of its own five metrics and of all selected
  collectors are pairwise different, so that no name has two label sets or help texts.
\<close>

theorem announced_names_distinct:
  assumes "prom_vecs P" and "self_metrics P S" and "globals_ok g"
    and "exporter_New P S B g opts = Some (Inr e, g')"
  shows "distinct (map (fqName \<circ> fst) (exporter_Describe P S cd e)) \<and> globals_ok g'"
proof -
  from new_exporter_describes [OF assms(1,2,4)] obtain cs Q where g': "g' = applyMetricPrefix (MetricPrefix opts) g"
    and D: "exporter_Describe P S cd e = self_descs (g_namespace g') (opts_Name opts) @
      concat (map (\<lambda>k. Describe_kind k P (New_kind k P (g_collectors g') cs)) (map ce_New (filter Q collectorRegistry)))"
    by blast
  have ok: "globals_ok g'" unfolding g' by (rule applyMetricPrefix_ok [OF assms(3)])
  let ?G = "g_collectors g'"
  from ok have n: "namespace ?G \<noteq> []" "namespaceIO ?G = ''pg_statio''" "namespaceRawPg ?G = ''pg''"
    by (simp_all add: globals_ok_def)
  have selfs: "map (fqName \<circ> fst) (self_descs (g_namespace g') (opts_Name opts)) = self_fqNames ?G"
    using ok by (simp add: self_descs_def Let_def self_opts_def fqName_def self_fqNames_def self_names_def globals_ok_def)
  have "mset (map (fqName \<circ> fst) (concat (map (\<lambda>k. Describe_kind k P (New_kind k P ?G cs)) ks))) =
      mset (concat (map (kind_names P ?G) ks))" for ks
    using Describe_names [OF assms(1), of _ ?G cs] by (induction ks) simp_all
  then have "mset (map (fqName \<circ> fst) (exporter_Describe P S cd e)) =
      mset (self_fqNames ?G @ concat (map (kind_names P ?G) (map ce_New (filter Q collectorRegistry))))"
    unfolding D by (simp only: map_append selfs mset_append)
  moreover have "distinct (self_fqNames ?G @ concat (map (kind_names P ?G) (map ce_New (filter Q collectorRegistry))))"
    using distinct_concat_filter [of "self_fqNames ?G" "kind_names P ?G \<circ> ce_New" collectorRegistry Q]
      all_names_distinct [OF assms(1) n]
    by (simp add: registry_kinds [symmetric])
  ultimately show ?thesis using mset_eq_imp_distinct_iff ok by metis
qed

lemma demo_New_succeeds:
  "\<exists>e :: (refvec, refvec, metric, refhist, nat) exporter.
     exporter_New ref_prom ref_self demo_boot initial_globals ((demo_exporter_Opts 0)\<lparr>opts_Name := nm\<rparr>) =
       Some (Inr e, applyMetricPrefix ''pg'' initial_globals) \<and> fst ` set (ex_collectors e) = {''locks''}"
  "\<exists>e :: (refvec, refvec, metric, refhist, nat) exporter.
     exporter_New ref_prom ref_self demo_boot (applyMetricPrefix ''pg'' initial_globals) ((demo_exporter_Opts 0)\<lparr>opts_Name := nm\<rparr>) =
       Some (Inr e, applyMetricPrefix ''pg'' initial_globals) \<and> fst ` set (ex_collectors e) = {''locks''}"
proof -
  let ?o = "(demo_exporter_Opts 0)\<lparr>opts_Name := nm\<rparr>"
  have "\<exists>cs. new_clients demo_boot 0 (DBOpts ?o) = Some (Inr cs)"
    by (simp add: demo_boot_def demo_exporter_Opts_def demo_Opts_def db_New_def dial.simps)
  then obtain cs where cs: "new_clients demo_boot 0 (DBOpts ?o) = Some (Inr cs)" ..
  have some: "DBOpts ?o \<noteq> []" by (simp add: demo_exporter_Opts_def)
  have names: "map nc_Name (fst (ResolveCollectors ref_prom g cl (EnabledCollectors ?o) (DisabledCollectors ?o))) = [''locks'']" for g cl
  proof -
    have "map ce_Name (filter (\<lambda>e. ce_Name e \<in> set [''locks''] \<and> ce_Name e \<notin> set []) collectorRegistry) = [''locks'']"
      by code_simp
    then show ?thesis
      unfolding ResolveCollectors_fst by (simp add: demo_exporter_Opts_def o_def)
  qed
  have prefix: "MetricPrefix ?o = ''pg''" by (simp add: demo_exporter_Opts_def)
  have some_e: "\<exists>e :: (refvec, refvec, metric, refhist, nat) exporter.
     exporter_New ref_prom ref_self demo_boot g ?o = Some (Inr e, applyMetricPrefix ''pg'' g) \<and>
     fst ` set (ex_collectors e) = {''locks''}" for g
  proof -
    from exporter_New_connected [OF ref.prom_vecs_axioms ref_self.self_metrics_axioms demo_names_ok some cs, of g]
    obtain e :: "(refvec, refvec, metric, refhist, nat) exporter" where
      "exporter_New ref_prom ref_self demo_boot g ?o = Some (Inr e, applyMetricPrefix (MetricPrefix ?o) g)"
      "map fst (ex_collectors e) = map nc_Name (fst (ResolveCollectors ref_prom (g_collectors (applyMetricPrefix (MetricPrefix ?o) g))
        [0..<length cs] (EnabledCollectors ?o) (DisabledCollectors ?o)))"
      by blast
    moreover from arg_cong [OF this(2) [unfolded names], of set] have "fst ` set (ex_collectors e) = {''locks''}" by simp
    ultimately show ?thesis unfolding prefix by blast
  qed
  from some_e [of initial_globals] show "\<exists>e :: (refvec, refvec, metric, refhist, nat) exporter.
     exporter_New ref_prom ref_self demo_boot initial_globals ?o =
       Some (Inr e, applyMetricPrefix ''pg'' initial_globals) \<and> fst ` set (ex_collectors e) = {''locks''}" .
  from some_e [of "applyMetricPrefix ''pg'' initial_globals"] show "\<exists>e :: (refvec, refvec, metric, refhist, nat) exporter.
     exporter_New ref_prom ref_self demo_boot (applyMetricPrefix ''pg'' initial_globals) ?o =
       Some (Inr e, applyMetricPrefix ''pg'' initial_globals) \<and> fst ` set (ex_collectors e) = {''locks''}"
    unfolding applyMetricPrefix_idem .
qed

theorem announced_names_distinct_witness:
  "\<exists>(e :: (refvec, refvec, metric, refhist, nat) exporter) g'.
     exporter_New ref_prom ref_self demo_boot initial_globals ((demo_exporter_Opts 0)\<lparr>opts_Name := ''main''\<rparr>) = Some (Inr e, g') \<and>
     distinct (map (fqName \<circ> fst) (exporter_Describe ref_prom ref_self (\<lambda>_. []) e)) \<and> globals_ok g'"
proof -
  obtain e :: "(refvec, refvec, metric, refhist, nat) exporter" where
    e: "exporter_New ref_prom ref_self demo_boot initial_globals ((demo_exporter_Opts 0)\<lparr>opts_Name := ''main''\<rparr>) =
      Some (Inr e, applyMetricPrefix ''pg'' initial_globals)"
    using demo_New_succeeds(1) by blast
  from announced_names_distinct [OF ref.prom_vecs_axioms ref_self.self_metrics_axioms initial_globals_ok this] e
  show ?thesis by blast
qed

text \<open>
  Two exporters created one after the other with the same prefix announce every metric of a
  collector they both run with the same name and without constant labels, whatever their \<open>Name\<close>
  is: the registry that has the first refuses the second. Only the five metrics of the exporter
  itself carry \<open>Name\<close>.
\<close>

theorem name_does_not_disambiguate:
  assumes "prom_vecs P" and "self_metrics P S"
    and "exporter_New P S B1 g opts1 = Some (Inr e1, g1)" and "exporter_New P S B2 g1 opts2 = Some (Inr e2, g2)"
    and "MetricPrefix opts2 = MetricPrefix opts1"
    and "n \<in> fst ` set (ex_collectors e1)" and "n \<in> fst ` set (ex_collectors e2)"
  shows "\<exists>d. d \<in> set (exporter_Describe P S cd1 e1) \<and> d \<in> set (exporter_Describe P S cd2 e2) \<and>
    opt_ConstLabels (fst d) = []"
proof -
  from new_exporter_describes [OF assms(1,2,3)] obtain cs1 Q1 where g1: "g1 = applyMetricPrefix (MetricPrefix opts1) g"
    and n1: "map fst (ex_collectors e1) = map ce_Name (filter Q1 collectorRegistry)"
    and D1: "exporter_Describe P S cd1 e1 = self_descs (g_namespace g1) (opts_Name opts1) @
      concat (map (\<lambda>k. Describe_kind k P (New_kind k P (g_collectors g1) cs1)) (map ce_New (filter Q1 collectorRegistry)))"
    by blast
  from new_exporter_describes [OF assms(1,2,4)] obtain cs2 Q2 where g2: "g2 = applyMetricPrefix (MetricPrefix opts2) g1"
    and n2: "map fst (ex_collectors e2) = map ce_Name (filter Q2 collectorRegistry)"
    and D2: "exporter_Describe P S cd2 e2 = self_descs (g_namespace g2) (opts_Name opts2) @
      concat (map (\<lambda>k. Describe_kind k P (New_kind k P (g_collectors g2) cs2)) (map ce_New (filter Q2 collectorRegistry)))"
    by blast
  have same: "g2 = g1" unfolding g1 g2 assms(5) by (rule applyMetricPrefix_idem)
  have "n \<in> set (map fst (ex_collectors e1))" using assms(6) by simp
  then obtain x1 where x1: "x1 \<in> set collectorRegistry" "Q1 x1" "ce_Name x1 = n"
    unfolding n1 by auto
  have "n \<in> set (map fst (ex_collectors e2))" using assms(7) by simp
  then obtain x2 where x2: "x2 \<in> set collectorRegistry" "Q2 x2" "ce_Name x2 = n"
    unfolding n2 by auto
  have "x2 = x1" using registry_names_distinct x1 x2 by (auto simp: distinct_map dest: inj_onD)
  obtain d where d: "d \<in> set (Describe_kind (ce_New x1) P (New_kind (ce_New x1) P (g_collectors g1) cs))"
      "opt_ConstLabels (fst d) = []" for cs
    using kind_described [OF assms(1)] by blast
  have "d \<in> set (exporter_Describe P S cd1 e1)" unfolding D1 using x1 d(1) by auto
  moreover have "d \<in> set (exporter_Describe P S cd2 e2)" unfolding D2 same using x2 d(1) \<open>x2 = x1\<close> by auto
  ultimately show ?thesis using d(2) by blast
qed

theorem name_does_not_disambiguate_witness:
  "\<exists>(e1 :: (refvec, refvec, metric, refhist, nat) exporter) (e2 :: (refvec, refvec, metric, refhist, nat) exporter) g1 g2 d.
     exporter_New ref_prom ref_self demo_boot initial_globals ((demo_exporter_Opts 0)\<lparr>opts_Name := ''main''\<rparr>) = Some (Inr e1, g1) \<and>
     exporter_New ref_prom ref_self demo_boot g1 ((demo_exporter_Opts 0)\<lparr>opts_Name := ''replica''\<rparr>) = Some (Inr e2, g2) \<and>
     d \<in> set (exporter_Describe ref_prom ref_self (\<lambda>_. []) e1) \<and> d \<in> set (exporter_Describe ref_prom ref_self (\<lambda>_. []) e2)"
proof -
  let ?g = "applyMetricPrefix ''pg'' initial_globals"
  obtain e1 :: "(refvec, refvec, metric, refhist, nat) exporter" where
    e1: "exporter_New ref_prom ref_self demo_boot initial_globals ((demo_exporter_Opts 0)\<lparr>opts_Name := ''main''\<rparr>) = Some (Inr e1, ?g)"
      "fst ` set (ex_collectors e1) = {''locks''}"
    using demo_New_succeeds(1) by blast
  obtain e2 :: "(refvec, refvec, metric, refhist, nat) exporter" where
    e2: "exporter_New ref_prom ref_self demo_boot ?g ((demo_exporter_Opts 0)\<lparr>opts_Name := ''replica''\<rparr>) = Some (Inr e2, ?g)"
      "fst ` set (ex_collectors e2) = {''locks''}"
    using demo_New_succeeds(2) by blast
  have "\<exists>d. d \<in> set (exporter_Describe ref_prom ref_self (\<lambda>_. []) e1) \<and>
      d \<in> set (exporter_Describe ref_prom ref_self (\<lambda>_. []) e2) \<and> opt_ConstLabels (fst d) = []"
    by (rule name_does_not_disambiguate [OF ref.prom_vecs_axioms ref_self.self_metrics_axioms e1(1) e2(1)])
      (simp_all add: e1(2) e2(2))
  with e1(1) e2(1) show ?thesis by blast
qed

end
