(* ===== verification/History.thy ===== *)
theory History
  imports ExporterProps
begin

text \<open>
  The life of an exporter: a sequence of scrapes, each with its own outside, from the exporter
  that the one before has left. The lemmas show that no scrape panics and what the exporter's own
  metrics say after any number of them.
\<close>

fun Collects :: "('cv, 'gv) prom \<Rightarrow> ('c, 'hv, 'hm) self_prom \<Rightarrow> 'k scrape_env list \<Rightarrow>
    ('cv, 'gv, 'c, 'hv, 'k) exporter \<Rightarrow> ('hm sent list list \<times> ('cv, 'gv, 'c, 'hv, 'k) exporter) option" where
  "Collects P S [] e = Some ([], e)"
| "Collects P S (env # envs) e =
     (case exporter_Collect P S env e of
        None \<Rightarrow> None
      | Some (sent, e') \<Rightarrow> map_option (\<lambda>(outs, e''). (sent # outs, e'')) (Collects P S envs e'))"

text \<open>The results of the collectors in each of the scrapes.\<close>

fun scrape_results :: "('cv, 'gv) prom \<Rightarrow> ('c, 'hv, 'hm) self_prom \<Rightarrow> 'k scrape_env list \<Rightarrow>
    ('cv, 'gv, 'c, 'hv, 'k) exporter \<Rightarrow> ('cv, 'gv, 'k) run list list" where
  "scrape_results P S [] e = []"
| "scrape_results P S (env # envs) e =
     (case (collector_runs P env e, exporter_Collect P S env e) of
        (Some runs, Some (_, e')) \<Rightarrow> runs # scrape_results P S envs e'
      | _ \<Rightarrow> [])"

text \<open>Every scrape finds an outside that makes no collector panic, and every collector reports once.\<close>

fun benign_history :: "('cv, 'gv) prom \<Rightarrow> ('c, 'hv, 'hm) self_prom \<Rightarrow> 'k scrape_env list \<Rightarrow>
    ('cv, 'gv, 'c, 'hv, 'k) exporter \<Rightarrow> bool" where
  "benign_history P S [] e \<longleftrightarrow> True"
| "benign_history P S (env # envs) e \<longleftrightarrow> errgroup (se_wait env) \<and>
     distinct (se_order env) \<and> set (se_order env) = {..<length (ex_collectors e)} \<and>
     (\<forall>i < length (ex_collectors e). scrape_benign P env (ex_dbClients e) i (snd (ex_collectors e ! i))) \<and>
     (case exporter_Collect P S env e of None \<Rightarrow> True | Some (_, e') \<Rightarrow> benign_history P S envs e')"

lemma Collects_append:
  "Collects P S (envs @ envs') e = (case Collects P S envs e of None \<Rightarrow> None
     | Some (outs, e') \<Rightarrow> map_option (\<lambda>(outs', e''). (outs @ outs', e'')) (Collects P S envs' e'))"
proof (induction envs arbitrary: e)
  case Nil
  show ?case by (cases "Collects P S envs' e") auto
next
  case (Cons env envs)
  then show ?case
    by (auto simp: option.map_comp o_def case_prod_beta split: option.splits)
qed

subsection \<open>One step of the history\<close>

definition totals :: "('c, 'hv, 'hm) self_prom \<Rightarrow> ('cv, 'gv, 'c, 'hv, 'k) exporter \<Rightarrow> nat \<Rightarrow> bool" where
  "totals S e t \<longleftrightarrow> m_value (CounterMetric S (ex_totalScrapes e)) = f64_of_int (int t)"

definition fails :: "nat \<Rightarrow> ('cv, 'gv, 'k) run list list \<Rightarrow> nat" where
  "fails i rss = length (filter (\<lambda>rs. run_err (rs ! i) \<noteq> None) rss)"

lemma fails_Nil [simp]: "fails i [] = 0"
  by (simp add: fails_def)

lemma fails_Cons [simp]: "fails i (rs # rss) = (if run_err (rs ! i) = None then 0 else 1) + fails i rss"
  by (simp add: fails_def)

lemma fails_le: "fails i rss \<le> length rss"
  by (simp add: fails_def)

text \<open>The exporter's own metrics of the collector at \<open>i\<close>, before and after the runs \<open>rss\<close>.\<close>

definition tallied :: "('cv, 'gv) prom \<Rightarrow> ('c, 'hv, 'hm) self_prom \<Rightarrow> nat \<Rightarrow> ('cv, 'gv, 'k) run list list \<Rightarrow>
    ('cv, 'gv, 'c, 'hv, 'k) exporter \<Rightarrow> ('cv, 'gv, 'c, 'hv, 'k) exporter \<Rightarrow> bool" where
  "tallied P S i rss e e' \<longleftrightarrow> (let name = fst (ex_collectors e ! i) in
     HistogramCount S (ex_scrapeDuration e') [name] = HistogramCount S (ex_scrapeDuration e) [name] + length rss \<and>
     (\<forall>k. k + length rss \<le> 2 ^ 53 \<and> counted P (ex_scrapeErrors e) name k \<longrightarrow>
        counted P (ex_scrapeErrors e') name (k + fails i rss)) \<and>
     prom.GaugeValue P (ex_metricCardinality e') [name] =
       (if rss = [] then prom.GaugeValue P (ex_metricCardinality e) [name]
        else Some (f64_of_int (int (length (run_metrics (last rss ! i)))))))"

lemma tallied_Nil: "tallied P S i [] e e"
  by (simp add: tallied_def)

lemma tallied_Cons:
  assumes "recorded P S (fst (ex_collectors e ! i)) (rs ! i)
      (ex_scrapeDuration e, ex_scrapeErrors e, ex_metricCardinality e)
      (ex_scrapeDuration e1, ex_scrapeErrors e1, ex_metricCardinality e1)"
    and "fst (ex_collectors e1 ! i) = fst (ex_collectors e ! i)" and "tallied P S i rss e1 e2"
  shows "tallied P S i (rs # rss) e e2"
proof -
  let ?name = "fst (ex_collectors e ! i)"
  let ?d = "if run_err (rs ! i) = None then 0 else (1 :: nat)"
  have errs: "counted P (ex_scrapeErrors e2) ?name (k + fails i (rs # rss))"
    if k: "k + length (rs # rss) \<le> 2 ^ 53" "counted P (ex_scrapeErrors e) ?name k" for k
  proof -
    have "k < 2 ^ 53" using k(1) by simp
    with k(2) assms(1) have "counted P (ex_scrapeErrors e1) ?name (k + ?d)"
      unfolding recorded_def by simp
    moreover have "k + ?d + length rss \<le> 2 ^ 53" using k(1) by simp
    ultimately have "counted P (ex_scrapeErrors e2) ?name (k + ?d + fails i rss)"
      using assms(2,3) unfolding tallied_def by (metis (no_types))
    then show ?thesis by (simp add: add.assoc)
  qed
  have "HistogramCount S (ex_scrapeDuration e2) [?name] = HistogramCount S (ex_scrapeDuration e) [?name] + length (rs # rss)"
    using assms unfolding tallied_def recorded_def Let_def by simp
  moreover have "prom.GaugeValue P (ex_metricCardinality e2) [?name] =
      Some (f64_of_int (int (length (run_metrics (last (rs # rss) ! i)))))"
    using assms unfolding tallied_def recorded_def Let_def by (cases rss) simp_all
  ultimately show ?thesis using errs unfolding tallied_def Let_def by simp
qed

lemma Collect_totals:
  assumes "self_metrics P S" and "exporter_Collect P S env e = Some (sent, e')" and "totals S e t" and "t < 2 ^ 53"
  shows "totals S e' (Suc t)"
proof -
  have "ex_totalScrapes e' = CounterInc S (ex_totalScrapes e)"
    using assms(2) by (auto simp: exporter_Collect_def Let_def split: option.splits)
  then show ?thesis
    using assms(3) one_more(1) [OF assms(4)] self_metrics.counter_inc [OF assms(1)] by (simp add: totals_def)
qed

lemma Collect_records_runs:
  assumes "prom_vecs P" and "self_metrics P S" and "errgroup (se_wait env)" and "exporter_ok P S e"
    and "distinct (map fst (ex_collectors e))"
    and "distinct (se_order env)" and "set (se_order env) = {..<length (ex_collectors e)}"
    and "exporter_Collect P S env e = Some (sent, e1)"
  obtains runs where "collector_runs P env e = Some runs"
    "\<And>i. i < length (ex_collectors e) \<Longrightarrow> recorded P S (fst (ex_collectors e ! i)) (runs ! i)
      (ex_scrapeDuration e, ex_scrapeErrors e, ex_metricCardinality e)
      (ex_scrapeDuration e1, ex_scrapeErrors e1, ex_metricCardinality e1)"
proof -
  obtain runs where runs: "collector_runs P env e = Some runs"
    using assms(8) by (auto simp: exporter_Collect_def Let_def split: option.splits)
  from Collect_records [OF assms]
  obtain runs' where rec': "\<forall>i < length (ex_collectors e).
      Collector_Scrape P env (ex_dbClients e) i (snd (ex_collectors e ! i)) = Some (runs' ! i) \<and>
      recorded P S (fst (ex_collectors e ! i)) (runs' ! i)
         (ex_scrapeDuration e, ex_scrapeErrors e, ex_metricCardinality e)
         (ex_scrapeDuration e1, ex_scrapeErrors e1, ex_metricCardinality e1)" by blast
  show ?thesis
  proof (rule that [OF runs])
    fix i
    assume i: "i < length (ex_collectors e)"
    with rec' have "Some (runs' ! i) = Some (runs ! i)" using collector_runs_nth(2) [OF runs i] by metis
    then have same: "runs' ! i = runs ! i" by (rule option.inject [THEN iffD1])
    from rec' i show "recorded P S (fst (ex_collectors e ! i)) (runs ! i)
      (ex_scrapeDuration e, ex_scrapeErrors e, ex_metricCardinality e)
      (ex_scrapeDuration e1, ex_scrapeErrors e1, ex_metricCardinality e1)" unfolding same [symmetric] by blast
  qed
qed

text \<open>All scrapes of a history.\<close>

lemma history_holds:
  fixes e :: "('cv, 'gv, 'c, 'hv, 'k) exporter"
  assumes "prom_vecs P" and "self_metrics P S" and "exporter_ok P S e" and "distinct (map fst (ex_collectors e))"
    and "benign_history P S envs e"
  shows "\<exists>outs e'. Collects P S envs e = Some (outs, e') \<and> length outs = length envs \<and>
    length (scrape_results P S envs e) = length envs \<and>
    exporter_ok P S e' \<and> map fst (ex_collectors e') = map fst (ex_collectors e) \<and>
    (\<forall>t. t + length envs \<le> 2 ^ 53 \<longrightarrow> totals S e t \<longrightarrow> totals S e' (t + length envs)) \<and>
    (\<forall>i < length (ex_collectors e). tallied P S i (scrape_results P S envs e) e e')"
  using assms(3-5)
proof (induction envs arbitrary: e)
  case Nil
  then show ?case by (simp add: tallied_Nil)
next
  case (Cons env envs)
  note env = Cons.prems(3) [unfolded benign_history.simps]
  obtain sent e1 where e1: "exporter_Collect P S env e = Some (sent, e1)" "exporter_ok P S e1"
    "map fst (ex_collectors e1) = map fst (ex_collectors e)"
    using Collect_total [OF assms(1,2) Cons.prems(1), of env] env by blast
  from env have wait: "errgroup (se_wait env)" and order: "distinct (se_order env)"
    "set (se_order env) = {..<length (ex_collectors e)}" by blast+
  from env have rest: "benign_history P S envs e1" by (simp add: e1(1))
  obtain runs where runs: "collector_runs P env e = Some runs" and
    rec: "\<And>i. i < length (ex_collectors e) \<Longrightarrow> recorded P S (fst (ex_collectors e ! i)) (runs ! i)
      (ex_scrapeDuration e, ex_scrapeErrors e, ex_metricCardinality e)
      (ex_scrapeDuration e1, ex_scrapeErrors e1, ex_metricCardinality e1)"
    by (rule Collect_records_runs [OF assms(1,2) wait Cons.prems(1,2) order e1(1)]) (erule that, assumption)
  have len: "length (ex_collectors e1) = length (ex_collectors e)" using arg_cong [OF e1(3), of length] by simp
  have names: "fst (ex_collectors e1 ! i) = fst (ex_collectors e ! i)" if "i < length (ex_collectors e)" for i
    using arg_cong [OF e1(3), of "\<lambda>xs. xs ! i"] that len by simp
  obtain outs e2 where IH: "Collects P S envs e1 = Some (outs, e2)" "length outs = length envs"
    "length (scrape_results P S envs e1) = length envs" "exporter_ok P S e2"
    "map fst (ex_collectors e2) = map fst (ex_collectors e1)"
    "\<forall>t. t + length envs \<le> 2 ^ 53 \<longrightarrow> totals S e1 t \<longrightarrow> totals S e2 (t + length envs)"
    "\<forall>i < length (ex_collectors e1). tallied P S i (scrape_results P S envs e1) e1 e2"
    using Cons.IH [OF e1(2) _ rest] Cons.prems(2) e1(3) by auto
  have res: "scrape_results P S (env # envs) e = runs # scrape_results P S envs e1"
    by (simp add: runs e1(1))
  have "totals S e2 (t + length (env # envs))" if "t + length (env # envs) \<le> 2 ^ 53" "totals S e t" for t
  proof -
    have "totals S e1 (Suc t)" using that by (intro Collect_totals [OF assms(2) e1(1)]) simp_all
    moreover have "Suc t + length envs \<le> 2 ^ 53" using that(1) by simp
    ultimately have "totals S e2 (Suc t + length envs)" using IH(6) by blast
    then show ?thesis by simp
  qed
  moreover have "tallied P S i (scrape_results P S (env # envs) e) e e2" if "i < length (ex_collectors e)" for i
    unfolding res using IH(7) len that by (intro tallied_Cons [OF rec names]) simp_all
  ultimately show ?case
    using e1 IH res by (intro exI [of _ "sent # outs"] exI [of _ e2]) simp
qed

subsection \<open>Properties\<close>

text \<open>
  C3. Over any number of scrapes, whatever fails in each of them and however they interleave, no
  scrape panics, the exporter stays well formed with the same collectors, and its own metrics
  count exactly: the total is the number of scrapes, the duration histogram of a collector has one
  observation per scrape, its error counter is the number of scrapes in which it failed, and its
  cardinality is the number of metrics of its last run.
\<close>

theorem scrape_history:
  fixes e :: "('cv, 'gv, 'c, 'hv, 'k) exporter"
  assumes "prom_vecs P" and "self_metrics P S" and "exporter_ok P S e" and "distinct (map fst (ex_collectors e))"
    and "benign_history P S envs e" and "length envs \<le> 2 ^ 53" and "totals S e 0"
    and "\<forall>i < length (ex_collectors e). counted P (ex_scrapeErrors e) (fst (ex_collectors e ! i)) 0"
  shows "\<exists>outs e'. Collects P S envs e = Some (outs, e') \<and> length outs = length envs \<and>
    exporter_ok P S e' \<and> map fst (ex_collectors e') = map fst (ex_collectors e) \<and>
    totals S e' (length envs) \<and>
    (\<forall>i < length (ex_collectors e). let name = fst (ex_collectors e ! i); rss = scrape_results P S envs e in
       HistogramCount S (ex_scrapeDuration e') [name] =
         HistogramCount S (ex_scrapeDuration e) [name] + length envs \<and>
       counted P (ex_scrapeErrors e') name (length (filter (\<lambda>rs. run_err (rs ! i) \<noteq> None) rss)) \<and>
       (envs \<noteq> [] \<longrightarrow> prom.GaugeValue P (ex_metricCardinality e') [name] =
          Some (f64_of_int (int (length (run_metrics (last rss ! i)))))))"
proof -
  obtain outs e' where h: "Collects P S envs e = Some (outs, e')" "length outs = length envs"
    "length (scrape_results P S envs e) = length envs" "exporter_ok P S e'"
    "map fst (ex_collectors e') = map fst (ex_collectors e)"
    "\<forall>t. t + length envs \<le> 2 ^ 53 \<longrightarrow> totals S e t \<longrightarrow> totals S e' (t + length envs)"
    "\<forall>i < length (ex_collectors e). tallied P S i (scrape_results P S envs e) e e'"
    using history_holds [OF assms(1-5)] by blast
  have "totals S e' (length envs)" using h(6) [rule_format, of 0] assms(6,7) by simp
  moreover have "HistogramCount S (ex_scrapeDuration e') [fst (ex_collectors e ! i)] =
         HistogramCount S (ex_scrapeDuration e) [fst (ex_collectors e ! i)] + length envs \<and>
       counted P (ex_scrapeErrors e') (fst (ex_collectors e ! i)) (fails i (scrape_results P S envs e)) \<and>
       (envs \<noteq> [] \<longrightarrow> prom.GaugeValue P (ex_metricCardinality e') [fst (ex_collectors e ! i)] =
          Some (f64_of_int (int (length (run_metrics (last (scrape_results P S envs e) ! i))))))"
    if "i < length (ex_collectors e)" for i
  proof -
    note t = h(7) [rule_format, OF that, unfolded tallied_def Let_def h(3)]
    have "counted P (ex_scrapeErrors e') (fst (ex_collectors e ! i)) (0 + fails i (scrape_results P S envs e))"
      by (rule spec [OF conjunct1 [OF conjunct2 [OF t]], THEN mp]) (use assms(6,8) that in simp)
    moreover have "envs \<noteq> [] \<Longrightarrow> scrape_results P S envs e \<noteq> []" using h(3) by auto
    ultimately show ?thesis using t by simp
  qed
  ultimately show ?thesis using h(1,2,4,5) unfolding fails_def Let_def by blast
qed

text \<open>An exporter with one custom collector, which always fails, scraped twice.\<close>

definition custom_exporter :: "(refvec, refvec, metric, refhist, nat) exporter" where
  "custom_exporter = demo_exporter\<lparr>ex_collectors := [(''custom_0'', Custom 7)]\<rparr>"

definition custom_env :: "nat scrape_env" where
  "custom_env = demo_env\<lparr>se_order := [0]\<rparr>"

lemma custom_exporter_ok: "exporter_ok ref_prom ref_self custom_exporter"
  using demo_exporter_ok by (simp add: custom_exporter_def exporter_ok_def demo_exporter_def ref_prom_def)

lemma custom_env_benign:
  assumes "ex_collectors e = [(''custom_0'', Custom 7)]"
  shows "errgroup (se_wait custom_env) \<and> distinct (se_order custom_env) \<and>
    set (se_order custom_env) = {..<length (ex_collectors e)} \<and>
    (\<forall>i < length (ex_collectors e). scrape_benign P custom_env (ex_dbClients e) i (snd (ex_collectors e ! i)))"
  using first_error.errgroup_axioms by (auto simp: custom_env_def demo_env_def assms)

lemma custom_Collect:
  assumes "exporter_Collect P S custom_env e = Some (sent, e')" and "ex_collectors e = [(''custom_0'', Custom 7)]"
  shows "ex_collectors e' = [(''custom_0'', Custom 7)]"
  using assms
  by (auto simp: exporter_Collect_def Let_def collector_runs_def custom_env_def demo_env_def split: option.splits)

lemma custom_histories:
  "ex_collectors e = [(''custom_0'', Custom 7)] \<Longrightarrow> benign_history P S (replicate n custom_env) e"
proof (induction n arbitrary: e)
  case (Suc n)
  have "case exporter_Collect P S custom_env e of None \<Rightarrow> True
      | Some (sent, e') \<Rightarrow> benign_history P S (replicate n custom_env) e'"
  proof (cases "exporter_Collect P S custom_env e")
    case (Some r)
    obtain sent e' where r: "r = (sent, e')" by (cases r)
    from custom_Collect [OF Some [unfolded r] Suc.prems] show ?thesis unfolding Some r by (simp add: Suc.IH)
  qed simp
  then show ?case
    using custom_env_benign [OF Suc.prems] unfolding replicate_Suc benign_history.simps by blast
qed simp

lemma custom_history: "benign_history ref_prom ref_self [custom_env, custom_env] custom_exporter"
  using custom_histories [of custom_exporter ref_prom ref_self 2]
  by (simp only: numeral_2_eq_2 replicate.simps) (simp add: custom_exporter_def)

theorem scrape_history_witness:
  "\<exists>outs e'. Collects ref_prom ref_self [custom_env, custom_env] custom_exporter = Some (outs, e') \<and>
     totals ref_self e' 2 \<and> HistogramCount ref_self (ex_scrapeDuration e') [''custom_0''] = 2"
proof -
  have start: "totals ref_self custom_exporter 0" "distinct (map fst (ex_collectors custom_exporter))"
    "\<forall>i < length (ex_collectors custom_exporter).
       counted ref_prom (ex_scrapeErrors custom_exporter) (fst (ex_collectors custom_exporter ! i)) 0"
    by (simp_all add: totals_def custom_exporter_def demo_exporter_def ref_self_def f64_of_int_exact f64_zero_def
        counted_def ref_prom_def ref_value_def)
  have len: "length [custom_env, custom_env] \<le> 2 ^ 53" by simp
  from scrape_history [OF ref.prom_vecs_axioms ref_self.self_metrics_axioms custom_exporter_ok start(2) custom_history
      len start(1,3)]
  obtain outs e' where "Collects ref_prom ref_self [custom_env, custom_env] custom_exporter = Some (outs, e')"
    "totals ref_self e' 2"
    "HistogramCount ref_self (ex_scrapeDuration e') [''custom_0''] =
       HistogramCount ref_self (ex_scrapeDuration custom_exporter) [''custom_0''] + 2"
    by (auto simp: Let_def custom_exporter_def numeral_2_eq_2)
  then show ?thesis
    by (simp add: custom_exporter_def demo_exporter_def ref_self_def)
qed

end
