(* ===== verification/Serial.thy ===== *)
theory Serial
  imports History Mutex
begin

text \<open>
  Concurrent calls of \<open>Collect\<close> (\<open>exporter/exporter.go\<close>) in small steps: the call takes the mutex,
  advances the scrape counter, its collectors scrape in goroutines of their own and each records
  its result when it is done, and when all have, the call sends the exporter's own metrics and
  releases the mutex. Calls are numbered and each has its own outside; the exporter they share
  changes with every step. The theorem shows that the calls are serialised: whatever the
  interleaving, they behave like the calls of \<open>exporter_Collect\<close> of theory \<open>Exporter\<close>, one after
  the other. A metric carries the value it has when it is sent.
\<close>

subsection \<open>States and steps\<close>

text \<open>A call: the runs of the collectors that have scraped and those that have recorded, in order.\<close>

datatype ('cv, 'gv, 'k, 'hm) call_phase =
    Uncalled
  | Blocked
  | Locked
  | Scraping "nat \<Rightarrow> ('cv, 'gv, 'k) run option" "nat list"
  | Sent_all "'hm sent list"

record ('cv, 'gv, 'c, 'hv, 'k, 'hm) shared =
  sh_mutex :: "nat option"
  sh_exporter :: "('cv, 'gv, 'c, 'hv, 'k) exporter"
  sh_calls :: "nat \<Rightarrow> ('cv, 'gv, 'k, 'hm) call_phase"
  sh_log :: "(nat \<times> nat list) list"
    \<comment> \<open>the calls that have returned, with the order in which their collectors recorded\<close>

definition initial_shared :: "('cv, 'gv, 'c, 'hv, 'k) exporter \<Rightarrow> ('cv, 'gv, 'c, 'hv, 'k, 'hm) shared" where
  "initial_shared e = \<lparr>sh_mutex = None, sh_exporter = e, sh_calls = (\<lambda>_. Uncalled), sh_log = []\<rparr>"

definition selfs_of :: "('cv, 'gv, 'c, 'hv, 'k) exporter \<Rightarrow> ('cv, 'gv, 'hv) selfs" where
  "selfs_of e = (ex_scrapeDuration e, ex_scrapeErrors e, ex_metricCardinality e)"

definition put_selfs :: "('cv, 'gv, 'hv) selfs \<Rightarrow> ('cv, 'gv, 'c, 'hv, 'k) exporter \<Rightarrow> ('cv, 'gv, 'c, 'hv, 'k) exporter" where
  "put_selfs s e = (case s of (ds, es, cs) \<Rightarrow>
     e\<lparr>ex_scrapeDuration := ds, ex_scrapeErrors := es, ex_metricCardinality := cs\<rparr>)"

text \<open>What a call sends when all its collectors have finished.\<close>

definition final_metrics :: "('cv, 'gv) prom \<Rightarrow> ('c, 'hv, 'hm) self_prom \<Rightarrow> 'k scrape_env \<Rightarrow>
    ('cv, 'gv, 'k) run list \<Rightarrow> ('cv, 'gv, 'c, 'hv, 'k) exporter \<Rightarrow> 'hm sent list" where
  "final_metrics P S env runs e =
     (let up = (if se_wait env (map run_err runs) = None then f64_of_int 1 else f64_of_int 0)
      in map Sent (interleave (se_merge env) (map run_metrics runs)) @
         [Sent \<lparr>m_desc = ex_up e, m_labels = [], m_value = up\<rparr>, Sent (CounterMetric S (ex_totalScrapes e))] @
         map SentHistogram (HistogramCollect S (ex_scrapeDuration e)) @
         map Sent (CounterCollect P (ex_scrapeErrors e)) @ map Sent (GaugeCollect P (ex_metricCardinality e)))"

inductive shared_step :: "('cv, 'gv) prom \<Rightarrow> ('c, 'hv, 'hm) self_prom \<Rightarrow> (nat \<Rightarrow> 'k scrape_env) \<Rightarrow>
    ('cv, 'gv, 'c, 'hv, 'k, 'hm) shared \<Rightarrow> ('cv, 'gv, 'c, 'hv, 'k, 'hm) shared \<Rightarrow> bool"
  for P S env where
  call: "sh_calls s i = Uncalled \<Longrightarrow>
    shared_step P S env s (s\<lparr>sh_calls := (sh_calls s)(i := Blocked)\<rparr>)"
| lock: "sh_calls s i = Blocked \<Longrightarrow> sh_mutex s = None \<Longrightarrow>
    shared_step P S env s (s\<lparr>sh_mutex := Some i, sh_calls := (sh_calls s)(i := Locked)\<rparr>)"
| count: "sh_calls s i = Locked \<Longrightarrow> e = sh_exporter s \<Longrightarrow>
    shared_step P S env s (s\<lparr>sh_exporter := e\<lparr>ex_totalScrapes := CounterInc S (ex_totalScrapes e)\<rparr>,
      sh_calls := (sh_calls s)(i := Scraping Map.empty [])\<rparr>)"
| scrape: "sh_calls s i = Scraping rs ord \<Longrightarrow> e = sh_exporter s \<Longrightarrow> j < length (ex_collectors e) \<Longrightarrow> rs j = None \<Longrightarrow>
    Collector_Scrape P (env i) (ex_dbClients e) j (snd (ex_collectors e ! j)) = Some r \<Longrightarrow>
    shared_step P S env s (s\<lparr>sh_exporter := e\<lparr>ex_collectors := (ex_collectors e)[j := (fst (ex_collectors e ! j), run_collector r)]\<rparr>,
      sh_calls := (sh_calls s)(i := Scraping (rs(j \<mapsto> r)) ord)\<rparr>)"
| record_self: "sh_calls s i = Scraping rs ord \<Longrightarrow> e = sh_exporter s \<Longrightarrow> rs j = Some r \<Longrightarrow> j \<notin> set ord \<Longrightarrow>
    instrument P S (fst (ex_collectors e ! j)) r (se_seconds (env i) j) (selfs_of e) = Some selfs \<Longrightarrow>
    shared_step P S env s (s\<lparr>sh_exporter := put_selfs selfs e, sh_calls := (sh_calls s)(i := Scraping rs (ord @ [j]))\<rparr>)"
| finish: "sh_calls s i = Scraping rs ord \<Longrightarrow> e = sh_exporter s \<Longrightarrow> set ord = {..<length (ex_collectors e)} \<Longrightarrow>
    runs = map (\<lambda>j. the (rs j)) [0..<length (ex_collectors e)] \<Longrightarrow>
    shared_step P S env s (s\<lparr>sh_mutex := None,
      sh_exporter := e\<lparr>ex_dbClients := clients_after ord runs (ex_dbClients e)\<rparr>,
      sh_calls := (sh_calls s)(i := Sent_all (final_metrics P S (env i) runs e)),
      sh_log := sh_log s @ [(i, ord)]\<rparr>)"

inductive shared_reachable :: "('cv, 'gv) prom \<Rightarrow> ('c, 'hv, 'hm) self_prom \<Rightarrow> (nat \<Rightarrow> 'k scrape_env) \<Rightarrow>
    ('cv, 'gv, 'c, 'hv, 'k) exporter \<Rightarrow> ('cv, 'gv, 'c, 'hv, 'k, 'hm) shared \<Rightarrow> bool" for P S env e where
  start: "shared_reachable P S env e (initial_shared e)"
| more: "shared_reachable P S env e s \<Longrightarrow> shared_step P S env s s' \<Longrightarrow> shared_reachable P S env e s'"

subsection \<open>The invariant\<close>

text \<open>The scrapes of a log, each with the order in which its collectors recorded.\<close>

definition logged :: "(nat \<Rightarrow> 'k scrape_env) \<Rightarrow> (nat \<times> nat list) list \<Rightarrow> 'k scrape_env list" where
  "logged env l = map (\<lambda>(i, ord). (env i)\<lparr>se_order := ord\<rparr>) l"

text \<open>The collectors when those of \<open>rs\<close> have scraped.\<close>

definition collectors_after :: "(nat \<Rightarrow> ('cv, 'gv, 'k) run option) \<Rightarrow> (string \<times> ('cv, 'gv, 'k) Collector) list \<Rightarrow>
    (string \<times> ('cv, 'gv, 'k) Collector) list" where
  "collectors_after rs cs =
     map (\<lambda>j. (fst (cs ! j), case rs j of None \<Rightarrow> snd (cs ! j) | Some r \<Rightarrow> run_collector r)) [0..<length cs]"

lemma collectors_after_simps [simp]:
  "length (collectors_after rs cs) = length cs"
  "j < length cs \<Longrightarrow> fst (collectors_after rs cs ! j) = fst (cs ! j)"
  "collectors_after Map.empty cs = cs"
  by (auto simp: collectors_after_def intro: nth_equalityI)

lemma collectors_after_nth:
  "j < length cs \<Longrightarrow> rs j = None \<Longrightarrow> collectors_after rs cs ! j = cs ! j"
  by (simp add: collectors_after_def)

lemma collectors_after_upd:
  assumes "j < length cs"
  shows "(collectors_after rs cs)[j := (fst (cs ! j), run_collector r)] = collectors_after (rs(j \<mapsto> r)) cs"
  using assms by (intro nth_equalityI) (auto simp: collectors_after_def nth_list_update)

lemma collectors_after_all:
  assumes "\<And>j. j < length cs \<Longrightarrow> rs j \<noteq> None"
  shows "collectors_after rs cs = zip (map fst cs) (map run_collector (map (\<lambda>j. the (rs j)) [0..<length cs]))"
proof (rule nth_equalityI)
  fix j
  assume "j < length (collectors_after rs cs)"
  moreover from this assms obtain r where "rs j = Some r" by fastforce
  ultimately show "collectors_after rs cs ! j = zip (map fst cs) (map run_collector (map (\<lambda>j. the (rs j)) [0..<length cs])) ! j"
    by (simp add: collectors_after_def)
qed simp

text \<open>The exporter \<open>e\<close> in the middle of call \<open>i\<close> that started from \<open>e0\<close>.\<close>

definition midway :: "('cv, 'gv) prom \<Rightarrow> ('c, 'hv, 'hm) self_prom \<Rightarrow> 'k scrape_env \<Rightarrow>
    (nat \<Rightarrow> ('cv, 'gv, 'k) run option) \<Rightarrow> nat list \<Rightarrow>
    ('cv, 'gv, 'c, 'hv, 'k) exporter \<Rightarrow> ('cv, 'gv, 'c, 'hv, 'k) exporter \<Rightarrow> bool" where
  "midway P S env rs ord e0 e \<longleftrightarrow>
     (\<forall>j r. rs j = Some r \<longrightarrow> j < length (ex_collectors e0) \<and>
        Collector_Scrape P env (ex_dbClients e0) j (snd (ex_collectors e0 ! j)) = Some r) \<and>
     (\<forall>j \<in> set ord. rs j \<noteq> None) \<and> distinct ord \<and>
     fold_opt (\<lambda>j. instrument P S (fst (ex_collectors e0 ! j)) (the (rs j)) (se_seconds env j)) ord (selfs_of e0) =
       Some (selfs_of e) \<and>
     e = put_selfs (selfs_of e) (e0\<lparr>ex_totalScrapes := CounterInc S (ex_totalScrapes e0),
       ex_collectors := collectors_after rs (ex_collectors e0)\<rparr>)"

lemma selfs_of_put [simp]: "selfs_of (put_selfs x e) = x"
  by (cases x) (simp add: selfs_of_def put_selfs_def)

lemma put_selfs_put [simp]: "put_selfs x (put_selfs y e) = put_selfs x e"
  by (cases x; cases y) (simp add: put_selfs_def)

lemma put_selfs_of [simp]: "put_selfs (selfs_of e) e = e"
  by (simp add: selfs_of_def put_selfs_def)

lemma put_selfs_fields [simp]:
  "ex_dbClients (put_selfs x e) = ex_dbClients e" "ex_collectors (put_selfs x e) = ex_collectors e"
  "ex_totalScrapes (put_selfs x e) = ex_totalScrapes e" "ex_up (put_selfs x e) = ex_up e"
  by (cases x; simp add: put_selfs_def)+

lemma put_selfs_update [simp]:
  "put_selfs x (e\<lparr>ex_collectors := cs\<rparr>) = (put_selfs x e)\<lparr>ex_collectors := cs\<rparr>"
  "selfs_of (e\<lparr>ex_collectors := cs\<rparr>) = selfs_of e" "selfs_of (e\<lparr>ex_totalScrapes := t\<rparr>) = selfs_of e"
  by (cases x; simp add: put_selfs_def selfs_of_def)+

lemma put_selfs_split: "e = put_selfs (selfs_of e) e' \<Longrightarrow> put_selfs s e = put_selfs s e'"
  by (metis put_selfs_put)

lemma midwayD:
  assumes "midway P S env rs ord e0 e"
  shows "ex_dbClients e = ex_dbClients e0" "ex_up e = ex_up e0"
    "ex_totalScrapes e = CounterInc S (ex_totalScrapes e0)"
    "ex_collectors e = collectors_after rs (ex_collectors e0)"
    "e = put_selfs (selfs_of e) (e0\<lparr>ex_totalScrapes := CounterInc S (ex_totalScrapes e0),
       ex_collectors := collectors_after rs (ex_collectors e0)\<rparr>)"
proof -
  show e: "e = put_selfs (selfs_of e) (e0\<lparr>ex_totalScrapes := CounterInc S (ex_totalScrapes e0),
       ex_collectors := collectors_after rs (ex_collectors e0)\<rparr>)"
    using assms unfolding midway_def by blast
  show "ex_dbClients e = ex_dbClients e0" "ex_up e = ex_up e0"
    "ex_totalScrapes e = CounterInc S (ex_totalScrapes e0)"
    "ex_collectors e = collectors_after rs (ex_collectors e0)" by (subst e, simp)+
qed

lemma midway_start: "midway P S env Map.empty [] e (e\<lparr>ex_totalScrapes := CounterInc S (ex_totalScrapes e)\<rparr>)"
  by (simp add: midway_def) (simp add: put_selfs_def selfs_of_def)

lemma fold_opt_cong: "(\<And>x. x \<in> set xs \<Longrightarrow> f x = g x) \<Longrightarrow> fold_opt f xs s = fold_opt g xs s"
  by (induction xs arbitrary: s) (auto split: option.splits)

lemma midway_scrape:
  assumes "midway P S env rs ord e0 e" and "j < length (ex_collectors e)" and "rs j = None"
    and "Collector_Scrape P env (ex_dbClients e) j (snd (ex_collectors e ! j)) = Some r"
  shows "midway P S env (rs(j \<mapsto> r)) ord e0
    (e\<lparr>ex_collectors := (ex_collectors e)[j := (fst (ex_collectors e ! j), run_collector r)]\<rparr>)"
proof -
  note D = midwayD [OF assms(1)]
  have j: "j < length (ex_collectors e0)" using assms(2) by (simp add: D(4))
  have here: "ex_collectors e ! j = ex_collectors e0 ! j" using j assms(3) by (simp add: D(4) collectors_after_nth)
  let ?cs = "(ex_collectors e)[j := (fst (ex_collectors e ! j), run_collector r)]"
  have cs: "?cs = collectors_after (rs(j \<mapsto> r)) (ex_collectors e0)"
    unfolding here unfolding D(4) by (rule collectors_after_upd [OF j])
  have fold: "fold_opt (\<lambda>i. instrument P S (fst (ex_collectors e0 ! i)) (the ((rs(j \<mapsto> r)) i)) (se_seconds env i)) ord (selfs_of e0) =
      fold_opt (\<lambda>i. instrument P S (fst (ex_collectors e0 ! i)) (the (rs i)) (se_seconds env i)) ord (selfs_of e0)"
    using assms(1,3) by (intro fold_opt_cong) (auto simp: midway_def)
  have "e\<lparr>ex_collectors := ?cs\<rparr> = put_selfs (selfs_of e) (e0\<lparr>ex_totalScrapes := CounterInc S (ex_totalScrapes e0),
      ex_collectors := ?cs\<rparr>)"
    by (subst D(5)) simp
  then show ?thesis
    using assms(1,4) here D(1) j unfolding midway_def fold cs by auto
qed

lemma midway_record:
  assumes "midway P S env rs ord e0 e" and "rs j = Some r" and "j \<notin> set ord"
    and "instrument P S (fst (ex_collectors e ! j)) r (se_seconds env j) (selfs_of e) = Some selfs"
  shows "midway P S env rs (ord @ [j]) e0 (put_selfs selfs e)"
proof -
  note D = midwayD [OF assms(1)]
  have j: "j < length (ex_collectors e0)" using assms(1,2) by (simp add: midway_def)
  have name: "fst (ex_collectors e ! j) = fst (ex_collectors e0 ! j)" using j by (simp add: D(4))
  have "put_selfs selfs e = put_selfs selfs (e0\<lparr>ex_totalScrapes := CounterInc S (ex_totalScrapes e0),
       ex_collectors := collectors_after rs (ex_collectors e0)\<rparr>)"
    by (rule put_selfs_split [OF D(5)])
  then show ?thesis
    using assms(1-3) assms(4) [unfolded name] unfolding midway_def selfs_of_put
    by (simp add: fold_opt_append)
qed

lemma Collector_Scrape_order [simp]:
  "Collector_Scrape P (env\<lparr>se_order := ord\<rparr>) clients i c = Collector_Scrape P env clients i c"
proof -
  have "client_view (env\<lparr>se_order := ord\<rparr>) = client_view env" by (intro ext) (simp add: client_view_def Let_def)
  then show ?thesis by (cases c) simp_all
qed

lemma midway_finish:
  assumes "midway P S env rs ord e0 e" and "set ord = {..<length (ex_collectors e)}"
    and "runs = map (\<lambda>j. the (rs j)) [0..<length (ex_collectors e)]"
  shows "exporter_Collect P S (env\<lparr>se_order := ord\<rparr>) e0 =
    Some (final_metrics P S env runs e, e\<lparr>ex_dbClients := clients_after ord runs (ex_dbClients e)\<rparr>)"
proof -
  note D = midwayD [OF assms(1)]
  let ?n = "length (ex_collectors e0)"
  have n: "length (ex_collectors e) = ?n" by (simp add: D(4))
  have some: "rs j \<noteq> None" if "j < ?n" for j
    using assms(1,2) that n unfolding midway_def by auto
  then have run: "Collector_Scrape P env (ex_dbClients e0) j (snd (ex_collectors e0 ! j)) = Some (the (rs j))"
    if "j < ?n" for j
  proof -
    from some [OF that] obtain r where "rs j = Some r" by blast
    with assms(1) show ?thesis unfolding midway_def by simp
  qed
  have runs: "collector_runs P (env\<lparr>se_order := ord\<rparr>) e0 = Some runs"
    unfolding collector_runs_def assms(3) n Collector_Scrape_order by (rule collect_some_map) (use run in simp)
  have fold: "record_runs P S (env\<lparr>se_order := ord\<rparr>) e0 runs ord (selfs_of e0) =
      fold_opt (\<lambda>j. instrument P S (fst (ex_collectors e0 ! j)) (the (rs j)) (se_seconds env j)) ord (selfs_of e0)"
    unfolding record_runs_def by (rule fold_opt_cong) (use assms(2,3) n in simp)
  have rec: "record_runs P S (env\<lparr>se_order := ord\<rparr>) e0 runs ord
      (ex_scrapeDuration e0, ex_scrapeErrors e0, ex_metricCardinality e0) =
      Some (ex_scrapeDuration e, ex_scrapeErrors e, ex_metricCardinality e)"
    using fold assms(1) unfolding midway_def selfs_of_def by simp
  have coll: "zip (map fst (ex_collectors e0)) (map run_collector runs) = ex_collectors e"
    unfolding assms(3) n unfolding D(4) by (rule collectors_after_all [symmetric]) (rule some)
  have e: "e = e0\<lparr>ex_totalScrapes := ex_totalScrapes e, ex_collectors := ex_collectors e,
      ex_scrapeDuration := ex_scrapeDuration e, ex_scrapeErrors := ex_scrapeErrors e,
      ex_metricCardinality := ex_metricCardinality e\<rparr>"
    using D(5) unfolding D(3,4) put_selfs_def selfs_of_def by simp
  have upd: "e\<lparr>ex_dbClients := cs\<rparr> = e0\<lparr>ex_dbClients := cs, ex_collectors := ex_collectors e,
      ex_totalScrapes := ex_totalScrapes e, ex_scrapeDuration := ex_scrapeDuration e,
      ex_scrapeErrors := ex_scrapeErrors e, ex_metricCardinality := ex_metricCardinality e\<rparr>" for cs
    by (cases e0, cases e) (use e in simp)
  show ?thesis
    by (simp add: exporter_Collect_def Let_def runs rec coll final_metrics_def upd D(1,2,3))
qed

subsection \<open>A successful scrape keeps the exporter well formed\<close>

lemma apply_spec_kept:
  assumes "prom_vecs P" and "spec_built P c" and "apply_spec_emission P em c = Some c'"
  shows "spec_built P c' \<and> sc_spec c' = sc_spec c"
proof -
  obtain i v lvs where em: "em = (i, v, lvs)" by (cases em)
  note C = prom_vecs.axioms(1) [OF assms(1)] and G = prom_vecs.axioms(2) [OF assms(1)]
  have i: "i < length (sc_counter c)" using assms(3) by (auto simp: em split: if_splits)
  show ?thesis
  proof (cases "sc_counter c ! i")
    case (Some cd)
    then obtain cd' where cd': "Observe P v lvs cd = Some cd'" "c' = c\<lparr>sc_counter := (sc_counter c)[i := Some cd']\<rparr>"
      using assms(3) by (auto simp: em split: if_splits)
    note d = prom_counters.Observe_desc [OF C cd'(1)]
    have "vtype_of (sp_Metrics (sc_spec c) ! i) = ValueType.CounterValue" "i < length (sp_Metrics (sc_spec c))"
      "snd (CounterDesc P (cd_vec cd)) = ''database'' # sp_Labels (sc_spec c)"
      using assms(2) i Some by (auto simp: spec_built_def split: if_splits)
    with d assms(2) i show ?thesis unfolding cd'(2) by (auto simp: spec_built_def nth_list_update)
  next
    case None
    then obtain gv gv' where gv': "GaugeSet P gv lvs v = Some gv'" "c' = c\<lparr>sc_gauge := (sc_gauge c)[i := Some gv']\<rparr>"
        "sc_gauge c ! i = Some gv" "i < length (sc_gauge c)"
      using assms(3) by (auto simp: em split: if_splits option.splits)
    note d = prom_gauges.gauge_set_desc [OF G gv'(1)]
    have "vtype_of (sp_Metrics (sc_spec c) ! i) \<noteq> ValueType.CounterValue" "i < length (sp_Metrics (sc_spec c))"
      "snd (GaugeDesc P gv) = ''database'' # sp_Labels (sc_spec c)"
      using assms(2) i None gv'(3) by (auto simp: spec_built_def split: if_splits)
    with d None gv'(4) assms(2) i show ?thesis unfolding gv'(2) by (auto simp: spec_built_def nth_list_update)
  qed
qed

lemma Collector_Scrape_kept:
  assumes "prom_vecs P" and "collector_ok P cs c" and "Collector_Scrape P env clients i c = Some r"
  shows "collector_ok P cs (run_collector r)"
proof (cases c)
  case (Builtin k b)
  obtain out where out: "Scrape_kind k P (se_collector_wait env i) (se_sched env i) (se_server env i)
      (client_view env clients i) b = Some out" "run_collector r = Builtin k (oc_collector out)"
    using assms(3) by (auto simp: Builtin split: if_splits)
  from assms(2) obtain g where g: "built P g k b" "dbClients b = cs" by (auto simp: Builtin)
  from run_built [OF assms(1) g(1) Scrape_kind_run(1) [OF out(1)]] g(2) show ?thesis by (auto simp: out(2))
next
  case (Declarative b)
  obtain out where out: "SpecCollector_Scrape P (se_collector_wait env i) (se_sched env i) (se_query env i)
      (client_view env clients i) b = Some out" "run_collector r = Declarative (so_collector out)"
    using assms(3) by (auto simp: Declarative split: if_splits)
  obtain es where es: "fold_opt (apply_spec_emission P) es b = Some (so_collector out)"
    using out(1) by (auto simp: SpecCollector_Scrape_def Let_def split: option.splits)
  have "spec_built P (so_collector out)"
    by (rule fold_opt_invariant [OF _ _ es, where I = "spec_built P"])
      (use assms(2) apply_spec_kept [OF assms(1)] in \<open>auto simp: Declarative\<close>)
  with SpecCollector_Scrape_clients [OF out(1)] assms(2) show ?thesis by (simp add: out(2) Declarative)
next
  case (Custom k)
  with assms(3) show ?thesis by auto
qed

lemma instrument_kept:
  assumes "prom_vecs P" and "self_metrics P S" and "instrument P S name r secs s = Some s'" and "selfs_ok P S s"
  shows "selfs_ok P S s'"
proof -
  obtain a b c a' b' c' where "s = (a, b, c)" "s' = (a', b', c')" by (cases s; cases s')
  with instrument_descs [OF assms(1,2) assms(3) [unfolded this]] assms(4) show ?thesis by (simp add: selfs_ok_def)
qed

lemma Collect_kept:
  assumes "prom_vecs P" and "self_metrics P S" and "exporter_ok P S e"
    and "exporter_Collect P S env e = Some (sent, e')"
  shows "exporter_ok P S e' \<and> map fst (ex_collectors e') = map fst (ex_collectors e)"
proof -
  obtain runs ds es cs where runs: "collector_runs P env e = Some runs"
    "record_runs P S env e runs (se_order env) (ex_scrapeDuration e, ex_scrapeErrors e, ex_metricCardinality e) = Some (ds, es, cs)"
    using assms(4) by (auto simp: exporter_Collect_def Let_def split: option.splits)
  note nth = collector_runs_nth [OF runs(1)]
  have "selfs_ok P S (ds, es, cs)"
    by (rule fold_opt_invariant [OF _ _ runs(2) [unfolded record_runs_def], where I = "selfs_ok P S"])
      (use instrument_kept [OF assms(1,2)] assms(3) in \<open>auto simp: exporter_ok_def\<close>)
  moreover have "LabelValueOK P (fst (ex_collectors e ! i)) \<and>
      collector_ok P [0..<length (ex_dbClients e)] (run_collector (runs ! i))" if "i < length (ex_collectors e)" for i
  proof -
    have "LabelValueOK P (fst (ex_collectors e ! i)) \<and> collector_ok P [0..<length (ex_dbClients e)] (snd (ex_collectors e ! i))"
      using assms(3) nth_mem [OF that] unfolding exporter_ok_def by (auto simp: case_prod_beta)
    with Collector_Scrape_kept [OF assms(1) _ nth(2) [OF that]] show ?thesis by blast
  qed
  then have "\<forall>(n, c) \<in> set (zip (map fst (ex_collectors e)) (map run_collector runs)).
      LabelValueOK P n \<and> collector_ok P [0..<length (ex_dbClients e)] c"
    using nth(1) by (auto simp: set_zip)
  ultimately show ?thesis
    using assms(3,4) nth(1) by (auto simp: exporter_Collect_def Let_def runs exporter_ok_def clients_after_nil)
qed

lemma Collects_kept:
  assumes "prom_vecs P" and "self_metrics P S" and "exporter_ok P S e" and "Collects P S envs e = Some (outs, e')"
  shows "exporter_ok P S e'"
  using assms(3,4)
proof (induction envs arbitrary: e outs)
  case (Cons env envs)
  from Cons.prems(2) obtain sent e1 outs' where "exporter_Collect P S env e = Some (sent, e1)"
    "Collects P S envs e1 = Some (outs', e')" by (auto split: option.splits)
  with Collect_kept [OF assms(1,2) Cons.prems(1)] Cons.IH show ?case by blast
qed simp

subsection \<open>Every reachable state is serial\<close>

definition inside :: "('cv, 'gv, 'k, 'hm) call_phase \<Rightarrow> bool" where
  "inside c \<longleftrightarrow> (case c of Locked \<Rightarrow> True | Scraping rs ord \<Rightarrow> True | _ \<Rightarrow> False)"

lemma inside_simps [simp]:
  "\<not> inside Uncalled" "\<not> inside Blocked" "inside Locked" "inside (Scraping rs ord)" "\<not> inside (Sent_all out)"
  by (simp_all add: inside_def)

abbreviation call_inside :: "('cv, 'gv, 'c, 'hv, 'k, 'hm) shared \<Rightarrow> nat \<Rightarrow> bool" where
  "call_inside s i \<equiv> inside (sh_calls s i)"

interpretation collect_mutex: critical_section "shared_step P S env" "\<lambda>_. True" sh_mutex call_inside for P S env
proof unfold_locales
  fix s s'
  assume "shared_step P S env s s'"
  then show "locks_once (sh_mutex s, call_inside s) (sh_mutex s', call_inside s')"
  proof (cases rule: shared_step.cases)
    case (lock i)
    then show ?thesis by (intro locks_onceI(2) [of _ _ i]) (auto simp: fun_eq_iff)
  next
    case (finish i rs ord e runs)
    then show ?thesis by (intro locks_onceI(3) [of _ i]) (auto simp: fun_eq_iff)
  qed (intro locks_onceI(1); auto simp: fun_eq_iff)+
qed simp

text \<open>The exporter that the calls of the log leave, and what the call inside makes of it.\<close>

definition current :: "('cv, 'gv) prom \<Rightarrow> ('c, 'hv, 'hm) self_prom \<Rightarrow> (nat \<Rightarrow> 'k scrape_env) \<Rightarrow>
    ('cv, 'gv, 'c, 'hv, 'k) exporter \<Rightarrow> ('cv, 'gv, 'c, 'hv, 'k, 'hm) shared \<Rightarrow> bool" where
  "current P S env e s \<longleftrightarrow> (case sh_mutex s of
     None \<Rightarrow> sh_exporter s = e
   | Some i \<Rightarrow> (case sh_calls s i of
        Locked \<Rightarrow> sh_exporter s = e
      | Scraping rs ord \<Rightarrow> midway P S (env i) rs ord e (sh_exporter s)
      | _ \<Rightarrow> False))"

definition answered :: "('cv, 'gv, 'c, 'hv, 'k, 'hm) shared \<Rightarrow> 'hm sent list list \<Rightarrow> bool" where
  "answered s outs \<longleftrightarrow> length outs = length (sh_log s) \<and> distinct (map fst (sh_log s)) \<and>
     (\<forall>t < length outs. sh_calls s (fst (sh_log s ! t)) = Sent_all (outs ! t)) \<and>
     (\<forall>i out. sh_calls s i = Sent_all out \<longrightarrow> i \<in> set (map fst (sh_log s)))"

definition serial :: "('cv, 'gv) prom \<Rightarrow> ('c, 'hv, 'hm) self_prom \<Rightarrow> (nat \<Rightarrow> 'k scrape_env) \<Rightarrow>
    ('cv, 'gv, 'c, 'hv, 'k) exporter \<Rightarrow> ('cv, 'gv, 'c, 'hv, 'k, 'hm) shared \<Rightarrow> bool" where
  "serial P S env e0 s \<longleftrightarrow> owned (sh_mutex s) (call_inside s) \<and>
     (\<forall>x \<in> set (sh_log s). distinct (snd x)) \<and>
     (\<exists>outs e. Collects P S (logged env (sh_log s)) e0 = Some (outs, e) \<and> answered s outs \<and> current P S env e s)"

lemma answered_call:
  assumes "answered s outs" and "\<And>out. sh_calls s i \<noteq> Sent_all out" and "\<And>out. c \<noteq> Sent_all out"
    and "sh_calls s' = (sh_calls s)(i := c)" and "sh_log s' = sh_log s"
  shows "answered s' outs"
proof -
  have "fst (sh_log s ! t) \<noteq> i" if "t < length outs" for t
    using assms(1,2) that unfolding answered_def by metis
  with assms show ?thesis unfolding answered_def by auto
qed

lemma answered_return:
  assumes "answered s outs" and "\<And>out. sh_calls s i \<noteq> Sent_all out"
    and "sh_calls s' = (sh_calls s)(i := Sent_all sent)" and "sh_log s' = sh_log s @ [(i, ord)]"
  shows "answered s' (outs @ [sent])"
proof -
  have other: "fst (sh_log s ! t) \<noteq> i" if "t < length outs" for t
    using assms(1,2) that unfolding answered_def by metis
  have len: "length outs = length (sh_log s)" using assms(1) by (simp add: answered_def)
  have new: "i \<notin> set (map fst (sh_log s))"
    unfolding in_set_conv_nth length_map len [symmetric] using other len by auto
  have "sh_calls s' (fst (sh_log s' ! t)) = Sent_all ((outs @ [sent]) ! t)" if "t < length (outs @ [sent])" for t
  proof (cases "t < length outs")
    case True
    with other [OF True] assms(1) show ?thesis by (simp add: answered_def assms(3,4) nth_append len)
  next
    case False
    with that len have "t = length (sh_log s)" by simp
    then show ?thesis by (simp add: assms(3,4) nth_append len)
  qed
  moreover have "k \<in> set (map fst (sh_log s'))" if "sh_calls s' k = Sent_all out" for k out
    using that assms(1) unfolding answered_def assms(3,4) by (auto split: if_splits)
  ultimately show ?thesis
    using new assms(1) unfolding answered_def by (simp add: assms(4))
qed

lemma serial_initial: "serial P S env e (initial_shared e)"
  by (simp add: serial_def owned_def initial_shared_def logged_def answered_def current_def)

lemma serialD:
  assumes "serial P S env e0 s"
  obtains outs e where "Collects P S (logged env (sh_log s)) e0 = Some (outs, e)" "answered s outs" "current P S env e s"
    "owned (sh_mutex s) (call_inside s)" "\<forall>x \<in> set (sh_log s). distinct (snd x)"
  using assms unfolding serial_def by blast

text \<open>A step that does not return moves one call, from \<open>sh_calls s i\<close> to \<open>c\<close>.\<close>

lemma serial_move:
  assumes "serial P S env e0 s" and "sh_calls s' = (sh_calls s)(i := c)" and "sh_log s' = sh_log s"
    and "\<And>out. sh_calls s i \<noteq> Sent_all out" and "\<And>out. c \<noteq> Sent_all out"
    and "\<And>e. current P S env e s \<Longrightarrow> current P S env e s'"
    and "owned (sh_mutex s') (call_inside s')"
  shows "serial P S env e0 s'"
proof -
  from assms(1) obtain outs e where "Collects P S (logged env (sh_log s)) e0 = Some (outs, e)" "answered s outs"
    "current P S env e s" "\<forall>x \<in> set (sh_log s). distinct (snd x)" by (rule serialD)
  with answered_call [OF this(2) assms(4,5,2,3)] assms(3,6,7) show ?thesis unfolding serial_def by metis
qed

text \<open>The last step of a call adds it to the log.\<close>

lemma serial_return:
  assumes "serial P S env e0 s" and "sh_calls s i = Scraping rs ord" and "set ord = {..<length (ex_collectors (sh_exporter s))}"
    and "runs = map (\<lambda>j. the (rs j)) [0..<length (ex_collectors (sh_exporter s))]"
    and "s' = s\<lparr>sh_mutex := None,
      sh_exporter := (sh_exporter s)\<lparr>ex_dbClients := clients_after ord runs (ex_dbClients (sh_exporter s))\<rparr>,
      sh_calls := (sh_calls s)(i := Sent_all (final_metrics P S (env i) runs (sh_exporter s))),
      sh_log := sh_log s @ [(i, ord)]\<rparr>"
    and "owned (sh_mutex s') (call_inside s')"
  shows "serial P S env e0 s'"
proof -
  from assms(1) obtain outs e where ex: "Collects P S (logged env (sh_log s)) e0 = Some (outs, e)"
    and ans: "answered s outs" and cur: "current P S env e s"
    and mutex: "owned (sh_mutex s) (call_inside s)"
    and dist: "\<forall>x \<in> set (sh_log s). distinct (snd x)" by (rule serialD) (rule that)
  have m: "sh_mutex s = Some i" using ownedD [OF mutex, of i] assms(2) by simp
  then have mid: "midway P S (env i) rs ord e (sh_exporter s)" using cur assms(2) by (simp add: current_def)
  let ?sent = "final_metrics P S (env i) runs (sh_exporter s)"
  have "Collects P S (logged env (sh_log s')) e0 = Some (outs @ [?sent], sh_exporter s')"
    using ex midway_finish [OF mid assms(3,4)] by (simp add: logged_def Collects_append assms(5))
  moreover have "current P S env (sh_exporter s') s'" by (simp add: current_def assms(5))
  moreover have "answered s' (outs @ [?sent])"
    by (rule answered_return [OF ans, of i]) (simp_all add: assms(2,5))
  moreover have "owned (sh_mutex s') (call_inside s')" by (rule assms(6))
  moreover have "\<forall>x \<in> set (sh_log s'). distinct (snd x)"
    using dist mid by (auto simp: midway_def assms(5))
  ultimately show ?thesis unfolding serial_def by metis
qed

lemma serial_step:
  assumes "shared_step P S env s s'" and "serial P S env e0 s"
  shows "serial P S env e0 s'"
proof -
  from assms(2) have own: "owned (sh_mutex s) (call_inside s)" by (rule serialD)
  note mutex = ownedD [OF own] and own' = collect_mutex.owned_step [OF assms(1) TrueI own]
  note move = serial_move [OF assms(2)]
  show ?thesis
    using assms(1)
  proof (cases rule: shared_step.cases)
    case (call i)
    have "sh_mutex s \<noteq> Some i" using mutex [of i] call(2) by simp
    with call own' show ?thesis
      by (intro move [of s' i Blocked]) (auto simp: current_def split: option.splits call_phase.splits)
  next
    case (lock i)
    with own' show ?thesis by (intro move [of s' i Locked]) (auto simp: current_def)
  next
    case (count i ex)
    moreover have "sh_mutex s = Some i" using mutex [of i] count(2) by simp
    ultimately show ?thesis
      using own' by (intro move [of s' i "Scraping Map.empty []"]) (auto simp: current_def midway_start)
  next
    case (scrape i rs ord ex j r)
    moreover have "sh_mutex s = Some i" using mutex [of i] scrape(2) by simp
    ultimately show ?thesis
      using own' by (intro move [of s' i "Scraping (rs(j \<mapsto> r)) ord"]) (auto simp: current_def midway_scrape)
  next
    case (record_self i rs ord ex j r selfs)
    moreover have "sh_mutex s = Some i" using mutex [of i] record_self(2) by simp
    ultimately show ?thesis
      using own' by (intro move [of s' i "Scraping rs (ord @ [j])"]) (auto simp: current_def midway_record)
  next
    case (finish i rs ord ex runs)
    then show ?thesis by (intro serial_return [OF assms(2) finish(2)]) (use own' in simp_all)
  qed
qed

lemma serial_reachable: "shared_reachable P S env e s \<Longrightarrow> serial P S env e s"
  by (induction rule: shared_reachable.induct) (blast intro: serial_initial serial_step)+

subsection \<open>A call that has the mutex can return\<close>

text \<open>What the collectors and the outside must be like for the call inside to go on.\<close>

definition unhindered :: "('cv, 'gv) prom \<Rightarrow> ('c, 'hv, 'hm) self_prom \<Rightarrow> 'k scrape_env \<Rightarrow>
    ('cv, 'gv, 'c, 'hv, 'k) exporter \<Rightarrow> bool" where
  "unhindered P S env e \<longleftrightarrow> exporter_ok P S e \<and>
     (\<forall>j < length (ex_collectors e). scrape_benign P env (ex_dbClients e) j (snd (ex_collectors e ! j)))"

definition returns_later :: "('cv, 'gv) prom \<Rightarrow> ('c, 'hv, 'hm) self_prom \<Rightarrow> (nat \<Rightarrow> 'k scrape_env) \<Rightarrow>
    ('cv, 'gv, 'c, 'hv, 'k, 'hm) shared \<Rightarrow> nat \<Rightarrow> bool" where
  "returns_later P S env s i \<longleftrightarrow> (\<exists>s' out. (shared_step P S env)\<^sup>*\<^sup>* s s' \<and> sh_calls s' i = Sent_all out \<and>
     sh_mutex s' = None \<and> map fst (sh_log s') = map fst (sh_log s) @ [i])"

lemma returns_later_step:
  "shared_step P S env s s' \<Longrightarrow> sh_log s' = sh_log s \<Longrightarrow> returns_later P S env s' i \<Longrightarrow> returns_later P S env s i"
  unfolding returns_later_def by (metis converse_rtranclp_into_rtranclp)

lemma midway_selfs_ok:
  assumes "prom_vecs P" and "self_metrics P S" and "exporter_ok P S e0" and "midway P S env rs ord e0 e"
  shows "selfs_ok P S (selfs_of e)"
proof -
  have f: "fold_opt (\<lambda>j. instrument P S (fst (ex_collectors e0 ! j)) (the (rs j)) (se_seconds env j)) ord (selfs_of e0) =
      Some (selfs_of e)" using assms(4) unfolding midway_def by blast
  show ?thesis
    by (rule fold_opt_invariant [OF _ _ f, where I = "selfs_ok P S"])
      (use instrument_kept [OF assms(1,2)] assms(3) in \<open>auto simp: exporter_ok_def selfs_of_def\<close>)
qed

text \<open>All have recorded.\<close>

lemma returns_recorded:
  assumes "sh_calls s i = Scraping rs ord" and "set ord = {..<length (ex_collectors (sh_exporter s))}"
  shows "returns_later P S env s i"
proof -
  note step = shared_step.finish [OF assms(1) refl assms(2) refl]
  show ?thesis unfolding returns_later_def
    by (intro exI conjI, rule r_into_rtranclp, rule step) simp_all
qed

text \<open>All have scraped: those that have not recorded do.\<close>

lemma returns_scraped:
  assumes "prom_vecs P" and "self_metrics P S" and "exporter_ok P S e0"
    and "sh_calls s i = Scraping rs ord" and "midway P S (env i) rs ord e0 (sh_exporter s)"
    and "\<forall>j < length (ex_collectors e0). rs j \<noteq> None"
  shows "returns_later P S env s i"
  using assms(4,5)
proof (induction "card ({..<length (ex_collectors e0)} - set ord)" arbitrary: s ord)
  case 0
  note D = midwayD [OF "0.prems"(2)]
  have "set ord \<subseteq> {..<length (ex_collectors e0)}" using "0.prems"(2) by (auto simp: midway_def)
  with "0.hyps" have "set ord = {..<length (ex_collectors (sh_exporter s))}" by (auto simp: D(4))
  with "0.prems"(1) show ?case by (rule returns_recorded)
next
  case (Suc d)
  then obtain j where j: "j < length (ex_collectors e0)" "j \<notin> set ord"
    by (metis Diff_iff card.empty equals0I lessThan_iff nat.distinct(1))
  from assms(6) j(1) obtain r where r: "rs j = Some r" by blast
  let ?e = "sh_exporter s"
  have "selfs_ok P S (selfs_of ?e)" by (rule midway_selfs_ok [OF assms(1-3) Suc.prems(2)])
  moreover have "fst (ex_collectors ?e ! j) = fst (ex_collectors e0 ! j)"
    using j(1) by (simp add: midwayD(4) [OF Suc.prems(2)])
  moreover have "LabelValueOK P (fst (ex_collectors e0 ! j))"
    using assms(3) nth_mem [OF j(1)] unfolding exporter_ok_def by (auto simp: case_prod_beta)
  ultimately obtain selfs where selfs:
    "instrument P S (fst (ex_collectors ?e ! j)) r (se_seconds (env i) j) (selfs_of ?e) = Some selfs"
    using instrument_records [OF assms(1,2)] by metis
  have "card ({..<length (ex_collectors e0)} - set (ord @ [j])) = d"
  proof -
    have "{..<length (ex_collectors e0)} - set (ord @ [j]) = ({..<length (ex_collectors e0)} - set ord) - {j}" by auto
    then show ?thesis using Suc.hyps(2) j by simp
  qed
  then have ret: "returns_later P S env (s\<lparr>sh_exporter := put_selfs selfs ?e,
      sh_calls := (sh_calls s)(i := Scraping rs (ord @ [j]))\<rparr>) i"
    by (intro Suc.hyps(1) [of "ord @ [j]"]) (use midway_record [OF Suc.prems(2) r j(2) selfs] in simp_all)
  have st: "shared_step P S env s (s\<lparr>sh_exporter := put_selfs selfs ?e,
      sh_calls := (sh_calls s)(i := Scraping rs (ord @ [j]))\<rparr>)"
    by (rule shared_step.record_self [where e = ?e]) (use Suc.prems(1) r j(2) selfs in simp_all)
  show ?case by (rule returns_later_step [OF st _ ret]) simp
qed

text \<open>Those that have not scraped do.\<close>

lemma returns_scraping:
  assumes "prom_vecs P" and "self_metrics P S" and "unhindered P S (env i) e0"
    and "sh_calls s i = Scraping rs ord" and "midway P S (env i) rs ord e0 (sh_exporter s)"
  shows "returns_later P S env s i"
  using assms(4,5)
proof (induction "card {j. j < length (ex_collectors e0) \<and> rs j = None}" arbitrary: s rs)
  case 0
  then have "\<forall>j < length (ex_collectors e0). rs j \<noteq> None" by auto
  moreover have "exporter_ok P S e0" using assms(3) by (simp add: unhindered_def)
  ultimately show ?case using "0.prems" by (intro returns_scraped [OF assms(1,2)])
next
  case (Suc d)
  then obtain j where j: "j < length (ex_collectors e0)" "rs j = None"
    by (metis (mono_tags, lifting) Collect_empty_eq card.empty nat.distinct(1))
  let ?e = "sh_exporter s"
  note D = midwayD [OF Suc.prems(2)]
  have here: "ex_collectors ?e ! j = ex_collectors e0 ! j" using j by (simp add: D(4) collectors_after_nth)
  have "collector_ok P [0..<length (ex_dbClients e0)] (snd (ex_collectors e0 ! j))"
    using assms(3) nth_mem [OF j(1)] unfolding unhindered_def exporter_ok_def by (auto simp: case_prod_beta)
  moreover have "None \<notin> set (ex_dbClients e0)"
    "scrape_benign P (env i) (ex_dbClients e0) j (snd (ex_collectors e0 ! j))"
    using assms(3) j(1) by (simp_all add: unhindered_def exporter_ok_def)
  ultimately obtain r where r: "Collector_Scrape P (env i) (ex_dbClients ?e) j (snd (ex_collectors ?e ! j)) = Some r"
    using Collector_Scrape_ok [OF assms(1)] unfolding here D(1) by metis
  have len: "j < length (ex_collectors ?e)" using j(1) by (simp add: D(4))
  have "{k. k < length (ex_collectors e0) \<and> (rs(j \<mapsto> r)) k = None} = {k. k < length (ex_collectors e0) \<and> rs k = None} - {j}"
    by auto
  then have "card {k. k < length (ex_collectors e0) \<and> (rs(j \<mapsto> r)) k = None} = d"
    using Suc.hyps(2) j by simp
  then have ret: "returns_later P S env (s\<lparr>sh_exporter := ?e\<lparr>ex_collectors := (ex_collectors ?e)
      [j := (fst (ex_collectors ?e ! j), run_collector r)]\<rparr>, sh_calls := (sh_calls s)(i := Scraping (rs(j \<mapsto> r)) ord)\<rparr>) i"
    by (intro Suc.hyps(1) [of "rs(j \<mapsto> r)"]) (use midway_scrape [OF Suc.prems(2) len j(2) r] in simp_all)
  have st: "shared_step P S env s (s\<lparr>sh_exporter := ?e\<lparr>ex_collectors := (ex_collectors ?e)
      [j := (fst (ex_collectors ?e ! j), run_collector r)]\<rparr>, sh_calls := (sh_calls s)(i := Scraping (rs(j \<mapsto> r)) ord)\<rparr>)"
    by (rule shared_step.scrape [where e = ?e]) (use Suc.prems(1) len j(2) r in simp_all)
  show ?case by (rule returns_later_step [OF st _ ret]) simp
qed

subsection \<open>Properties\<close>

text \<open>
  C2. Concurrent calls of \<open>Collect\<close> are serialised: in every reachable state of any number of calls
  the exporter and the answers are those of the calls that have returned, run one after the other
  by \<open>exporter_Collect\<close> in the order in which they got the mutex, whatever the interleaving of
  their collectors. No call answers twice, each collector records once per call, and at most one
  call is past the lock.
\<close>

theorem concurrent_collects_serialised:
  assumes "shared_reachable P S env e0 s"
  shows "\<exists>outs e. Collects P S (logged env (sh_log s)) e0 = Some (outs, e) \<and> length outs = length (sh_log s) \<and>
    (sh_mutex s = None \<longrightarrow> sh_exporter s = e) \<and>
    distinct (map fst (sh_log s)) \<and> (\<forall>x \<in> set (sh_log s). distinct (snd x)) \<and>
    (\<forall>t < length outs. sh_calls s (fst (sh_log s ! t)) = Sent_all (outs ! t)) \<and>
    (\<forall>i out. sh_calls s i = Sent_all out \<longrightarrow> i \<in> set (map fst (sh_log s))) \<and>
    (\<forall>i. inside (sh_calls s i) \<longleftrightarrow> sh_mutex s = Some i)"
proof -
  have serial: "serial P S env e0 s" by (rule serial_reachable [OF assms])
  then obtain outs e where ex: "Collects P S (logged env (sh_log s)) e0 = Some (outs, e)"
    "answered s outs" "current P S env e s" unfolding serial_def by blast
  have "sh_mutex s = None \<longrightarrow> sh_exporter s = e" using ex(3) by (auto simp: current_def)
  moreover have "\<forall>i. inside (sh_calls s i) \<longleftrightarrow> sh_mutex s = Some i" "\<forall>x \<in> set (sh_log s). distinct (snd x)"
    using serial unfolding serial_def owned_def by blast+
  ultimately show ?thesis using ex(1,2) unfolding answered_def by (intro exI [of _ outs] exI [of _ e]) simp
qed

text \<open>
  C17. A call of \<open>Collect\<close> that has the mutex always can return: from any reachable state, whatever
  its collectors have done so far and whatever they find, there is a run in which all of them
  finish, and it ends with the answer of this call and the mutex free for the next one.
\<close>

theorem collect_call_returns:
  assumes "prom_vecs P" and "self_metrics P S" and "exporter_ok P S e0" and "shared_reachable P S env e0 s"
    and "sh_mutex s = Some i" and "Collects P S (logged env (sh_log s)) e0 = Some (outs, e)"
    and "\<forall>j < length (ex_collectors e). scrape_benign P (env i) (ex_dbClients e) j (snd (ex_collectors e ! j))"
  shows "\<exists>s' out. (shared_step P S env)\<^sup>*\<^sup>* s s' \<and> sh_calls s' i = Sent_all out \<and> sh_mutex s' = None \<and>
    map fst (sh_log s') = map fst (sh_log s) @ [i]"
proof -
  have cur: "current P S env e s"
    using serial_reachable [OF assms(4)] assms(6) unfolding serial_def owned_def by auto
  have ok: "unhindered P S (env i) e"
    using Collects_kept [OF assms(1-3,6)] assms(7) by (simp add: unhindered_def)
  have "returns_later P S env s i"
  proof (cases "sh_calls s i")
    case Locked
    with cur assms(5) have e: "sh_exporter s = e" by (simp add: current_def)
    let ?s = "s\<lparr>sh_exporter := e\<lparr>ex_totalScrapes := CounterInc S (ex_totalScrapes e)\<rparr>,
      sh_calls := (sh_calls s)(i := Scraping Map.empty [])\<rparr>"
    have ret: "returns_later P S env ?s i"
    proof (rule returns_scraping [OF assms(1,2), where env = env and i = i, OF ok])
      show "sh_calls ?s i = Scraping Map.empty []" by simp
      show "midway P S (env i) Map.empty [] e (sh_exporter ?s)" using midway_start [of P S "env i" e] by simp
    qed
    have st: "shared_step P S env s ?s"
      by (rule shared_step.count) (use Locked e in simp_all)
    show ?thesis by (rule returns_later_step [OF st _ ret]) simp
  next
    case (Scraping rs ord)
    with cur assms(5) have "midway P S (env i) rs ord e (sh_exporter s)" by (simp add: current_def)
    with Scraping show ?thesis by (rule returns_scraping [OF assms(1,2), where env = env and i = i, OF ok])
  qed (use cur assms(5) in \<open>simp_all add: current_def\<close>)
  then show ?thesis unfolding returns_later_def .
qed

text \<open>Two calls of which the first has the mutex.\<close>

definition two_calls :: "(refvec, refvec, metric, refhist, nat, refhistmetric) shared" where
  "two_calls = (initial_shared custom_exporter)\<lparr>sh_mutex := Some 0, sh_calls := (\<lambda>_. Uncalled)(0 := Blocked, 1 := Blocked, 0 := Locked)\<rparr>"

lemma two_calls_reachable: "shared_reachable ref_prom ref_self (\<lambda>_. custom_env) custom_exporter two_calls"
proof -
  let ?s0 = "initial_shared custom_exporter :: (refvec, refvec, metric, refhist, nat, refhistmetric) shared"
  have "shared_reachable ref_prom ref_self (\<lambda>_. custom_env) custom_exporter (?s0\<lparr>sh_calls := (\<lambda>_. Uncalled)(0 := Blocked)\<rparr>)"
    (is "shared_reachable _ _ _ _ ?s1")
    using shared_reachable.more [OF shared_reachable.start shared_step.call [of ?s0 0]] by (simp add: initial_shared_def)
  from shared_reachable.more [OF this shared_step.call [of ?s1 1]]
  have "shared_reachable ref_prom ref_self (\<lambda>_. custom_env) custom_exporter
      (?s0\<lparr>sh_calls := (\<lambda>_. Uncalled)(0 := Blocked, 1 := Blocked)\<rparr>)" (is "shared_reachable _ _ _ _ ?s2")
    by (simp add: initial_shared_def)
  from shared_reachable.more [OF this shared_step.lock [of ?s2 0]]
  show ?thesis by (simp add: initial_shared_def two_calls_def)
qed

lemma reachable_steps_shared:
  "(shared_step P S env)\<^sup>*\<^sup>* s s' \<Longrightarrow> shared_reachable P S env e s \<Longrightarrow> shared_reachable P S env e s'"
  by (induction rule: rtranclp_induct) (auto intro: shared_reachable.more)

lemma two_calls_benign:
  "\<forall>j < length (ex_collectors custom_exporter). scrape_benign ref_prom custom_env (ex_dbClients custom_exporter) j
     (snd (ex_collectors custom_exporter ! j))"
  using custom_env_benign [of custom_exporter ref_prom] by (simp add: custom_exporter_def)

lemma two_calls_return:
  "\<exists>s' out. (shared_step ref_prom ref_self (\<lambda>_. custom_env))\<^sup>*\<^sup>* two_calls s' \<and> sh_calls s' 0 = Sent_all out \<and>
     sh_mutex s' = None \<and> map fst (sh_log s') = [0]"
proof -
  have ok: "unhindered ref_prom ref_self custom_env custom_exporter"
    using custom_exporter_ok two_calls_benign by (simp add: unhindered_def)
  let ?s = "two_calls\<lparr>sh_exporter := custom_exporter\<lparr>ex_totalScrapes := CounterInc ref_self (ex_totalScrapes custom_exporter)\<rparr>,
      sh_calls := (sh_calls two_calls)(0 := Scraping Map.empty [])\<rparr>"
  have ret: "returns_later ref_prom ref_self (\<lambda>_. custom_env) ?s 0"
  proof (rule returns_scraping [OF ref.prom_vecs_axioms ref_self.self_metrics_axioms])
    show "unhindered ref_prom ref_self custom_env custom_exporter" by (rule ok)
    show "sh_calls ?s 0 = Scraping Map.empty []" by simp
    show "midway ref_prom ref_self custom_env Map.empty [] custom_exporter (sh_exporter ?s)"
      using midway_start [of ref_prom ref_self custom_env custom_exporter] by simp
  qed
  have st: "shared_step ref_prom ref_self (\<lambda>_. custom_env) two_calls ?s"
    by (rule shared_step.count) (simp_all add: two_calls_def initial_shared_def)
  have "returns_later ref_prom ref_self (\<lambda>_. custom_env) two_calls 0"
    by (rule returns_later_step [OF st _ ret]) simp
  then show ?thesis unfolding returns_later_def by (simp add: two_calls_def initial_shared_def)
qed

theorem concurrent_collects_serialised_witness:
  "\<exists>s outs e. shared_reachable ref_prom ref_self (\<lambda>_. custom_env) custom_exporter s \<and> map fst (sh_log s) = [0] \<and>
     Collects ref_prom ref_self (logged (\<lambda>_. custom_env) (sh_log s)) custom_exporter = Some (outs, e) \<and> sh_exporter s = e"
proof -
  obtain s where s: "(shared_step ref_prom ref_self (\<lambda>_. custom_env))\<^sup>*\<^sup>* two_calls s" "sh_mutex s = None" "map fst (sh_log s) = [0]"
    using two_calls_return by (elim exE conjE) (rule that)
  from reachable_steps_shared [OF s(1) two_calls_reachable]
  have r: "shared_reachable ref_prom ref_self (\<lambda>_. custom_env) custom_exporter s" .
  obtain outs e where "Collects ref_prom ref_self (logged (\<lambda>_. custom_env) (sh_log s)) custom_exporter = Some (outs, e)"
    "sh_mutex s = None \<longrightarrow> sh_exporter s = e"
    using concurrent_collects_serialised [OF r] by (elim exE conjE) (rule that)
  with s(2,3) r show ?thesis by (intro exI [of _ s] exI [of _ outs] exI [of _ e]) simp
qed

theorem collect_call_returns_witness:
  "\<exists>s' out. (shared_step ref_prom ref_self (\<lambda>_. custom_env))\<^sup>*\<^sup>* two_calls s' \<and> sh_calls s' 0 = Sent_all out \<and>
     sh_mutex s' = None \<and> map fst (sh_log s') = [0]"
proof -
  have "\<exists>s' out. (shared_step ref_prom ref_self (\<lambda>_. custom_env))\<^sup>*\<^sup>* two_calls s' \<and> sh_calls s' 0 = Sent_all out \<and>
      sh_mutex s' = None \<and> map fst (sh_log s') = map fst (sh_log two_calls) @ [0]"
  proof (rule collect_call_returns [OF ref.prom_vecs_axioms ref_self.self_metrics_axioms custom_exporter_ok two_calls_reachable])
    show "sh_mutex two_calls = Some 0" by (simp add: two_calls_def)
    show "Collects ref_prom ref_self (logged (\<lambda>_. custom_env) (sh_log two_calls)) custom_exporter = Some ([], custom_exporter)"
      by (simp add: two_calls_def initial_shared_def logged_def)
  qed (rule two_calls_benign)
  then show ?thesis by (simp add: two_calls_def initial_shared_def)
qed

end
