(* ===== verification/VersionProbe.thy ===== *)
theory VersionProbe
  imports DbClient Mutex
begin

text \<open>
  The version gate under concurrency (\<open>AtLeast\<close> and \<open>probeServerVersion\<close> in
  \<open>exporter/db/db.go\<close>): the collectors of one scrape ask one client at the same time, the cached
  version is read without the mutex, and a goroutine that finds it unknown takes the mutex, looks
  again and sends the version query. The lemmas show that the questions are answered as if they
  had been put one after the other, the function \<open>gate_calls\<close> of theory \<open>DbClient\<close>.
\<close>

subsection \<open>States and steps\<close>

text \<open>A call of \<open>AtLeast\<close>: waiting for the mutex, past it, with its query on the way, at the last
  read of the cached version, and with its answer.\<close>

datatype gate_phase = Asked | Waiting | Holding | Querying | Reading | Answered bool

record gating =
  gt_client :: Client
  gt_mutex :: "nat option"
  gt_phase :: "nat \<Rightarrow> gate_phase"
  gt_result :: "nat \<Rightarrow> (error + int) option"
    \<comment> \<open>what the version query of a call has yielded, if it sent one\<close>
  gt_log :: "(nat \<times> bool) list"
    \<comment> \<open>the answers so far\<close>

definition initial_gating :: "Client \<Rightarrow> gating" where
  "initial_gating c = \<lparr>gt_client = c, gt_mutex = None, gt_phase = (\<lambda>_. Asked), gt_result = (\<lambda>_. None), gt_log = []\<rparr>"

abbreviation version_of :: "gating \<Rightarrow> int" where
  "version_of s \<equiv> ServerVersionNum (gt_client s)"

inductive gate_step :: "(nat \<Rightarrow> int \<times> int) \<Rightarrow> gating \<Rightarrow> gating \<Rightarrow> bool" for asks where
  known: "gt_phase s i = Asked \<Longrightarrow> \<not> (version_of s = 0 \<and> cl_pool (gt_client s) \<noteq> None) \<Longrightarrow>
    gate_step asks s (s\<lparr>gt_phase := (gt_phase s)(i := Reading)\<rparr>)"
| unknown: "gt_phase s i = Asked \<Longrightarrow> version_of s = 0 \<Longrightarrow> cl_pool (gt_client s) \<noteq> None \<Longrightarrow>
    gate_step asks s (s\<lparr>gt_phase := (gt_phase s)(i := Waiting)\<rparr>)"
| acquire: "gt_phase s i = Waiting \<Longrightarrow> gt_mutex s = None \<Longrightarrow>
    gate_step asks s (s\<lparr>gt_mutex := Some i, gt_phase := (gt_phase s)(i := Holding)\<rparr>)"
| short_circuit: "gt_phase s i = Holding \<Longrightarrow> version_of s \<noteq> 0 \<Longrightarrow>
    gate_step asks s (s\<lparr>gt_mutex := None, gt_phase := (gt_phase s)(i := Reading)\<rparr>)"
| query: "gt_phase s i = Holding \<Longrightarrow> version_of s = 0 \<Longrightarrow>
    gate_step asks s (s\<lparr>gt_phase := (gt_phase s)(i := Querying)\<rparr>)"
| failure: "gt_phase s i = Querying \<Longrightarrow>
    gate_step asks s (s\<lparr>gt_mutex := None, gt_phase := (gt_phase s)(i := Reading),
      gt_result := (gt_result s)(i \<mapsto> Inl e)\<rparr>)"
| success: "gt_phase s i = Querying \<Longrightarrow>
    gate_step asks s (s\<lparr>gt_client := (gt_client s)\<lparr>ServerVersionNum := v\<rparr>, gt_mutex := None,
      gt_phase := (gt_phase s)(i := Reading), gt_result := (gt_result s)(i \<mapsto> Inr v)\<rparr>)"
| answer: "gt_phase s i = Reading \<Longrightarrow>
    b = (version_of s \<noteq> 0 \<and> fst (asks i) * 10000 + snd (asks i) \<le> version_of s) \<Longrightarrow>
    gate_step asks s (s\<lparr>gt_phase := (gt_phase s)(i := Answered b), gt_log := gt_log s @ [(i, b)]\<rparr>)"

inductive gate_reachable :: "(nat \<Rightarrow> int \<times> int) \<Rightarrow> Client \<Rightarrow> gating \<Rightarrow> bool" for asks c where
  start: "gate_reachable asks c (initial_gating c)"
| more: "gate_reachable asks c s \<Longrightarrow> gate_step asks s s' \<Longrightarrow> gate_reachable asks c s'"

subsection \<open>The invariant\<close>

definition no_version :: "(error + int) option \<Rightarrow> bool" where
  "no_version r \<longleftrightarrow> (case r of Some (Inl e) \<Rightarrow> True | Some (Inr v) \<Rightarrow> v = 0 | None \<Rightarrow> False)"

text \<open>Only the holder of the mutex is past it, and the version it will write is still unknown.\<close>

abbreviation past_lock :: "gating \<Rightarrow> nat \<Rightarrow> bool" where
  "past_lock s i \<equiv> gt_phase s i \<in> {Holding, Querying}"

definition mutex_ok :: "gating \<Rightarrow> bool" where
  "mutex_ok s \<longleftrightarrow> owned (gt_mutex s) (past_lock s) \<and> (\<forall>i. gt_phase s i = Querying \<longrightarrow> version_of s = 0)"

text \<open>A call that has no version to read has asked the server itself, in vain.\<close>

definition asked_ok :: "gating \<Rightarrow> bool" where
  "asked_ok s \<longleftrightarrow> (\<forall>i. gt_phase s i \<in> {Waiting, Holding, Querying} \<longrightarrow> cl_pool (gt_client s) \<noteq> None) \<and>
     (\<forall>i. gt_phase s i = Reading \<longrightarrow>
        version_of s \<noteq> 0 \<or> cl_pool (gt_client s) = None \<or> no_version (gt_result s i))"

text \<open>The answers: first those without a version, then those by the cached one.\<close>

definition log_ok :: "(nat \<Rightarrow> int \<times> int) \<Rightarrow> Client \<Rightarrow> gating \<Rightarrow> bool" where
  "log_ok asks c s \<longleftrightarrow> (\<exists>us ks. gt_log s = us @ ks \<and> (us \<noteq> [] \<longrightarrow> ServerVersionNum c = 0) \<and>
     (\<forall>(i, b) \<in> set us. \<not> b \<and> (cl_pool (gt_client s) = None \<or> no_version (gt_result s i))) \<and>
     (ks \<noteq> [] \<longrightarrow> version_of s \<noteq> 0) \<and>
     (\<forall>(i, b) \<in> set ks. b = (fst (asks i) * 10000 + snd (asks i) \<le> version_of s)))"

definition answers_ok :: "gating \<Rightarrow> bool" where
  "answers_ok s \<longleftrightarrow> distinct (map fst (gt_log s)) \<and> (\<forall>i b. (i, b) \<in> set (gt_log s) \<longleftrightarrow> gt_phase s i = Answered b)"

interpretation probe_mutex: critical_section "gate_step asks" "\<lambda>_. True" gt_mutex past_lock for asks
proof unfold_locales
  fix s s'
  assume "gate_step asks s s'"
  then show "locks_once (gt_mutex s, past_lock s) (gt_mutex s', past_lock s')"
  proof (cases rule: gate_step.cases)
    case (acquire i)
    then show ?thesis by (intro locks_onceI(2) [of _ _ i]) (auto simp: fun_eq_iff)
  next
    case (short_circuit i)
    then show ?thesis by (intro locks_onceI(3) [of _ i]) (auto simp: fun_eq_iff)
  next
    case (failure i e)
    then show ?thesis by (intro locks_onceI(3) [of _ i]) (auto simp: fun_eq_iff)
  next
    case (success i v)
    then show ?thesis by (intro locks_onceI(3) [of _ i]) (auto simp: fun_eq_iff)
  qed (intro locks_onceI(1); auto simp: fun_eq_iff)+
qed simp

lemma mutex_iff: "mutex_ok s \<Longrightarrow> past_lock s i \<longleftrightarrow> gt_mutex s = Some i"
  unfolding mutex_ok_def using ownedD [of "gt_mutex s" "past_lock s" i] by blast

lemma past_one: "mutex_ok s \<Longrightarrow> past_lock s i \<Longrightarrow> past_lock s k \<Longrightarrow> k = i"
  unfolding mutex_ok_def by (metis owned_alone)

text \<open>The version is unknown while a query is on its way: the one party that could learn it has sent it.\<close>

lemma querying_unknown:
  assumes "gate_step asks s s'" and "mutex_ok s" and "gt_phase s' k = Querying"
  shows "version_of s' = 0"
proof (cases "gt_phase s k = Querying")
  case True
  then have "version_of s = 0" using assms(2) unfolding mutex_ok_def by blast
  with assms(1) show ?thesis
  proof (cases rule: gate_step.cases)
    case (success i v)
    then have "k = i" using past_one [OF assms(2), of i k] True by simp
    with success assms(3) show ?thesis by simp
  qed simp_all
next
  case False
  with assms(1,3) show ?thesis by (cases rule: gate_step.cases) (auto split: if_splits)
qed

lemma mutex_ok_step: "gate_step asks s s' \<Longrightarrow> mutex_ok s \<Longrightarrow> mutex_ok s'"
  using probe_mutex.owned_step [of asks s s'] querying_unknown [of asks s s'] unfolding mutex_ok_def by blast

lemma asked_ok_step: "gate_step asks s s' \<Longrightarrow> mutex_ok s \<Longrightarrow> asked_ok s \<Longrightarrow> asked_ok s'"
proof (induction rule: gate_step.induct)
  case (success s i v)
  have "version_of s = 0" using success(1,2) unfolding mutex_ok_def by blast
  with success show ?case by (auto simp: asked_ok_def no_version_def)
next
  case (failure s i e)
  then show ?case by (auto simp: asked_ok_def no_version_def)
qed (auto simp: asked_ok_def)

lemma version_kept:
  assumes "gate_step asks s s'" and "mutex_ok s" and "version_of s \<noteq> 0"
  shows "version_of s' = version_of s"
proof (cases "version_of s' = version_of s")
  case False
  with assms(1) obtain i where "gt_phase s i = Querying" by (cases rule: gate_step.cases) auto
  with assms(2,3) show ?thesis unfolding mutex_ok_def by blast
qed

lemma pool_kept: "gate_step asks s s' \<Longrightarrow> cl_pool (gt_client s') = cl_pool (gt_client s)"
  by (induction rule: gate_step.induct) auto

lemma answers_ok_step:
  assumes "gate_step asks s s'" and "answers_ok s"
  shows "answers_ok s'"
  using assms
proof (induction rule: gate_step.induct)
  case (answer s i b)
  have new: "i \<notin> fst ` set (gt_log s)"
  proof
    assume "i \<in> fst ` set (gt_log s)"
    then obtain b' where "(i, b') \<in> set (gt_log s)" by auto
    with answer(3) have "gt_phase s i = Answered b'" unfolding answers_ok_def by blast
    with answer(1) show False by simp
  qed
  have "(k, x) \<in> set (gt_log s @ [(i, b)]) \<longleftrightarrow> ((gt_phase s)(i := Answered b)) k = Answered x" for k x
    using new answer(1,3) unfolding answers_ok_def by (cases "k = i") (auto simp: image_iff)
  with new answer(3) show ?case unfolding answers_ok_def by simp
qed (auto simp: answers_ok_def)

lemma result_kept:
  assumes "gate_step asks s s'" and "gt_phase s i = Answered b"
  shows "gt_result s' i = gt_result s i"
  using assms by (cases rule: gate_step.cases) auto

lemma log_ok_step:
  assumes "gate_step asks s s'" and "mutex_ok s" and "asked_ok s" and "answers_ok s" and "log_ok asks c s"
    and "version_of s = 0 \<Longrightarrow> ServerVersionNum c = 0"
  shows "log_ok asks c s'"
proof -
  from assms(5) obtain us ks where l: "gt_log s = us @ ks"
    and c: "us \<noteq> [] \<longrightarrow> ServerVersionNum c = 0" and l':
    "\<forall>(i, b) \<in> set us. \<not> b \<and> (cl_pool (gt_client s) = None \<or> no_version (gt_result s i))"
    "ks \<noteq> [] \<longrightarrow> version_of s \<noteq> 0"
    "\<forall>(i, b) \<in> set ks. b = (fst (asks i) * 10000 + snd (asks i) \<le> version_of s)"
    unfolding log_ok_def by blast
  have us: "\<forall>(i, b) \<in> set us. \<not> b \<and> (cl_pool (gt_client s') = None \<or> no_version (gt_result s' i))"
  proof clarify
    fix i b
    assume i: "(i, b) \<in> set us"
    then have "gt_phase s i = Answered b" using assms(4) l unfolding answers_ok_def by auto
    with l'(1) i result_kept [OF assms(1)] pool_kept [OF assms(1)]
    show "\<not> b \<and> (cl_pool (gt_client s') = None \<or> no_version (gt_result s' i))" by fastforce
  qed
  have ks: "(ks \<noteq> [] \<longrightarrow> version_of s' \<noteq> 0) \<and>
      (\<forall>(i, b) \<in> set ks. b = (fst (asks i) * 10000 + snd (asks i) \<le> version_of s'))"
  proof (cases "ks = []")
    case False
    with l'(2) version_kept [OF assms(1,2)] have "version_of s' = version_of s" by simp
    with l'(2,3) show ?thesis by simp
  qed simp
  show ?thesis
  proof (cases "gt_log s' = gt_log s")
    case True
    with us ks l c show ?thesis unfolding log_ok_def by (intro exI [of _ us] exI [of _ ks]) simp
  next
    case False
    with assms(1) obtain i b where s': "gt_phase s i = Reading" "gt_log s' = gt_log s @ [(i, b)]"
      "b = (version_of s \<noteq> 0 \<and> fst (asks i) * 10000 + snd (asks i) \<le> version_of s)"
      "version_of s' = version_of s" "gt_result s' = gt_result s" "gt_client s' = gt_client s"
      by (cases rule: gate_step.cases) auto
    show ?thesis
    proof (cases "version_of s = 0")
      case True
      with l'(2) have "ks = []" by blast
      moreover have "cl_pool (gt_client s) = None \<or> no_version (gt_result s i)"
        using assms(3) s'(1) True unfolding asked_ok_def by blast
      ultimately show ?thesis
        unfolding log_ok_def using us l s' True assms(6) by (intro exI [of _ "us @ [(i, b)]"] exI [of _ "[]"]) simp
    next
      case False
      then show ?thesis
        unfolding log_ok_def using us ks l c s' by (intro exI [of _ us] exI [of _ "ks @ [(i, b)]"]) simp
    qed
  qed
qed

definition gate_inv :: "(nat \<Rightarrow> int \<times> int) \<Rightarrow> Client \<Rightarrow> gating \<Rightarrow> bool" where
  "gate_inv asks c s \<longleftrightarrow> mutex_ok s \<and> asked_ok s \<and> answers_ok s \<and> log_ok asks c s \<and>
     cl_pool (gt_client s) = cl_pool c \<and>
     (ServerVersionNum c \<noteq> 0 \<or> cl_pool c = None \<longrightarrow> version_of s = ServerVersionNum c)"

lemma gate_inv_initial: "gate_inv asks c (initial_gating c)"
  by (auto simp: gate_inv_def initial_gating_def mutex_ok_def owned_def asked_ok_def answers_ok_def log_ok_def)

lemma version_kept_nil_pool:
  assumes "gate_step asks s s'" and "asked_ok s" and "cl_pool (gt_client s) = None"
  shows "version_of s' = version_of s"
  using assms by (cases rule: gate_step.cases) (auto simp: asked_ok_def)

lemma gate_inv_step:
  assumes "gate_step asks s s'" and "gate_inv asks c s"
  shows "gate_inv asks c s'"
proof -
  from assms(2) have inv: "mutex_ok s" "asked_ok s" "answers_ok s" "log_ok asks c s"
    "cl_pool (gt_client s) = cl_pool c"
    "ServerVersionNum c \<noteq> 0 \<or> cl_pool c = None \<longrightarrow> version_of s = ServerVersionNum c"
    unfolding gate_inv_def by blast+
  have "version_of s' = ServerVersionNum c" if "ServerVersionNum c \<noteq> 0 \<or> cl_pool c = None"
    using that inv version_kept [OF assms(1) inv(1)] version_kept_nil_pool [OF assms(1) inv(2)] by metis
  moreover have "log_ok asks c s'"
    by (rule log_ok_step [OF assms(1) inv(1-4)]) (use inv(6) in metis)
  ultimately show ?thesis
    using mutex_ok_step [OF assms(1) inv(1)] asked_ok_step [OF assms(1) inv(1,2)]
      answers_ok_step [OF assms(1) inv(3)] pool_kept [OF assms(1)] inv(5)
    unfolding gate_inv_def by simp
qed

lemma gate_inv_reachable: "gate_reachable asks c s \<Longrightarrow> gate_inv asks c s"
  by (induction rule: gate_reachable.induct) (blast intro: gate_inv_initial gate_inv_step)+

subsection \<open>Serial answers\<close>

lemma gate_calls_vain:
  assumes "cl_pool c \<noteq> None" and "ServerVersionNum c = 0" and "\<forall>r \<in> set rs. no_version (Some r)"
  shows "length cs = length rs \<Longrightarrow> gate_calls cs (c, rs @ ps) = (replicate (length rs) False, (c, ps))"
  using assms(3)
proof (induction rs arbitrary: cs)
  case (Cons r rs)
  then obtain a b cs' where cs: "cs = (a, b) # cs'" "length cs' = length rs" by (cases cs) auto
  from assms(1) obtain p where p: "cl_pool c = Some p" by blast
  have "AtLeast a b (c, r # (rs @ ps)) = (False, (c, rs @ ps))"
  proof (cases r)
    case (Inl e)
    then show ?thesis using AtLeast_probes(2) [OF p assms(2)] by simp
  next
    case (Inr v)
    with Cons.prems(2) have "v = 0" by (simp add: no_version_def)
    with assms(2) have "c\<lparr>ServerVersionNum := v\<rparr> = c" by (metis Client.surjective Client.update_convs(4))
    with Inr \<open>v = 0\<close> AtLeast_probes(1) [OF p assms(2)] show ?thesis by simp
  qed
  with cs Cons show ?case by simp
qed simp

lemma gate_calls_nil_pool:
  "cl_pool c = None \<Longrightarrow> ServerVersionNum c = 0 \<Longrightarrow> gate_calls cs (c, ps) = (replicate (length cs) False, (c, ps))"
  by (induction cs) (auto simp: AtLeast_nil_pool)

lemma gate_calls_learned:
  assumes "cl_pool c \<noteq> None" and "ServerVersionNum c = 0" and "v \<noteq> 0" and "cs \<noteq> []"
  shows "gate_calls cs (c, [Inr v]) = (map (\<lambda>(a, b). a * 10000 + b \<le> v) cs, (c\<lparr>ServerVersionNum := v\<rparr>, []))"
proof -
  from assms(4) obtain a b cs' where cs: "cs = (a, b) # cs'" by (metis list.exhaust surj_pair)
  from assms(1) obtain p where "cl_pool c = Some p" by blast
  with assms(2,3) AtLeast_probes(1) [of c p a b v "[]"] gate_calls_known [of "c\<lparr>ServerVersionNum := v\<rparr>" cs' "[]"]
  show ?thesis by (simp add: cs)
qed

text \<open>The calls \<open>us\<close> that found no version, and the calls \<open>ks\<close> that knew it.\<close>

lemma answers_serial:
  assumes "us \<noteq> [] \<longrightarrow> ServerVersionNum c = 0"
    and "\<forall>(i, b) \<in> set us. \<not> b \<and> (cl_pool c = None \<or> no_version (gt_result s i))"
    and "ks \<noteq> [] \<longrightarrow> version_of s \<noteq> 0"
    and "\<forall>(i, b) \<in> set ks. b = (fst (asks i) * 10000 + snd (asks i) \<le> version_of s)"
    and "ServerVersionNum c \<noteq> 0 \<or> cl_pool c = None \<Longrightarrow> version_of s = ServerVersionNum c"
  shows "\<exists>c'. gate_calls (map (\<lambda>x. asks (fst x)) (us @ ks))
        (c, if cl_pool c = None \<or> ServerVersionNum c \<noteq> 0 then []
            else map (\<lambda>x. the (gt_result s (fst x))) us @ (if ks = [] then [] else [Inr (version_of s)])) =
        (map snd (us @ ks), (c', []))"
proof -
  let ?qs = "map (\<lambda>x. asks (fst x))"
  have us: "map snd us = replicate (length us) False"
    using assms(2) by (intro replicate_eqI) auto
  have ks: "map snd ks = map (\<lambda>(a, b). a * 10000 + b \<le> version_of s) (?qs ks)"
    using assms(4) by (auto simp: case_prod_beta)
  consider "ServerVersionNum c \<noteq> 0" | "ServerVersionNum c = 0" "cl_pool c = None"
    | "ServerVersionNum c = 0" "cl_pool c \<noteq> None" by blast
  then show ?thesis
  proof cases
    case 1
    with assms(1,5) ks show ?thesis by (simp add: gate_calls_known)
  next
    case 2
    with assms(3,5) have "ks = []" by metis
    with 2 us show ?thesis by (simp add: gate_calls_nil_pool)
  next
    case 3
    have vain: "\<forall>r \<in> set (map (\<lambda>x. the (gt_result s (fst x))) us). no_version (Some r)"
      using assms(2) 3(2) by (fastforce simp: no_version_def split: option.splits)
    note first = gate_calls_vain [OF 3(2,1) vain, of "?qs us"]
    have learned: "gate_calls (?qs ks) (c, [Inr (version_of s)]) =
        (map snd ks, (c\<lparr>ServerVersionNum := version_of s\<rparr>, []))" if "ks \<noteq> []"
      using that assms(3) gate_calls_learned [OF 3(2,1), of "version_of s" "?qs ks"] ks by simp
    from 3(2) obtain p where p: "cl_pool c = Some p" by blast
    show ?thesis
      using p 3 first [of "[]"] first [of "[Inr (version_of s)]"] us learned
      by (cases "ks = []") (simp_all add: gate_calls_append)
  qed
qed

subsection \<open>Properties\<close>

text \<open>
  C9. The questions that concurrent collectors put to one client are answered as if they had been
  put one after the other: the answers given so far are those of \<open>gate_calls\<close>, in the order of the
  answers, where the server's replies are the vain queries of the calls that got no version and
  then the one that told it. A call goes without a version only when its own query was in vain (or
  there is no pool). At most one query is on its way, and a known version never changes.
\<close>

theorem concurrent_gates_serialised:
  assumes "gate_reachable asks c s"
  shows "(\<exists>us ks c'. gt_log s = us @ ks \<and> distinct (map fst (gt_log s)) \<and>
      (\<forall>x \<in> set us. cl_pool c = None \<or> no_version (gt_result s (fst x))) \<and>
      gate_calls (map (\<lambda>x. asks (fst x)) (gt_log s))
        (c, if cl_pool c = None \<or> ServerVersionNum c \<noteq> 0 then []
            else map (\<lambda>x. the (gt_result s (fst x))) us @ (if ks = [] then [] else [Inr (version_of s)])) =
        (map snd (gt_log s), (c', []))) \<and>
    (\<forall>i j. gt_phase s i = Querying \<and> gt_phase s j = Querying \<longrightarrow> i = j) \<and>
    (\<forall>s'. gate_step asks s s' \<and> version_of s \<noteq> 0 \<longrightarrow> version_of s' = version_of s)"
proof -
  have inv: "gate_inv asks c s" by (rule gate_inv_reachable [OF assms])
  then have mutex: "mutex_ok s" by (simp add: gate_inv_def)
  from inv have pool: "cl_pool (gt_client s) = cl_pool c" and log: "log_ok asks c s"
    unfolding gate_inv_def by blast+
  from log [unfolded log_ok_def pool] obtain us ks where l: "gt_log s = us @ ks" "us \<noteq> [] \<longrightarrow> ServerVersionNum c = 0"
    "\<forall>(i, b) \<in> set us. \<not> b \<and> (cl_pool c = None \<or> no_version (gt_result s i))"
    "ks \<noteq> [] \<longrightarrow> version_of s \<noteq> 0"
    "\<forall>(i, b) \<in> set ks. b = (fst (asks i) * 10000 + snd (asks i) \<le> version_of s)"
    by blast
  have same: "version_of s = ServerVersionNum c" if "ServerVersionNum c \<noteq> 0 \<or> cl_pool c = None"
    using inv that unfolding gate_inv_def by blast
  note serial = answers_serial [OF l(2-5) same]
  have "distinct (map fst (gt_log s))" using inv by (simp add: gate_inv_def answers_ok_def)
  moreover have "\<forall>x \<in> set us. cl_pool c = None \<or> no_version (gt_result s (fst x))" using l(3) by auto
  moreover have "i = j" if "gt_phase s i = Querying" "gt_phase s j = Querying" for i j
    using past_one [OF mutex, of j i] that by simp
  moreover have "version_of s' = version_of s" if "gate_step asks s s'" "version_of s \<noteq> 0" for s'
    by (rule version_kept [OF that(1) mutex that(2)])
  ultimately show ?thesis using serial unfolding l(1) by blast
qed

text \<open>A run: two collectors find the version unknown, the first learns it, both answer.\<close>

definition gate_asks :: "nat \<Rightarrow> int \<times> int" where
  "gate_asks i = (if i = 0 then (13, 0) else (17, 0))"

definition answered_gating :: gating where
  "answered_gating = (initial_gating demo_client)\<lparr>gt_client := demo_client\<lparr>ServerVersionNum := 160004\<rparr>,
     gt_phase := (\<lambda>_. Asked)(0 := Answered True, 1 := Answered False), gt_result := [0 \<mapsto> Inr 160004],
     gt_log := [(0, True), (1, False)]\<rparr>"

lemma answered_gating_reachable: "gate_reachable gate_asks demo_client answered_gating"
proof -
  let ?r = "gate_reachable gate_asks demo_client"
  let ?s0 = "initial_gating demo_client"
  have z: "ServerVersionNum demo_client = 0" "cl_pool demo_client = Some 1" by (simp_all add: demo_client_def)
  have "?r (?s0\<lparr>gt_phase := (\<lambda>_. Asked)(0 := Waiting)\<rparr>)" (is "gate_reachable _ _ ?s1")
    using gate_reachable.more [OF gate_reachable.start gate_step.unknown [of ?s0 0]] by (simp add: initial_gating_def z)
  from gate_reachable.more [OF this gate_step.acquire [of ?s1 0]]
  have "?r (?s0\<lparr>gt_mutex := Some 0, gt_phase := (\<lambda>_. Asked)(0 := Holding)\<rparr>)" (is "gate_reachable _ _ ?s2")
    by (simp add: initial_gating_def)
  from gate_reachable.more [OF this gate_step.query [of ?s2 0]]
  have "?r (?s0\<lparr>gt_mutex := Some 0, gt_phase := (\<lambda>_. Asked)(0 := Querying)\<rparr>)" (is "gate_reachable _ _ ?s3")
    by (simp add: initial_gating_def z)
  from gate_reachable.more [OF this gate_step.success [of ?s3 0 gate_asks 160004]]
  have "?r (?s0\<lparr>gt_client := demo_client\<lparr>ServerVersionNum := 160004\<rparr>, gt_phase := (\<lambda>_. Asked)(0 := Reading),
      gt_result := [0 \<mapsto> Inr 160004]\<rparr>)" (is "gate_reachable _ _ ?s4")
    by (simp add: initial_gating_def)
  from gate_reachable.more [OF this gate_step.answer [of ?s4 0 True gate_asks]]
  have "?r (?s4\<lparr>gt_phase := (\<lambda>_. Asked)(0 := Answered True), gt_log := [(0, True)]\<rparr>)" (is "gate_reachable _ _ ?s5")
    by (simp add: initial_gating_def gate_asks_def)
  from gate_reachable.more [OF this gate_step.known [of ?s5 1]]
  have "?r (?s5\<lparr>gt_phase := (\<lambda>_. Asked)(0 := Answered True, 1 := Reading)\<rparr>)" (is "gate_reachable _ _ ?s6")
    by (simp add: initial_gating_def)
  from gate_reachable.more [OF this gate_step.answer [of ?s6 1 False gate_asks]]
  show ?thesis by (simp add: initial_gating_def gate_asks_def answered_gating_def)
qed

theorem concurrent_gates_serialised_witness:
  "\<exists>ps c'. gate_calls [(13, 0), (17, 0)] (demo_client, ps) = ([True, False], (c', []))"
proof -
  from concurrent_gates_serialised [OF answered_gating_reachable]
  obtain ps c' where "gate_calls (map (\<lambda>x. gate_asks (fst x)) (gt_log answered_gating)) (demo_client, ps) =
      (map snd (gt_log answered_gating), (c', []))" by blast
  then show ?thesis by (simp add: answered_gating_def gate_asks_def) blast
qed

end
