(* ===== verification/Cancel.thy ===== *)
theory Cancel
  imports ExporterProps
begin

text \<open>
  The context of a scrape (\<open>errgroup.WithContext\<close> in \<open>Collect\<close>, \<open>exporter/exporter.go\<close>). All
  collectors scrape at once. The first of them that returns an error cancels the context that they
  share; from then on a query that is on its way or still to be sent fails, unless its answer has
  been read before. Which queries were answered in time is left open: the goroutines of a scrape
  are a step relation. Collectors from outside the repository may do without the context.
\<close>

subsection \<open>A cancelled context\<close>

definition canceled_query :: "string \<Rightarrow> error + 'r" where
  "canceled_query sql = Inl ''context canceled''"

definition canceled_server :: server where
  "canceled_server =
     \<lparr>q_PgStatActivity = canceled_query, q_PgLocks = canceled_query,
      q_PgLocksBlockingSummary = canceled_query, q_PgStatDatabase = canceled_query,
      q_PgDatabaseSize = canceled_query, q_PgStatBgwriter = canceled_query,
      q_PgStatCheckpointer = canceled_query, q_PgStatArchiver = canceled_query, q_PgStatWal = canceled_query,
      q_PgStatWalReceiver = canceled_query, q_PgStatReplication = canceled_query,
      q_PgReplicationSlots = canceled_query, q_PgStatIO = canceled_query, q_PgStatSLRU = canceled_query,
      q_PgStatSSL = canceled_query, q_PgStatSubscription = canceled_query,
      q_PgStatSubscriptionStats = canceled_query, q_PgSettings = canceled_query,
      q_PgStatUserTables = canceled_query, q_PgStatUserIndexes = canceled_query,
      q_PgStatIOUserTables = canceled_query, q_PgStatIOUserIndexes = canceled_query,
      q_PgStatStatements = canceled_query, q_PgStatProgressVacuum = canceled_query,
      q_PgStatProgressAnalyze = canceled_query, q_PgStatProgressBasebackup = canceled_query,
      q_PgStatProgressCopy = canceled_query, q_PgStatProgressCreateIndex = canceled_query,
      q_PgStatProgressCluster = canceled_query\<rparr>"

text \<open>A server to a client that has read the answers to \<open>n\<close> queries when its context is cancelled: two
  collectors send a second query, all others one.\<close>

definition cut_server :: "nat \<Rightarrow> server \<Rightarrow> server" where
  "cut_server n srv =
     (if n = 0 then canceled_server
      else if n = 1 then srv\<lparr>q_PgLocksBlockingSummary := canceled_query, q_PgStatSubscriptionStats := canceled_query\<rparr>
      else srv)"

text \<open>A declarative collector reads its rows one by one: the query and the first \<open>n - 1\<close> rows.\<close>

definition cut_query :: "nat \<Rightarrow> (string \<Rightarrow> error + rows) \<Rightarrow> string \<Rightarrow> error + rows" where
  "cut_query n q sql =
     (if n = 0 then canceled_query sql
      else case q sql of
          Inl e \<Rightarrow> Inl e
        | Inr rs \<Rightarrow> if n \<le> Suc (length (rows_values rs))
            then Inr (rs\<lparr>rows_values := take (n - 1) (rows_values rs), rows_err := Some ''context canceled''\<rparr>)
            else Inr rs)"

text \<open>How far each client of each collector had come when it found the context cancelled, if it did.\<close>

type_synonym cuts = "nat \<Rightarrow> nat \<Rightarrow> nat option"

definition cut_env :: "cuts \<Rightarrow> 'k scrape_env \<Rightarrow> 'k scrape_env" where
  "cut_env stops env = env\<lparr>
     se_server := (\<lambda>i j. case stops i j of None \<Rightarrow> se_server env i j | Some n \<Rightarrow> cut_server n (se_server env i j)),
     se_query := (\<lambda>i j. case stops i j of None \<Rightarrow> se_query env i j | Some n \<Rightarrow> cut_query n (se_query env i j))\<rparr>"

subsection \<open>The goroutines of a scrape\<close>

record ('cv, 'gv, 'k) group =
  gr_returned :: "(nat \<times> ('cv, 'gv, 'k) run) list"
    \<comment> \<open>the collectors that have returned, in order\<close>
  gr_cut :: cuts

text \<open>\<open>errgroup\<close> cancels the context when the first function of the group returns an error.\<close>

definition cancelled :: "('cv, 'gv, 'k) group \<Rightarrow> bool" where
  "cancelled g \<longleftrightarrow> (\<exists>(i, r) \<in> set (gr_returned g). run_err r \<noteq> None)"

inductive group_step :: "('cv, 'gv) prom \<Rightarrow> 'k scrape_env \<Rightarrow> ('cv, 'gv, 'c, 'hv, 'k) exporter \<Rightarrow>
    ('cv, 'gv, 'k) group \<Rightarrow> ('cv, 'gv, 'k) group \<Rightarrow> bool" for P env e where
  returns: "i < length (ex_collectors e) \<Longrightarrow> i \<notin> fst ` set (gr_returned g) \<Longrightarrow>
    Collector_Scrape P (cut_env (gr_cut g) env) (ex_dbClients e) i (snd (ex_collectors e ! i)) = Some r \<Longrightarrow>
    group_step P env e g (g\<lparr>gr_returned := gr_returned g @ [(i, r)]\<rparr>)"
| interrupted: "cancelled g \<Longrightarrow> i < length (ex_collectors e) \<Longrightarrow> i \<notin> fst ` set (gr_returned g) \<Longrightarrow>
    gr_cut g i j = None \<Longrightarrow>
    group_step P env e g (g\<lparr>gr_cut := (gr_cut g)(i := (gr_cut g i)(j \<mapsto> n))\<rparr>)"

inductive group_reachable :: "('cv, 'gv) prom \<Rightarrow> 'k scrape_env \<Rightarrow> ('cv, 'gv, 'c, 'hv, 'k) exporter \<Rightarrow>
    ('cv, 'gv, 'k) group \<Rightarrow> bool" for P env e where
  start: "group_reachable P env e \<lparr>gr_returned = [], gr_cut = (\<lambda>_ _. None)\<rparr>"
| more: "group_reachable P env e g \<Longrightarrow> group_step P env e g g' \<Longrightarrow> group_reachable P env e g'"

subsection \<open>Lemmas: interrupted clients\<close>

lemma canceled_server_fields [simp]:
  "q_PgStatActivity canceled_server = canceled_query"
  "q_PgLocks canceled_server = canceled_query"
  "q_PgLocksBlockingSummary canceled_server = canceled_query"
  "q_PgStatDatabase canceled_server = canceled_query"
  "q_PgDatabaseSize canceled_server = canceled_query"
  "q_PgStatBgwriter canceled_server = canceled_query"
  "q_PgStatCheckpointer canceled_server = canceled_query"
  "q_PgStatArchiver canceled_server = canceled_query"
  "q_PgStatWal canceled_server = canceled_query"
  "q_PgStatWalReceiver canceled_server = canceled_query"
  "q_PgStatReplication canceled_server = canceled_query"
  "q_PgReplicationSlots canceled_server = canceled_query"
  "q_PgStatIO canceled_server = canceled_query"
  "q_PgStatSLRU canceled_server = canceled_query"
  "q_PgStatSSL canceled_server = canceled_query"
  "q_PgStatSubscription canceled_server = canceled_query"
  "q_PgStatSubscriptionStats canceled_server = canceled_query"
  "q_PgSettings canceled_server = canceled_query"
  "q_PgStatUserTables canceled_server = canceled_query"
  "q_PgStatUserIndexes canceled_server = canceled_query"
  "q_PgStatIOUserTables canceled_server = canceled_query"
  "q_PgStatIOUserIndexes canceled_server = canceled_query"
  "q_PgStatStatements canceled_server = canceled_query"
  "q_PgStatProgressVacuum canceled_server = canceled_query"
  "q_PgStatProgressAnalyze canceled_server = canceled_query"
  "q_PgStatProgressBasebackup canceled_server = canceled_query"
  "q_PgStatProgressCopy canceled_server = canceled_query"
  "q_PgStatProgressCreateIndex canceled_server = canceled_query"
  "q_PgStatProgressCluster canceled_server = canceled_query"
  by (simp_all add: canceled_server_def)

text \<open>The kinds whose query is behind a gate: it is not sent when the version is too low.\<close>

definition kind_gate :: "kind \<Rightarrow> int option" where
  "kind_gate k = (case k of
     PgStatCheckpointer \<Rightarrow> Some 17
   | PgStatIO \<Rightarrow> Some 16
   | PgStatWal \<Rightarrow> Some 14
   | PgStatProgressCopy \<Rightarrow> Some 14
   | PgStatSLRU \<Rightarrow> Some 13
   | PgStatProgressAnalyze \<Rightarrow> Some 13
   | PgStatProgressBasebackup \<Rightarrow> Some 13
   | _ \<Rightarrow> None)"

text \<open>A client in state \<open>s\<close> still has a query to send, or is waiting for it, after \<open>n\<close> answers.\<close>

definition still_asks :: "kind \<Rightarrow> nat \<Rightarrow> cstate \<Rightarrow> bool" where
  "still_asks k n s \<longleftrightarrow>
     (if n = 0 then (case kind_gate k of None \<Rightarrow> True | Some v \<Rightarrow> fst (AtLeast v 0 s))
      else n = 1 \<and> (k = PgLocks \<or> k = PgStatSubscription \<and> fst (AtLeast 15 0 s)))"

definition still_reads :: "CollectorSpec \<Rightarrow> nat \<Rightarrow> (string \<Rightarrow> error + rows) \<Rightarrow> cstate \<Rightarrow> bool" where
  "still_reads spec n q s \<longleftrightarrow> fst (spec_gate spec s) \<and>
     (case q (sp_SQL spec) of Inl e \<Rightarrow> True | Inr rs \<Rightarrow> n \<le> Suc (length (rows_values rs)))"

fun in_the_middle :: "'k scrape_env \<Rightarrow> Client option list \<Rightarrow> nat \<Rightarrow> nat \<Rightarrow> nat \<Rightarrow> ('cv, 'gv, 'k) Collector \<Rightarrow> bool" where
  "in_the_middle env clients i j n (Builtin k c) \<longleftrightarrow>
     j \<in> set (dbClients c) \<and> still_asks k n (client_view env clients i j)"
| "in_the_middle env clients i j n (Declarative c) \<longleftrightarrow>
     j \<in> set (sc_dbClients c) \<and> still_reads (sc_spec c) n (se_query env i j) (client_view env clients i j)"
| "in_the_middle env clients i j n (Custom k) \<longleftrightarrow> False"

lemma cut_scrape_fails:
  assumes "still_asks k n s"
  shows "snd (fst (scrape_kind k (cut_server n srv) s)) \<noteq> None"
proof (cases "n = 0")
  case True
  with assms show ?thesis
    by (cases k; simp only: scrape_kind.simps scrape_defs query_defs)
      (simp_all add: still_asks_def kind_gate_def cut_server_def canceled_query_def case_prod_beta)
next
  case False
  with assms consider "n = 1" "k = PgLocks" | "n = 1" "k = PgStatSubscription" "fst (AtLeast 15 0 s)"
    by (auto simp: still_asks_def split: if_splits)
  then show ?thesis
    by cases (simp_all add: scrape_kind.simps scrape_defs query_defs cut_server_def canceled_query_def case_prod_beta
        split: sum.split)
qed

lemma read_rows_error: "read_rows spec idx rws (Some e) = Some (es, err) \<Longrightarrow> err \<noteq> None"
proof (induction rws arbitrary: es err)
  case (Cons r rws)
  then show ?case by (cases r) (auto split: option.splits)
qed simp

lemma cut_spec_fails:
  assumes "still_reads spec n q s" and "fst (SpecCollector_scrape spec (cut_query n q) s) = Some (es, err)"
  shows "err \<noteq> None"
proof -
  have late: "case cut_query n q (sp_SQL spec) of Inl e \<Rightarrow> True | Inr rs \<Rightarrow> rows_err rs = Some ''context canceled''"
    using assms(1) by (auto simp: still_reads_def cut_query_def canceled_query_def split: sum.splits)
  show ?thesis
  proof (cases "cut_query n q (sp_SQL spec)")
    case (Inl e)
    with assms show ?thesis
      by (auto simp: SpecCollector_scrape_def still_reads_def case_prod_beta Client_Query_def)
  next
    case (Inr rs)
    with late have "rows_err rs = Some ''context canceled''" by simp
    have gate: "fst (spec_gate spec s)" using assms(1) by (simp add: still_reads_def)
    show ?thesis
    proof (cases "column_error spec (colIdx (rows_columns rs))")
      case None
      with Inr gate assms(2) \<open>rows_err rs = _\<close>
      have "read_rows spec (colIdx (rows_columns rs)) (rows_values rs) (Some ''context canceled'') = Some (es, err)"
        by (simp add: SpecCollector_scrape_def case_prod_beta Client_Query_def Let_def)
      then show ?thesis by (rule read_rows_error)
    next
      case (Some x)
      with Inr gate assms(2) have "err = Some x"
        by (simp add: SpecCollector_scrape_def case_prod_beta Client_Query_def Let_def)
      then show ?thesis by simp
    qed
  qed
qed

subsection \<open>Lemmas: the outside of a scrape\<close>

lemma cut_env_fields [simp]:
  "se_wait (cut_env stops env) = se_wait env" "se_collector_wait (cut_env stops env) = se_collector_wait env"
  "se_order (cut_env stops env) = se_order env" "se_sched (cut_env stops env) = se_sched env"
  "se_custom (cut_env stops env) = se_custom env"
  "se_server (cut_env stops env) i j =
    (case stops i j of None \<Rightarrow> se_server env i j | Some n \<Rightarrow> cut_server n (se_server env i j))"
  "se_query (cut_env stops env) i j =
    (case stops i j of None \<Rightarrow> se_query env i j | Some n \<Rightarrow> cut_query n (se_query env i j))"
  by (simp_all add: cut_env_def)

lemma cut_env_view [simp]: "client_view (cut_env stops env) = client_view env"
  by (intro ext) (simp add: client_view_def cut_env_def Let_def)

lemma cut_env_cong:
  assumes "stops i = stops' i"
  shows "Collector_Scrape P (cut_env stops env) clients i c = Collector_Scrape P (cut_env stops' env) clients i c"
proof -
  have "se_server (cut_env stops env) i = se_server (cut_env stops' env) i"
    and "se_query (cut_env stops env) i = se_query (cut_env stops' env) i"
    by (auto simp: fun_eq_iff assms)
  then show ?thesis by (cases c) simp_all
qed

lemma cut_env_none: "cut_env (\<lambda>_ _. None) env = env"
  by (simp add: cut_env_def)

lemma uncut: "(\<forall>j. stops i j = None) \<Longrightarrow>
  Collector_Scrape P (cut_env stops env) clients i c = Collector_Scrape P env clients i c"
  using cut_env_cong [of stops i "\<lambda>_ _. None" P env clients c] by (simp add: cut_env_none fun_eq_iff)

text \<open>A collector of the repository with a client that is interrupted in the middle fails, and exports
  nothing.\<close>

lemma interrupted_fails:
  assumes "errgroup (se_collector_wait env i)" and "stops i j = Some n" and "in_the_middle env clients i j n c"
    and "Collector_Scrape P (cut_env stops env) clients i c = Some r"
  shows "run_err r \<noteq> None" and "run_metrics r = []"
proof -
  have "run_err r \<noteq> None \<and> run_metrics r = []"
  proof (cases c)
    case (Builtin k b)
    let ?srv = "se_server (cut_env stops env) i"
    obtain out where out: "Scrape_kind k P (se_collector_wait env i) (se_sched env i) ?srv
        (client_view env clients i) b = Some out" "run_err r = oc_err out" "run_metrics r = oc_metrics out"
      using assms(4) Builtin by (auto split: if_splits)
    have "client_error k ?srv (client_view env clients i) j \<noteq> None"
      using assms(2,3) Builtin cut_scrape_fails unfolding client_error_def by simp
    moreover have "j \<in> set (dbClients b)" using assms(3) Builtin by simp
    ultimately have "se_collector_wait env i (map (client_error k ?srv (client_view env clients i)) (dbClients b)) \<noteq> None"
      using errgroup.wait_None [OF assms(1)] by auto
    with Scrape_kind_run(2,3) [OF out(1)] show ?thesis by (auto simp: out(2,3))
  next
    case (Declarative b)
    let ?run = "\<lambda>j. fst (SpecCollector_scrape (sc_spec b) (se_query (cut_env stops env) i j) (client_view env clients i j))"
    have j: "j \<in> set (sc_dbClients b)" "still_reads (sc_spec b) n (se_query env i j) (client_view env clients i j)"
      using assms(3) Declarative by simp_all
    obtain out where out: "SpecCollector_Scrape P (se_collector_wait env i) (se_sched env i) (se_query (cut_env stops env) i)
        (client_view env clients i) b = Some out" "run_err r = so_err out" "run_metrics r = so_metrics out"
      using assms(4) Declarative by (auto split: if_splits)
    obtain results where results: "collect_some (map ?run (sc_dbClients b)) = Some results"
      using out(1) by (auto simp: SpecCollector_Scrape_def Let_def split: option.splits)
    from j(1) obtain m where m: "m < length (sc_dbClients b)" "sc_dbClients b ! m = j" by (auto simp: in_set_conv_nth)
    have "?run (sc_dbClients b ! m) = Some (results ! m)"
      using collect_some_nth [OF results, of m] m(1) by (simp del: cut_env_fields)
    then have "?run j = Some (results ! m)" unfolding m(2) .
    then have "snd (results ! m) \<noteq> None"
      using cut_spec_fails [OF j(2), of "fst (results ! m)" "snd (results ! m)"] assms(2) by simp
    moreover have "results ! m \<in> set results" using collect_some_length [OF results] m(1) by simp
    ultimately have "se_collector_wait env i (map snd results) \<noteq> None"
      using errgroup.wait_None [OF assms(1)] by force
    with out results show ?thesis by (auto simp: SpecCollector_Scrape_def Let_def split: option.splits)
  next
    case (Custom k)
    with assms(3) show ?thesis by simp
  qed
  then show "run_err r \<noteq> None" and "run_metrics r = []" by blast+
qed

subsection \<open>Lemmas: runs of the group\<close>

definition group_inv :: "('cv, 'gv) prom \<Rightarrow> 'k scrape_env \<Rightarrow> ('cv, 'gv, 'c, 'hv, 'k) exporter \<Rightarrow>
    ('cv, 'gv, 'k) group \<Rightarrow> bool" where
  "group_inv P env e g \<longleftrightarrow> distinct (map fst (gr_returned g)) \<and>
     (\<forall>(i, r) \<in> set (gr_returned g). i < length (ex_collectors e) \<and>
        Collector_Scrape P (cut_env (gr_cut g) env) (ex_dbClients e) i (snd (ex_collectors e ! i)) = Some r) \<and>
     (\<forall>before i r later. gr_returned g = before @ (i, r) # later \<and> (\<forall>(k, q) \<in> set before. run_err q = None) \<longrightarrow>
        (\<forall>j. gr_cut g i j = None)) \<and>
     ((\<exists>i j. gr_cut g i j \<noteq> None) \<longrightarrow> cancelled g)"

lemma group_inv_returns:
  assumes "group_inv P env e g" and "i < length (ex_collectors e)" and "i \<notin> fst ` set (gr_returned g)"
    and "Collector_Scrape P (cut_env (gr_cut g) env) (ex_dbClients e) i (snd (ex_collectors e ! i)) = Some r"
  shows "group_inv P env e (g\<lparr>gr_returned := gr_returned g @ [(i, r)]\<rparr>)"
proof -
  have first: "\<forall>j. gr_cut g k j = None"
    if "gr_returned g @ [(i, r)] = before @ (k, q) # later" "\<forall>(k, q) \<in> set before. run_err q = None" for before k q later
  proof (cases later rule: rev_cases)
    case Nil
    with that have "\<not> cancelled g" by (auto simp: cancelled_def)
    with assms(1) show ?thesis unfolding group_inv_def by blast
  next
    case (snoc later' x)
    with that(1) have "gr_returned g = before @ (k, q) # later'" by simp
    with that(2) assms(1) show ?thesis unfolding group_inv_def by blast
  qed
  have "distinct (map fst (gr_returned g @ [(i, r)]))" using assms(1,3) by (simp add: group_inv_def)
  moreover have "\<forall>(k, q) \<in> set (gr_returned g @ [(i, r)]). k < length (ex_collectors e) \<and>
      Collector_Scrape P (cut_env (gr_cut g) env) (ex_dbClients e) k (snd (ex_collectors e ! k)) = Some q"
    using assms(1,2,4) by (auto simp: group_inv_def)
  moreover have "(\<exists>i j. gr_cut g i j \<noteq> None) \<longrightarrow> cancelled (g\<lparr>gr_returned := gr_returned g @ [(i, r)]\<rparr>)"
    using assms(1) unfolding group_inv_def cancelled_def by auto
  ultimately show ?thesis using first unfolding group_inv_def by simp
qed

lemma group_inv_interrupted:
  assumes "group_inv P env e g" and "cancelled g" and "i \<notin> fst ` set (gr_returned g)"
  shows "group_inv P env e (g\<lparr>gr_cut := (gr_cut g)(i := cut_i)\<rparr>)"
proof -
  let ?stops = "(gr_cut g)(i := cut_i)"
  have kept: "?stops k = gr_cut g k" if "(k, r) \<in> set (gr_returned g)" for k r
    using that assms(3) by (auto simp: image_iff)
  note inv = assms(1) [unfolded group_inv_def]
  have ran: "k < length (ex_collectors e) \<and>
      Collector_Scrape P (cut_env ?stops env) (ex_dbClients e) k (snd (ex_collectors e ! k)) = Some r"
    if kr: "(k, r) \<in> set (gr_returned g)" for k r
  proof -
    from inv kr have "k < length (ex_collectors e) \<and>
        Collector_Scrape P (cut_env (gr_cut g) env) (ex_dbClients e) k (snd (ex_collectors e ! k)) = Some r" by blast
    then show ?thesis unfolding cut_env_cong [of ?stops k "gr_cut g", OF kept [OF kr]] .
  qed
  have first: "\<forall>j. ?stops k j = None"
    if kr: "gr_returned g = before @ (k, r) # later" "\<forall>(k, q) \<in> set before. run_err q = None" for before k r later
  proof -
    have "(k, r) \<in> set (gr_returned g)" by (simp add: kr(1))
    from kept [OF this] have "?stops k = gr_cut g k" .
    moreover from inv kr have "\<forall>j. gr_cut g k j = None" by blast
    ultimately show ?thesis by simp
  qed
  have can: "cancelled (g\<lparr>gr_cut := ?stops\<rparr>)" using assms(2) by (simp add: cancelled_def)
  have sel: "gr_returned (g\<lparr>gr_cut := ?stops\<rparr>) = gr_returned g" "gr_cut (g\<lparr>gr_cut := ?stops\<rparr>) = ?stops" by simp_all
  show ?thesis
    unfolding group_inv_def sel using conjunct1 [OF inv] ran first can by (intro conjI) blast+
qed

lemma group_inv_reachable: "group_reachable P env e g \<Longrightarrow> group_inv P env e g"
proof (induction rule: group_reachable.induct)
  case start
  show ?case by (simp add: group_inv_def)
next
  case (more g g')
  from more(2,3) show ?case
    by (cases rule: group_step.cases) (auto intro: group_inv_returns group_inv_interrupted)
qed

text \<open>What the invariant says of the collectors: how each ran, and of which none was interrupted.\<close>

lemma group_ran:
  assumes "group_inv P env e g" and "(i, r) \<in> set (gr_returned g)"
  shows "i < length (ex_collectors e)"
    and "Collector_Scrape P (cut_env (gr_cut g) env) (ex_dbClients e) i (snd (ex_collectors e ! i)) = Some r"
  using assms unfolding group_inv_def by blast+

lemma group_whole:
  assumes "group_inv P env e g" and "(i, r) \<in> set (gr_returned g)" and "\<forall>j. gr_cut g i j = None"
  shows "Collector_Scrape P env (ex_dbClients e) i (snd (ex_collectors e ! i)) = Some r"
  using group_ran(2) [OF assms(1,2)] uncut [of "gr_cut g" i, OF assms(3), of P env] by simp

lemma group_early:
  assumes "group_inv P env e g" and "gr_returned g = before @ (i, r) # later" and "\<forall>(k, q) \<in> set before. run_err q = None"
  shows "Collector_Scrape P env (ex_dbClients e) i (snd (ex_collectors e ! i)) = Some r"
proof (rule group_whole [OF assms(1)])
  show "(i, r) \<in> set (gr_returned g)" by (simp add: assms(2))
  show "\<forall>j. gr_cut g i j = None" using assms unfolding group_inv_def by blast
qed

lemma group_quiet:
  assumes "group_inv P env e g"
    and "\<forall>i < length (ex_collectors e). \<forall>r. Collector_Scrape P env (ex_dbClients e) i (snd (ex_collectors e ! i)) = Some r \<longrightarrow>
      run_err r = None"
  shows "gr_cut g i j = None"
proof (rule ccontr)
  assume "gr_cut g i j \<noteq> None"
  then have "cancelled g" using assms(1) unfolding group_inv_def by blast
  then have "\<exists>x \<in> set (gr_returned g). run_err (snd x) \<noteq> None"
    unfolding cancelled_def by (simp add: case_prod_beta)
  from split_list_first_prop [OF this] obtain before x later where
    x: "gr_returned g = before @ x # later" "run_err (snd x) \<noteq> None" "\<forall>y \<in> set before. \<not> run_err (snd y) \<noteq> None" by blast
  obtain k r where k: "x = (k, r)" by (cases x)
  have "\<forall>(k, q) \<in> set before. run_err q = None" using x(3) by (simp add: case_prod_beta)
  note alone = group_early [OF assms(1) x(1) [unfolded k] this]
  have "k < length (ex_collectors e)" using group_ran(1) [OF assms(1), of k r] x(1) k by simp
  with alone assms(2) x(2) k show False by simp
qed

lemma group_runs:
  assumes "group_inv P env e g" and "length (gr_returned g) = length (ex_collectors e)"
  shows "\<exists>runs. collector_runs P (cut_env (gr_cut g) env) e = Some runs \<and> (\<forall>(i, r) \<in> set (gr_returned g). runs ! i = r)"
proof -
  let ?run = "\<lambda>i. Collector_Scrape P (cut_env (gr_cut g) env) (ex_dbClients e) i (snd (ex_collectors e ! i))"
  note ran = group_ran [OF assms(1)]
  have "fst ` set (gr_returned g) \<subseteq> {..<length (ex_collectors e)}" using ran(1) by auto
  moreover have "card (fst ` set (gr_returned g)) = length (ex_collectors e)"
    using assms distinct_card [of "map fst (gr_returned g)"] unfolding group_inv_def by simp
  ultimately have every: "fst ` set (gr_returned g) = {..<length (ex_collectors e)}"
    by (intro card_subset_eq) simp_all
  have some: "?run i = Some (the (?run i))" if "i < length (ex_collectors e)" for i
  proof -
    from that every obtain r where "(i, r) \<in> set (gr_returned g)" by (metis image_iff lessThan_iff prod.collapse)
    from ran(2) [OF this] show ?thesis by simp
  qed
  have "collector_runs P (cut_env (gr_cut g) env) e = Some (map (\<lambda>i. the (?run i)) [0..<length (ex_collectors e)])"
    unfolding collector_runs_def by (rule collect_some_map) (use some in simp)
  moreover have "map (\<lambda>i. the (?run i)) [0..<length (ex_collectors e)] ! i = r" if "(i, r) \<in> set (gr_returned g)" for i r
    using ran(1) [OF that] ran(2) [OF that] by simp
  ultimately show ?thesis by blast
qed

lemma demo_fails_first:
  "\<exists>r. Collector_Scrape ref_prom demo_env (ex_dbClients demo_exporter) 1 (snd (ex_collectors demo_exporter ! 1)) = Some r \<and>
     run_err r \<noteq> None"
  by (simp add: demo_exporter_def demo_env_def)

lemma demo_alone:
  "\<exists>r. Collector_Scrape ref_prom demo_env (ex_dbClients demo_exporter) 0 (snd (ex_collectors demo_exporter ! 0)) = Some r \<and>
     run_err r = None"
proof -
  obtain runs where runs: "collector_runs ref_prom demo_env demo_exporter = Some runs"
    using collector_runs_total [OF ref.prom_vecs_axioms demo_exporter_ok demo_env_benign] by blast
  have "0 < length (ex_collectors demo_exporter)" by (simp add: demo_exporter_def)
  from collector_runs_nth(2) [OF runs this] obtain r where
    r: "Collector_Scrape ref_prom demo_env (ex_dbClients demo_exporter) 0 (snd (ex_collectors demo_exporter ! 0)) = Some r"
    by blast
  then obtain out where out: "Scrape_kind PgDatabaseSize ref_prom first_error [] demo_server
      (client_view demo_env (ex_dbClients demo_exporter) 0) demo_collector = Some out" "run_err r = oc_err out"
    by (auto simp: demo_exporter_def demo_env_def)
  have "oc_err out = None"
    using Scrape_kind_run(2) [OF out(1)]
    by (simp add: demo_scrape(2) client_error_def demo_scrape_any first_error_def)
  with r out(2) show ?thesis by simp
qed

subsection \<open>Properties\<close>

text \<open>
  C15. How one failure reaches the rest of a scrape, in every interleaving of its collectors. Those
  that return before the first failure, and the one that fails first, are as if each had run alone;
  so is every collector of which no query was interrupted; and nothing is interrupted when none
  would fail alone. But a collector that is interrupted while it still has a query to send or an
  answer to read at one of its servers, where the version opens its gate, fails and exports nothing, even if it would have
  succeeded alone. The results of the whole group are those of one \<open>Collect\<close> with the interrupted
  servers.
\<close>

theorem failure_cancels_the_rest:
  assumes "group_reachable P env e g" and "\<forall>i. errgroup (se_collector_wait env i)"
  shows "(\<forall>before i r later. gr_returned g = before @ (i, r) # later \<and> (\<forall>(k, q) \<in> set before. run_err q = None) \<longrightarrow>
      Collector_Scrape P env (ex_dbClients e) i (snd (ex_collectors e ! i)) = Some r) \<and>
    (\<forall>(i, r) \<in> set (gr_returned g). (\<forall>j. gr_cut g i j = None) \<longrightarrow>
      Collector_Scrape P env (ex_dbClients e) i (snd (ex_collectors e ! i)) = Some r) \<and>
    (\<forall>(i, r) \<in> set (gr_returned g). \<forall>j n. gr_cut g i j = Some n \<and>
       in_the_middle env (ex_dbClients e) i j n (snd (ex_collectors e ! i)) \<longrightarrow> run_err r \<noteq> None \<and> run_metrics r = []) \<and>
    ((\<forall>i < length (ex_collectors e). \<forall>r. Collector_Scrape P env (ex_dbClients e) i (snd (ex_collectors e ! i)) = Some r \<longrightarrow>
        run_err r = None) \<longrightarrow> (\<forall>i j. gr_cut g i j = None)) \<and>
    (length (gr_returned g) = length (ex_collectors e) \<longrightarrow> (\<exists>runs. collector_runs P (cut_env (gr_cut g) env) e = Some runs \<and>
       (\<forall>(i, r) \<in> set (gr_returned g). runs ! i = r)))"
proof -
  have inv: "group_inv P env e g" by (rule group_inv_reachable [OF assms(1)])
  have hit: "run_err r \<noteq> None \<and> run_metrics r = []"
    if "(i, r) \<in> set (gr_returned g)" "gr_cut g i j = Some n"
      "in_the_middle env (ex_dbClients e) i j n (snd (ex_collectors e ! i))" for i r j n
    using interrupted_fails [where stops = "gr_cut g" and i = i, OF spec [OF assms(2)] that(2,3)]
      group_ran(2) [OF inv that(1)] by blast
  show ?thesis
    using group_early [OF inv] group_whole [OF inv] hit group_quiet [OF inv] group_runs [OF inv]
    by (intro conjI) blast+
qed

text \<open>The custom collector of the example fails first; the other would have succeeded alone.\<close>

lemma demo_group:
  obtains g r where "group_reachable ref_prom demo_env demo_exporter g" and "(0, r) \<in> set (gr_returned g)"
    and "gr_cut g 0 0 = Some 0"
proof -
  let ?e = demo_exporter
  obtain r1 where r1: "Collector_Scrape ref_prom demo_env (ex_dbClients ?e) 1 (snd (ex_collectors ?e ! 1)) = Some r1"
    "run_err r1 \<noteq> None" using demo_fails_first by blast
  define g1 :: "(refvec, refvec, nat) group" where "g1 = \<lparr>gr_returned = [(1, r1)], gr_cut = (\<lambda>_ _. None)\<rparr>"
  define g2 where "g2 = g1\<lparr>gr_cut := (gr_cut g1)(0 := (gr_cut g1 0)(0 \<mapsto> 0))\<rparr>"
  have two: "length (ex_collectors ?e) = 2" by (simp add: demo_exporter_def)
  have "group_step ref_prom demo_env ?e \<lparr>gr_returned = [], gr_cut = (\<lambda>_ _. None)\<rparr> g1"
    using group_step.returns [of 1 ?e "\<lparr>gr_returned = [], gr_cut = (\<lambda>_ _. None)\<rparr>" ref_prom demo_env r1] r1(1) two
    by (simp add: g1_def cut_env_none)
  with group_reachable.start have "group_reachable ref_prom demo_env ?e g1" by (rule group_reachable.more)
  moreover have "group_step ref_prom demo_env ?e g1 g2"
    unfolding g2_def by (rule group_step.interrupted) (simp_all add: g1_def cancelled_def r1(2) two del: not_None_eq)
  ultimately have r2: "group_reachable ref_prom demo_env ?e g2" by (rule group_reachable.more)
  have "fst (scrape_kind PgDatabaseSize canceled_server s) = ([], Some ''database size: context canceled'')" for s
    by (simp add: scrape_kind.simps PgDatabaseSizeCollector_scrape_def SelectPgDatabaseSize_def canceled_query_def)
  then have benign: "scrape_benign ref_prom (cut_env (gr_cut g2) demo_env) (ex_dbClients ?e) 0 (snd (ex_collectors ?e ! 0))"
    by (auto simp: demo_exporter_def client_emissions_def demo_env_def g2_def g1_def cut_server_def demo_scrape(2))
  have "collector_ok ref_prom [0..<length (ex_dbClients ?e)] (snd (ex_collectors ?e ! 0))" "None \<notin> set (ex_dbClients ?e)"
    using demo_exporter_ok by (simp_all add: exporter_ok_def demo_exporter_def)
  from Collector_Scrape_ok [OF ref.prom_vecs_axioms this(2,1) benign] obtain r where
    "Collector_Scrape ref_prom (cut_env (gr_cut g2) demo_env) (ex_dbClients ?e) 0 (snd (ex_collectors ?e ! 0)) = Some r" by blast
  then have "group_step ref_prom demo_env ?e g2 (g2\<lparr>gr_returned := gr_returned g2 @ [(0, r)]\<rparr>)"
    by (intro group_step.returns) (simp_all add: two g2_def g1_def)
  from group_reachable.more [OF r2 this] show ?thesis by (rule that) (simp_all add: g2_def g1_def)
qed

theorem failure_cancels_the_rest_witness:
  "\<exists>g r r'. group_reachable ref_prom demo_env demo_exporter g \<and> (0, r) \<in> set (gr_returned g) \<and>
     run_err r \<noteq> None \<and> run_metrics r = [] \<and>
     Collector_Scrape ref_prom demo_env (ex_dbClients demo_exporter) 0 (snd (ex_collectors demo_exporter ! 0)) = Some r' \<and>
     run_err r' = None"
proof -
  obtain g r where g: "group_reachable ref_prom demo_env demo_exporter g" "(0, r) \<in> set (gr_returned g)" "gr_cut g 0 0 = Some 0"
    by (rule demo_group)
  have waits: "\<forall>i. errgroup (se_collector_wait demo_env i)" by (simp add: demo_env_def first_error.errgroup_axioms)
  have "in_the_middle demo_env (ex_dbClients demo_exporter) 0 0 0 (snd (ex_collectors demo_exporter ! 0))"
    by (simp add: demo_exporter_def demo_scrape(2) still_asks_def kind_gate_def)
  with failure_cancels_the_rest [OF g(1) waits] g(2,3) have "run_err r \<noteq> None \<and> run_metrics r = []" by blast
  with g demo_alone show ?thesis by blast
qed

end
