(* ===== verification/ProbeTime.thy ===== *)
theory ProbeTime
  imports VersionProbe
begin

text \<open>
  The gates of theory \<open>VersionProbe\<close> with a clock. \<open>AtLeast\<close> gives its version query a context of
  its own, which ends \<open>reprobeTimeout\<close> after it was made, and only then waits for \<open>probeMu\<close>: a call
  that gets the mutex late has little time left for its query, or none, and a query whose context
  has ended fails at once. The collectors put their gates one after the other, so a call may have
  to follow another. Time is what the calls spend on queries; everything else takes none. The
  lemmas bound the time by the contexts that have been made.
\<close>

definition reprobeTimeout :: int where
  "reprobeTimeout = 5 * 1000000000"

lemma reprobeTimeout_pos [simp]: "0 < reprobeTimeout" "0 \<le> reprobeTimeout"
  by (simp_all add: reprobeTimeout_def)

subsection \<open>Timed steps\<close>

record timing =
  tm_gate :: gating
  tm_now :: int
  tm_since :: int
    \<comment> \<open>when the last query was sent\<close>
  tm_opened :: "nat \<Rightarrow> int option"
    \<comment> \<open>when a call made its context\<close>

definition context_end :: "timing \<Rightarrow> nat \<Rightarrow> int" where
  "context_end s i = the (tm_opened s i) + reprobeTimeout"

text \<open>The server would answer the query of call \<open>i\<close> after \<open>dur i\<close> nanoseconds with \<open>reply i\<close>; the
  query returns then, or when its context ends, or at once if that has ended before.\<close>

definition query_end :: "(nat \<Rightarrow> int) \<Rightarrow> timing \<Rightarrow> nat \<Rightarrow> int" where
  "query_end dur s i = max (tm_since s) (min (tm_since s + dur i) (context_end s i))"

definition query_outcome :: "(nat \<Rightarrow> int) \<Rightarrow> (nat \<Rightarrow> error + int) \<Rightarrow> timing \<Rightarrow> nat \<Rightarrow> error + int" where
  "query_outcome dur reply s i =
     (if tm_since s + dur i < context_end s i then reply i else Inl ''context deadline exceeded'')"

text \<open>A call that has to follow another is put when that is answered.\<close>

definition its_turn :: "(nat \<Rightarrow> nat option) \<Rightarrow> gating \<Rightarrow> nat \<Rightarrow> bool" where
  "its_turn prior g i \<longleftrightarrow> (case prior i of None \<Rightarrow> True | Some j \<Rightarrow> \<exists>b. gt_phase g j = Answered b)"

inductive timed_step :: "(nat \<Rightarrow> int \<times> int) \<Rightarrow> (nat \<Rightarrow> nat option) \<Rightarrow> (nat \<Rightarrow> int) \<Rightarrow> (nat \<Rightarrow> error + int) \<Rightarrow>
    timing \<Rightarrow> timing \<Rightarrow> bool"
  for asks prior dur reply where
  ask_known: "gate_step asks (tm_gate s) g \<Longrightarrow> gt_phase (tm_gate s) i = Asked \<Longrightarrow> gt_phase g i = Reading \<Longrightarrow>
    its_turn prior (tm_gate s) i \<Longrightarrow>
    timed_step asks prior dur reply s (s\<lparr>tm_gate := g\<rparr>)"
| ask_unknown: "gate_step asks (tm_gate s) g \<Longrightarrow> gt_phase (tm_gate s) i = Asked \<Longrightarrow> gt_phase g i = Waiting \<Longrightarrow>
    its_turn prior (tm_gate s) i \<Longrightarrow>
    timed_step asks prior dur reply s (s\<lparr>tm_gate := g, tm_opened := (tm_opened s)(i \<mapsto> tm_now s)\<rparr>)"
| at_once: "gate_step asks (tm_gate s) g \<Longrightarrow> gt_phase (tm_gate s) i \<in> {Waiting, Holding, Reading} \<Longrightarrow>
    gt_phase g i \<noteq> gt_phase (tm_gate s) i \<Longrightarrow> gt_phase g i \<noteq> Querying \<Longrightarrow>
    timed_step asks prior dur reply s (s\<lparr>tm_gate := g\<rparr>)"
| send: "gate_step asks (tm_gate s) g \<Longrightarrow> gt_phase (tm_gate s) i = Holding \<Longrightarrow> gt_phase g i = Querying \<Longrightarrow>
    timed_step asks prior dur reply s (s\<lparr>tm_gate := g, tm_since := tm_now s\<rparr>)"
| wait: "gt_phase (tm_gate s) i = Querying \<Longrightarrow> tm_now s < t \<Longrightarrow> t \<le> query_end dur s i \<Longrightarrow>
    timed_step asks prior dur reply s (s\<lparr>tm_now := t\<rparr>)"
| receive: "gate_step asks (tm_gate s) g \<Longrightarrow> gt_phase (tm_gate s) i = Querying \<Longrightarrow> gt_phase g i = Reading \<Longrightarrow>
    gt_result g i = Some (query_outcome dur reply s i) \<Longrightarrow> tm_now s = query_end dur s i \<Longrightarrow>
    timed_step asks prior dur reply s (s\<lparr>tm_gate := g\<rparr>)"

definition initial_timing :: "Client \<Rightarrow> int \<Rightarrow> timing" where
  "initial_timing c t0 = \<lparr>tm_gate = initial_gating c, tm_now = t0, tm_since = t0, tm_opened = (\<lambda>_. None)\<rparr>"

inductive timed_reachable :: "(nat \<Rightarrow> int \<times> int) \<Rightarrow> (nat \<Rightarrow> nat option) \<Rightarrow> (nat \<Rightarrow> int) \<Rightarrow> (nat \<Rightarrow> error + int) \<Rightarrow>
    Client \<Rightarrow> int \<Rightarrow> timing \<Rightarrow> bool" for asks prior dur reply c t0 where
  start: "timed_reachable asks prior dur reply c t0 (initial_timing c t0)"
| more: "timed_reachable asks prior dur reply c t0 s \<Longrightarrow> timed_step asks prior dur reply s s' \<Longrightarrow>
    timed_reachable asks prior dur reply c t0 s'"

inductive_cases timed_stepE: "timed_step asks prior dur reply s s'"

lemma timed_gate_reachable: "timed_reachable asks prior dur reply c t0 s \<Longrightarrow> gate_reachable asks c (tm_gate s)"
proof (induction rule: timed_reachable.induct)
  case start
  show ?case by (simp add: initial_timing_def gate_reachable.start)
next
  case (more s s')
  then show ?case by (elim timed_stepE) (auto intro: gate_reachable.more)
qed

lemma timed_gate_inv: "timed_reachable asks prior dur reply c t0 s \<Longrightarrow> gate_inv asks c (tm_gate s)"
  by (rule gate_inv_reachable [OF timed_gate_reachable])

text \<open>A step of the gates moves one call.\<close>

lemma gate_step_moves:
  assumes "gate_step asks g g'" and "gt_phase g' i \<noteq> gt_phase g i"
  shows "gt_phase g' = (gt_phase g)(i := gt_phase g' i)"
  using assms by (cases rule: gate_step.cases) (auto simp: fun_eq_iff split: if_splits)

subsection \<open>The invariant\<close>

definition openings :: "timing \<Rightarrow> int set" where
  "openings s = ran (tm_opened s)"

text \<open>The calls that have made a context, and when.\<close>

definition opened_ok :: "int \<Rightarrow> timing \<Rightarrow> bool" where
  "opened_ok t0 s \<longleftrightarrow> t0 \<le> tm_now s \<and> finite (dom (tm_opened s)) \<and>
     (\<forall>i. gt_phase (tm_gate s) i = Asked \<longrightarrow> tm_opened s i = None) \<and>
     (\<forall>i. gt_phase (tm_gate s) i \<in> {Waiting, Holding, Querying} \<longrightarrow> tm_opened s i \<noteq> None) \<and>
     (\<forall>a \<in> openings s. t0 \<le> a \<and> a \<le> tm_now s)"

text \<open>The query on its way.\<close>

definition query_ok :: "(nat \<Rightarrow> int) \<Rightarrow> timing \<Rightarrow> bool" where
  "query_ok dur s \<longleftrightarrow> (\<forall>i. gt_phase (tm_gate s) i = Querying \<longrightarrow>
     the (tm_opened s i) \<le> tm_since s \<and> tm_since s \<le> tm_now s \<and> tm_now s \<le> query_end dur s i)"

text \<open>Time passes only while a context is alive, and one is made only when the time of those before
  it is not over.\<close>

definition windows_ok :: "int \<Rightarrow> timing \<Rightarrow> bool" where
  "windows_ok t0 s \<longleftrightarrow> (tm_now s = t0 \<or> (\<exists>a \<in> openings s. tm_now s \<le> a + reprobeTimeout)) \<and>
     (\<forall>a \<in> openings s. a \<le> t0 + int (card {b \<in> openings s. b < a}) * reprobeTimeout)"

definition timing_ok :: "(nat \<Rightarrow> int) \<Rightarrow> int \<Rightarrow> timing \<Rightarrow> bool" where
  "timing_ok dur t0 s \<longleftrightarrow> opened_ok t0 s \<and> query_ok dur s \<and> windows_ok t0 s"

lemma finite_openings: "opened_ok t0 s \<Longrightarrow> finite (openings s)"
  unfolding opened_ok_def openings_def by (simp add: finite_ran)

lemma windows_bound:
  assumes "opened_ok t0 s" and "windows_ok t0 s"
  shows "tm_now s \<le> t0 + int (card (openings s)) * reprobeTimeout"
proof (cases "tm_now s = t0")
  case False
  then obtain a where a: "a \<in> openings s" "tm_now s \<le> a + reprobeTimeout"
    "a \<le> t0 + int (card {b \<in> openings s. b < a}) * reprobeTimeout"
    using assms(2) unfolding windows_ok_def by blast
  have "{b \<in> openings s. b < a} \<subset> openings s" using a(1) by blast
  from psubset_card_mono [OF finite_openings [OF assms(1)] this]
  have "int (card {b \<in> openings s. b < a}) + 1 \<le> int (card (openings s))" by simp
  then have "(int (card {b \<in> openings s. b < a}) + 1) * reprobeTimeout \<le> int (card (openings s)) * reprobeTimeout"
    by (rule mult_right_mono) simp
  with a(2,3) show ?thesis by (simp add: algebra_simps)
qed simp

lemma quiet_timing_ok:
  assumes "timing_ok dur t0 s" and "gt_phase g = (gt_phase (tm_gate s))(i := p)" and "p \<noteq> Asked" and "p \<noteq> Querying"
    and "p \<in> {Waiting, Holding} \<Longrightarrow> tm_opened s i \<noteq> None"
  shows "timing_ok dur t0 (s\<lparr>tm_gate := g\<rparr>)"
proof -
  have "opened_ok t0 (s\<lparr>tm_gate := g\<rparr>)"
    using assms(1,3-5) unfolding timing_ok_def opened_ok_def by (simp add: openings_def assms(2))
  moreover have "query_ok dur (s\<lparr>tm_gate := g\<rparr>)"
    using assms(1,4) unfolding timing_ok_def query_ok_def by (simp add: query_end_def context_end_def assms(2))
  ultimately show ?thesis
    using assms(1) unfolding timing_ok_def windows_ok_def by (simp add: openings_def)
qed

text \<open>A context is made.\<close>

lemma openings_new: "tm_opened s i = None \<Longrightarrow> openings (s\<lparr>tm_gate := g, tm_opened := (tm_opened s)(i \<mapsto> t)\<rparr>) = insert t (openings s)"
  by (simp add: openings_def)

lemma open_windows:
  assumes "opened_ok t0 s" and "windows_ok t0 s" and "openings s' = insert (tm_now s) (openings s)" and "tm_now s' = tm_now s"
  shows "windows_ok t0 s'"
proof -
  have "a \<le> t0 + int (card {b \<in> openings s'. b < a}) * reprobeTimeout" if "a \<in> openings s'" for a
  proof (cases "a \<in> openings s")
    case True
    with assms(1) have "a \<le> tm_now s" unfolding opened_ok_def by blast
    then have "{b \<in> openings s'. b < a} = {b \<in> openings s. b < a}" unfolding assms(3) by auto
    with True assms(2) show ?thesis unfolding windows_ok_def by simp
  next
    case False
    with that assms(3) have a: "a = tm_now s" by simp
    have "b < a" if "b \<in> openings s" for b
      using that False assms(1) unfolding a opened_ok_def by (metis order_le_less)
    then have "{b \<in> openings s'. b < a} = openings s" unfolding assms(3) a by auto
    with windows_bound [OF assms(1,2)] show ?thesis by (simp add: a)
  qed
  moreover have "\<exists>a \<in> openings s'. tm_now s' \<le> a + reprobeTimeout"
    by (rule bexI [of _ "tm_now s"]) (simp_all add: assms(3,4))
  ultimately show ?thesis unfolding windows_ok_def by blast
qed

lemma timing_ok_step:
  assumes "timed_step asks prior dur reply s s'" and "mutex_ok (tm_gate s)" and "\<forall>i. 0 \<le> dur i" and "timing_ok dur t0 s"
  shows "timing_ok dur t0 s'"
  using assms(1)
proof cases
  case (ask_known g i)
  have "gt_phase g = (gt_phase (tm_gate s))(i := Reading)"
    using gate_step_moves [OF ask_known(2), of i] ask_known(3,4) by simp
  from quiet_timing_ok [OF assms(4) this] show ?thesis by (simp add: ask_known(1))
next
  case (at_once g i)
  have "tm_opened s i \<noteq> None" if "gt_phase g i \<in> {Waiting, Holding}"
  proof -
    have "gt_phase (tm_gate s) i \<noteq> Reading" using at_once(2,4) that
      by (cases rule: gate_step.cases) (auto split: if_splits)
    with at_once(3) have "gt_phase (tm_gate s) i \<in> {Waiting, Holding, Querying}" by blast
    with assms(4) show ?thesis unfolding timing_ok_def opened_ok_def by blast
  qed
  moreover have "gt_phase g i \<noteq> Asked"
    using at_once(2,4) by (cases rule: gate_step.cases) (auto split: if_splits)
  ultimately show ?thesis
    using quiet_timing_ok [OF assms(4) gate_step_moves [OF at_once(2,4)]] at_once(5) by (simp add: at_once(1))
next
  case (ask_unknown g i)
  have new: "tm_opened s i = None" using assms(4) ask_unknown(3) unfolding timing_ok_def opened_ok_def by blast
  note opens = openings_new [OF new, where g = g and t = "tm_now s"]
  have phase: "gt_phase g k = (if k = i then Waiting else gt_phase (tm_gate s) k)" for k
    using gate_step_moves [OF ask_unknown(2), of i] ask_unknown(3,4) by (auto simp: fun_eq_iff)
  have ok: "opened_ok t0 s" "query_ok dur s" "windows_ok t0 s" using assms(4) by (simp_all add: timing_ok_def)
  have "opened_ok t0 s'"
    using ok(1) phase opens unfolding opened_ok_def ask_unknown(1) by auto
  moreover have "query_ok dur s'"
    using ok(2) phase new unfolding query_ok_def ask_unknown(1) by (auto simp: query_end_def context_end_def)
  moreover have "windows_ok t0 s'"
    by (rule open_windows [OF ok(1,3)]) (simp_all add: ask_unknown(1) opens)
  ultimately show ?thesis by (simp add: timing_ok_def)
next
  case (send g i)
  have phase: "gt_phase g k = (if k = i then Querying else gt_phase (tm_gate s) k)" for k
    using gate_step_moves [OF send(2), of i] send(3,4) by (auto simp: fun_eq_iff)
  have ok: "opened_ok t0 s" "windows_ok t0 s" using assms(4) by (simp_all add: timing_ok_def)
  have quiet: "gt_phase (tm_gate s) k \<noteq> Querying" for k
    using past_one [OF assms(2), of i k] send(3) by auto
  obtain a where a: "tm_opened s i = Some a" using ok(1) send(3) unfolding opened_ok_def by fastforce
  then have "a \<le> tm_now s" using ok(1) unfolding opened_ok_def openings_def by (auto simp: ran_def)
  then have "query_ok dur s'"
    using a quiet assms(3) phase unfolding query_ok_def send(1) by (simp add: query_end_def)
  moreover have "opened_ok t0 s'"
    using ok(1) phase a unfolding opened_ok_def send(1) by (auto simp: openings_def)
  ultimately show ?thesis using ok(2) by (simp add: timing_ok_def windows_ok_def send(1) openings_def)
next
  case (wait i t)
  have ok: "opened_ok t0 s" "query_ok dur s" "windows_ok t0 s" using assms(4) by (simp_all add: timing_ok_def)
  have q: "tm_since s \<le> tm_now s" using ok(2) wait(2) unfolding query_ok_def by blast
  obtain a where a: "tm_opened s i = Some a" using ok(1) wait(2) unfolding opened_ok_def by fastforce
  then have mem: "a \<in> openings s" by (auto simp: openings_def ran_def)
  have "t \<le> a + reprobeTimeout" using wait(3,4) q a by (simp add: query_end_def context_end_def)
  with mem ok(3) have "windows_ok t0 s'" unfolding windows_ok_def wait(1) by (auto simp: openings_def)
  moreover have "query_ok dur s'"
    unfolding query_ok_def wait(1)
  proof (intro allI impI)
    fix k
    assume "gt_phase (tm_gate (s\<lparr>tm_now := t\<rparr>)) k = Querying"
    then have "k = i" using past_one [OF assms(2), of i k] wait(2) by simp
    then show "the (tm_opened (s\<lparr>tm_now := t\<rparr>) k) \<le> tm_since (s\<lparr>tm_now := t\<rparr>) \<and>
        tm_since (s\<lparr>tm_now := t\<rparr>) \<le> tm_now (s\<lparr>tm_now := t\<rparr>) \<and>
        tm_now (s\<lparr>tm_now := t\<rparr>) \<le> query_end dur (s\<lparr>tm_now := t\<rparr>) k"
      using ok(2) wait(2-4) q unfolding query_ok_def by (simp add: query_end_def context_end_def)
  qed
  moreover have "opened_ok t0 s'"
    using ok(1) wait(3) unfolding opened_ok_def wait(1) by (auto simp: openings_def)
  ultimately show ?thesis by (simp add: timing_ok_def)
next
  case (receive g i)
  have "gt_phase g = (gt_phase (tm_gate s))(i := Reading)"
    using gate_step_moves [OF receive(2), of i] receive(3,4) by simp
  from quiet_timing_ok [OF assms(4) this] show ?thesis by (simp add: receive(1))
qed

lemma timing_ok_reachable:
  assumes "timed_reachable asks prior dur reply c t0 s" and "\<forall>i. 0 \<le> dur i"
  shows "timing_ok dur t0 s"
  using assms(1)
proof (induction rule: timed_reachable.induct)
  case start
  show ?case
    by (simp add: timing_ok_def opened_ok_def query_ok_def windows_ok_def openings_def initial_timing_def
        initial_gating_def)
next
  case (more s s')
  have "mutex_ok (tm_gate s)" using timed_gate_inv [OF more(1)] by (simp add: gate_inv_def)
  with timing_ok_step [OF more(2) _ assms(2)] more(3) show ?case by blast
qed

lemma time_bound:
  assumes "timed_reachable asks prior dur reply c t0 s" and "\<forall>i. 0 \<le> dur i"
  shows "tm_now s \<le> t0 + int (card (openings s)) * reprobeTimeout"
  using timing_ok_reachable [OF assms] windows_bound unfolding timing_ok_def by blast

subsection \<open>A server that never answers\<close>

definition hung :: "(nat \<Rightarrow> int) \<Rightarrow> bool" where
  "hung dur \<longleftrightarrow> (\<forall>i. reprobeTimeout \<le> dur i)"

lemma hung_nonneg: "hung dur \<Longrightarrow> \<forall>i. 0 \<le> dur i"
  unfolding hung_def using reprobeTimeout_pos(2) order_trans by blast

text \<open>The query of a call returns, in vain, when its context has ended.\<close>

lemma hung_query:
  assumes "hung dur" and "the (tm_opened s i) \<le> tm_since s"
  shows "context_end s i \<le> query_end dur s i" and "query_outcome dur reply s i = Inl ''context deadline exceeded''"
proof -
  have "reprobeTimeout \<le> dur i" using assms(1) unfolding hung_def by blast
  then have "context_end s i \<le> tm_since s + dur i" using assms(2) by (simp add: context_end_def)
  then show "context_end s i \<le> query_end dur s i" and "query_outcome dur reply s i = Inl ''context deadline exceeded''"
    by (simp_all add: query_end_def query_outcome_def)
qed

text \<open>A call that is past its query has outlived its context; one that follows another has made its own
  context after that.\<close>

definition outlived :: "timing \<Rightarrow> nat \<Rightarrow> int \<Rightarrow> bool" where
  "outlived s i t \<longleftrightarrow> (\<exists>a. tm_opened s i = Some a \<and> a + reprobeTimeout \<le> t)"

definition hung_ok :: "(nat \<Rightarrow> nat option) \<Rightarrow> timing \<Rightarrow> bool" where
  "hung_ok prior s \<longleftrightarrow> version_of (tm_gate s) = 0 \<and>
     (\<forall>i. gt_phase (tm_gate s) i = Reading \<or> (\<exists>b. gt_phase (tm_gate s) i = Answered b) \<longrightarrow> outlived s i (tm_now s)) \<and>
     (\<forall>i. gt_phase (tm_gate s) i \<noteq> Answered True) \<and>
     (\<forall>i j a. prior i = Some j \<and> tm_opened s i = Some a \<longrightarrow> outlived s j a)"

lemma hung_ok_quiet:
  assumes "hung_ok prior s" and "gt_phase g = (gt_phase (tm_gate s))(i := p)" and "version_of g = 0"
    and "p \<noteq> Answered True" and "p = Reading \<or> (\<exists>b. p = Answered b) \<Longrightarrow> outlived s i (tm_now s)"
  shows "hung_ok prior (s\<lparr>tm_gate := g\<rparr>)"
  using assms(1,3-5) unfolding hung_ok_def by (simp add: outlived_def assms(2))

lemma hung_ok_step:
  assumes "timed_step asks prior dur reply s s'" and "hung dur" and "timing_ok dur t0 s" and "hung_ok prior s"
    and "cl_pool (gt_client (tm_gate s)) \<noteq> None"
  shows "hung_ok prior s'"
  using assms(1)
proof cases
  case (ask_known g i)
  have "version_of (tm_gate s) \<noteq> 0"
    using ask_known(2-4) assms(5) by (cases rule: gate_step.cases) (auto split: if_splits)
  with assms(4) show ?thesis by (simp add: hung_ok_def)
next
  case (ask_unknown g i)
  have g: "gt_phase g = (gt_phase (tm_gate s))(i := Waiting)" "version_of g = version_of (tm_gate s)"
    using ask_unknown(2-4) by (cases rule: gate_step.cases; auto split: if_splits)+
  have new: "tm_opened s i = None" using assms(3) ask_unknown(3) by (simp add: timing_ok_def opened_ok_def)
  have keep: "outlived s k t \<Longrightarrow> outlived s' k t" for k t
    using new by (auto simp: outlived_def ask_unknown(1))
  have turn: "outlived s j (tm_now s)" if "prior i = Some j" for j
    using ask_unknown(5) assms(4) that by (auto simp: its_turn_def hung_ok_def)
  show ?thesis
    unfolding hung_ok_def
  proof (intro conjI allI impI)
    show "version_of (tm_gate s') = 0" using assms(4) g(2) by (simp add: hung_ok_def ask_unknown(1))
  next
    fix k
    assume "gt_phase (tm_gate s') k = Reading \<or> (\<exists>b. gt_phase (tm_gate s') k = Answered b)"
    then have "gt_phase (tm_gate s) k = Reading \<or> (\<exists>b. gt_phase (tm_gate s) k = Answered b)"
      by (auto simp: ask_unknown(1) g(1) split: if_splits)
    with assms(4) have "outlived s k (tm_now s)" unfolding hung_ok_def by blast
    then show "outlived s' k (tm_now s')" using keep by (simp add: ask_unknown(1))
  next
    fix k
    show "gt_phase (tm_gate s') k \<noteq> Answered True" using assms(4) by (simp add: hung_ok_def ask_unknown(1) g(1))
  next
    fix k j a
    assume k: "prior k = Some j \<and> tm_opened s' k = Some a"
    show "outlived s' j a"
    proof (cases "k = i")
      case True
      with k turn show ?thesis by (intro keep) (auto simp: ask_unknown(1))
    next
      case False
      with k assms(4) have "outlived s j a" by (simp add: hung_ok_def ask_unknown(1))
      then show ?thesis by (rule keep)
    qed
  qed
next
  case (at_once g i)
  have v: "version_of (tm_gate s) = 0" using assms(4) by (simp add: hung_ok_def)
  have g: "version_of g = 0 \<and> gt_phase g i \<noteq> Answered True \<and> (gt_phase g i = Reading \<or> (\<exists>b. gt_phase g i = Answered b) \<longrightarrow>
      gt_phase (tm_gate s) i = Reading)"
    using at_once(2-5) v by (cases rule: gate_step.cases) (auto split: if_splits)
  show ?thesis
    unfolding at_once(1)
    by (rule hung_ok_quiet [OF assms(4) gate_step_moves [OF at_once(2,4)]]) (use g assms(4) in \<open>auto simp: hung_ok_def\<close>)
next
  case (send g i)
  have g: "gt_phase g = (gt_phase (tm_gate s))(i := Querying)" "version_of g = version_of (tm_gate s)"
    using send(2-4) by (cases rule: gate_step.cases; auto split: if_splits)+
  have "hung_ok prior (s\<lparr>tm_gate := g\<rparr>)"
    by (rule hung_ok_quiet [OF assms(4) g(1)]) (use g(2) assms(4) in \<open>simp_all add: hung_ok_def\<close>)
  then show ?thesis unfolding hung_ok_def send(1) by (simp add: outlived_def)
next
  case (wait i t)
  have "outlived s k (tm_now s) \<Longrightarrow> outlived s' k t" for k
    using wait(3) by (auto simp: outlived_def wait(1))
  with assms(4) show ?thesis unfolding hung_ok_def wait(1) by (simp add: outlived_def)
next
  case (receive g i)
  have q: "the (tm_opened s i) \<le> tm_since s" using assms(3) receive(3) unfolding timing_ok_def query_ok_def by blast
  note late = hung_query [OF assms(2) q]
  obtain a where a: "tm_opened s i = Some a" using assms(3) receive(3) unfolding timing_ok_def opened_ok_def by fastforce
  have out: "outlived s i (tm_now s)" using late(1) receive(6) a by (simp add: outlived_def context_end_def)
  have g: "gt_phase g = (gt_phase (tm_gate s))(i := Reading)"
    using gate_step_moves [OF receive(2), of i] receive(3,4) by simp
  have "version_of g = version_of (tm_gate s)"
    using receive(2-5) late(2) [of reply] by (cases rule: gate_step.cases) (auto split: if_splits)
  then show ?thesis
    unfolding receive(1) by (intro hung_ok_quiet [OF assms(4) g]) (use assms(4) out in \<open>simp_all add: hung_ok_def\<close>)
qed

lemma hung_ok_reachable:
  assumes "timed_reachable asks prior dur reply c t0 s" and "hung dur"
    and "cl_pool c \<noteq> None" and "ServerVersionNum c = 0"
  shows "hung_ok prior s"
  using assms(1)
proof (induction rule: timed_reachable.induct)
  case start
  show ?case using assms(4) by (simp add: hung_ok_def initial_timing_def initial_gating_def)
next
  case (more s s')
  have "cl_pool (gt_client (tm_gate s)) \<noteq> None"
    using timed_gate_inv [OF more(1)] assms(3) by (simp add: gate_inv_def)
  with hung_ok_step [OF more(2) assms(2) timing_ok_reachable [OF more(1) hung_nonneg [OF assms(2)]] more(3)]
  show ?case by blast
qed

text \<open>A chain of calls, each after the one before, takes a timeout for each of them.\<close>

lemma hung_chain_opened:
  assumes "hung_ok prior s" and "opened_ok t0 s" and "\<forall>m. Suc m < length ks \<longrightarrow> prior (ks ! Suc m) = Some (ks ! m)"
    and "m < length ks" and "tm_opened s (ks ! m) = Some a"
  shows "t0 + int m * reprobeTimeout \<le> a"
  using assms(4,5)
proof (induction m arbitrary: a)
  case 0
  then show ?case using assms(2) by (auto simp: opened_ok_def openings_def ran_def)
next
  case (Suc m)
  have "outlived s (ks ! m) a" using assms(1,3) Suc.prems unfolding hung_ok_def by blast
  then obtain b where "tm_opened s (ks ! m) = Some b" "b + reprobeTimeout \<le> a" unfolding outlived_def by blast
  with Suc.IH [of b] Suc.prems(1) show ?case by (simp add: algebra_simps)
qed

lemma hung_chain:
  assumes "timed_reachable asks prior dur reply c t0 s" and "hung dur"
    and "cl_pool c \<noteq> None" and "ServerVersionNum c = 0"
    and "\<forall>m. Suc m < length ks \<longrightarrow> prior (ks ! Suc m) = Some (ks ! m)" and "ks \<noteq> []"
    and "gt_phase (tm_gate s) (last ks) = Answered b"
  shows "t0 + int (length ks) * reprobeTimeout \<le> tm_now s"
proof -
  note ok = hung_ok_reachable [OF assms(1-4)]
  have opened: "opened_ok t0 s" using timing_ok_reachable [OF assms(1) hung_nonneg [OF assms(2)]] by (simp add: timing_ok_def)
  have "outlived s (ks ! (length ks - 1)) (tm_now s)"
    using ok assms(6,7) unfolding hung_ok_def by (auto simp: last_conv_nth)
  then obtain a where a: "tm_opened s (ks ! (length ks - 1)) = Some a" "a + reprobeTimeout \<le> tm_now s"
    unfolding outlived_def by blast
  have "t0 + int (length ks - 1) * reprobeTimeout \<le> a"
    by (rule hung_chain_opened [OF ok opened assms(5) _ a(1)]) (use assms(6) in simp)
  moreover have n: "int (length ks) = int (length ks - 1) + 1" using assms(6) by (cases ks) simp_all
  ultimately show ?thesis using a(2) unfolding n distrib_right by linarith
qed

subsection \<open>Runs against such a server\<close>

text \<open>The calls of \<open>D\<close> have their answer, those of \<open>W\<close> wait for the mutex, which is free.\<close>

definition stage :: "Client \<Rightarrow> nat set \<Rightarrow> nat set \<Rightarrow> int \<Rightarrow> (nat \<Rightarrow> int option) \<Rightarrow> timing \<Rightarrow> bool" where
  "stage c D W t op s \<longleftrightarrow> gt_client (tm_gate s) = c \<and> gt_mutex (tm_gate s) = None \<and>
     gt_phase (tm_gate s) = (\<lambda>i. if i \<in> D then Answered False else if i \<in> W then Waiting else Asked) \<and>
     tm_now s = t \<and> tm_opened s = op"

lemma stage_initial: "stage c {} {} t0 (\<lambda>_. None) (initial_timing c t0)"
  by (simp add: stage_def initial_timing_def initial_gating_def)

lemma stage_open:
  assumes "timed_reachable asks prior dur reply c t0 s" and "stage c D W t op s" and "k \<notin> D" and "k \<notin> W"
    and "case prior k of None \<Rightarrow> True | Some j \<Rightarrow> j \<in> D" and "cl_pool c \<noteq> None" and "ServerVersionNum c = 0"
  shows "\<exists>s'. timed_reachable asks prior dur reply c t0 s' \<and> stage c D (insert k W) t (op(k \<mapsto> t)) s'"
proof -
  let ?g = "tm_gate s" and ?g' = "(tm_gate s)\<lparr>gt_phase := (gt_phase (tm_gate s))(k := Waiting)\<rparr>"
  note st = assms(2) [unfolded stage_def]
  have asked: "gt_phase ?g k = Asked" using st assms(3,4) by simp
  have "gate_step asks ?g ?g'" using st assms(6,7) by (intro gate_step.unknown [OF asked]) simp_all
  moreover have "its_turn prior ?g k" using st assms(5) by (auto simp: its_turn_def split: option.splits)
  ultimately have "timed_step asks prior dur reply s (s\<lparr>tm_gate := ?g', tm_opened := (tm_opened s)(k \<mapsto> tm_now s)\<rparr>)"
    using asked by (intro timed_step.ask_unknown) simp_all
  note run = timed_reachable.more [OF assms(1) this]
  have "(gt_phase ?g)(k := Waiting) = (\<lambda>i. if i \<in> D then Answered False else if i \<in> insert k W then Waiting else Asked)"
    using st assms(3) by (simp add: fun_eq_iff)
  then have "stage c D (insert k W) t (op(k \<mapsto> t)) (s\<lparr>tm_gate := ?g', tm_opened := (tm_opened s)(k \<mapsto> tm_now s)\<rparr>)"
    using st by (simp add: stage_def)
  with run show ?thesis by blast
qed

text \<open>A waiting call gets the mutex, waits until its context has ended, and has no version to read.\<close>

lemma stage_serve:
  assumes "timed_reachable asks prior dur reply c t0 s" and "stage c D W t op s" and "hung dur"
    and "k \<in> W" and "k \<notin> D" and "op k = Some a" and "a \<le> t" and "ServerVersionNum c = 0"
  shows "\<exists>s'. timed_reachable asks prior dur reply c t0 s' \<and>
    stage c (insert k D) (W - {k}) (max t (a + reprobeTimeout)) op s'"
proof -
  note st = assms(2) [unfolded stage_def]
  let ?late = "''context deadline exceeded''" and ?fin = "max t (a + reprobeTimeout)"
  let ?g = "tm_gate s" and ?ph = "gt_phase (tm_gate s)"
  let ?r = "timed_reachable asks prior dur reply c t0"
  define g1 where "g1 = ?g\<lparr>gt_mutex := Some k, gt_phase := ?ph(k := Holding)\<rparr>"
  define g2 where "g2 = g1\<lparr>gt_phase := (gt_phase g1)(k := Querying)\<rparr>"
  define g3 where "g3 = g2\<lparr>gt_mutex := None, gt_phase := (gt_phase g2)(k := Reading),
    gt_result := (gt_result g2)(k \<mapsto> Inl ?late)\<rparr>"
  define g4 where "g4 = g3\<lparr>gt_phase := (gt_phase g3)(k := Answered False), gt_log := gt_log g3 @ [(k, False)]\<rparr>"
  have ph: "?ph k = Waiting" using st assms(4,5) by simp
  have phases: "gt_phase g1 k = Holding" "gt_phase g2 k = Querying" "gt_phase g3 k = Reading" "gt_phase g4 k = Answered False"
    and result: "gt_result g3 k = Some (Inl ?late)" and versions: "version_of g1 = 0" "version_of g3 = 0"
    using st assms(8) by (simp_all add: g1_def g2_def g3_def g4_def)
  have steps: "gate_step asks ?g g1" "gate_step asks g1 g2" "gate_step asks g2 g3" "gate_step asks g3 g4"
    unfolding g2_def g3_def g4_def
    by (simp_all only: g1_def) (intro gate_step.acquire gate_step.query gate_step.failure gate_step.answer;
      use st ph phases versions in \<open>simp add: g1_def g2_def g3_def\<close>)+
  define s2 where "s2 = s\<lparr>tm_gate := g1, tm_gate := g2, tm_since := t\<rparr>"
  define s3 where "s3 = s2\<lparr>tm_now := ?fin\<rparr>"
  have sel: "tm_gate s2 = g2" "tm_gate s3 = g2" "tm_now s2 = t" "tm_now s3 = ?fin" "tm_opened s3 = op"
    using st by (simp_all add: s2_def s3_def)
  have "reprobeTimeout \<le> dur k" using assms(3) unfolding hung_def by blast
  with assms(7) have fin: "query_end dur s2 k = ?fin" "query_end dur s3 k = ?fin" "query_outcome dur reply s3 k = Inl ?late"
    using st assms(6) by (simp_all add: query_end_def query_outcome_def context_end_def s2_def s3_def)
  have "?r (s\<lparr>tm_gate := g1\<rparr>)"
    by (rule timed_reachable.more [OF assms(1) timed_step.at_once [OF steps(1), of k]]) (simp_all add: ph phases)
  moreover have "timed_step asks prior dur reply (s\<lparr>tm_gate := g1\<rparr>) s2"
    using timed_step.send [of asks "s\<lparr>tm_gate := g1\<rparr>" g2 k prior dur reply] steps(2) st phases by (simp add: s2_def)
  ultimately have r2: "?r s2" by (rule timed_reachable.more)
  have r3: "?r s3"
  proof (cases "?fin = t")
    case True
    then have "s3 = s2" using sel(3) by (simp add: s3_def)
    with r2 show ?thesis by simp
  next
    case False
    then have "timed_step asks prior dur reply s2 s3"
      unfolding s3_def by (intro timed_step.wait [of _ k]) (simp_all add: sel fin phases)
    with r2 show ?thesis by (rule timed_reachable.more)
  qed
  have "timed_step asks prior dur reply s3 (s3\<lparr>tm_gate := g3\<rparr>)"
    by (rule timed_step.receive [of _ _ _ k]) (simp_all add: sel fin phases result steps)
  with r3 have r4: "?r (s3\<lparr>tm_gate := g3\<rparr>)" by (rule timed_reachable.more)
  have "timed_step asks prior dur reply (s3\<lparr>tm_gate := g3\<rparr>) (s3\<lparr>tm_gate := g3, tm_gate := g4\<rparr>)"
    by (rule timed_step.at_once [of _ _ _ k]) (simp_all add: phases steps)
  with r4 have r5: "?r (s3\<lparr>tm_gate := g3, tm_gate := g4\<rparr>)" by (rule timed_reachable.more)
  have "gt_phase g4 = ?ph(k := Answered False)" "gt_client g4 = c" "gt_mutex g4 = None"
    using st by (simp_all add: g1_def g2_def g3_def g4_def)
  moreover have "?ph(k := Answered False) =
      (\<lambda>i. if i \<in> insert k D then Answered False else if i \<in> W - {k} then Waiting else Asked)"
    using st by (simp add: fun_eq_iff)
  ultimately have "stage c (insert k D) (W - {k}) ?fin op (s3\<lparr>tm_gate := g3, tm_gate := g4\<rparr>)"
    by (simp add: stage_def sel)
  with r5 show ?thesis by blast
qed

text \<open>Calls that make their contexts together are held until these end, together.\<close>

lemma stage_open_all:
  assumes "timed_reachable asks prior dur reply c t0 s" and "stage c D W t op s"
    and "distinct ks" and "set ks \<inter> (D \<union> W) = {}"
    and "\<forall>k \<in> set ks. case prior k of None \<Rightarrow> True | Some j \<Rightarrow> j \<in> D" and "cl_pool c \<noteq> None" and "ServerVersionNum c = 0"
  shows "\<exists>s'. timed_reachable asks prior dur reply c t0 s' \<and>
    stage c D (set ks \<union> W) t (\<lambda>i. if i \<in> set ks then Some t else op i) s'"
  using assms(1-5)
proof (induction ks arbitrary: s W op)
  case Nil
  then show ?case by auto
next
  case (Cons k ks)
  obtain s1 where s1: "timed_reachable asks prior dur reply c t0 s1" "stage c D (insert k W) t (op(k \<mapsto> t)) s1"
    using stage_open [OF Cons.prems(1,2) _ _ _ assms(6,7), of k] Cons.prems(4,5) by auto
  have upd: "(\<lambda>i. if i \<in> set ks then Some t else (op(k \<mapsto> t)) i) = (\<lambda>i. if i \<in> set (k # ks) then Some t else op i)"
    by (auto simp: fun_eq_iff)
  have "set ks \<union> insert k W = set (k # ks) \<union> W" by simp
  with Cons.IH [OF s1] Cons.prems(3-5) show ?case by (simp add: upd)
qed

lemma stage_serve_all:
  assumes "timed_reachable asks prior dur reply c t0 s" and "stage c D (set ks) t op s" and "hung dur"
    and "distinct ks" and "set ks \<inter> D = {}" and "\<forall>k \<in> set ks. op k = Some a" and "a \<le> t" and "t \<le> a + reprobeTimeout"
    and "ServerVersionNum c = 0"
  shows "\<exists>s'. timed_reachable asks prior dur reply c t0 s' \<and>
    stage c (set ks \<union> D) {} (if ks = [] then t else a + reprobeTimeout) op s'"
  using assms(1,2,4-8)
proof (induction ks arbitrary: s D t)
  case Nil
  then show ?case by auto
next
  case (Cons k ks)
  have m: "max t (a + reprobeTimeout) = a + reprobeTimeout" using Cons.prems(7) by simp
  have w: "set (k # ks) - {k} = set ks" using Cons.prems(3) by auto
  obtain s1 where s1: "timed_reachable asks prior dur reply c t0 s1" "stage c (insert k D) (set ks) (a + reprobeTimeout) op s1"
    using stage_serve [OF Cons.prems(1,2) assms(3), of k a] Cons.prems(4-6) assms(9) unfolding m w by auto
  from Cons.IH [OF s1] Cons.prems(3-6) show ?case by (auto split: if_splits)
qed

lemma stage_round:
  assumes "timed_reachable asks prior dur reply c t0 s" and "stage c D {} t op s" and "hung dur"
    and "distinct ks" and "set ks \<inter> D = {}" and "ks \<noteq> []"
    and "\<forall>k \<in> set ks. case prior k of None \<Rightarrow> True | Some j \<Rightarrow> j \<in> D" and "cl_pool c \<noteq> None" and "ServerVersionNum c = 0"
  shows "\<exists>s'. timed_reachable asks prior dur reply c t0 s' \<and>
    stage c (set ks \<union> D) {} (t + reprobeTimeout) (\<lambda>i. if i \<in> set ks then Some t else op i) s'"
proof -
  obtain s1 where s1: "timed_reachable asks prior dur reply c t0 s1"
    "stage c D (set ks) t (\<lambda>i. if i \<in> set ks then Some t else op i) s1"
    using stage_open_all [OF assms(1,2,4) _ assms(7-9)] assms(5) by auto
  from stage_serve_all [OF s1 assms(3-5), of t] assms(6,9) show ?thesis by simp
qed

subsection \<open>Properties\<close>

text \<open>
  C11. What the version queries of one client can cost. While one is on its way, the time lies within
  the context of its call, unless that had ended before the query was sent; and however the calls
  are scheduled and whatever the server answers, the time spent is at most one \<open>reprobeTimeout\<close> for
  each different time at which a context was made, and over when the last context ends. So calls
  that find the version unknown together cost one timeout together, although their queries run one
  after the other.
\<close>

theorem probe_time_bounded:
  assumes "timed_reachable asks prior dur reply c t0 s" and "\<forall>i. 0 \<le> dur i"
  shows "finite (openings s) \<and>
    (\<forall>i. gt_phase (tm_gate s) i = Querying \<longrightarrow> (\<exists>a. tm_opened s i = Some a \<and> a \<le> tm_since s \<and>
       tm_since s \<le> tm_now s \<and> tm_now s \<le> max (tm_since s) (a + reprobeTimeout))) \<and>
    tm_now s \<le> t0 + int (card (openings s)) * reprobeTimeout \<and>
    (\<forall>b. t0 \<le> b \<and> (\<forall>a \<in> openings s. a \<le> b) \<longrightarrow> tm_now s \<le> b + reprobeTimeout)"
proof -
  have ok: "opened_ok t0 s" "query_ok dur s" "windows_ok t0 s"
    using timing_ok_reachable [OF assms] by (simp_all add: timing_ok_def)
  have "\<exists>a. tm_opened s i = Some a \<and> a \<le> tm_since s \<and> tm_since s \<le> tm_now s \<and>
      tm_now s \<le> max (tm_since s) (a + reprobeTimeout)" if q: "gt_phase (tm_gate s) i = Querying" for i
  proof -
    obtain a where "tm_opened s i = Some a" using ok(1) q unfolding opened_ok_def by fastforce
    with ok(2) q show ?thesis unfolding query_ok_def by (fastforce simp: query_end_def context_end_def)
  qed
  moreover have "tm_now s \<le> b + reprobeTimeout" if "t0 \<le> b" "\<forall>a \<in> openings s. a \<le> b" for b
  proof -
    consider "tm_now s = t0" | a where "a \<in> openings s" "tm_now s \<le> a + reprobeTimeout"
      using ok(3) unfolding windows_ok_def by blast
    then show ?thesis
    proof cases
      case 1
      with that(1) reprobeTimeout_pos(2) show ?thesis by linarith
    next
      case 2
      with that(2) have "a \<le> b" by blast
      with 2(2) show ?thesis by linarith
    qed
  qed
  ultimately show ?thesis using finite_openings [OF ok(1)] time_bound [OF assms] by blast
qed

text \<open>Two collectors find the version unknown together: five seconds, not ten.\<close>

lemma stalled_pair:
  obtains s where "timed_reachable gate_asks (\<lambda>_. None) (\<lambda>_. 6 * 1000000000) (\<lambda>_. Inr 160004) demo_client 0 s"
    and "stage demo_client {0, 1} {} reprobeTimeout (\<lambda>i. if i \<in> {0, 1} then Some 0 else None) s"
proof -
  have hung: "hung (\<lambda>_. 6 * 1000000000)" by (simp add: hung_def reprobeTimeout_def)
  have c: "cl_pool demo_client \<noteq> None" "ServerVersionNum demo_client = 0" by (simp_all add: demo_client_def)
  from stage_round [OF timed_reachable.start stage_initial hung, of "[0, 1]" "\<lambda>_. None" demo_client gate_asks "\<lambda>_. Inr 160004" 0] c
  show ?thesis using that by auto
qed

theorem probe_time_bounded_witness:
  "\<exists>s. timed_reachable gate_asks (\<lambda>_. None) (\<lambda>_. 6 * 1000000000) (\<lambda>_. Inr 160004) demo_client 0 s \<and>
     gt_phase (tm_gate s) 0 = Answered False \<and> gt_phase (tm_gate s) 1 = Answered False \<and>
     tm_now s = reprobeTimeout \<and> tm_now s \<le> int (card {0 :: int}) * reprobeTimeout"
proof -
  obtain s where s: "timed_reachable gate_asks (\<lambda>_. None) (\<lambda>_. 6 * 1000000000) (\<lambda>_. Inr 160004) demo_client 0 s"
    "stage demo_client {0, 1} {} reprobeTimeout (\<lambda>i. if i \<in> {0, 1} then Some 0 else None) s" by (rule stalled_pair)
  have "openings s = {0}" using s(2) by (auto simp: openings_def stage_def ran_def split: if_splits)
  with probe_time_bounded [OF s(1)] have "tm_now s \<le> int (card {0 :: int}) * reprobeTimeout" by simp
  with s show ?thesis by (intro exI [of _ s]) (auto simp: stage_def)
qed

end
