(* ===== verification/ProbeStall.thy ===== *)
theory ProbeStall
  imports ProbeTime Exporter
begin

text \<open>
  What the gates cost a scrape when a server has stopped answering before its version was learned.
  Every default collector asks its gates one after the other and before its query (\<open>db/pg_*.go\<close>), each with
  a context of its own, which does not end with the scrape's. The gates of the default collectors
  are counted on the collectors themselves; theory \<open>ProbeTime\<close> tells how long they take.
\<close>

subsection \<open>The gates that a scrape asks\<close>

text \<open>The gates that a scrape asks one client when each of them answers no.\<close>

definition kind_asks :: "kind \<Rightarrow> (int \<times> int) list" where
  "kind_asks k = (case k of
     PgStatDatabase \<Rightarrow> [(12, 0), (14, 0)]
   | PgStatBgwriter \<Rightarrow> [(17, 0)]
   | PgStatCheckpointer \<Rightarrow> [(17, 0)]
   | PgStatIO \<Rightarrow> [(16, 0)]
   | PgStatSLRU \<Rightarrow> [(13, 0)]
   | PgStatWal \<Rightarrow> [(14, 0)]
   | PgReplicationSlots \<Rightarrow> [(13, 0), (16, 0)]
   | PgStatUserTable \<Rightarrow> [(13, 0), (16, 0), (17, 0)]
   | PgStatProgressAnalyze \<Rightarrow> [(13, 0)]
   | PgStatProgressBasebackup \<Rightarrow> [(13, 0)]
   | PgStatProgressCopy \<Rightarrow> [(14, 0)]
   | PgStatSubscription \<Rightarrow> [(15, 0)]
   | _ \<Rightarrow> [])"

definition default_kinds :: "kind list" where
  "default_kinds = map ce_New (filter ce_Default collectorRegistry)"

definition default_asks :: "(int \<times> int) list" where
  "default_asks = concat (map kind_asks default_kinds)"

text \<open>The place of a gate among those of its collector; each but the first follows the one before.\<close>

definition default_places :: "nat list" where
  "default_places = concat (map (\<lambda>k. [0..<length (kind_asks k)]) default_kinds)"

definition default_prior :: "nat \<Rightarrow> nat option" where
  "default_prior i = (if i < length default_places \<and> 0 < default_places ! i then Some (i - 1) else None)"

lemma AtLeast_vain:
  assumes "cl_pool c \<noteq> None" and "ServerVersionNum c = 0" and "list_all isl ps"
  shows "AtLeast a b (c, ps) = (False, (c, tl ps))"
  using assms by (cases ps) (auto simp: AtLeast_def probeServerVersion_def Let_def isl_def)

lemma list_all_tl: "list_all P xs \<Longrightarrow> list_all P (tl xs)"
  by (cases xs) simp_all

text \<open>Every gate that is asked in vain uses up one reply of the server. The collector of the
  subscriptions asks its gate only when its first query has succeeded.\<close>

lemma scrape_asks:
  assumes "cl_pool c \<noteq> None" and "ServerVersionNum c = 0" and "list_all isl ps" and "k \<noteq> PgStatSubscription"
  shows "snd (scrape_kind k srv (c, ps)) = (c, drop (length (kind_asks k)) ps)"
proof -
  note gate = AtLeast_vain [OF assms(1,2)] assms(3) list_all_tl
  show ?thesis
    using assms(4)
    by (cases k; simp only: scrape_kind.simps scrape_defs query_defs)
      (simp_all add: kind_asks_def cols_defs gate drop_Suc split: sum.split)
qed

lemma default_asks_length: "length default_asks = 15"
  by code_simp

lemma default_kinds_gated: "PgStatSubscription \<notin> set default_kinds"
  by code_simp

lemma default_priors:
  "default_prior 3 = Some 2" "default_prior 9 = Some 8" "default_prior 12 = Some 11" "default_prior 13 = Some 12"
  by code_simp+

lemma default_prior_cases:
  assumes "default_prior i \<noteq> None"
  shows "i \<in> {3, 9, 12, 13}"
proof -
  have "length default_places = 15" by code_simp
  then have "i < 15" using assms by (auto simp: default_prior_def split: if_splits)
  moreover have "\<forall>i \<in> set [0..<15]. default_prior i \<noteq> None \<longrightarrow> i \<in> {3, 9, 12, 13}" by code_simp
  ultimately show ?thesis using assms by auto
qed

text \<open>The collectors start together, so the gates that follow no other make their contexts together.\<close>

lemma default_openings:
  assumes "\<forall>i. default_prior i = None \<and> tm_opened s i \<noteq> None \<longrightarrow> tm_opened s i = Some t0"
  shows "card (openings s) \<le> 5"
proof -
  let ?late = "(\<lambda>i. the (tm_opened s i)) ` {3, 9, 12, 13}"
  have "openings s \<subseteq> insert t0 ?late"
  proof
    fix a
    assume "a \<in> openings s"
    then obtain i where i: "tm_opened s i = Some a" by (auto simp: openings_def ran_def)
    show "a \<in> insert t0 ?late"
    proof (cases "default_prior i = None")
      case True
      with assms i have "a = t0" by force
      then show ?thesis by simp
    next
      case False
      from default_prior_cases [OF this] i show ?thesis by force
    qed
  qed
  then have "card (openings s) \<le> card (insert t0 ?late)" by (intro card_mono) simp_all
  also have "\<dots> \<le> Suc (card ?late)" by (rule card_insert_le_m1) simp_all
  also have "card ?late \<le> card {3, 9, 12, 13 :: nat}" by (rule card_image_le) simp
  finally show ?thesis by simp
qed

subsection \<open>Properties\<close>

text \<open>
  C10. What a server that has stopped answering before its version was learned costs a scrape. The
  collectors that run by default ask it 15 gates in all, at most three in a row. When the collectors
  start together, the gates take at most 25 seconds, whatever the server does and however the calls
  get the mutex, less than the default timeout of a scrape. When the server never answers, they take
  at least 15 seconds, since the collector of user tables asks three gates, each with a context of
  its own.
\<close>

theorem hung_server_holds_scrape:
  assumes "timed_reachable (\<lambda>i. default_asks ! i) default_prior dur reply c t0 s" and "\<forall>i. 0 \<le> dur i"
    and "cl_pool c \<noteq> None" and "ServerVersionNum c = 0"
    and "\<forall>i. default_prior i = None \<and> tm_opened s i \<noteq> None \<longrightarrow> tm_opened s i = Some t0"
  shows "(\<forall>k \<in> set default_kinds. \<forall>srv ps. list_all isl ps \<longrightarrow>
      snd (scrape_kind k srv (c, ps)) = (c, drop (length (kind_asks k)) ps)) \<and>
    length default_asks = (\<Sum>k \<leftarrow> default_kinds. length (kind_asks k)) \<and> length default_asks = 15 \<and>
    tm_now s \<le> t0 + 25 * 1000000000 \<and> tm_now s < t0 + DefaultCollectionTimeout \<and>
    (hung dur \<and> (\<forall>i < 15. \<exists>b. gt_phase (tm_gate s) i = Answered b) \<longrightarrow> t0 + 15 * 1000000000 \<le> tm_now s)"
proof -
  have "snd (scrape_kind k srv (c, ps)) = (c, drop (length (kind_asks k)) ps)"
    if "k \<in> set default_kinds" "list_all isl ps" for k srv ps
    using that default_kinds_gated by (intro scrape_asks [OF assms(3,4)]) auto
  moreover have "length default_asks = (\<Sum>k \<leftarrow> default_kinds. length (kind_asks k))"
    by (simp add: default_asks_def length_concat o_def)
  moreover have "tm_now s \<le> t0 + 25 * 1000000000"
    using time_bound [OF assms(1,2)] default_openings [OF assms(5)] by (simp add: reprobeTimeout_def)
  moreover have "t0 + 15 * 1000000000 \<le> tm_now s"
    if hung: "hung dur" and all: "\<forall>i < 15. \<exists>b. gt_phase (tm_gate s) i = Answered b"
  proof -
    have chain: "\<forall>m. Suc m < length [11, 12, 13 :: nat] \<longrightarrow>
        default_prior ([11, 12, 13] ! Suc m) = Some ([11, 12, 13] ! m)"
      using default_priors(3,4) by (auto simp: less_Suc_eq nth_Cons split: nat.splits)
    have "(13 :: nat) < 15" by simp
    with all obtain b where "gt_phase (tm_gate s) 13 = Answered b" by blast
    then have "gt_phase (tm_gate s) (last [11, 12, 13]) = Answered b" by simp
    from hung_chain [OF assms(1) hung assms(3,4) chain _ this] show ?thesis by (simp add: reprobeTimeout_def)
  qed
  ultimately show ?thesis by (simp add: default_asks_length DefaultCollectionTimeout_def)
qed

text \<open>A run of 15 seconds: the gates of one place make their contexts, and end, together.\<close>

lemma held_scrape:
  obtains s op where
    "timed_reachable (\<lambda>i. default_asks ! i) default_prior (\<lambda>_. 6 * 1000000000) (\<lambda>_. Inr 160004) demo_client 0 s"
    and "stage demo_client {..<15} {} (15 * 1000000000) op s"
    and "\<forall>i. default_prior i = None \<and> op i \<noteq> None \<longrightarrow> op i = Some 0"
proof -
  let ?r = "timed_reachable (\<lambda>i. default_asks ! i) default_prior (\<lambda>_. 6 * 1000000000) (\<lambda>_. Inr 160004) demo_client 0"
  let ?k0 = "[0, 1, 2, 4, 5, 6, 7, 8, 10, 11, 14] :: nat list"
  have hung: "hung (\<lambda>_. 6 * 1000000000)" by (simp add: hung_def reprobeTimeout_def)
  have c: "cl_pool demo_client \<noteq> None" "ServerVersionNum demo_client = 0" by (simp_all add: demo_client_def)
  have prior0: "\<forall>k \<in> set ?k0. case default_prior k of None \<Rightarrow> True | Some j \<Rightarrow> j \<in> {}" by code_simp
  obtain s1 where s1: "?r s1" "stage demo_client (set ?k0 \<union> {}) {} (0 + reprobeTimeout)
      (\<lambda>i. if i \<in> set ?k0 then Some 0 else None) s1"
    using stage_round [OF timed_reachable.start stage_initial hung _ _ _ prior0 c] by fastforce
  have "\<exists>s2. ?r s2 \<and> stage demo_client (set [3, 9, 12] \<union> (set ?k0 \<union> {})) {} (0 + reprobeTimeout + reprobeTimeout)
      (\<lambda>i. if i \<in> set [3, 9, 12] then Some (0 + reprobeTimeout) else if i \<in> set ?k0 then Some 0 else None) s2"
    by (rule stage_round [OF s1 hung _ _ _ _ c]) (simp_all add: default_priors)
  then obtain s2 where s2: "?r s2" "stage demo_client (set [3, 9, 12] \<union> (set ?k0 \<union> {})) {} (0 + reprobeTimeout + reprobeTimeout)
      (\<lambda>i. if i \<in> set [3, 9, 12] then Some (0 + reprobeTimeout) else if i \<in> set ?k0 then Some 0 else None) s2" by blast
  let ?op = "\<lambda>i. if i \<in> set [13] then Some (0 + reprobeTimeout + reprobeTimeout)
    else if i \<in> set [3, 9, 12] then Some (0 + reprobeTimeout) else if i \<in> set ?k0 then Some 0 else None"
  have "\<exists>s3. ?r s3 \<and> stage demo_client (set [13] \<union> (set [3, 9, 12] \<union> (set ?k0 \<union> {}))) {}
      (0 + reprobeTimeout + reprobeTimeout + reprobeTimeout) ?op s3"
    by (rule stage_round [OF s2 hung _ _ _ _ c]) (simp_all add: default_priors)
  then obtain s3 where s3: "?r s3" "stage demo_client (set [13] \<union> (set [3, 9, 12] \<union> (set ?k0 \<union> {}))) {}
      (0 + reprobeTimeout + reprobeTimeout + reprobeTimeout) ?op s3" by blast
  have all: "set [13] \<union> (set [3, 9, 12] \<union> (set ?k0 \<union> {})) = {..<15}"
    by (auto simp: less_Suc_eq eval_nat_numeral)
  have "\<forall>i. default_prior i = None \<and> ?op i \<noteq> None \<longrightarrow> ?op i = Some 0" using default_priors by auto
  then show ?thesis using that [OF s3(1), of ?op] s3(2) unfolding all by (simp add: reprobeTimeout_def)
qed

theorem hung_server_holds_scrape_witness:
  "\<exists>s. timed_reachable (\<lambda>i. default_asks ! i) default_prior (\<lambda>_. 6 * 1000000000) (\<lambda>_. Inr 160004) demo_client 0 s \<and>
     tm_now s = 15 * 1000000000 \<and> tm_now s < DefaultCollectionTimeout"
proof -
  obtain s op where s:
    "timed_reachable (\<lambda>i. default_asks ! i) default_prior (\<lambda>_. 6 * 1000000000) (\<lambda>_. Inr 160004) demo_client 0 s"
    "stage demo_client {..<15} {} (15 * 1000000000) op s"
    "\<forall>i. default_prior i = None \<and> op i \<noteq> None \<longrightarrow> op i = Some 0" by (rule held_scrape)
  have "\<forall>i. default_prior i = None \<and> tm_opened s i \<noteq> None \<longrightarrow> tm_opened s i = Some 0"
    using s(2,3) by (simp add: stage_def)
  from hung_server_holds_scrape [OF s(1) _ _ _ this] s(1,2) show ?thesis
    by (intro exI [of _ s]) (simp add: stage_def demo_client_def)
qed

end
