(* ===== verification/Deadline.thy ===== *)
theory Deadline
  imports ProbeTime Exporter
begin

text \<open>
  How long a \<open>Collect\<close> takes (\<open>exporter/exporter.go\<close>). \<open>scrapeContext\<close> gives it a deadline, which
  every query of a collector honours: it returns when the deadline has passed, at once if it had
  passed before. The version queries of the gates do not honour it (theory \<open>ProbeTime\<close>). The
  collectors run concurrently, and \<open>Collect\<close> returns when the last of them has.
\<close>

subsection \<open>The time of a scrape\<close>




subsection \<open>Lemmas\<close>








subsection \<open>Properties\<close>



end
