(* ===== verification/Spec2Isabelle.thy ===== *)
theory Spec2Isabelle
  imports AwsRds Cmd HarnessProc Scrape Dsn SpecYaml SelfMetrics CountingChan Shutdown ExporterProps
    CounterDrift Announce Serial VersionProbe Cancel ProbeStall Deadline
begin

text \<open>
  A verification library for pgxporter, a Prometheus exporter for PostgreSQL written in Go.

  The program. An exporter (\<open>exporter/exporter.go\<close>) owns one database client per PostgreSQL server
  (\<open>exporter/db/\<close>) and a list of collectors (\<open>exporter/collectors/\<close>). When Prometheus scrapes it,
  \<open>Collect\<close> runs every collector in a goroutine; a collector runs one goroutine per client, which
  reads a statistics view and writes the rows into the collector's vectors (counters through
  \<open>counterDelta\<close>, gauges directly), and then sends all children of its vectors on the channel.
  Further collectors come from Go code, or from YAML files through \<open>CollectorSpec\<close>.

  Theories, in the order of their imports.
  \<^item> \<open>Prelude\<close>: errors, decimal numbers, folds that may fail, interleavings of lists. \<open>Float64\<close>: the
    double-precision numbers that metric values are, with correct rounding. \<open>Mutex\<close>: what the users of
    a mutex rely on, the locale \<open>critical_section\<close>.
  \<^item> \<open>Prom\<close>: \<open>CounterVec\<close> and \<open>GaugeVec\<close> of \<open>client_golang\<close> as a parameter, its documented behaviour as
    the locales \<open>prom_counters\<close> and \<open>prom_gauges\<close>, and \<open>ref_prom\<close>, which satisfies them.
    \<open>SelfMetrics\<close>: the same for the counter and the histogram of the exporter itself.
  \<^item> \<open>Vec\<close>: \<open>collectors/vec.go\<close> and the namespaces of \<open>collector.go\<close>. A \<open>counterDelta\<close> exports the last
    observed value of every label set (a refinement of \<open>last_observed\<close>) where differences are exact.
    \<open>FloatError\<close> and \<open>CounterDrift\<close>: how far rounding can take it from there for fractional values.
  \<^item> \<open>DbClient\<close>: \<open>db/db.go\<close>, \<open>opts.go\<close>, \<open>auth.go\<close>: options, the retry loop of \<open>New\<close> (a partial
    function, since it need not end), the lazily probed server version and its gates.
    \<open>VersionProbe\<close>: the same gates asked by concurrent goroutines, in small steps. \<open>ProbeTime\<close>: the
    steps with a clock: a version query ends with the context that its call made before it waited for
    the mutex, which bounds the time that the gates take.
    \<open>Dsn\<close>: \<open>db/dsn.go\<close>, the connection URI and its decoding.
  \<^item> \<open>PgTypes\<close>, \<open>PgModel\<close>: \<open>db/model/model.go\<close>, the row structs and their column tags.
    \<open>Select\<close>: \<open>db/pg_*.go\<close>, the queries, their version gates and projected columns.
  \<^item> \<open>Collector\<close>: what the collectors share: emissions, vectors by field, the goroutines of a
    \<open>Scrape\<close>. \<open>CollServer\<close>, \<open>CollDatabase\<close>, \<open>CollIO\<close>, \<open>CollRelation\<close>, \<open>CollReplication\<close> and
    \<open>CollProgress\<close>: the 27 collectors of \<open>collectors/pg_*.go\<close>, each with its constructor, \<open>Describe\<close>,
    \<open>collectInto\<close>, \<open>emit\<close>, \<open>scrape\<close> and \<open>Scrape\<close>.
  \<^item> \<open>Registry\<close>: \<open>collectors/registry.go\<close>; collectors by kind. \<open>Scrape\<close>: the properties of a scrape
    for every kind at once. \<open>MetricNames\<close>: the names of the metrics of every kind are different, for
    every prefix.
  \<^item> \<open>Spec\<close>: \<open>collectors/spec.go\<close>. \<open>SpecYaml\<close>: \<open>collectors/spec_yaml.go\<close> after \<open>yaml.Unmarshal\<close>.
  \<^item> \<open>Exporter\<close>: \<open>exporter/exporter.go\<close>; \<open>ExporterProps\<close>: its invariant \<open>exporter_ok\<close> and properties.
    \<open>Announce\<close>: what \<open>New\<close> makes a registry see. \<open>History\<close>: any number of scrapes, one after the
    other. \<open>Serial\<close>: concurrent calls of \<open>Collect\<close> in small steps, which refine such a history.
    \<open>Cancel\<close>: the collectors of a scrape in any interleaving, with the context that they share and the
    first failure cancels.
    \<open>ProbeStall\<close>: how long the gates of the default collectors hold a scrape, at least and at most.
    \<open>Deadline\<close>: the time of a scrape, which its deadline and the contexts of the gates bound.
    \<open>CountingChan\<close>: the counting channel as a step relation of three parties. \<open>Shutdown\<close>: the
    mutex between \<open>Collect\<close> and \<open>Shutdown\<close> as a step relation.
  \<^item> \<open>AwsRds\<close>: \<open>db/auth/awsrds/awsrds.go\<close>, a provider of passwords. \<open>Cmd\<close>: \<open>cmd/main.go\<close> and
    \<open>logging/logging.go\<close>, the reference binary from the values of its flags to its exit code, if it
    ever ends.
    \<open>HttpMux\<close>: the part of \<open>http.ServeMux\<close> that decides which of its handlers gets a request.
  \<^item> \<open>HarnessFs\<close>: the paths and the file system, with symbolic links, that the test harness uses.
    \<open>Harness\<close>: \<open>testutil/pg.go\<close>, the cache of binaries and the extraction of archives.
    \<open>HarnessProc\<close>: the processes and waits of \<open>pg.go\<close>, \<open>pgxporter.go\<close> and \<open>postgresexporter.go\<close>.

  State and effects. A Go struct is a record, a method that changes it returns the new record, a
  panic is \<open>None\<close>, an error a sum or an optional string. An \<open>int64\<close> of the database is a \<open>64 word\<close>
  that \<open>sint\<close> reads; Go's \<open>int\<close> of options and versions is an \<open>int\<close>, since no arithmetic on it can
  leave 64 bits. Strings are byte lists. A clock is never read: durations are integers of
  nanoseconds or arguments.

  Concurrency. The goroutines of a scrape write to vectors under locks, so their effects are the
  interleavings of their emissions; the interleaving is an argument (a schedule) over which every
  property quantifies. What \<open>errgroup.Wait\<close> returns is an argument too, restricted by the locale
  \<open>errgroup\<close> to the error of some goroutine that failed. Collectors of one exporter share only the
  clients' version; what another collector has learned of it in the meantime is an argument of
  \<open>exporter_Collect\<close>. The channel, the mutexes of the exporter and of the version probe and the
  concurrent calls that take them, where the order of steps is the point, are inductive step
  relations with invariants over their reachable states. In \<open>Serial\<close> a scrape of one collector is one
  step, since the collectors of a call share no vector and only one call is inside, and a metric has
  the value of the moment it is sent. In \<open>VersionProbe\<close> a read of the version is one step. The three
  relations with a mutex interpret the locale \<open>critical_section\<close>. In \<open>Cancel\<close> all
  collectors of a scrape run at once: a step is the return of one, or its finding the context
  cancelled after any number of answers; which queries were answered in time is open. In
  \<open>ProbeTime\<close> only the version queries take time, and the clock runs on for the calls that wait for
  the mutex.

  Groups of lemmas. Per component: totality (no panic) on well-formed states and benign rows,
  preservation of the well-formedness (\<open>built\<close>, \<open>spec_built\<close>, \<open>exporter_ok\<close>, \<open>lock_inv\<close>, \<open>cc_inv\<close>,
  \<open>serial\<close>, \<open>gate_inv\<close>, \<open>timing_ok\<close>, \<open>group_inv\<close>),
  what is exported and which errors arise, and independence of the schedule. The locales state
  what the library promises; their facts are used on \<open>prom\<close> records that satisfy them, and
  \<open>ref_prom\<close>, \<open>ref_self\<close>, \<open>first_error\<close> are the interpretations on which the witnesses run.

  Bounds. \<open>Counter.Add\<close> is specified only where sums of integers are exact, up to \<open>2 ^ 53\<close>;
  \<open>CounterDrift\<close> adds that a sum is off by at most a few roundings, and bounds \<open>2 ^ 47\<close> observations. The
  retry loop and the readers of text recurse without fuel. Outside \<open>ProbeTime\<close>, \<open>Deadline\<close>
  and \<open>Cancel\<close>, contexts and deadlines appear as the errors that queries, probes and attempts to
  connect return. The waits of the harness are a
  partial function over times; that ticks never come early bounds them. A walk in the file system
  follows at most 40 links, as Linux does.

  Not modelled: pgx, pgxpool, scany, errgroup, yaml, the AWS SDK and client_golang themselves
  (arguments with documented laws); what the SQL means to PostgreSQL; in \<open>cmd/main.go\<close> the parsing
  of flags and the answer to a request that has reached its handler; log lines; \<open>Register\<close>, which
  forwards to \<open>prometheus.MustRegister\<close>; \<open>Close\<close> of the client, which forwards to the pool; in \<open>testutil\<close> unreadable
  directories during a search, partial writes and removals, and how often the initial
  \<open>http.NewRequest\<close> fails apart from the request itself.
\<close>

end
